(* ===== verification/JS_Prelude.thy ===== *)
theory JS_Prelude
  imports Main "HOL-Library.Word" "HOL-Library.Signed_Division"
begin

text \<open>
  The parts of JavaScript every component uses: bytes and strings, thrown errors as the
  left side of a sum, 32-bit bitwise operators on numbers, typed-array reads and slices,
  little-endian integers.

  A JavaScript string is the list of its UTF-16 code units, a \<open>Uint8Array\<close> the list of
  its bytes.  A JavaScript \<open>number\<close> that the code uses as an integer, and every
  \<open>bigint\<close>, is an \<open>int\<close> (or a \<open>nat\<close> where it is a length or an offset).
\<close>

unbundle bit_operations_syntax

type_synonym byte = "8 word"
type_synonym bytes = "8 word list"
type_synonym jsstr = "16 word list"

named_theorems le_simps \<open>little-endian integers\<close>
named_theorems err_simps \<open>thrown errors\<close>

section \<open>Thrown errors\<close>

text \<open>
  \<open>Thrown l\<close> is \<open>throw new Error(...)\<close>, with the constant part of the message as
  label; the other constructors are the exceptions of the language itself.
\<close>

datatype js_error = Thrown string | TypeError | RangeError | SyntaxError

type_synonym 'a res = "js_error + 'a"

definition ebind :: "'e + 'a \<Rightarrow> ('a \<Rightarrow> 'e + 'b) \<Rightarrow> 'e + 'b" where
  "ebind m f = (case m of Inl e \<Rightarrow> Inl e | Inr x \<Rightarrow> f x)"

definition guard :: "bool \<Rightarrow> string \<Rightarrow> unit res" where
  "guard b l = (if b then Inr () else Inl (Thrown l))"

definition is_ok :: "'e + 'a \<Rightarrow> bool" where
  "is_ok m = (case m of Inl _ \<Rightarrow> False | Inr _ \<Rightarrow> True)"

fun emap :: "('a \<Rightarrow> 'e + 'b) \<Rightarrow> 'a list \<Rightarrow> 'e + 'b list" where
  "emap f [] = Inr []"
| "emap f (x # xs) = ebind (f x) (\<lambda>y. ebind (emap f xs) (\<lambda>ys. Inr (y # ys)))"

text \<open>A loop whose body may throw: the state goes from one element to the next.\<close>

fun efold :: "('a \<Rightarrow> 's \<Rightarrow> 'e + 's) \<Rightarrow> 'a list \<Rightarrow> 's \<Rightarrow> 'e + 's" where
  "efold f [] s = Inr s"
| "efold f (x # xs) s = ebind (f x s) (efold f xs)"

lemma ebind_simps [simp, err_simps]:
  "ebind (Inl e) f = Inl e"
  "ebind (Inr x) f = f x"
  by (simp_all add: ebind_def)

lemma guard_simps [simp, err_simps]:
  "guard True l = Inr ()"
  "guard False l = Inl (Thrown l)"
  by (simp_all add: guard_def)

lemma ebind_Inr_iff [err_simps]: "ebind m f = Inr y \<longleftrightarrow> (\<exists>x. m = Inr x \<and> f x = Inr y)"
  by (cases m) auto

lemma ebind_InrE:
  assumes "ebind m f = Inr y"
  obtains x where "m = Inr x" "f x = Inr y"
  using assms by (auto simp: ebind_Inr_iff)

lemma guard_Inr_iff [err_simps]: "guard b l = Inr u \<longleftrightarrow> b"
  by (cases b) auto

lemma ebind_guard_Inr_iff [err_simps]: "ebind (guard b l) f = Inr y \<longleftrightarrow> b \<and> f () = Inr y"
  by (cases b) auto

lemma ebind_cong [fundef_cong]:
  "m = n \<Longrightarrow> (\<And>x. n = Inr x \<Longrightarrow> f x = g x) \<Longrightarrow> ebind m f = ebind n g"
  by (cases n) auto

lemma is_ok_simps [simp]: "is_ok (Inr x)" "\<not> is_ok (Inl e)"
  by (simp_all add: is_ok_def)

lemma is_ok_iff: "is_ok m \<longleftrightarrow> (\<exists>x. m = Inr x)"
  by (cases m) auto

lemma emap_Inr_iff: "emap f xs = Inr ys \<longleftrightarrow> list_all2 (\<lambda>x y. f x = Inr y) xs ys"
proof (induction xs arbitrary: ys)
  case Nil
  then show ?case by auto
next
  case (Cons x xs)
  then show ?case by (cases ys) (auto simp: ebind_Inr_iff list_all2_Cons1)
qed

lemma efold_append: "efold f (xs @ ys) s = ebind (efold f xs s) (efold f ys)"
proof (induction xs arbitrary: s)
  case Nil
  then show ?case by simp
next
  case (Cons x xs)
  then show ?case by (cases "f x s") auto
qed

text \<open>An invariant of the body is an invariant of the loop.\<close>

lemma efold_invariant:
  assumes "efold f xs s = Inr t" "I s" "\<And>x s t. x \<in> set xs \<Longrightarrow> f x s = Inr t \<Longrightarrow> I s \<Longrightarrow> I t"
  shows "I t"
  using assms
proof (induction xs arbitrary: s)
  case Nil
  then show ?case by simp
next
  case (Cons x xs)
  then show ?case by (fastforce simp: ebind_Inr_iff)
qed

lemma emap_length: "emap f xs = Inr ys \<Longrightarrow> length ys = length xs"
  by (induction xs arbitrary: ys) (auto simp: ebind_Inr_iff)

lemma emap_Inr_map: "emap f xs = Inr ys \<Longrightarrow> map f xs = map Inr ys"
  by (induction xs arbitrary: ys) (auto simp: ebind_Inr_iff)

lemma emap_all_Inr: "(\<And>x. x \<in> set xs \<Longrightarrow> f x = Inr (g x)) \<Longrightarrow> emap f xs = Inr (map g xs)"
  by (induction xs) auto

section \<open>String literals\<close>

definition js :: "string \<Rightarrow> jsstr" where
  "js s = map of_char s"

lemma js_simps [simp]:
  "js [] = []"
  "js (c # s) = of_char c # js s"
  "length (js s) = length s"
  by (simp_all add: js_def)

lemma js_append: "js (s @ t) = js s @ js t"
  by (simp add: js_def)

text \<open>The ASCII bytes of a literal: what \<open>TextEncoder.encode\<close> makes of an ASCII string.\<close>

definition ascii :: "string \<Rightarrow> bytes" where
  "ascii s = map of_char s"

lemma ascii_simps [simp]:
  "ascii [] = []"
  "ascii (c # s) = of_char c # ascii s"
  "length (ascii s) = length s"
  by (simp_all add: ascii_def)

text \<open>A text that is \<open>null\<close>, \<open>undefined\<close> or empty is false in a condition.\<close>

definition truthy :: "'a list option \<Rightarrow> bool" where
  "truthy s \<longleftrightarrow> s \<noteq> None \<and> s \<noteq> Some []"

definition or_empty :: "'a list option \<Rightarrow> 'a list" where
  "or_empty s = (case s of None \<Rightarrow> [] | Some x \<Rightarrow> x)"

text \<open>\<open>[...new Set(xs)]\<close>: the first occurrence of every value, in order.\<close>

definition dedupe :: "'a list \<Rightarrow> 'a list" where
  "dedupe xs = rev (remdups (rev xs))"

lemma set_dedupe [simp]: "set (dedupe xs) = set xs"
  by (simp add: dedupe_def)

lemma distinct_dedupe [simp]: "distinct (dedupe xs)"
  by (simp add: dedupe_def)

lemma dedupe_id [simp]: "distinct xs \<Longrightarrow> dedupe xs = xs"
  by (simp add: dedupe_def distinct_remdups_id)

section \<open>Bitwise operators on numbers\<close>

text \<open>
  \<open>&\<close>, \<open>|\<close>, \<open><<\<close> and \<open>>>\<close> convert their operands to a signed 32-bit integer first;
  \<open>>>>\<close> to an unsigned one.  Shift counts are taken modulo 32.
\<close>

definition to_int32 :: "int \<Rightarrow> int" where
  "to_int32 x = signed_take_bit 31 x"

definition js_and :: "int \<Rightarrow> int \<Rightarrow> int" where
  "js_and a b = to_int32 a AND to_int32 b"

definition js_or :: "int \<Rightarrow> int \<Rightarrow> int" where
  "js_or a b = to_int32 a OR to_int32 b"

definition js_xor :: "int \<Rightarrow> int \<Rightarrow> int" where
  "js_xor a b = to_int32 a XOR to_int32 b"

definition js_shl :: "int \<Rightarrow> nat \<Rightarrow> int" where
  "js_shl a n = to_int32 (push_bit (n mod 32) (to_int32 a))"

definition js_shr :: "int \<Rightarrow> nat \<Rightarrow> int" where
  "js_shr a n = drop_bit (n mod 32) (to_int32 a)"

definition js_ushr :: "int \<Rightarrow> nat \<Rightarrow> int" where
  "js_ushr a n = drop_bit (n mod 32) (take_bit 32 a)"

lemma to_int32_id: "- (2 ^ 31) \<le> x \<Longrightarrow> x < 2 ^ 31 \<Longrightarrow> to_int32 x = x"
  unfolding to_int32_def by (simp add: signed_take_bit_int_eq_self)

lemma to_int32_byte: "0 \<le> x \<Longrightarrow> x < 2 ^ 31 \<Longrightarrow> to_int32 x = x"
  by (rule to_int32_id) auto

lemma js_and_shr_byte:
  assumes "n \<le> 24"
  shows "js_and (js_shr v n) 255 = (v div 2 ^ n) mod 256"
proof -
  have m: "(255 :: int) = mask 8" by (simp add: mask_eq_exp_minus_1)
  have "to_int32 (drop_bit n (signed_take_bit 31 v)) AND mask 8 = take_bit 8 (drop_bit n v)"
    using assms by (intro bit_eqI) (auto simp: to_int32_def bit_simps)
  moreover have "n mod 32 = n" using assms by simp
  moreover have "to_int32 255 = 255" by (rule to_int32_id) auto
  ultimately show ?thesis
    by (simp add: js_and_def js_shr_def to_int32_def m take_bit_eq_mod drop_bit_eq_div)
qed

lemma js_and_byte: "js_and v 255 = v mod 256"
  using js_and_shr_byte [of 0 v] by (simp add: js_shr_def js_and_def to_int32_def)

lemma js_and_mask:
  assumes "k \<le> 31"
  shows "js_and v (mask k) = v mod 2 ^ k"
proof -
  have "signed_take_bit 31 v AND signed_take_bit 31 (mask k) = take_bit k v"
    using assms by (intro bit_eqI) (auto simp: bit_simps)
  then show ?thesis by (simp add: js_and_def to_int32_def take_bit_eq_mod)
qed

lemma js_and_15: "js_and v 15 = v mod 16"
  using js_and_mask [of 4 v] by (simp add: mask_eq_exp_minus_1)

lemma js_and_ushr_byte:
  assumes "n \<le> 24"
  shows "js_and (js_ushr v n) 255 = (v div 2 ^ n) mod 256"
proof -
  have m: "(255 :: int) = mask 8" by (simp add: mask_eq_exp_minus_1)
  have "to_int32 (drop_bit n (take_bit 32 v)) AND mask 8 = take_bit 8 (drop_bit n v)"
    using assms by (intro bit_eqI) (auto simp: to_int32_def bit_simps)
  moreover have "n mod 32 = n" using assms by simp
  moreover have "to_int32 255 = 255" by (rule to_int32_id) auto
  ultimately show ?thesis
    by (simp add: js_and_def js_ushr_def m take_bit_eq_mod drop_bit_eq_div)
qed


section \<open>Truncating division\<close>

text \<open>
  \<open>/\<close> and \<open>%\<close> on a \<open>bigint\<close> round towards zero: \<open>sdiv\<close> and \<open>smod\<close>.
\<close>

lemma sdiv_nonneg: "0 \<le> a \<Longrightarrow> 0 < b \<Longrightarrow> a sdiv b = (a div b :: int)"
  by (cases "a = 0") (simp_all add: signed_divide_int_def sgn_if)

lemma smod_nonneg: "0 \<le> a \<Longrightarrow> 0 < b \<Longrightarrow> a smod b = (a mod b :: int)"
  by (metis minus_div_mult_eq_mod minus_sdiv_mult_eq_smod sdiv_nonneg)

lemma sdiv_neg: "a < 0 \<Longrightarrow> 0 < b \<Longrightarrow> a sdiv b = - ((- a) div b :: int)"
  by (simp add: signed_divide_int_def sgn_if zero_less_mult_iff)

lemma smod_plus:
  assumes "0 < (b :: int)"
  shows "(a smod b + b) smod b = a mod b"
proof -
  have "0 \<le> a smod b + b"
  proof (cases "a < 0")
    case True
    then have "a smod b = - ((- a) mod b)"
      using assms by (simp add: signed_modulo_int_def sdiv_neg minus_mult_div_eq_mod [symmetric] mult.commute)
    moreover have "(- a) mod b < b" using assms by simp
    ultimately show ?thesis by linarith
  next
    case False
    with assms show ?thesis by (simp add: smod_nonneg)
  qed
  moreover have "a smod b = a - a sdiv b * b" by (simp add: minus_sdiv_mult_eq_smod)
  then have "a smod b + b = a + (1 - a sdiv b) * b" by (simp add: algebra_simps)
  then have "(a smod b + b) mod b = a mod b" by simp
  ultimately show ?thesis using assms by (simp add: smod_nonneg)
qed

lemma sdiv_floor:
  assumes "0 < (b :: int)"
  shows "(if a < 0 \<and> a mod b > 0 then a sdiv b - 1 else a sdiv b) = a div b"
proof (cases "a < 0")
  case True
  have "- ((- a) div b) = (if a mod b = 0 then a div b else a div b + 1)"
    using assms by (simp add: zdiv_zminus1_eq_if)
  moreover have "0 \<le> a mod b" using assms by simp
  ultimately show ?thesis using True assms by (auto simp: sdiv_neg order_less_le)
next
  case False
  with assms show ?thesis by (simp add: sdiv_nonneg)
qed

lemma sdiv_era:
  assumes "0 < (b :: int)" "c = b - 1"
  shows "(if z \<ge> 0 then z else z - c) sdiv b = z div b"
proof (cases "0 \<le> z")
  case True
  with assms show ?thesis by (simp add: sdiv_nonneg)
next
  case False
  then have "(z - c) sdiv b = - ((c - z) div b)"
    using assms by (simp add: sdiv_neg)
  also have "(c - z) div b = - (z div b)"
  proof (rule int_div_pos_eq)
    show "c - z = b * - (z div b) + (c - z mod b)"
      by (simp add: algebra_simps flip: minus_mult_div_eq_mod)
    show "0 \<le> c - z mod b" using pos_mod_bound [OF assms(1), of z] assms(2) by simp
    show "c - z mod b < b" using pos_mod_sign [OF assms(1), of z] assms(2) by simp
  qed
  finally show ?thesis using False by simp
qed

section \<open>Typed-array reads\<close>

text \<open>
  Indexing past the end gives \<open>undefined\<close> (\<open>None\<close>), which the bitwise operators read
  as 0.  \<open>slice a b xs\<close> is \<open>xs.slice(a, b)\<close> and \<open>xs.subarray(a, b)\<close> for offsets
  that are not negative: both clamp to the length.
\<close>

definition byte_at :: "bytes \<Rightarrow> nat \<Rightarrow> byte option" where
  "byte_at d i = (if i < length d then Some (d ! i) else None)"

definition num_at :: "bytes \<Rightarrow> nat \<Rightarrow> int" where
  "num_at d i = (case byte_at d i of None \<Rightarrow> 0 | Some b \<Rightarrow> uint b)"

definition slice :: "nat \<Rightarrow> nat \<Rightarrow> 'a list \<Rightarrow> 'a list" where
  "slice a b xs = take (b - a) (drop a xs)"

lemma byte_at_append_left [simp]: "i < length xs \<Longrightarrow> byte_at (xs @ ys) i = Some (xs ! i)"
  by (simp add: byte_at_def nth_append)

lemma byte_at_append_right [simp]:
  "length xs \<le> i \<Longrightarrow> byte_at (xs @ ys) i = byte_at ys (i - length xs)"
  by (auto simp: byte_at_def nth_append)

lemma byte_at_Cons_0 [simp]: "byte_at (x # xs) 0 = Some x"
  by (simp add: byte_at_def)

lemma byte_at_Nil [simp]: "byte_at [] i = None"
  by (simp add: byte_at_def)

lemma byte_at_Cons_Suc [simp]: "byte_at (x # xs) (Suc i) = byte_at xs i"
  by (simp add: byte_at_def)

lemma length_slice: "b \<le> length xs \<Longrightarrow> length (slice a b xs) = b - a"
  by (simp add: slice_def)

lemma slice_middle:
  "a = length xs \<Longrightarrow> b = length xs + length ys \<Longrightarrow> slice a b (xs @ ys @ zs) = ys"
  by (simp add: slice_def)

lemma slice_middle_end: "a = length xs \<Longrightarrow> b = length xs + length ys \<Longrightarrow> slice a b (xs @ ys) = ys"
  by (simp add: slice_def)

section \<open>Little-endian integers\<close>

primrec le_bytes :: "nat \<Rightarrow> int \<Rightarrow> bytes" where
  "le_bytes 0 v = []"
| "le_bytes (Suc n) v = word_of_int v # le_bytes n (v div 256)"

primrec le_val :: "bytes \<Rightarrow> int" where
  "le_val [] = 0"
| "le_val (b # bs) = uint b + 256 * le_val bs"

text \<open>Two's complement reading, as \<open>DataView.getBigInt64\<close> does on eight bytes.\<close>

definition le_sval :: "bytes \<Rightarrow> int" where
  "le_sval bs = (let v = le_val bs; m = 256 ^ length bs in if 2 * v < m then v else v - m)"

lemma length_le_bytes [simp, le_simps]: "length (le_bytes n v) = n"
  by (induction n arbitrary: v) simp_all

lemma uint_byte_bound: "0 \<le> uint (b :: byte)" "uint (b :: byte) < 256"
  using uint_lt2p [of b] by simp_all

lemma unat_byte_bound: "unat (b :: byte) < 256"
proof -
  have "unat b < 2 ^ LENGTH(8)" by (rule unsigned_less)
  then show ?thesis by simp
qed

lemma uint_word_of_int_byte: "uint (word_of_int v :: byte) = v mod 256"
  by (simp add: uint_word_of_int)

lemma uint_word_of_nat_byte: "uint (word_of_nat n :: byte) = int n mod 256"
  using uint_word_of_int_byte [of "int n"] by simp

lemma word_of_int_mod_byte: "(word_of_int (v mod 256) :: byte) = word_of_int v"
proof (rule word_uint_eqI)
  show "uint (word_of_int (v mod 256) :: byte) = uint (word_of_int v :: byte)"
    by (simp only: uint_word_of_int_byte) simp
qed

lemma to_int32_uint [simp]: "to_int32 (uint (b :: byte)) = uint b"
proof (rule to_int32_id)
  show "- (2 ^ 31) \<le> uint b" by (rule order_trans [OF _ uint_byte_bound(1)]) simp
  show "uint b < 2 ^ 31" using uint_byte_bound(2) [of b] by simp
qed

lemma le_val_nonneg [simp]: "0 \<le> le_val bs"
  by (induction bs) simp_all

lemma le_val_bound: "le_val bs < 256 ^ length bs"
proof (induction bs)
  case Nil
  then show ?case by simp
next
  case (Cons b bs)
  have "uint b < 256" by (rule uint_byte_bound)
  moreover from Cons.IH have "le_val bs + 1 \<le> 256 ^ length bs" by simp
  then have "256 * (le_val bs + 1) \<le> 256 * 256 ^ length bs" by simp
  ultimately show ?case by simp
qed

lemma le_val_le_bytes [le_simps]: "le_val (le_bytes n v) = v mod 256 ^ n"
proof (induction n arbitrary: v)
  case 0
  then show ?case by simp
next
  case (Suc n)
  have "uint (word_of_int v :: byte) = v mod 256" by (simp add: uint_word_of_int)
  moreover have "v mod (256 * 256 ^ n) = 256 * (v div 256 mod 256 ^ n) + v mod 256"
    by (simp add: zmod_zmult2_eq)
  ultimately show ?case using Suc.IH [of "v div 256"] by simp
qed

lemma le_bytes_le_val [simp, le_simps]: "n = length bs \<Longrightarrow> le_bytes n (le_val bs) = bs"
proof (induction bs arbitrary: n)
  case Nil
  then show ?case by simp
next
  case (Cons b bs)
  have r: "0 \<le> uint b" "uint b < 256" by (simp_all add: uint_byte_bound)
  have "(uint b + 256 * le_val bs) div 256 = le_val bs"
    using r by (simp add: div_add1_eq)
  moreover have "(word_of_int (uint b + 256 * le_val bs) :: byte) = b"
  proof -
    have "(uint b + 256 * le_val bs) mod 256 = uint b"
      using r by simp
    then have "uint (word_of_int (uint b + 256 * le_val bs) :: byte) = uint b"
      by (simp only: uint_word_of_int) simp
    then show ?thesis by (rule word_uint_eqI)
  qed
  ultimately show ?case using Cons by simp
qed

lemma le_bytes_inj:
  "le_bytes n v = le_bytes n w \<Longrightarrow> 0 \<le> v \<Longrightarrow> v < 256 ^ n \<Longrightarrow> 0 \<le> w \<Longrightarrow> w < 256 ^ n \<Longrightarrow> v = w"
  by (metis le_val_le_bytes mod_pos_pos_trivial)

lemma le_bytes_mod [simp]: "le_bytes n (v mod 256 ^ n) = le_bytes n v"
proof -
  have "le_bytes n (le_val (le_bytes n v)) = le_bytes n v" by (rule le_bytes_le_val) simp
  then show ?thesis by (simp add: le_val_le_bytes)
qed

lemma le_sval_le_bytes [le_simps]:
  assumes "0 < n" and "- (256 ^ n) \<le> 2 * v" and "2 * v < 256 ^ n"
  shows "le_sval (le_bytes n v) = v"
proof (cases "0 \<le> v")
  case True
  with assms have "v mod 256 ^ n = v" by (intro mod_pos_pos_trivial) auto
  with True assms show ?thesis by (simp add: le_sval_def le_val_le_bytes Let_def)
next
  case False
  have "v mod 256 ^ n = (v + 256 ^ n) mod 256 ^ n" by simp
  also have "\<dots> = v + 256 ^ n" using False assms by (intro mod_pos_pos_trivial) auto
  finally show ?thesis using False assms by (simp add: le_sval_def le_val_le_bytes Let_def)
qed

lemma le_sval_range:
  "bs \<noteq> [] \<Longrightarrow> - (256 ^ length bs) \<le> 2 * le_sval bs \<and> 2 * le_sval bs < 256 ^ length bs"
proof -
  have "le_val bs < 256 ^ length bs" "0 \<le> le_val bs" "(0 :: int) < 256 ^ length bs"
    by (simp_all add: le_val_bound)
  then have "- (256 ^ length bs) \<le> 2 * le_val bs" by linarith
  with \<open>le_val bs < 256 ^ length bs\<close> show ?thesis by (simp add: le_sval_def Let_def)
qed

lemma le_bytes_le_sval: "n = length bs \<Longrightarrow> le_bytes n (le_sval bs) = bs"
proof -
  assume n: "n = length bs"
  have "le_sval bs mod 256 ^ n = le_val bs mod 256 ^ n"
    by (simp add: le_sval_def Let_def n)
  then have "le_bytes n (le_sval bs) = le_bytes n (le_val bs)"
    by (metis le_bytes_mod)
  with n show ?thesis by simp
qed

text \<open>The shifts and masks that write and read two-byte fields.\<close>

lemma js_or_shl_byte:
  assumes "0 \<le> a" "a < 256" "0 \<le> b" "b < 256" "n \<le> 16" "8 \<le> n"
  shows "js_or a (js_shl b n) = a + 2 ^ n * b"
proof -
  have b2: "push_bit n b = 2 ^ n * b" by (simp add: push_bit_eq_mult)
  have n: "n mod 32 = n" using assms by simp
  have le: "2 ^ n * b \<le> 2 ^ n * 255" using assms by simp
  have "(2::int) ^ n \<le> 2 ^ 16" using assms by (intro power_increasing) auto
  with le have "2 ^ n * b \<le> 2 ^ 16 * 255" by linarith
  moreover have "0 \<le> 2 ^ n * b" using assms by simp
  ultimately have lt: "2 ^ n * b < 2 ^ 31" and "- (2 ^ 31) \<le> 2 ^ n * b" by simp_all
  have ib: "to_int32 b = b" and ia: "to_int32 a = a" using assms by (auto intro: to_int32_id)
  have "to_int32 (push_bit n b) = push_bit n b" using lt \<open>- (2 ^ 31) \<le> 2 ^ n * b\<close> b2 by (simp add: to_int32_id)
  moreover have "a OR push_bit n b = a + push_bit n b"
  proof -
    have "take_bit 8 a = a" using assms by (simp add: take_bit_int_eq_self)
    then have low: "k < 8" if "bit a k" for k using that by (metis bit_take_bit_iff)
    have "\<not> bit a k \<or> \<not> bit (push_bit n b) k" for k
    proof (rule disjCI)
      assume "\<not> \<not> bit (push_bit n b) k"
      then have "n \<le> k" by (simp add: bit_push_bit_iff)
      with \<open>8 \<le> n\<close> low [of k] show "\<not> bit a k" by linarith
    qed
    then show ?thesis by (simp add: disjunctive_add)
  qed
  ultimately show ?thesis
    by (simp add: js_or_def js_shl_def ia ib n b2)
qed

text \<open>Putting bytes together with \<open>|\<close>, as the readers of 32-bit and 64-bit fields do.\<close>

lemma or_push_bit:
  assumes "0 \<le> (a :: int)" "a < 2 ^ n"
  shows "a OR push_bit n b = a + 2 ^ n * b"
proof -
  have "take_bit n a = a" using assms by (simp add: take_bit_int_eq_self)
  then have "bit a k \<Longrightarrow> k < n" for k by (metis bit_take_bit_iff)
  then have "\<not> bit a k \<or> \<not> bit (push_bit n b) k" for k
    by (cases "k < n") (use leD in \<open>auto simp: bit_push_bit_iff\<close>)
  then have "a OR push_bit n b = a + push_bit n b" by (simp add: disjunctive_add)
  then show ?thesis by (simp add: push_bit_eq_mult mult.commute)
qed

lemma take_bit_js_or: "take_bit 32 (js_or a b) = take_bit 32 a OR take_bit 32 b"
  by (intro bit_eqI) (auto simp: js_or_def to_int32_def bit_simps)

lemma take_bit_js_shl: "n < 32 \<Longrightarrow> take_bit 32 (js_shl a n) = take_bit 32 (push_bit n a)"
  by (intro bit_eqI) (auto simp: js_shl_def to_int32_def bit_simps)

lemma js_ushr_0: "js_ushr a 0 = take_bit 32 a"
  by (simp add: js_ushr_def)

lemma le_val_append: "le_val (xs @ ys) = le_val xs + 256 ^ length xs * le_val ys"
  by (induction xs) (simp_all add: algebra_simps)

lemma js_or_32:
  "js_ushr (js_or (js_or (js_or (uint b0) (js_shl (uint b1) 8)) (js_shl (uint b2) 16)) (js_shl (uint b3) 24)) 0
    = le_val [b0, b1, b2, b3 :: byte]"
proof -
  let ?x = "uint b0 OR push_bit 8 (uint b1) OR push_bit 16 (uint b2) OR push_bit 24 (uint b3)"
  have s1: "uint b0 OR push_bit 8 (uint b1) = le_val [b0, b1]" "le_val [b0, b1] < 2 ^ 16"
    using or_push_bit [of "uint b0" 8 "uint b1"] uint_byte_bound(2) [of b0] le_val_bound [of "[b0, b1]"] by simp_all
  then have s2: "le_val [b0, b1] OR push_bit 16 (uint b2) = le_val [b0, b1, b2]" "le_val [b0, b1, b2] < 2 ^ 24"
    using or_push_bit [of "le_val [b0, b1]" 16 "uint b2"] le_val_bound [of "[b0, b1, b2]"]
      le_val_append [of "[b0, b1]" "[b2]"] le_val_nonneg [of "[b0, b1]"] by simp_all
  then have "le_val [b0, b1, b2] OR push_bit 24 (uint b3) = le_val [b0, b1, b2, b3]"
    using or_push_bit [of "le_val [b0, b1, b2]" 24 "uint b3"]
      le_val_append [of "[b0, b1, b2]" "[b3]"] le_val_nonneg [of "[b0, b1, b2]"] by simp
  with s1(1) s2(1) have x: "?x = le_val [b0, b1, b2, b3]" by (simp add: or.assoc [symmetric] del: le_val.simps)
  have "take_bit 32 ?x = ?x"
    using x le_val_nonneg [of "[b0, b1, b2, b3]"] le_val_bound [of "[b0, b1, b2, b3]"]
    by (intro take_bit_int_eq_self) simp_all
  with x have "take_bit 32 ?x = le_val [b0, b1, b2, b3]" by simp
  then show ?thesis
    by (simp add: js_ushr_0 take_bit_js_or take_bit_js_shl or.assoc take_bit_or del: le_val.simps)
qed

lemma foldl_or_bytes:
  "n \<le> length bs \<Longrightarrow> foldl (\<lambda>v i. v OR push_bit (i * 8) (uint (bs ! i))) 0 [0..<n] = le_val (take n bs)"
proof (induction n)
  case 0
  then show ?case by simp
next
  case (Suc n)
  then have "le_val (take n bs) < 2 ^ (n * 8)"
    using le_val_bound [of "take n bs"] by (simp add: power_mult mult.commute [of n])
  then have "le_val (take n bs) OR push_bit (n * 8) (uint (bs ! n)) = le_val (take n bs) + 2 ^ (n * 8) * uint (bs ! n)"
    by (intro or_push_bit) simp_all
  also have "\<dots> = le_val (take (Suc n) bs)"
    using Suc.prems by (simp add: take_Suc_conv_app_nth le_val_append power_mult mult.commute [of n])
  finally show ?case using Suc by simp
qed

lemma le_bytes_map: "le_bytes n v = map (\<lambda>i. word_of_int (v div 2 ^ (8 * i))) [0..<n]"
proof (induction n arbitrary: v)
  case 0
  then show ?case by simp
next
  case (Suc n)
  have "v div 256 div 2 ^ (8 * i) = v div 2 ^ (8 * Suc i)" for i
    by (simp add: power_add zdiv_zmult2_eq)
  then show ?case using Suc.IH [of "v div 256"]
    by (simp add: upt_conv_Cons map_Suc_upt [symmetric] del: upt_Suc power_Suc mult_Suc_right)
qed

lemma and_255: "(v :: int) AND 255 = v mod 256"
proof -
  have "(255 :: int) = mask 8" by (simp add: mask_eq_exp_minus_1)
  then show ?thesis using take_bit_eq_mask [of 8 v] by (simp add: take_bit_eq_mod)
qed

end
