(* ===== verification/Msig_Definition.thy ===== *)
theory Msig_Definition
  imports JS_Prelude
begin

text \<open>
  \<open>lib/msig/definition.ts\<close>: the types of intent parameters, accounts, segments and seeds,
  their entries, and the widths of encoded parameters.
\<close>

section \<open>Types and entries\<close>

text \<open>
  The constant objects of the file give each name its byte; \<open>param_type_of\<close> reads the
  byte, and the last constructor stands for a byte no name has.
\<close>

datatype ParamType =
    PT_Address | PT_U64 | PT_I64 | PT_String | PT_Bool | PT_U8 | PT_U16 | PT_U32 | PT_U128
  | PT_Bytes20 | PT_Bytes32 | PT_Unknown byte

definition param_types :: "ParamType list" where
  "param_types = [PT_Address, PT_U64, PT_I64, PT_String, PT_Bool, PT_U8, PT_U16, PT_U32, PT_U128,
     PT_Bytes20, PT_Bytes32]"

definition param_type_of :: "byte \<Rightarrow> ParamType" where
  "param_type_of b = (if unat b < 11 then param_types ! unat b else PT_Unknown b)"

record ParamEntry =
  paramType :: ParamType
  nameOffset :: nat
  nameLen :: nat
  constraintType :: byte
  constraintValue :: int

record AccountEntry =
  isSigner :: bool
  isWritable :: bool
  sourceType :: byte
  a_poolOffset :: nat
  a_poolLen :: nat

record InstructionEntry =
  programAccountIndex :: byte
  accountIndexesOffset :: nat
  accountIndexesLen :: nat
  segmentsStart :: nat
  segmentsCount :: nat

record DataSegmentEntry =
  segmentType :: byte
  d_poolOffset :: nat
  d_poolLen :: nat

record SeedEntry =
  seedType :: byte
  s_poolOffset :: nat
  s_poolLen :: nat

section \<open>Widths and offsets\<close>

fun paramByteSize :: "ParamType \<Rightarrow> bytes \<Rightarrow> nat \<Rightarrow> nat res" where
  "paramByteSize PT_Address d offset = Inr 32"
| "paramByteSize PT_Bytes32 d offset = Inr 32"
| "paramByteSize PT_U64 d offset = Inr 8"
| "paramByteSize PT_I64 d offset = Inr 8"
| "paramByteSize PT_Bytes20 d offset = Inr 20"
| "paramByteSize PT_String d offset =
     (if offset \<ge> length d then Inl (Thrown ''paramByteSize: string length byte OOB'')
      else Inr (1 + unat (d ! offset)))"
| "paramByteSize PT_Bool d offset = Inr 1"
| "paramByteSize PT_U8 d offset = Inr 1"
| "paramByteSize PT_U16 d offset = Inr 2"
| "paramByteSize PT_U32 d offset = Inr 4"
| "paramByteSize PT_U128 d offset = Inr 16"
| "paramByteSize (PT_Unknown b) d offset = Inl (Thrown ''paramByteSize: unknown ParamType'')"

text \<open>The loop of \<open>paramOffsetAt\<close>, over the parameters that are left.\<close>

fun param_walk :: "ParamEntry list \<Rightarrow> bytes \<Rightarrow> nat \<Rightarrow> nat \<Rightarrow> nat res" where
  "param_walk ps d 0 off = Inr off"
| "param_walk [] d (Suc n) off = Inl (Thrown ''paramOffsetAt: param index out of bounds'')"
| "param_walk (p # ps) d (Suc n) off =
     ebind (paramByteSize (paramType p) d off) (\<lambda>s. param_walk ps d n (off + s))"

definition paramOffsetAt :: "ParamEntry list \<Rightarrow> bytes \<Rightarrow> nat \<Rightarrow> nat res" where
  "paramOffsetAt params paramsData idx = param_walk params paramsData idx 0"

section \<open>Offsets of concatenated encodings\<close>

text \<open>A chunk has the width its type declares: what the walk relies on.\<close>

definition chunk_ok :: "ParamType \<Rightarrow> bytes \<Rightarrow> bool" where
  "chunk_ok t c \<longleftrightarrow>
     (case t of
        PT_String \<Rightarrow> (\<exists>b r. c = b # r \<and> length r = unat b)
      | _ \<Rightarrow> paramByteSize t [] 0 = Inr (length c))"

lemma paramByteSize_chunk:
  "chunk_ok t c \<Longrightarrow> paramByteSize t (pre @ c @ post) (length pre) = Inr (length c)"
  by (cases t) (auto simp: chunk_ok_def nth_append)

lemma param_walk_chunks:
  assumes "list_all2 (\<lambda>p c. chunk_ok (paramType p) c) ps cs" "i \<le> length ps"
  shows "param_walk ps (pre @ concat cs @ post) i (length pre) = Inr (length pre + length (concat (take i cs)))"
  using assms
proof (induction ps cs arbitrary: pre i rule: list_all2_induct)
  case Nil
  then show ?case by simp
next
  case (Cons p ps c cs)
  show ?case
  proof (cases i)
    case 0
    then show ?thesis by simp
  next
    case (Suc n)
    have "param_walk ps ((pre @ c) @ concat cs @ post) n (length (pre @ c))
        = Inr (length (pre @ c) + length (concat (take n cs)))"
      using Cons Suc by (intro Cons.IH) simp
    moreover have "paramByteSize (paramType p) (pre @ c @ concat cs @ post) (length pre) = Inr (length c)"
      using Cons by (intro paramByteSize_chunk)
    ultimately show ?thesis using Suc by (simp add: add.assoc)
  qed
qed

lemma paramOffsetAt_chunks:
  assumes "list_all2 (\<lambda>p c. chunk_ok (paramType p) c) ps cs" "i \<le> length ps"
  shows "paramOffsetAt ps (concat cs) i = Inr (length (concat (take i cs)))"
  using param_walk_chunks [OF assms, of "[]" "[]"] by (simp add: paramOffsetAt_def)

end
