(* ===== verification/JS_Strings.thy ===== *)
theory JS_Strings
  imports JS_Prelude
begin

text \<open>
  The string operations of JavaScript that the code uses: decimal and hexadecimal
  printing, \<open>BigInt(text)\<close>, \<open>trim\<close>, \<open>padStart\<close>, \<open>indexOf\<close>, \<open>split\<close>,
  and the removal of trailing zeros that the amount formatters share.  All work on code
  units.
\<close>

section \<open>Printing integers in decimal\<close>

text \<open>\<open>toString(10)\<close> of a \<open>bigint\<close> or of an integral \<open>number\<close>.\<close>

definition digit_char :: "nat \<Rightarrow> 16 word" where
  "digit_char d = word_of_nat (48 + d)"

function show_nat :: "nat \<Rightarrow> jsstr" where
  "show_nat n = (if n < 10 then [digit_char n] else show_nat (n div 10) @ [digit_char (n mod 10)])"
  by pat_completeness auto
termination
  by (relation "measure id") auto

declare show_nat.simps [simp del]

definition show_int :: "int \<Rightarrow> jsstr" where
  "show_int i = (if i < 0 then 45 # show_nat (nat (- i)) else show_nat (nat i))"

section \<open>Reading integers\<close>

definition is_digit :: "16 word \<Rightarrow> bool" where
  "is_digit c \<longleftrightarrow> 48 \<le> c \<and> c \<le> 57"

definition digit_val :: "16 word \<Rightarrow> nat" where
  "digit_val c = unat c - 48"

text \<open>The value of a string of decimal digits, most significant first.\<close>

definition digits_val :: "jsstr \<Rightarrow> nat" where
  "digits_val s = foldl (\<lambda>n c. 10 * n + digit_val c) 0 s"

text \<open>White space and line terminators: what \<open>trim\<close> and \<open>BigInt\<close> strip.\<close>

definition js_space :: "16 word \<Rightarrow> bool" where
  "js_space c \<longleftrightarrow> c \<in> {9, 10, 11, 12, 13, 32, 160, 0x1680, 0x2028, 0x2029, 0x202F, 0x205F, 0x3000, 0xFEFF}
     \<or> (0x2000 \<le> c \<and> c \<le> 0x200A)"

definition rstrip :: "('a \<Rightarrow> bool) \<Rightarrow> 'a list \<Rightarrow> 'a list" where
  "rstrip p s = rev (dropWhile p (rev s))"

definition trim :: "jsstr \<Rightarrow> jsstr" where
  "trim s = rstrip js_space (dropWhile js_space s)"

text \<open>Digits of a radix up to 16, in either case.\<close>

definition hex_digit :: "16 word \<Rightarrow> nat option" where
  "hex_digit c =
     (if 0x30 \<le> c \<and> c \<le> 0x39 then Some (unat c - 0x30)
      else if 0x61 \<le> c \<and> c \<le> 0x66 then Some (unat c - 0x61 + 10)
      else if 0x41 \<le> c \<and> c \<le> 0x46 then Some (unat c - 0x41 + 10)
      else None)"

definition radix_val :: "nat \<Rightarrow> jsstr \<Rightarrow> nat option" where
  "radix_val r s =
     (if s = [] then None
      else foldl (\<lambda>acc c. case (acc, hex_digit c) of
                     (Some n, Some d) \<Rightarrow> if d < r then Some (r * n + d) else None
                   | _ \<Rightarrow> None) (Some 0) s)"

text \<open>
  \<open>BigInt(text)\<close>: the empty (or blank) string is 0, a prefix \<open>0x\<close>, \<open>0o\<close> or \<open>0b\<close>
  selects the radix and excludes a sign, anything else is an optionally signed decimal.
  \<open>None\<close> is the \<open>SyntaxError\<close>.
\<close>

definition dec_opt :: "jsstr \<Rightarrow> int option" where
  "dec_opt s = (if s \<noteq> [] \<and> list_all is_digit s then Some (int (digits_val s)) else None)"

definition big_int :: "jsstr \<Rightarrow> int option" where
  "big_int t =
     (let s = trim t in
      case s of
        [] \<Rightarrow> Some 0
      | c # r \<Rightarrow>
          (if c = 48 \<and> r \<noteq> [] \<and> hd r \<in> {120, 88} then map_option int (radix_val 16 (tl r))
           else if c = 48 \<and> r \<noteq> [] \<and> hd r \<in> {111, 79} then map_option int (radix_val 8 (tl r))
           else if c = 48 \<and> r \<noteq> [] \<and> hd r \<in> {98, 66} then map_option int (radix_val 2 (tl r))
           else if c = 45 then map_option uminus (dec_opt r)
           else if c = 43 then dec_opt r
           else dec_opt s))"

section \<open>Searching, splitting and padding\<close>

definition starts_with :: "'a list \<Rightarrow> 'a list \<Rightarrow> bool" where
  "starts_with s p \<longleftrightarrow> take (length p) s = p"

fun index_of :: "'a \<Rightarrow> 'a list \<Rightarrow> nat option" where
  "index_of c [] = None"
| "index_of c (x # xs) = (if x = c then Some 0 else map_option Suc (index_of c xs))"

text \<open>\<open>s.indexOf(p)\<close> for a string \<open>p\<close>.\<close>

fun index_of_str :: "'a list \<Rightarrow> 'a list \<Rightarrow> nat option" where
  "index_of_str p [] = (if p = [] then Some 0 else None)"
| "index_of_str p (x # xs) =
     (if starts_with (x # xs) p then Some 0 else map_option Suc (index_of_str p xs))"

text \<open>\<open>s.split(c)\<close> for a separator of one code unit: never empty.\<close>

fun split_on :: "'a \<Rightarrow> 'a list \<Rightarrow> 'a list list" where
  "split_on c [] = [[]]"
| "split_on c (x # xs) =
     (if x = c then [] # split_on c xs
      else (case split_on c xs of [] \<Rightarrow> [[x]] | w # ws \<Rightarrow> (x # w) # ws))"

definition pad_start :: "nat \<Rightarrow> 'a \<Rightarrow> 'a list \<Rightarrow> 'a list" where
  "pad_start n c s = replicate (n - length s) c @ s"

definition pad_end :: "nat \<Rightarrow> 'a \<Rightarrow> 'a list \<Rightarrow> 'a list" where
  "pad_end n c s = s @ replicate (n - length s) c"

section \<open>Lemmas\<close>

lemma unat_digit_char: "d < 10 \<Longrightarrow> unat (digit_char d) = 48 + d"
  unfolding digit_char_def by (simp only: unat_of_nat) simp

lemma is_digit_unat: "is_digit c \<longleftrightarrow> 48 \<le> unat c \<and> unat c \<le> 57"
  by (simp add: is_digit_def word_le_nat_alt)

lemma is_digit_char [simp]: "d < 10 \<Longrightarrow> is_digit (digit_char d)"
  by (simp add: is_digit_unat unat_digit_char)

lemma digit_val_char [simp]: "d < 10 \<Longrightarrow> digit_val (digit_char d) = d"
  by (simp add: digit_val_def unat_digit_char)

lemma digit_val_less [simp]: "is_digit c \<Longrightarrow> digit_val c < 10"
  unfolding is_digit_unat digit_val_def by linarith

lemma digit_char_val [simp]:
  assumes "is_digit c"
  shows "digit_char (digit_val c) = c"
proof -
  have "unat (digit_char (digit_val c)) = 48 + digit_val c"
    using assms by (intro unat_digit_char) simp
  also have "\<dots> = unat c"
    using assms by (simp add: is_digit_unat digit_val_def)
  finally show ?thesis by (simp only: word_unat_eq_iff)
qed

lemma digit_val_eq_0: "is_digit c \<Longrightarrow> digit_val c = 0 \<longleftrightarrow> c = 48"
  by (auto simp: is_digit_unat digit_val_def word_unat_eq_iff)

lemma digit_char_eq_48: "d < 10 \<Longrightarrow> digit_char d = 48 \<longleftrightarrow> d = 0"
  using digit_val_eq_0 [of "digit_char d"] by simp

lemma digits_val_Nil [simp]: "digits_val [] = 0"
  by (simp add: digits_val_def)

lemma digits_val_snoc [simp]: "digits_val (s @ [c]) = 10 * digits_val s + digit_val c"
  by (simp add: digits_val_def)

lemma digits_val_append: "digits_val (s @ t) = digits_val s * 10 ^ length t + digits_val t"
proof (induction t rule: rev_induct)
  case Nil
  then show ?case by simp
next
  case (snoc c t)
  then show ?case by (simp flip: append_assoc add: algebra_simps)
qed

lemma digits_val_Cons: "digits_val (c # s) = digit_val c * 10 ^ length s + digits_val s"
  using digits_val_append [of "[c]" s] by (simp add: digits_val_def)

lemma digits_val_replicate_0 [simp]: "digits_val (replicate n 48) = 0"
  by (induction n) (simp_all add: digits_val_Cons digit_val_def)

lemma digits_val_bound: "list_all is_digit s \<Longrightarrow> digits_val s < 10 ^ length s"
proof (induction s rule: rev_induct)
  case Nil
  then show ?case by simp
next
  case (snoc c s)
  then have "digits_val s + 1 \<le> 10 ^ length s" "digit_val c < 10" by auto
  then show ?case by simp
qed

lemma show_nat_nonempty [simp]: "show_nat n \<noteq> []"
  by (subst show_nat.simps) simp

lemma show_nat_digits [simp]: "list_all is_digit (show_nat n)"
proof (induction n rule: show_nat.induct)
  case (1 n)
  then show ?case by (subst show_nat.simps) simp
qed

lemma digits_val_show_nat [simp]: "digits_val (show_nat n) = n"
proof (induction n rule: show_nat.induct)
  case (1 n)
  show ?case
  proof (cases "n < 10")
    case True
    then show ?thesis by (subst show_nat.simps) (simp add: digits_val_def)
  next
    case False
    with 1 show ?thesis by (subst show_nat.simps) simp
  qed
qed

lemma show_nat_inj: "show_nat m = show_nat n \<Longrightarrow> m = n"
  by (metis digits_val_show_nat)

lemma show_nat_not_minus: "show_nat n \<noteq> 45 # s"
proof
  assume "show_nat n = 45 # s"
  with show_nat_digits [of n] have "is_digit 45" by simp
  then show False by (simp add: is_digit_def)
qed

lemma show_int_inj: "show_int i = show_int j \<Longrightarrow> i = j"
  using show_nat_not_minus [of "nat i"] show_nat_not_minus [of "nat j"]
  by (auto simp: show_int_def dest: show_nat_inj split: if_splits) (metis show_nat_not_minus)+

lemma starts_with_append [simp]: "starts_with (p @ s) p"
  by (simp add: starts_with_def)

lemma split_on_nonempty [simp]: "split_on c s \<noteq> []"
  by (cases s) (auto split: list.splits)

lemma split_on_no_sep: "c \<notin> set s \<Longrightarrow> split_on c s = [s]"
  by (induction s) auto

lemma split_on_one: "c \<notin> set s \<Longrightarrow> split_on c (s @ c # t) = s # split_on c t"
  by (induction s) auto

lemma rstrip_id: "s = [] \<or> \<not> p (last s) \<Longrightarrow> rstrip p s = s"
  by (cases s rule: rev_cases) (auto simp: rstrip_def)

lemma trim_id:
  assumes "s = [] \<or> (\<not> js_space (hd s) \<and> \<not> js_space (last s))"
  shows "trim s = s"
proof (cases s)
  case Nil
  then show ?thesis by (simp add: trim_def rstrip_def)
next
  case (Cons c r)
  with assms have "dropWhile js_space s = s" by simp
  with assms show ?thesis by (auto simp: trim_def intro: rstrip_id)
qed

end
