(* ===== verification/Msig_Hash.thy ===== *)
theory Msig_Hash
  imports JS_Strings
begin

text \<open>
  \<open>lib/msig/hash.ts\<close>: \<open>toHex\<close> and \<open>fromHex\<close>.  The two hash functions of the file only
  copy the result of the hash library; they are arguments of the definitions that use them.
\<close>

section \<open>Operations\<close>

definition HEX :: jsstr where
  "HEX = js ''0123456789abcdef''"

definition toHex :: "bytes \<Rightarrow> jsstr" where
  "toHex bs = concat (map (\<lambda>b. [HEX ! nat (js_and (js_shr (uint b) 4) 15), HEX ! nat (js_and (uint b) 15)]) bs)"

definition parseHexDigit :: "16 word \<Rightarrow> int res" where
  "parseHexDigit c =
     (if 0x30 \<le> c \<and> c \<le> 0x39 then Inr (uint c - 0x30)
      else if 0x61 \<le> c \<and> c \<le> 0x66 then Inr (uint c - 0x61 + 10)
      else if 0x41 \<le> c \<and> c \<le> 0x46 then Inr (uint c - 0x41 + 10)
      else Inl (Thrown ''fromHex: invalid hex digit''))"

text \<open>The loop of \<open>fromHex\<close>: one byte of output for two code units of input.\<close>

fun hexPairs :: "jsstr \<Rightarrow> bytes res" where
  "hexPairs (a # b # s) =
     ebind (parseHexDigit a) (\<lambda>hi.
     ebind (parseHexDigit b) (\<lambda>lo.
     ebind (hexPairs s) (\<lambda>r.
     Inr (word_of_int (js_or (js_shl hi 4) lo) # r))))"
| "hexPairs s = Inr []"

definition fromHex :: "jsstr \<Rightarrow> bytes res" where
  "fromHex input =
     (let s0 = trim input;
          s = (if starts_with s0 (js ''0x'') \<or> starts_with s0 (js ''0X'') then drop 2 s0 else s0)
      in if length s mod 2 \<noteq> 0 then Inl (Thrown ''fromHex: odd length'') else hexPairs s)"

section \<open>Digits and bytes\<close>

definition is_hex :: "16 word \<Rightarrow> bool" where
  "is_hex c \<longleftrightarrow> (0x30 \<le> c \<and> c \<le> 0x39) \<or> (0x61 \<le> c \<and> c \<le> 0x66)"

definition hexc :: "nat \<Rightarrow> 16 word" where
  "hexc n = HEX ! n"

lemma HEX_digit:
  assumes "n < 16"
  shows "parseHexDigit (hexc n) = Inr (int n)" "is_hex (hexc n)"
proof -
  have "\<forall>n \<in> set [0..<16]. parseHexDigit (hexc n) = Inr (int n) \<and> is_hex (hexc n)"
    by code_simp
  with assms show "parseHexDigit (hexc n) = Inr (int n)" "is_hex (hexc n)" by simp_all
qed

lemma toHex_Nil [simp]: "toHex [] = []"
  by (simp add: toHex_def)

lemma toHex_Cons [simp]:
  "toHex (b # bs) = hexc (unat b div 16) # hexc (unat b mod 16) # toHex bs"
proof -
  have "js_shr (uint b) 4 = uint b div 16"
    by (simp add: js_shr_def drop_bit_eq_div)
  moreover have "0 \<le> uint b div 16"
    by (simp add: pos_imp_zdiv_nonneg_iff)
  moreover have "unat b div 16 mod 16 = unat b div 16"
    using unat_byte_bound [of b] by simp
  ultimately have "nat (js_and (js_shr (uint b) 4) 15) = unat b div 16"
    "nat (js_and (uint b) 15) = unat b mod 16"
    by (simp_all add: js_and_15 nat_div_distrib nat_mod_distrib)
  then show ?thesis by (simp add: toHex_def hexc_def)
qed

lemma toHex_append [simp]: "toHex (as @ bs) = toHex as @ toHex bs"
  by (induction as) simp_all

lemma length_toHex [simp]: "length (toHex bs) = 2 * length bs"
  by (induction bs) simp_all

lemma toHex_is_hex: "list_all is_hex (toHex bs)"
proof (induction bs)
  case Nil
  then show ?case by simp
next
  case (Cons b bs)
  have "unat b < 256" by (rule unat_byte_bound)
  then have "unat b div 16 < 16" by simp
  with Cons show ?case by (simp add: HEX_digit)
qed

lemma is_hex_not_space: "is_hex c \<Longrightarrow> \<not> js_space c"
  by (auto simp: is_hex_def js_space_def word_le_nat_alt)

lemma byte_nibbles:
  assumes "0 \<le> h" "h < 16" "0 \<le> l" "l < 16"
  shows "js_or (js_shl h 4) l = 16 * h + l"
proof -
  have "to_int32 (push_bit 4 h) = 16 * h" using assms
    by (simp add: push_bit_eq_mult to_int32_id)
  moreover have "16 * h OR l = 16 * h + l"
  proof -
    have "take_bit 4 l = l" using assms by (simp add: take_bit_int_eq_self)
    then have low: "k < 4" if "bit l k" for k using that by (metis bit_take_bit_iff)
    have "\<not> bit (push_bit 4 h) k \<or> \<not> bit l k" for k
      using low [of k] by (auto simp: bit_push_bit_iff)
    then have "push_bit 4 h OR l = push_bit 4 h + l" by (simp add: disjunctive_add)
    then show ?thesis by (simp add: push_bit_eq_mult mult.commute)
  qed
  ultimately show ?thesis using assms
    by (simp add: js_or_def js_shl_def to_int32_id)
qed

lemma hexPairs_toHex: "hexPairs (toHex bs) = Inr bs"
proof (induction bs)
  case Nil
  then show ?case by simp
next
  case (Cons b bs)
  have "unat b < 256" by (rule unat_byte_bound)
  then have d: "unat b div 16 < 16" "unat b mod 16 < 16" by simp_all
  have "js_or (js_shl (int (unat b div 16)) 4) (int (unat b mod 16)) = int (unat b)"
  proof (subst byte_nibbles)
    show "16 * int (unat b div 16) + int (unat b mod 16) = int (unat b)"
      by (metis div_mult_mod_eq mult.commute of_nat_add of_nat_mult of_nat_numeral)
  qed (use d in simp_all)
  with Cons d show ?case by (simp add: HEX_digit)
qed

lemma trim_hex: "list_all is_hex s \<Longrightarrow> trim s = s"
  by (cases "s = []") (auto intro!: trim_id simp: list_all_iff is_hex_not_space)

lemma hex_no_prefix:
  assumes "list_all is_hex s"
  shows "\<not> starts_with s (js ''0x'')" "\<not> starts_with s (js ''0X'')"
proof -
  have "\<not> is_hex (of_char (CHR ''x''))" "\<not> is_hex (of_char (CHR ''X''))" by code_simp+
  moreover have "s ! 1 \<in> set s" if "starts_with s (js [a, b])" for a b
    using that by (cases s; cases "tl s") (auto simp: starts_with_def)
  moreover have "s ! 1 = of_char b" if "starts_with s (js [a, b])" for a b
    using that by (cases s; cases "tl s") (auto simp: starts_with_def)
  ultimately show "\<not> starts_with s (js ''0x'')" "\<not> starts_with s (js ''0X'')"
    using assms by (metis list_all_iff)+
qed

lemma fromHex_hex: "list_all is_hex s \<Longrightarrow> even (length s) \<Longrightarrow> fromHex s = hexPairs s"
  unfolding fromHex_def Let_def by (simp only: trim_hex hex_no_prefix even_iff_mod_2_eq_zero) simp

lemma fromHex_toHex: "fromHex (toHex bs) = Inr bs"
  by (simp add: fromHex_hex toHex_is_hex hexPairs_toHex)

lemma toHex_inj: "toHex a = toHex b \<longleftrightarrow> a = b"
  by (metis fromHex_toHex sum.inject(2))

lemma fromHex_prefixed: "fromHex (js ''0x'' @ toHex bs) = Inr bs"
proof -
  let ?s = "js ''0x'' @ toHex bs"
  have "\<not> js_space (last ?s)"
  proof (cases bs rule: rev_cases)
    case Nil
    have "\<not> js_space 120" by code_simp
    with Nil show ?thesis by simp
  next
    case (snoc as b)
    then have "last ?s = last (toHex bs)" "toHex bs \<noteq> []" by simp_all
    then have "is_hex (last ?s)" using toHex_is_hex [of bs] by (simp add: list_all_iff)
    then show ?thesis by (rule is_hex_not_space)
  qed
  moreover have "\<not> js_space 48" by code_simp
  ultimately have "trim ?s = ?s" by (intro trim_id) simp
  moreover have "starts_with ?s (js ''0x'')" by (simp add: starts_with_def)
  moreover have "drop 2 ?s = toHex bs" by simp
  ultimately show ?thesis by (simp add: fromHex_def hexPairs_toHex)
qed

section \<open>Properties\<close>

text \<open>
  Lower-case hexadecimal, as the signed messages contain it, is read back exactly by
  \<open>fromHex\<close>, with or without a prefix \<open>0x\<close>, and different buffers have different texts.
\<close>

theorem hex_roundtrip:
  "fromHex (toHex bs) = Inr bs \<and> fromHex (js ''0x'' @ toHex bs) = Inr bs \<and> (toHex bs = toHex cs \<longleftrightarrow> bs = cs)"
  by (simp add: fromHex_toHex fromHex_prefixed toHex_inj del: js_simps)

end
