(* ===== verification/JS_Utf8.thy ===== *)
theory JS_Utf8
  imports JS_Strings
begin

text \<open>
  \<open>TextEncoder\<close> and \<open>TextDecoder\<close>.  The encoder replaces lone surrogates by U+FFFD; the
  decoder replaces every maximal invalid prefix by U+FFFD and, unless \<open>ignoreBOM\<close> is
  set, drops a leading byte order mark.
\<close>

section \<open>Code points\<close>

definition is_high :: "16 word \<Rightarrow> bool" where
  "is_high u \<longleftrightarrow> 0xD800 \<le> unat u \<and> unat u \<le> 0xDBFF"

definition is_low :: "16 word \<Rightarrow> bool" where
  "is_low u \<longleftrightarrow> 0xDC00 \<le> unat u \<and> unat u \<le> 0xDFFF"

definition surrogate_pair :: "16 word \<Rightarrow> 16 word \<Rightarrow> nat" where
  "surrogate_pair a b = 0x10000 + (unat a - 0xD800) * 0x400 + (unat b - 0xDC00)"

fun code_points :: "jsstr \<Rightarrow> nat list" where
  "code_points [] = []"
| "code_points [a] = [if is_high a \<or> is_low a then 0xFFFD else unat a]"
| "code_points (a # b # s) =
     (if is_high a \<and> is_low b then surrogate_pair a b # code_points s
      else (if is_high a \<or> is_low a then 0xFFFD else unat a) # code_points (b # s))"

definition unit_of :: "nat \<Rightarrow> 16 word" where
  "unit_of n = word_of_nat n"

definition utf16_cp :: "nat \<Rightarrow> jsstr" where
  "utf16_cp c =
     (if c < 0x10000 then [unit_of c]
      else [unit_of (0xD800 + (c - 0x10000) div 0x400), unit_of (0xDC00 + (c - 0x10000) mod 0x400)])"

definition scalar :: "nat \<Rightarrow> bool" where
  "scalar c \<longleftrightarrow> c < 0xD800 \<or> (0xE000 \<le> c \<and> c < 0x110000)"

section \<open>Encoding\<close>

definition byte_of :: "nat \<Rightarrow> byte" where
  "byte_of n = word_of_nat n"


definition utf8_cp :: "nat \<Rightarrow> bytes" where
  "utf8_cp c =
     (if c < 0x80 then [byte_of c]
      else if c < 0x800 then [byte_of (0xC0 + c div 0x40), byte_of (0x80 + c mod 0x40)]
      else if c < 0x10000 then
        [byte_of (0xE0 + c div 0x1000), byte_of (0x80 + c div 0x40 mod 0x40),
         byte_of (0x80 + c mod 0x40)]
      else
        [byte_of (0xF0 + c div 0x40000), byte_of (0x80 + c div 0x1000 mod 0x40),
         byte_of (0x80 + c div 0x40 mod 0x40), byte_of (0x80 + c mod 0x40)])"

definition utf8_encode :: "jsstr \<Rightarrow> bytes" where
  "utf8_encode s = concat (map utf8_cp (code_points s))"

section \<open>Decoding\<close>

text \<open>
  A continuation byte between bounds: the bounds exclude overlong forms, surrogates and
  values above U+10FFFF.  A byte that does not continue a sequence is read again as the
  start of the next one.
\<close>

definition cont :: "nat \<Rightarrow> nat \<Rightarrow> byte \<Rightarrow> bool" where
  "cont lo hi b \<longleftrightarrow> lo \<le> unat b \<and> unat b \<le> hi"

fun utf8_points :: "bytes \<Rightarrow> nat list" where
  "utf8_points [] = []"
| "utf8_points (a # r) =
     (let n = unat a in
      if n < 0x80 then n # utf8_points r
      else if 0xC2 \<le> n \<and> n \<le> 0xDF then
        (case r of
           b # r1 \<Rightarrow> if cont 0x80 0xBF b
                      then ((n - 0xC0) * 0x40 + (unat b - 0x80)) # utf8_points r1
                      else 0xFFFD # utf8_points r
         | [] \<Rightarrow> [0xFFFD])
      else if 0xE0 \<le> n \<and> n \<le> 0xEF then
        (case r of
           b # r1 \<Rightarrow> if cont (if n = 0xE0 then 0xA0 else 0x80) (if n = 0xED then 0x9F else 0xBF) b then
             (case r1 of
                c # r2 \<Rightarrow> if cont 0x80 0xBF c
                  then ((n - 0xE0) * 0x1000 + (unat b - 0x80) * 0x40 + (unat c - 0x80)) # utf8_points r2
                  else 0xFFFD # utf8_points r1
              | [] \<Rightarrow> [0xFFFD])
             else 0xFFFD # utf8_points r
         | [] \<Rightarrow> [0xFFFD])
      else if 0xF0 \<le> n \<and> n \<le> 0xF4 then
        (case r of
           b # r1 \<Rightarrow> if cont (if n = 0xF0 then 0x90 else 0x80) (if n = 0xF4 then 0x8F else 0xBF) b then
             (case r1 of
                c # r2 \<Rightarrow> if cont 0x80 0xBF c then
                  (case r2 of
                     d # r3 \<Rightarrow> if cont 0x80 0xBF d
                       then ((n - 0xF0) * 0x40000 + (unat b - 0x80) * 0x1000 + (unat c - 0x80) * 0x40
                              + (unat d - 0x80)) # utf8_points r3
                       else 0xFFFD # utf8_points r2
                   | [] \<Rightarrow> [0xFFFD])
                  else 0xFFFD # utf8_points r1
              | [] \<Rightarrow> [0xFFFD])
             else 0xFFFD # utf8_points r
         | [] \<Rightarrow> [0xFFFD])
      else 0xFFFD # utf8_points r)"

definition utf8_decode_bom :: "bytes \<Rightarrow> jsstr" where
  "utf8_decode_bom bs = concat (map utf16_cp (utf8_points bs))"

text \<open>\<open>new TextDecoder().decode(bytes)\<close>.\<close>

definition utf8_decode :: "bytes \<Rightarrow> jsstr" where
  "utf8_decode bs = utf8_decode_bom (if take 3 bs = [0xEF, 0xBB, 0xBF] then drop 3 bs else bs)"

section \<open>Strings without lone surrogates\<close>

fun well_formed :: "jsstr \<Rightarrow> bool" where
  "well_formed [] \<longleftrightarrow> True"
| "well_formed [a] \<longleftrightarrow> \<not> is_high a \<and> \<not> is_low a"
| "well_formed (a # b # s) \<longleftrightarrow>
     (if is_high a then is_low b \<and> well_formed s else \<not> is_low a \<and> well_formed (b # s))"

lemma unat_byte_of [simp]: "n < 256 \<Longrightarrow> unat (byte_of n) = n"
  unfolding byte_of_def by (simp only: unat_of_nat) simp

lemma unit_of_unat [simp]: "unit_of (unat u) = u"
  by (simp add: unit_of_def)

lemma unat_unit_bound: "unat (u :: 16 word) < 65536"
proof -
  have "unat u < 2 ^ LENGTH(16)" by (rule unsigned_less)
  then show ?thesis by simp
qed

lemma utf8_points_1: "c < 0x80 \<Longrightarrow> utf8_points (utf8_cp c @ r) = c # utf8_points r"
  by (simp add: utf8_cp_def Let_def)

lemma utf8_points_2:
  assumes "0x80 \<le> c" "c < 0x800"
  shows "utf8_points (utf8_cp c @ r) = c # utf8_points r"
proof -
  define h l where "h = c div 0x40" and "l = c mod 0x40"
  have c: "c = h * 0x40 + l" "l < 0x40" by (simp_all add: h_def l_def)
  then have h: "2 \<le> h" "h < 0x20" using assms by linarith+
  have "utf8_cp c = [byte_of (0xC0 + h), byte_of (0x80 + l)]"
    using assms by (simp add: utf8_cp_def h_def l_def)
  then show ?thesis using c h by (simp add: cont_def Let_def)
qed

lemma utf8_points_3:
  assumes "0x800 \<le> c" "c < 0x10000" "scalar c"
  shows "utf8_points (utf8_cp c @ r) = c # utf8_points r"
proof -
  define h m l where "h = c div 0x1000" and "m = c div 0x40 mod 0x40" and "l = c mod 0x40"
  have m: "m < 0x40" and l: "l < 0x40" by (simp_all add: m_def l_def)
  have "c div 0x40 = h * 0x40 + m"
    using Euclidean_Rings.div_mult2_eq [of c 64 64] by (simp add: h_def m_def)
  then have c: "c = h * 0x1000 + m * 0x40 + l" using div_mult_mod_eq [of c 64] by (simp add: l_def)
  have h: "h < 0x10" "h = 0 \<longrightarrow> 0x20 \<le> m" using assms c m l by linarith+
  have s: "h = 0xD \<longrightarrow> m \<le> 31" using assms c m l unfolding scalar_def by linarith
  have "utf8_cp c = [byte_of (0xE0 + h), byte_of (0x80 + m), byte_of (0x80 + l)]"
    using assms by (simp add: utf8_cp_def h_def m_def l_def)
  then show ?thesis using m l h s by (simp add: cont_def Let_def c)
qed

lemma utf8_points_4:
  assumes "0x10000 \<le> c" "c < 0x110000"
  shows "utf8_points (utf8_cp c @ r) = c # utf8_points r"
proof -
  define h k m l where "h = c div 0x40000" and "k = c div 0x1000 mod 0x40"
    and "m = c div 0x40 mod 0x40" and "l = c mod 0x40"
  have k: "k < 0x40" and m: "m < 0x40" and l: "l < 0x40" by (simp_all add: k_def m_def l_def)
  have "c div 0x1000 = h * 0x40 + k"
    using Euclidean_Rings.div_mult2_eq [of c 4096 64] by (simp add: h_def k_def)
  moreover have "c div 0x40 = c div 0x1000 * 0x40 + m"
    using Euclidean_Rings.div_mult2_eq [of c 64 64] by (simp add: m_def)
  ultimately have c: "c = h * 0x40000 + k * 0x1000 + m * 0x40 + l"
    using div_mult_mod_eq [of c 64] by (simp add: l_def)
  have h: "h < 5" "h = 0 \<longrightarrow> 0x10 \<le> k" "h = 4 \<longrightarrow> k \<le> 15" using assms c k m l by linarith+
  have "utf8_cp c = [byte_of (0xF0 + h), byte_of (0x80 + k), byte_of (0x80 + m), byte_of (0x80 + l)]"
    using assms by (simp add: utf8_cp_def h_def k_def m_def l_def)
  then show ?thesis using k m l h by (simp add: cont_def Let_def c)
qed

lemma utf8_points_cp: "scalar c \<Longrightarrow> utf8_points (utf8_cp c @ r) = c # utf8_points r"
  by (cases "c < 0x80"; cases "c < 0x800"; cases "c < 0x10000")
    (simp_all add: utf8_points_1 utf8_points_2 utf8_points_3 utf8_points_4 scalar_def)

lemma utf8_points_encode: "list_all scalar cs \<Longrightarrow> utf8_points (concat (map utf8_cp cs)) = cs"
  by (induction cs) (simp_all add: utf8_points_cp)

lemma surrogate_pair_scalar: "is_high a \<Longrightarrow> is_low b \<Longrightarrow> scalar (surrogate_pair a b)"
proof -
  assume "is_high a" "is_low b"
  then have "unat a - 0xD800 < 0x400" "unat b - 0xDC00 < 0x400" by (auto simp: is_high_def is_low_def)
  then show ?thesis unfolding scalar_def surrogate_pair_def by linarith
qed

lemma code_points_scalar: "list_all scalar (code_points s)"
proof (induction s rule: code_points.induct)
  case (2 a)
  then show ?case using unat_unit_bound [of a] by (auto simp: scalar_def is_high_def is_low_def)
next
  case (3 a b s)
  then show ?case
    using unat_unit_bound [of a]
    by (auto simp: surrogate_pair_scalar) (auto simp: scalar_def is_high_def is_low_def)
qed simp

lemma utf16_pair: "is_high a \<Longrightarrow> is_low b \<Longrightarrow> utf16_cp (surrogate_pair a b) = [a, b]"
proof -
  assume ab: "is_high a" "is_low b"
  define x y where "x = unat a - 0xD800" and "y = unat b - 0xDC00"
  have xy: "y < 0x400" "unat a = 0xD800 + x" "unat b = 0xDC00 + y"
    using ab by (auto simp: is_high_def is_low_def x_def y_def)
  have "surrogate_pair a b = 0x10000 + (x * 0x400 + y)" by (simp add: surrogate_pair_def x_def y_def)
  moreover have "(x * 0x400 + y) div 0x400 = x" "(x * 0x400 + y) mod 0x400 = y" using xy by simp_all
  ultimately show ?thesis
    using xy by (simp add: utf16_cp_def flip: xy(2,3))
qed

lemma code_points_units: "well_formed s \<Longrightarrow> concat (map utf16_cp (code_points s)) = s"
proof (induction s rule: code_points.induct)
  case (2 a)
  then show ?case using unat_unit_bound [of a] by (simp add: utf16_cp_def)
next
  case (3 a b s)
  then show ?case using unat_unit_bound [of a]
    by (auto simp: utf16_pair split: if_splits) (simp add: utf16_cp_def)
qed simp

lemma utf8_decode_bom_encode: "well_formed s \<Longrightarrow> utf8_decode_bom (utf8_encode s) = s"
  by (simp add: utf8_decode_bom_def utf8_encode_def utf8_points_encode code_points_scalar code_points_units)

section \<open>ASCII and byte order marks\<close>

lemma code_points_ascii: "list_all (\<lambda>u. unat u < 128) s \<Longrightarrow> code_points s = map unat s"
  by (induction s rule: code_points.induct) (auto simp: is_high_def is_low_def)

lemma utf8_encode_ascii: "list_all (\<lambda>u. unat u < 128) s \<Longrightarrow> utf8_encode s = map (\<lambda>u. byte_of (unat u)) s"
  by (simp add: utf8_encode_def code_points_ascii list_all_iff utf8_cp_def o_def cong: map_cong)

lemma map_ucast_utf8: "list_all (\<lambda>u. unat u < 128) s \<Longrightarrow> utf8_encode s = map ucast s"
proof -
  have "ucast u = byte_of (unat u)" for u :: "16 word" unfolding byte_of_def by transfer simp
  then show "list_all (\<lambda>u. unat u < 128) s \<Longrightarrow> utf8_encode s = map ucast s"
    by (simp add: utf8_encode_ascii)
qed

lemma utf8_encode_append_ascii:
  "list_all (\<lambda>u. unat u < 128) s \<Longrightarrow> utf8_encode (s @ t) = utf8_encode s @ utf8_encode t"
proof (induction s)
  case Nil
  then show ?case by (simp add: utf8_encode_def)
next
  case (Cons a s)
  then have "\<not> is_high a" "\<not> is_low a" by (auto simp: is_high_def is_low_def)
  then have c: "code_points (a # x) = unat a # code_points x" for x by (cases x) auto
  from Cons show ?case by (simp add: utf8_encode_def c)
qed

lemma utf8_encode_digits: "list_all is_digit s \<Longrightarrow> utf8_encode s = map (\<lambda>u. byte_of (unat u)) s"
  by (rule utf8_encode_ascii) (auto simp: list_all_iff is_digit_unat)

text \<open>A leading byte order mark is the only well-formed text that \<open>TextDecoder\<close> changes.\<close>

lemma utf8_bom: "utf8_points (0xEF # 0xBB # 0xBF # r) = 0xFEFF # utf8_points r"
  by (simp add: cont_def Let_def)

lemma utf8_decode_encode:
  assumes "well_formed s" "s = [] \<or> hd s \<noteq> 0xFEFF"
  shows "utf8_decode (utf8_encode s) = s"
proof -
  have "take 3 (utf8_encode s) \<noteq> [0xEF, 0xBB, 0xBF]"
  proof
    assume "take 3 (utf8_encode s) = [0xEF, 0xBB, 0xBF]"
    then have e: "utf8_encode s = 0xEF # 0xBB # 0xBF # drop 3 (utf8_encode s)"
      by (metis append_take_drop_id append_Cons append_Nil)
    have "utf8_points (utf8_encode s) = code_points s"
      by (simp add: utf8_encode_def utf8_points_encode code_points_scalar)
    then have "code_points s = 0xFEFF # utf8_points (drop 3 (utf8_encode s))"
      using arg_cong [OF e, of utf8_points] by (simp only: utf8_bom)
    then have "s = utf16_cp 0xFEFF @ concat (map utf16_cp (utf8_points (drop 3 (utf8_encode s))))"
      using code_points_units [OF assms(1)] by (metis concat.simps(2) list.simps(9))
    then obtain r where "s = 0xFEFF # r" by (simp add: utf16_cp_def unit_of_def)
    then have "s \<noteq> [] \<and> hd s = 0xFEFF" by simp
    with assms(2) show False by simp
  qed
  then show ?thesis using assms(1) by (simp add: utf8_decode_def utf8_decode_bom_encode)
qed

lemma utf8_encode_inj:
  "well_formed s \<Longrightarrow> well_formed t \<Longrightarrow> utf8_encode s = utf8_encode t \<Longrightarrow> s = t"
  by (metis utf8_decode_bom_encode)

end
