(* ===== verification/Msig_Encode.thy ===== *)
theory Msig_Encode
  imports Msig_Definition Msig_Hash JS_Utf8
begin

text \<open>
  \<open>lib/msig/encode.ts\<close>: the bytes of a custom intent's parameters from their text.  The
  base58 decoder of the package \<open>bs58\<close> is the argument \<open>b58dec\<close>, \<open>None\<close> where it throws.
  \<open>console.warn\<close> on unknown keys has no effect on the result and is left out.
\<close>

section \<open>Operations\<close>

record EncodeParamsContext =
  params :: "ParamEntry list"
  bytePool :: bytes

definition decodeBase58 :: "(jsstr \<Rightarrow> bytes option) \<Rightarrow> jsstr \<Rightarrow> bytes res" where
  "decodeBase58 b58dec value =
     (case b58dec value of None \<Rightarrow> Inl (Thrown ''encodeParams: invalid base58 address'') | Some b \<Rightarrow> Inr b)"

definition parseUnsigned :: "jsstr \<Rightarrow> nat \<Rightarrow> int res" where
  "parseUnsigned value bits =
     (case big_int value of
        None \<Rightarrow> Inl (Thrown ''encodeParams: not a valid integer'')
      | Some big \<Rightarrow>
          if big < 0 then Inl (Thrown ''encodeParams: must be non-negative'')
          else if big > 2 ^ bits - 1 then Inl (Thrown ''encodeParams: does not fit'')
          else Inr big)"

definition parseSigned :: "jsstr \<Rightarrow> nat \<Rightarrow> int res" where
  "parseSigned value bits =
     (case big_int value of
        None \<Rightarrow> Inl (Thrown ''encodeParams: not a valid integer'')
      | Some big \<Rightarrow>
          if big < - (2 ^ (bits - 1)) \<or> big > 2 ^ (bits - 1) - 1
          then Inl (Thrown ''encodeParams: does not fit'')
          else Inr big)"

definition u64LeBytes :: "int \<Rightarrow> bytes" where
  "u64LeBytes v = le_bytes 8 v"

definition i64LeBytes :: "int \<Rightarrow> bytes" where
  "i64LeBytes v = le_bytes 8 v"

definition u128LeBytes :: "int \<Rightarrow> bytes" where
  "u128LeBytes v = (let lo = v AND (2 ^ 64 - 1); hi = drop_bit 64 v in le_bytes 8 lo @ le_bytes 8 hi)"

definition byte_num :: "int \<Rightarrow> byte" where
  "byte_num v = word_of_int v"

definition exactly :: "nat \<Rightarrow> string \<Rightarrow> bytes \<Rightarrow> bytes res" where
  "exactly n l bytes = (if length bytes \<noteq> n then Inl (Thrown l) else Inr bytes)"

fun encodeOne :: "(jsstr \<Rightarrow> bytes option) \<Rightarrow> ParamType \<Rightarrow> jsstr \<Rightarrow> bytes res" where
  "encodeOne b58dec PT_Address value =
     ebind (decodeBase58 b58dec value) (exactly 32 ''encodeParams: address must be 32 bytes'')"
| "encodeOne b58dec PT_U64 value = ebind (parseUnsigned value 64) (\<lambda>v. Inr (u64LeBytes v))"
| "encodeOne b58dec PT_I64 value = ebind (parseSigned value 64) (\<lambda>v. Inr (i64LeBytes v))"
| "encodeOne b58dec PT_String value =
     (let utf8 = utf8_encode value in
      if length utf8 > 255 then Inl (Thrown ''encodeParams: string param too long'')
      else Inr (word_of_nat (length utf8) # utf8))"
| "encodeOne b58dec PT_Bool value =
     (if value = js ''true'' \<or> value = js ''1'' then Inr [1]
      else if value = js ''false'' \<or> value = js ''0'' then Inr [0]
      else Inl (Thrown ''encodeParams: bool expects true/false/0/1''))"
| "encodeOne b58dec PT_U8 value = ebind (parseUnsigned value 8) (\<lambda>v. Inr [byte_num v])"
| "encodeOne b58dec PT_U16 value =
     ebind (parseUnsigned value 16) (\<lambda>v. Inr [byte_num (js_and v 255), byte_num (js_and (js_shr v 8) 255)])"
| "encodeOne b58dec PT_U32 value =
     ebind (parseUnsigned value 32) (\<lambda>v.
       Inr [byte_num (js_and v 255), byte_num (js_and (js_shr v 8) 255),
            byte_num (js_and (js_shr v 16) 255), byte_num (js_and (js_shr v 24) 255)])"
| "encodeOne b58dec PT_U128 value = ebind (parseUnsigned value 128) (\<lambda>v. Inr (u128LeBytes v))"
| "encodeOne b58dec PT_Bytes20 value =
     ebind (fromHex value) (exactly 20 ''encodeParams: bytes20 must be 20 bytes'')"
| "encodeOne b58dec PT_Bytes32 value =
     ebind (fromHex value) (exactly 32 ''encodeParams: bytes32 must be 32 bytes'')"
| "encodeOne b58dec (PT_Unknown b) value = Inl (Thrown ''encodeParams: unknown ParamType'')"

definition param_name :: "bytes \<Rightarrow> ParamEntry \<Rightarrow> jsstr" where
  "param_name pool p = utf8_decode (slice (nameOffset p) (nameOffset p + nameLen p) pool)"

text \<open>\<open>kv\<close> is the record of values by name; a name it does not have reads as \<open>undefined\<close>.\<close>

definition encode_param ::
  "(jsstr \<Rightarrow> bytes option) \<Rightarrow> bytes \<Rightarrow> (jsstr \<rightharpoonup> jsstr) \<Rightarrow> ParamEntry \<Rightarrow> bytes res" where
  "encode_param b58dec pool kv param =
     (case kv (param_name pool param) of
        None \<Rightarrow> Inl (Thrown ''encodeParams: missing required param'')
      | Some value \<Rightarrow> encodeOne b58dec (paramType param) value)"

definition encodeParams ::
  "(jsstr \<Rightarrow> bytes option) \<Rightarrow> EncodeParamsContext \<Rightarrow> (jsstr \<rightharpoonup> jsstr) \<Rightarrow> bytes res" where
  "encodeParams b58dec intent kv =
     ebind (emap (encode_param b58dec (bytePool intent) kv) (params intent)) (\<lambda>chunks. Inr (concat chunks))"

section \<open>Lemmas\<close>

lemma exactly_Inr [err_simps]: "exactly n l b = Inr c \<longleftrightarrow> length b = n \<and> c = b"
  by (auto simp: exactly_def)

lemma encodeOne_chunk_ok: "encodeOne b58dec t value = Inr c \<Longrightarrow> chunk_ok t c"
proof (cases t)
  case PT_String
  assume "encodeOne b58dec t value = Inr c"
  with PT_String have "length (utf8_encode value) \<le> 255" "c = word_of_nat (length (utf8_encode value)) # utf8_encode value"
    by (auto simp: Let_def split: if_splits)
  moreover from this have "unat (word_of_nat (length (utf8_encode value)) :: byte) = length (utf8_encode value)"
    using unat_byte_of [of "length (utf8_encode value)"] by (simp add: byte_of_def)
  ultimately show ?thesis using PT_String by (simp add: chunk_ok_def)
qed (auto simp: chunk_ok_def err_simps u64LeBytes_def i64LeBytes_def u128LeBytes_def Let_def split: if_splits)

lemma encodeParams_chunks:
  assumes "encodeParams b58dec intent kv = Inr data"
  obtains cs where "data = concat cs"
    and "list_all2 (\<lambda>p c. encode_param b58dec (bytePool intent) kv p = Inr c) (params intent) cs"
    and "list_all2 (\<lambda>p c. chunk_ok (paramType p) c) (params intent) cs"
proof -
  from assms obtain cs where "data = concat cs"
    and l: "list_all2 (\<lambda>p c. encode_param b58dec (bytePool intent) kv p = Inr c) (params intent) cs"
    by (auto simp: encodeParams_def ebind_Inr_iff emap_Inr_iff)
  moreover from l have "list_all2 (\<lambda>p c. chunk_ok (paramType p) c) (params intent) cs"
    by (rule list_all2_mono) (auto simp: encode_param_def dest: encodeOne_chunk_ok split: option.splits)
  ultimately show ?thesis using that by blast
qed

end
