(* ===== verification/Decimal_Text.thy ===== *)
theory Decimal_Text
  imports JS_Strings
begin

text \<open>
  Amounts as decimal text.  The application reads and writes amounts in several places (SOL,
  BTC, ZEC, ETH, tokens, policy limits), always with the same two steps: a text of digits
  with at most one point is cut at the point, the fraction is filled up to the decimals of the
  asset and both parts are read as \<open>BigInt\<close>; an amount is divided by the power of ten and the
  remainder is printed behind a point without its trailing zeros.
\<close>

section \<open>Reading\<close>

text \<open>The amount a decimal text denotes, in units of \<open>10 ^ -d\<close>.\<close>

definition decimal_units :: "nat \<Rightarrow> jsstr \<Rightarrow> nat" where
  "decimal_units d s =
     (case split_on 46 s of
        [i] \<Rightarrow> digits_val i * 10 ^ d
      | i # f # _ \<Rightarrow> digits_val i * 10 ^ d + digits_val (pad_end d 0x30 f))"

text \<open>The test \<open>/^\d+(\.\d+)?$/\<close>.\<close>

definition decimal_text :: "jsstr \<Rightarrow> bool" where
  "decimal_text s = (case split_on 0x2E s of
       [w] \<Rightarrow> w \<noteq> [] \<and> list_all is_digit w
     | [w, f] \<Rightarrow> w \<noteq> [] \<and> list_all is_digit w \<and> f \<noteq> [] \<and> list_all is_digit f
     | _ \<Rightarrow> False)"

text \<open>\<open>BigInt(text)\<close>, and the part of a text behind its first point.\<close>

definition toBigInt :: "jsstr \<Rightarrow> int res" where
  "toBigInt s = (case big_int s of None \<Rightarrow> Inl SyntaxError | Some v \<Rightarrow> Inr v)"

definition fraction_of :: "jsstr \<Rightarrow> jsstr" where
  "fraction_of s = (let parts = split_on 0x2E s in if length parts < 2 then [] else parts ! 1)"

definition whole_of :: "jsstr \<Rightarrow> jsstr" where
  "whole_of s = hd (split_on 0x2E s)"

lemma digit_not_special: "is_digit c \<Longrightarrow> c \<noteq> 46 \<and> c \<noteq> 45 \<and> c \<noteq> 43 \<and> c \<noteq> 120 \<and> c \<noteq> 88 \<and> c \<noteq> 111 \<and> c \<noteq> 79 \<and> c \<noteq> 98 \<and> c \<noteq> 66 \<and> \<not> js_space c"
proof -
  assume c: "is_digit c"
  then obtain n where n: "c = digit_char n" "n < 10" by (metis digit_char_val digit_val_less)
  have "\<forall>n \<in> set [0..<10]. digit_char n \<noteq> 46 \<and> digit_char n \<noteq> 45 \<and> digit_char n \<noteq> 43 \<and> digit_char n \<noteq> 120 \<and> digit_char n \<noteq> 88
      \<and> digit_char n \<noteq> 111 \<and> digit_char n \<noteq> 79 \<and> digit_char n \<noteq> 98 \<and> digit_char n \<noteq> 66 \<and> \<not> js_space (digit_char n)"
    by code_simp
  with n show ?thesis by simp
qed

lemma digits_no_point: "list_all is_digit s \<Longrightarrow> 46 \<notin> set s"
  using digit_not_special by (auto simp: list_all_iff)

lemma trim_digits_ends: "s \<noteq> [] \<Longrightarrow> is_digit (hd s) \<Longrightarrow> is_digit (last s) \<Longrightarrow> trim s = s"
  by (rule trim_id) (simp add: digit_not_special)

lemma toBigInt_digits:
  assumes "list_all is_digit s"
  shows "toBigInt s = Inr (int (digits_val s))"
proof (cases s)
  case Nil
  then show ?thesis by (simp add: toBigInt_def big_int_def trim_def rstrip_def)
next
  case (Cons c r)
  have "trim s = s" using assms Cons by (intro trim_digits_ends) (auto simp: list_all_iff)
  moreover have "r \<noteq> [] \<Longrightarrow> is_digit (hd r)" using assms Cons by (auto simp: list_all_iff)
  moreover have "is_digit c" using assms Cons by simp
  ultimately show ?thesis
    using assms Cons digit_not_special [of c] digit_not_special [of "hd r"]
    by (auto simp: toBigInt_def big_int_def dec_opt_def)
qed

lemma split_point: "list_all is_digit w \<Longrightarrow> split_on 46 (w @ 46 # f) = w # split_on 46 f"
  by (rule split_on_one) (rule digits_no_point)

lemma decimal_textE:
  assumes "decimal_text s"
  obtains (whole) "list_all is_digit s" "s \<noteq> []" "split_on 46 s = [s]"
    | (point) w f where "s = w @ 46 # f" "list_all is_digit w" "list_all is_digit f" "w \<noteq> []" "f \<noteq> []" "split_on 46 s = [w, f]"
proof -
  have join: "s = (case split_on 46 s of [] \<Rightarrow> [] | x # xs \<Rightarrow> x @ concat (map (\<lambda>p. 46 # p) xs))" for s :: jsstr
    by (induction s) (auto split: list.splits)
  show thesis
    using assms join [of s] whole point by (auto simp: decimal_text_def split: list.splits)
qed

lemma decimal_text_whole: "list_all is_digit w \<Longrightarrow> w \<noteq> [] \<Longrightarrow> decimal_text w"
  by (simp add: decimal_text_def split_on_no_sep digits_no_point)

lemma decimal_text_point: "list_all is_digit w \<Longrightarrow> w \<noteq> [] \<Longrightarrow> list_all is_digit f \<Longrightarrow> f \<noteq> [] \<Longrightarrow> decimal_text (w @ 46 # f)"
  by (simp add: decimal_text_def split_point split_on_no_sep digits_no_point)

lemma trim_decimal_text [simp]: "decimal_text s \<Longrightarrow> trim s = s"
  by (erule decimal_textE; rule trim_digits_ends) (auto simp: list_all_iff)

lemma digits_val_pad_end [simp]: "digits_val (pad_end d 48 f) = digits_val f * 10 ^ (d - length f)"
  by (simp add: pad_end_def digits_val_append)

lemma decimal_parts:
  assumes "decimal_text s"
  shows "list_all is_digit (whole_of s)" "list_all is_digit (fraction_of s)"
    "decimal_units d s = digits_val (whole_of s) * 10 ^ d + digits_val (pad_end d 0x30 (fraction_of s))"
  using assms by (auto elim!: decimal_textE simp: whole_of_def fraction_of_def decimal_units_def)

text \<open>What every reader of amounts computes from the two parts.\<close>

lemma read_units:
  assumes "decimal_text s"
  shows "ebind (toBigInt (whole_of s)) (\<lambda>w. ebind (toBigInt (pad_end d 0x30 (fraction_of s))) (\<lambda>f. Inr (w * 10 ^ d + f)))
    = Inr (int (decimal_units d s))"
proof -
  have "list_all is_digit (pad_end d 0x30 (fraction_of s))"
    using decimal_parts(2) [OF assms] by (auto simp: pad_end_def list_all_iff is_digit_def)
  with decimal_parts(1,2) [OF assms] decimal_parts(3) [OF assms, of d] show ?thesis by (simp add: toBigInt_digits)
qed

section \<open>Writing\<close>

text \<open>\<open>s.replace(/0+$/, "")\<close>.\<close>

definition strip_zeros :: "jsstr \<Rightarrow> jsstr" where
  "strip_zeros s = rstrip (\<lambda>c. c = 0x30) s"

lemma strip_zeros_split: "s = strip_zeros s @ replicate (length s - length (strip_zeros s)) 0x30"
proof (induction s rule: rev_induct)
  case Nil
  then show ?case by (simp add: strip_zeros_def rstrip_def)
next
  case (snoc c s)
  show ?case
  proof (cases "c = 48")
    case True
    have "strip_zeros (s @ [c]) = strip_zeros s" using True by (simp add: strip_zeros_def rstrip_def)
    moreover have "length (strip_zeros s) \<le> length s" using snoc.IH by (metis length_append le_add1)
    ultimately show ?thesis using snoc.IH True
      by (metis Suc_diff_le append_assoc length_append_singleton replicate_append_same replicate_Suc)
  next
    case False
    then show ?thesis by (simp add: strip_zeros_def rstrip_def)
  qed
qed

lemma strip_zeros_length: "length (strip_zeros s) \<le> length s"
  using strip_zeros_split [of s] by (metis length_append le_add1)

lemma strip_zeros_last: "strip_zeros s \<noteq> [] \<Longrightarrow> last (strip_zeros s) \<noteq> 48"
  unfolding strip_zeros_def rstrip_def by (metis (mono_tags) hd_dropWhile last_rev rev_is_Nil_conv)

lemma digits_val_strip: "digits_val s = digits_val (strip_zeros s) * 10 ^ (length s - length (strip_zeros s))"
  using strip_zeros_split [of s] digits_val_append [of "strip_zeros s" "replicate (length s - length (strip_zeros s)) 0x30"] by simp

lemma pad_end_strip: "length s = d \<Longrightarrow> pad_end d 0x30 (strip_zeros s) = s"
  using strip_zeros_split [of s] by (simp add: pad_end_def)

lemma strip_zeros_digits: "list_all is_digit s \<Longrightarrow> list_all is_digit (strip_zeros s)"
  using strip_zeros_split [of s] by (metis list_all_append)

text \<open>The text of \<open>v\<close> units of \<open>10 ^ -d\<close>.\<close>

definition units_text :: "nat \<Rightarrow> nat \<Rightarrow> jsstr" where
  "units_text d v =
     (let frac = strip_zeros (pad_start d 0x30 (show_nat (v mod 10 ^ d))) in
      if d = 0 \<or> frac = [] then show_nat (v div 10 ^ d) else show_nat (v div 10 ^ d) @ 0x2E # frac)"

lemma show_nat_length: "0 < d \<Longrightarrow> n < 10 ^ d \<Longrightarrow> length (show_nat n) \<le> d"
proof (induction n arbitrary: d rule: show_nat.induct)
  case (1 n)
  show ?case
  proof (cases "n < 10")
    case True
    then show ?thesis using 1 by (subst show_nat.simps) simp
  next
    case False
    then have "1 < d" using "1.prems" by (cases "d = 1") auto
    then obtain k where d: "d = Suc k" "0 < k" by (cases d) auto
    then have "n div 10 < 10 ^ k" using "1.prems" by (simp add: less_mult_imp_div_less mult.commute)
    with 1 False d show ?thesis by (subst show_nat.simps) auto
  qed
qed

lemma pad_digits:
  assumes "0 < d" "r < 10 ^ d"
  shows "length (pad_start d 0x30 (show_nat r)) = d" "list_all is_digit (pad_start d 0x30 (show_nat r))"
    "digits_val (pad_start d 0x30 (show_nat r)) = r"
  using show_nat_length [OF assms] by (auto simp: pad_start_def digits_val_append list_all_iff is_digit_def)
    (use show_nat_digits [of r] in \<open>auto simp: list_all_iff is_digit_def\<close>)

lemma units_text_form:
  obtains (whole) "units_text d v = show_nat (v div 10 ^ d)" "v mod 10 ^ d = 0"
    | (point) f where "units_text d v = show_nat (v div 10 ^ d) @ 46 # f" "f \<noteq> []" "list_all is_digit f" "length f \<le> d"
        "digits_val (pad_end d 0x30 f) = v mod 10 ^ d" "last f \<noteq> 48"
proof (cases "d = 0")
  case True
  then show thesis by (intro whole) (simp_all add: units_text_def)
next
  case False
  define p where "p = pad_start d 0x30 (show_nat (v mod 10 ^ d))"
  have p: "length p = d" "list_all is_digit p" "digits_val p = v mod 10 ^ d"
    using pad_digits [of d "v mod 10 ^ d"] False by (simp_all add: p_def)
  show thesis
  proof (cases "strip_zeros p = []")
    case True
    then have "v mod 10 ^ d = 0" using digits_val_strip [of p] p(3) by simp
    with True show thesis by (intro whole) (simp_all add: units_text_def p_def)
  next
    case ne: False
    show thesis
    proof (rule point)
      show "units_text d v = show_nat (v div 10 ^ d) @ 46 # strip_zeros p" using False ne by (simp add: units_text_def p_def Let_def)
    qed (use ne p strip_zeros_length [of p] in \<open>simp_all add: pad_end_strip strip_zeros_digits strip_zeros_last\<close>)
  qed
qed

lemma decimal_text_units: "decimal_text (units_text d v)"
  by (rule units_text_form [of d v]) (simp_all add: decimal_text_whole decimal_text_point)

lemma fraction_units: "length (fraction_of (units_text d v)) \<le> d"
  by (rule units_text_form [of d v])
    (simp_all add: fraction_of_def split_point split_on_no_sep digits_no_point)

lemma decimal_units_text [simp]: "decimal_units d (units_text d v) = v"
proof (rule units_text_form [of d v])
  assume t: "units_text d v = show_nat (v div 10 ^ d)" "v mod 10 ^ d = 0"
  have "v div 10 ^ d * 10 ^ d = v" using t(2) div_mult_mod_eq [of v "10 ^ d"] by simp
  with t(1) show ?thesis by (simp add: decimal_units_def split_on_no_sep digits_no_point)
next
  fix f assume "units_text d v = show_nat (v div 10 ^ d) @ 46 # f" "list_all is_digit f" "digits_val (pad_end d 0x30 f) = v mod 10 ^ d"
  then show ?thesis by (simp add: decimal_units_def split_point split_on_no_sep digits_no_point div_mult_mod_eq)
qed

section \<open>The contract of an amount format\<close>

text \<open>
  A format of amounts: what it writes is read back.  Then two amounts are written alike only
  when they are equal, and reading and writing again changes nothing that was written.
\<close>

locale amount_format =
  fixes print :: "nat \<Rightarrow> jsstr"
    and parse :: "jsstr \<Rightarrow> 'e + int"
    and fits :: "nat \<Rightarrow> bool"
  assumes parse_print: "fits v \<Longrightarrow> parse (print v) = Inr (int v)"
begin

lemma print_inj: "fits v \<Longrightarrow> fits w \<Longrightarrow> print v = print w \<Longrightarrow> v = w"
  by (metis parse_print of_nat_eq_iff sum.inject(2))

lemma print_parse_print: "fits v \<Longrightarrow> parse (print v) = Inr w \<Longrightarrow> print (nat w) = print v"
  by (auto simp: parse_print)

end

end
