(* ===== verification/Msig_Render.thy ===== *)
theory Msig_Render
  imports Msig_Encode Decimal_Text
begin

text \<open>
  \<open>lib/msig/render.ts\<close>: the template of an intent, with each \<open>{N}\<close> or \<open>{N:10^D}\<close>
  replaced by the text of parameter \<open>N\<close>.  \<open>b58enc\<close> is the encoder of the package
  \<open>bs58\<close>.
\<close>

section \<open>Reading parameters\<close>

definition readU64Le :: "bytes \<Rightarrow> nat \<Rightarrow> int res" where
  "readU64Le d off =
     (if off + 8 > length d then Inl (Thrown ''readU64Le: OOB'') else Inr (le_val (slice off (off + 8) d)))"

definition readI64Le :: "bytes \<Rightarrow> nat \<Rightarrow> int res" where
  "readI64Le d off =
     (if off + 8 > length d then Inl (Thrown ''readI64Le: OOB'') else Inr (le_sval (slice off (off + 8) d)))"

definition readU128Le :: "bytes \<Rightarrow> nat \<Rightarrow> int res" where
  "readU128Le d off =
     (if off + 16 > length d then Inl (Thrown ''readU128Le: OOB'')
      else let lo = le_val (slice off (off + 8) d); hi = le_val (slice (off + 8) (off + 16) d)
           in Inr (push_bit 64 hi OR lo))"

definition decodeAscii :: "bytes \<Rightarrow> jsstr" where
  "decodeAscii bs = map ucast bs"

section \<open>Decimal shift\<close>

fun drop_zeros_end :: "jsstr \<Rightarrow> nat \<Rightarrow> nat" where
  "drop_zeros_end frac 0 = 0"
| "drop_zeros_end frac (Suc k) = (if frac ! k = 0x30 then drop_zeros_end frac k else Suc k)"

definition formatDecimalU64 :: "int \<Rightarrow> nat \<Rightarrow> jsstr" where
  "formatDecimalU64 val decimals =
     (if decimals = 0 then show_int val
      else let scale = 10 ^ decimals;
               intPart = val sdiv scale;
               fracPart = val smod scale;
               out = show_int intPart
           in if fracPart > 0 then
                let frac0 = show_int fracPart;
                    frac = (if length frac0 < decimals then replicate (decimals - length frac0) 0x30 @ frac0 else frac0)
                in out @ js ''.'' @ take (drop_zeros_end frac (length frac)) frac
              else out)"

text \<open>The loop of \<open>parseDecimalNonNegative\<close>, which stops above a thousand million.\<close>

fun parse_digits :: "nat \<Rightarrow> jsstr \<Rightarrow> nat res" where
  "parse_digits n [] = Inr n"
| "parse_digits n (c # s) =
     (if c < 0x30 \<or> c > 0x39 then Inl (Thrown ''renderTemplate: non-digit'')
      else let n' = n * 10 + (unat c - 0x30) in
           if n' > 1000000000 then Inl (Thrown ''renderTemplate: too large'') else parse_digits n' s)"

definition parseDecimalNonNegative :: "jsstr \<Rightarrow> nat res" where
  "parseDecimalNonNegative s =
     (if length s = 0 then Inl (Thrown ''renderTemplate: empty'') else parse_digits 0 s)"

definition parseDecimalSpec :: "jsstr \<Rightarrow> nat res" where
  "parseDecimalSpec spec =
     (if \<not> starts_with spec (js ''10^'') then Inl (Thrown ''renderTemplate: invalid format spec'')
      else ebind (parseDecimalNonNegative (drop 3 spec)) (\<lambda>n.
           if n > 19 then Inl (Thrown ''renderTemplate: decimal shift too large'') else Inr n))"

section \<open>Rendering\<close>

text \<open>
  Reads past the end of \<open>paramsData\<close> give \<open>undefined\<close>: an unequal of 0 for \<open>Bool\<close>, an
  exception for \<open>U8\<close>, 0 for the bitwise reads and an empty text for the string length.
\<close>

fun renderParamAt :: "(bytes \<Rightarrow> jsstr) \<Rightarrow> bytes \<Rightarrow> ParamType \<Rightarrow> nat \<Rightarrow> jsstr option \<Rightarrow> bytes res" where
  "renderParamAt b58enc d PT_Address off fmt = Inr (utf8_encode (b58enc (slice off (off + 32) d)))"
| "renderParamAt b58enc d PT_U64 off fmt =
     ebind (readU64Le d off) (\<lambda>v.
       case fmt of
         Some f \<Rightarrow> ebind (parseDecimalSpec f) (\<lambda>decimals. Inr (utf8_encode (formatDecimalU64 v decimals)))
       | None \<Rightarrow> Inr (utf8_encode (show_int v)))"
| "renderParamAt b58enc d PT_I64 off fmt = ebind (readI64Le d off) (\<lambda>v. Inr (utf8_encode (show_int v)))"
| "renderParamAt b58enc d PT_String off fmt =
     Inr (case byte_at d off of None \<Rightarrow> [] | Some len \<Rightarrow> slice (off + 1) (off + 1 + unat len) d)"
| "renderParamAt b58enc d PT_Bool off fmt =
     Inr (utf8_encode (if byte_at d off \<noteq> Some 0 then js ''true'' else js ''false''))"
| "renderParamAt b58enc d PT_U8 off fmt =
     (case byte_at d off of None \<Rightarrow> Inl TypeError | Some b \<Rightarrow> Inr (utf8_encode (show_int (uint b))))"
| "renderParamAt b58enc d PT_U16 off fmt =
     Inr (utf8_encode (show_int (js_or (num_at d off) (js_shl (num_at d (off + 1)) 8))))"
| "renderParamAt b58enc d PT_U32 off fmt =
     (let v = js_or (js_or (js_or (num_at d off) (js_shl (num_at d (off + 1)) 8))
                (js_shl (num_at d (off + 2)) 16)) (js_shl (num_at d (off + 3)) 24)
      in Inr (utf8_encode (show_int (js_ushr v 0))))"
| "renderParamAt b58enc d PT_U128 off fmt = ebind (readU128Le d off) (\<lambda>v. Inr (utf8_encode (show_int v)))"
| "renderParamAt b58enc d PT_Bytes20 off fmt = Inr (utf8_encode (js ''0x'' @ toHex (slice off (off + 20) d)))"
| "renderParamAt b58enc d PT_Bytes32 off fmt = Inr (utf8_encode (js ''0x'' @ toHex (slice off (off + 32) d)))"
| "renderParamAt b58enc d (PT_Unknown b) off fmt = Inl (Thrown ''renderTemplate: unknown ParamType'')"

definition renderParam ::
  "(bytes \<Rightarrow> jsstr) \<Rightarrow> ParamEntry list \<Rightarrow> bytes \<Rightarrow> nat \<Rightarrow> jsstr option \<Rightarrow> bytes res" where
  "renderParam b58enc ps d idx fmt =
     (if idx < length ps
      then ebind (paramOffsetAt ps d idx) (\<lambda>off. renderParamAt b58enc d (paramType (ps ! idx)) off fmt)
      else Inl (Thrown ''renderTemplate: param index out of bounds''))"

text \<open>The text between braces: the index, and the format after a colon.\<close>

definition renderPlaceholder :: "(bytes \<Rightarrow> jsstr) \<Rightarrow> ParamEntry list \<Rightarrow> bytes \<Rightarrow> jsstr \<Rightarrow> bytes res" where
  "renderPlaceholder b58enc ps d inner =
     (let idxStr = (case index_of 58 inner of Some k \<Rightarrow> take k inner | None \<Rightarrow> inner);
          fmt = (case index_of 58 inner of Some k \<Rightarrow> Some (drop (k + 1) inner) | None \<Rightarrow> None)
      in ebind (parseDecimalNonNegative idxStr) (\<lambda>idx. renderParam b58enc ps d idx fmt))"

text \<open>The loop of \<open>renderTemplate\<close>, over the bytes of the template from position \<open>i\<close> on.\<close>

function render_loop :: "(bytes \<Rightarrow> jsstr) \<Rightarrow> ParamEntry list \<Rightarrow> bytes \<Rightarrow> bytes \<Rightarrow> bytes res" where
  "render_loop b58enc ps d [] = Inr []"
| "render_loop b58enc ps d (b # tpl) =
     (if b = 0x7b then
        (case index_of 0x7d tpl of
           None \<Rightarrow> Inl (Thrown ''renderTemplate: unmatched brace in template'')
         | Some k \<Rightarrow>
             ebind (renderPlaceholder b58enc ps d (decodeAscii (take k tpl))) (\<lambda>chunk.
             ebind (render_loop b58enc ps d (drop (k + 1) tpl)) (\<lambda>rest.
             Inr (chunk @ rest))))
      else ebind (render_loop b58enc ps d tpl) (\<lambda>rest. Inr (b # rest)))"
  by pat_completeness auto
termination
  by (relation "measure (\<lambda>(_, _, _, tpl). length tpl)") auto

record RenderContext = EncodeParamsContext +
  template :: jsstr

definition renderTemplate :: "(bytes \<Rightarrow> jsstr) \<Rightarrow> ('a RenderContext_scheme) \<Rightarrow> bytes \<Rightarrow> bytes res" where
  "renderTemplate b58enc ctx paramsData =
     render_loop b58enc (params ctx) paramsData (utf8_encode (template ctx))"

definition renderTemplateToString :: "(bytes \<Rightarrow> jsstr) \<Rightarrow> ('a RenderContext_scheme) \<Rightarrow> bytes \<Rightarrow> jsstr res" where
  "renderTemplateToString b58enc ctx paramsData =
     ebind (renderTemplate b58enc ctx paramsData) (\<lambda>b. Inr (utf8_decode b))"

section \<open>Decimal shift: value and form\<close>

lemma drop_zeros_end_le: "k \<le> length s \<Longrightarrow> drop_zeros_end s k \<le> k"
  by (induction s k rule: drop_zeros_end.induct) auto

lemma drop_zeros_end_zeros:
  "k \<le> length s \<Longrightarrow> take k s = take (drop_zeros_end s k) s @ replicate (k - drop_zeros_end s k) 0x30"
proof (induction s k rule: drop_zeros_end.induct)
  case (1 s)
  then show ?case by simp
next
  case (2 s k)
  show ?case
  proof (cases "s ! k = 0x30")
    case True
    with 2 have "take (Suc k) s = take (drop_zeros_end s k) s @ replicate (k - drop_zeros_end s k) 0x30 @ [0x30]"
      by (simp add: take_Suc_conv_app_nth)
    moreover have "drop_zeros_end s k \<le> k" using 2 by (intro drop_zeros_end_le) simp
    ultimately show ?thesis using True by (simp add: Suc_diff_le replicate_append_same)
  qed simp
qed

lemma drop_zeros_end_last: "0 < drop_zeros_end s k \<Longrightarrow> s ! (drop_zeros_end s k - 1) \<noteq> 0x30"
  by (induction s k rule: drop_zeros_end.induct) (auto split: if_splits)

lemma digits_val_zeros_append: "digits_val (replicate k 0x30 @ s) = digits_val s"
  by (simp add: digits_val_append)

lemma dot_not_digit: "list_all is_digit s \<Longrightarrow> 46 \<notin> set s"
  by (auto simp: list_all_iff is_digit_def)

lemma formatDecimalU64_form:
  assumes "0 \<le> v" "0 < d"
  defines "i \<equiv> v div 10 ^ d" and "r \<equiv> v mod 10 ^ d"
  shows "formatDecimalU64 v d =
     (if r = 0 then show_nat (nat i)
      else show_nat (nat i) @ 46 # take (drop_zeros_end (pad_start d 0x30 (show_nat (nat r))) d) (pad_start d 0x30 (show_nat (nat r))))"
    and "length (pad_start d 0x30 (show_nat (nat r))) = d"
    and "digits_val (pad_start d 0x30 (show_nat (nat r))) = nat r"
    and "list_all is_digit (pad_start d 0x30 (show_nat (nat r)))"
proof -
  have r: "0 \<le> r" "r < 10 ^ d" by (simp_all add: r_def)
  then have "nat r < 10 ^ d" by (simp add: nat_less_iff)
  then have l: "length (show_nat (nat r)) \<le> d" using assms(2) by (intro show_nat_length)
  then show len: "length (pad_start d 0x30 (show_nat (nat r))) = d" by (simp add: pad_start_def)
  show "digits_val (pad_start d 0x30 (show_nat (nat r))) = nat r"
    by (simp add: pad_start_def digits_val_zeros_append)
  show "list_all is_digit (pad_start d 0x30 (show_nat (nat r)))"
    using show_nat_digits [of "nat r"] by (auto simp: pad_start_def list_all_iff is_digit_def)
  have q: "v sdiv 10 ^ d = i" "v smod 10 ^ d = r"
    using assms(1) by (simp_all add: sdiv_nonneg smod_nonneg i_def r_def)
  have i: "0 \<le> i" using assms(1) by (simp add: i_def pos_imp_zdiv_nonneg_iff)
  have "(if length (show_nat (nat r)) < d then replicate (d - length (show_nat (nat r))) 0x30 @ show_nat (nat r)
      else show_nat (nat r)) = pad_start d 0x30 (show_nat (nat r))"
    using l by (simp add: pad_start_def)
  with q i r assms(2) len show "formatDecimalU64 v d =
     (if r = 0 then show_nat (nat i)
      else show_nat (nat i) @ 46 # take (drop_zeros_end (pad_start d 0x30 (show_nat (nat r))) d) (pad_start d 0x30 (show_nat (nat r))))"
    by (simp add: formatDecimalU64_def Let_def show_int_def)
qed

lemma decimal_units_format:
  assumes "0 \<le> v"
  shows "decimal_units d (formatDecimalU64 v d) = nat v"
proof (cases "d = 0")
  case True
  have "46 \<notin> set (show_nat (nat v))" by (rule dot_not_digit) simp
  with True assms show ?thesis
    by (simp add: formatDecimalU64_def show_int_def decimal_units_def split_on_no_sep)
next
  case False
  define i r where "i = v div 10 ^ d" and "r = v mod 10 ^ d"
  define p where "p = pad_start d 0x30 (show_nat (nat r))"
  define f where "f = take (drop_zeros_end p d) p"
  note form = formatDecimalU64_form [OF assms, of d, folded i_def r_def, folded p_def, folded f_def]
  have len: "length p = d" and val: "digits_val p = nat r" and dig: "list_all is_digit p"
    using form False by simp_all
  have "drop_zeros_end p d \<le> d" using len by (intro drop_zeros_end_le) simp
  then have "pad_end d 0x30 f = p"
    using drop_zeros_end_zeros [of d p] len by (simp add: pad_end_def f_def)
  then have pf: "digits_val (pad_end d 0x30 f) = nat r" using val by simp
  have "list_all is_digit f" using dig by (auto simp: f_def list_all_iff dest: in_set_takeD)
  then have n: "46 \<notin> set f" "46 \<notin> set (show_nat (nat i))" by (auto intro!: dot_not_digit)
  have i: "0 \<le> i" and r: "0 \<le> r" using assms by (simp_all add: i_def r_def pos_imp_zdiv_nonneg_iff)
  have "int (nat i * 10 ^ d + nat r) = i * 10 ^ d + r" using i r by simp
  also have "\<dots> = v" unfolding i_def r_def by (rule div_mult_mod_eq)
  finally have v: "nat i * 10 ^ d + nat r = nat v" by linarith
  show ?thesis
  proof (cases "r = 0")
    case True
    with form False n v show ?thesis by (simp add: decimal_units_def split_on_no_sep)
  next
    case r0: False
    then have "split_on 46 (formatDecimalU64 v d) = [show_nat (nat i), f]"
      using form False n by (simp add: split_on_one split_on_no_sep)
    with v pf show ?thesis by (simp add: decimal_units_def)
  qed
qed

section \<open>Rendering what was encoded\<close>

text \<open>
  The text that stands for the value entered for a parameter: the number in decimal, the
  flag, the canonical address, the lower-case hexadecimal digits, or the string itself.
\<close>

definition entered_text :: "(bytes \<Rightarrow> jsstr) \<Rightarrow> (jsstr \<Rightarrow> bytes option) \<Rightarrow> ParamType \<Rightarrow> jsstr \<Rightarrow> jsstr" where
  "entered_text b58enc b58dec t value =
     (case t of
        PT_Address \<Rightarrow> b58enc (the (b58dec value))
      | PT_String \<Rightarrow> value
      | PT_Bool \<Rightarrow> (if value = js ''true'' \<or> value = js ''1'' then js ''true'' else js ''false'')
      | PT_Bytes20 \<Rightarrow> js ''0x'' @ toHex (projr (fromHex value))
      | PT_Bytes32 \<Rightarrow> js ''0x'' @ toHex (projr (fromHex value))
      | _ \<Rightarrow> show_int (the (big_int value)))"

lemma parseUnsigned_Inr:
  "parseUnsigned value bits = Inr v \<longleftrightarrow> big_int value = Some v \<and> 0 \<le> v \<and> v < 2 ^ bits"
  by (auto simp: parseUnsigned_def split: option.splits)

lemma parseSigned_Inr:
  "parseSigned value bits = Inr v \<longleftrightarrow>
     big_int value = Some v \<and> - (2 ^ (bits - 1)) \<le> v \<and> v < 2 ^ (bits - 1)"
  by (auto simp: parseSigned_def split: option.splits)

lemma decodeBase58_Inr: "decodeBase58 b58dec value = Inr b \<longleftrightarrow> b58dec value = Some b"
  by (auto simp: decodeBase58_def split: option.splits)

lemma or_high_low:
  assumes "0 \<le> lo" "lo < 2 ^ n"
  shows "push_bit n hi OR lo = 2 ^ n * hi + (lo :: int)"
proof -
  have "take_bit n lo = lo" using assms by (simp add: take_bit_int_eq_self)
  then have "bit lo k \<Longrightarrow> k < n" for k by (metis bit_take_bit_iff)
  then have "\<not> bit (push_bit n hi) k \<or> \<not> bit lo k" for k by (metis bit_push_bit_iff not_less)
  then have "push_bit n hi OR lo = push_bit n hi + lo" by (simp add: disjunctive_add)
  then show ?thesis by (simp add: push_bit_eq_mult mult.commute)
qed

lemma js_u32:
  assumes "0 \<le> x" "x < 2 ^ 24"
  shows "js_ushr (js_or x (js_shl (uint (b :: byte)) 24)) 0 = x + 2 ^ 24 * uint b"
proof -
  have "js_ushr (js_or x (js_shl (uint b) 24)) 0 = take_bit 32 x OR take_bit 32 (push_bit 24 (uint b))"
    by (simp add: js_ushr_def js_or_def js_shl_def) (simp add: to_int32_def take_bit_signed_take_bit)
  also have "take_bit 32 x = x" using assms by (simp add: take_bit_int_eq_self)
  also have "take_bit 32 (push_bit 24 (uint b)) = push_bit 24 (uint b)"
    using uint_byte_bound [of b] by (intro take_bit_int_eq_self) (simp_all add: push_bit_eq_mult)
  also have "x OR push_bit 24 (uint b) = 2 ^ 24 * uint b + x"
    using or_high_low [OF assms] by (simp add: or.commute)
  finally show ?thesis by simp
qed

lemma int_div_less_self_bound: "v < 2 ^ m * 2 ^ n \<Longrightarrow> v div 2 ^ m < (2 ^ n :: int)"
proof -
  assume v: "v < 2 ^ m * 2 ^ n"
  have "2 ^ m * (v div 2 ^ m) \<le> v" using mult_div_mod_eq [of "2 ^ m" v] by (metis le_add_same_cancel1 pos_mod_sign zero_less_numeral zero_less_power)
  with v have "2 ^ m * (v div 2 ^ m) < 2 ^ m * 2 ^ n" by linarith
  then show ?thesis by simp
qed

lemma js_or_shl_wide:
  assumes "0 \<le> a" "a < 2 ^ 16" "0 \<le> b" "b < 256"
  shows "js_or a (js_shl b 16) = a + 2 ^ 16 * b"
proof -
  have "to_int32 a = a" "to_int32 b = b" "to_int32 (push_bit 16 b) = push_bit 16 b"
    using assms by (auto intro!: to_int32_id simp: push_bit_eq_mult)
  moreover have "a OR push_bit 16 b = 2 ^ 16 * b + a"
    using or_high_low [OF assms(1,2)] by (simp add: or.commute)
  ultimately show ?thesis by (simp add: js_or_def js_shl_def)
qed

lemma num_at_middle: "num_at (pre @ c @ post) (length pre + k) = (if k < length c then uint (c ! k) else num_at post (k - length c))"
  by (auto simp: num_at_def byte_at_def nth_append)

lemma slice_at: "n = length c \<Longrightarrow> slice (length pre) (length pre + n) (pre @ c @ post) = c"
  by (simp add: slice_middle)

lemma le_val_le_bytes_id: "0 \<le> v \<Longrightarrow> v < 256 ^ n \<Longrightarrow> le_val (le_bytes n v) = v"
  by (simp add: le_val_le_bytes)

lemma read_encoded:
  shows "0 \<le> v \<Longrightarrow> v < 2 ^ 64 \<Longrightarrow> readU64Le (pre @ u64LeBytes v @ post) (length pre) = Inr v"
    and "- (2 ^ 63) \<le> v \<Longrightarrow> v < 2 ^ 63 \<Longrightarrow> readI64Le (pre @ i64LeBytes v @ post) (length pre) = Inr v"
    and "0 \<le> v \<Longrightarrow> v < 2 ^ 128 \<Longrightarrow> readU128Le (pre @ u128LeBytes v @ post) (length pre) = Inr v"
proof -
  show "readU64Le (pre @ u64LeBytes v @ post) (length pre) = Inr v" if "0 \<le> v" "v < 2 ^ 64"
    using that slice_at [of 8 "le_bytes 8 v" pre post] le_val_le_bytes_id [of v 8]
    by (simp add: readU64Le_def u64LeBytes_def)
  show "readI64Le (pre @ i64LeBytes v @ post) (length pre) = Inr v" if "- (2 ^ 63) \<le> v" "v < 2 ^ 63"
    using that slice_at [of 8 "le_bytes 8 v" pre post] le_sval_le_bytes [of 8 v]
    by (simp add: readI64Le_def i64LeBytes_def)
  show "readU128Le (pre @ u128LeBytes v @ post) (length pre) = Inr v" if v: "0 \<le> v" "v < 2 ^ 128"
  proof -
    let ?lo = "v mod 2 ^ 64" and ?hi = "v div 2 ^ 64"
    have lo: "v AND (2 ^ 64 - 1) = ?lo"
      using take_bit_eq_mask [of 64 v] by (simp add: take_bit_eq_mod mask_eq_exp_minus_1)
    have hi: "drop_bit 64 v = ?hi" by (simp add: drop_bit_eq_div)
    have b: "0 \<le> ?lo" "?lo < 2 ^ 64" by simp_all
    have h: "0 \<le> ?hi" "?hi < 2 ^ 64"
    proof -
      show "0 \<le> ?hi" using v by (simp add: pos_imp_zdiv_nonneg_iff)
      have "v < 2 ^ 64 * 2 ^ 64" using v by simp
      then show "?hi < 2 ^ 64" by (rule int_div_less_self_bound)
    qed
    have "slice (length pre) (length pre + 8) (pre @ (le_bytes 8 ?lo @ le_bytes 8 ?hi) @ post) = le_bytes 8 ?lo"
      using slice_at [of 8 "le_bytes 8 ?lo" pre "le_bytes 8 ?hi @ post"] by simp
    moreover have "slice (length pre + 8) (length pre + 16) (pre @ (le_bytes 8 ?lo @ le_bytes 8 ?hi) @ post) = le_bytes 8 ?hi"
      using slice_at [of 8 "le_bytes 8 ?hi" "pre @ le_bytes 8 ?lo" post] by (simp add: add.commute)
    moreover have "le_val (le_bytes 8 ?lo) = ?lo" "le_val (le_bytes 8 ?hi) = ?hi"
      using b h by (auto intro!: le_val_le_bytes_id)
    moreover have "push_bit 64 ?hi OR ?lo = v"
      using or_high_low [OF b] by simp
    ultimately show ?thesis
      unfolding readU128Le_def u128LeBytes_def Let_def lo hi by simp
  qed
qed

lemma byte_num_low: "byte_num (js_and v 255) = word_of_int v"
  by (simp only: byte_num_def js_and_byte word_of_int_mod_byte)

lemma byte_num_shr:
  "byte_num (js_and (js_shr v 8) 255) = word_of_int (v div 2 ^ 8)"
  "byte_num (js_and (js_shr v 16) 255) = word_of_int (v div 2 ^ 16)"
  "byte_num (js_and (js_shr v 24) 255) = word_of_int (v div 2 ^ 24)"
  unfolding byte_num_def by (subst js_and_shr_byte; simp only: word_of_int_mod_byte; simp)+

lemma encoded_u16:
  assumes "0 \<le> v" "v < 2 ^ 16"
  defines "c \<equiv> [byte_num (js_and v 255), byte_num (js_and (js_shr v 8) 255)]"
  shows "js_or (num_at (pre @ c @ post) (length pre)) (js_shl (num_at (pre @ c @ post) (length pre + 1)) 8) = v"
proof -
  have c: "c = [word_of_int v, word_of_int (v div 256)]"
    using js_and_shr_byte [of 8 v] by (simp add: c_def byte_num_def js_and_byte word_of_int_mod_byte)
  have "js_or (uint (word_of_int v :: byte)) (js_shl (uint (word_of_int (v div 256) :: byte)) 8)
      = uint (word_of_int v :: byte) + 2 ^ 8 * uint (word_of_int (v div 256) :: byte)"
    using uint_byte_bound by (intro js_or_shl_byte) auto
  also have "\<dots> = v mod 256 + 256 * (v div 256)"
    using assms int_div_less_self_bound [of v 8 8] by (simp add: uint_word_of_int pos_imp_zdiv_nonneg_iff)
  finally show ?thesis
    using num_at_middle [of pre c post 0] num_at_middle [of pre c post 1] by (simp add: c)
qed

lemma le_bytes_4:
  "le_bytes 4 v = [word_of_int (v div 2 ^ 0), word_of_int (v div 2 ^ 8), word_of_int (v div 2 ^ 16), word_of_int (v div 2 ^ 24)]"
proof -
  have "le_bytes 4 v = [word_of_int v, word_of_int (v div 256), word_of_int (v div 256 div 256),
      word_of_int (v div 256 div 256 div 256)]"
    by (simp add: eval_nat_numeral)
  moreover have "v div 256 div 256 = v div 65536" using zdiv_zmult2_eq [of 256 v 256] by simp
  moreover have "v div 65536 div 256 = v div 16777216" using zdiv_zmult2_eq [of 256 v 65536] by simp
  ultimately show ?thesis by simp
qed

lemma encoded_u32:
  fixes pre post :: bytes
  assumes "0 \<le> v" "v < 2 ^ 32"
  defines "c \<equiv> [byte_num (js_and v 255), byte_num (js_and (js_shr v 8) 255),
            byte_num (js_and (js_shr v 16) 255), byte_num (js_and (js_shr v 24) 255)]"
  defines "d \<equiv> pre @ c @ post" and "i \<equiv> length pre"
  shows "js_ushr (js_or (js_or (js_or (num_at d i) (js_shl (num_at d (i + 1)) 8))
                (js_shl (num_at d (i + 2)) 16)) (js_shl (num_at d (i + 3)) 24)) 0 = v"
proof -
  let ?b = "\<lambda>n. word_of_int (v div 2 ^ n) :: byte"
  have c: "c = [?b 0, ?b 8, ?b 16, ?b 24]"
    unfolding c_def byte_num_shr by (simp only: byte_num_low) simp
  have n: "num_at d i = uint (?b 0)" "num_at d (i + 1) = uint (?b 8)"
    "num_at d (i + 2) = uint (?b 16)" "num_at d (i + 3) = uint (?b 24)"
    using num_at_middle [of pre c post 0] num_at_middle [of pre c post 1]
      num_at_middle [of pre c post 2] num_at_middle [of pre c post 3]
    by (simp_all add: c d_def i_def)
  let ?x = "uint (?b 0) + 2 ^ 8 * uint (?b 8)"
  have x: "js_or (uint (?b 0)) (js_shl (uint (?b 8)) 8) = ?x"
    using uint_byte_bound by (intro js_or_shl_byte) auto
  have x0: "0 \<le> ?x" "?x < 2 ^ 16" using uint_byte_bound [of "?b 0"] uint_byte_bound [of "?b 8"] by simp_all
  have y: "js_or ?x (js_shl (uint (?b 16)) 16) = ?x + 2 ^ 16 * uint (?b 16)"
    using js_or_shl_wide [OF x0 uint_byte_bound] by simp
  have y0: "0 \<le> ?x + 2 ^ 16 * uint (?b 16)" "?x + 2 ^ 16 * uint (?b 16) < 2 ^ 24"
    using x0 uint_byte_bound [of "?b 16"] by simp_all
  have "uint (?b 0) + 2 ^ 8 * uint (?b 8) + 2 ^ 16 * uint (?b 16) + 2 ^ 24 * uint (?b 24) = v"
    using le_val_le_bytes_id [of v 4] assms(1,2) by (simp add: le_bytes_4)
  then show ?thesis unfolding n x y js_u32 [OF y0] .
qed

lemma renderParamAt_entered:
  assumes "encodeOne b58dec t value = Inr c"
  shows "renderParamAt b58enc (pre @ c @ post) t (length pre) None
    = Inr (utf8_encode (entered_text b58enc b58dec t value))"
proof (cases t)
  case PT_Address
  with assms have "b58dec value = Some c" "length c = 32"
    by (auto simp: ebind_Inr_iff decodeBase58_Inr exactly_Inr)
  with PT_Address show ?thesis using slice_at [of 32 c pre post] by (simp add: entered_text_def)
next
  case PT_U64
  with assms show ?thesis
    by (auto simp: ebind_Inr_iff parseUnsigned_Inr entered_text_def read_encoded)
next
  case PT_I64
  with assms show ?thesis
    by (auto simp: ebind_Inr_iff parseSigned_Inr entered_text_def read_encoded)
next
  case PT_String
  with assms have u: "length (utf8_encode value) \<le> 255" "c = word_of_nat (length (utf8_encode value)) # utf8_encode value"
    by (auto simp: Let_def split: if_splits)
  then have "unat (word_of_nat (length (utf8_encode value)) :: byte) = length (utf8_encode value)"
    using unat_byte_of [of "length (utf8_encode value)"] by (simp add: byte_of_def)
  moreover have "slice (length pre + 1) (length pre + 1 + length (utf8_encode value)) (pre @ c @ post) = utf8_encode value"
    using slice_at [of "length (utf8_encode value)" "utf8_encode value" "pre @ [hd c]" post] u(2) by simp
  ultimately show ?thesis using PT_String u(2) by (simp add: entered_text_def)
next
  case PT_Bool
  with assms show ?thesis by (auto simp: entered_text_def split: if_splits)
next
  case PT_U8
  with assms obtain v where v: "big_int value = Some v" "0 \<le> v" "v < 256" "c = [byte_num v]"
    by (auto simp: ebind_Inr_iff parseUnsigned_Inr)
  then have "uint (byte_num v) = v" by (simp add: byte_num_def uint_word_of_int)
  with PT_U8 v show ?thesis by (simp add: entered_text_def)
next
  case PT_U16
  with assms obtain v where v: "big_int value = Some v" "0 \<le> v" "v < 2 ^ 16"
    "c = [byte_num (js_and v 255), byte_num (js_and (js_shr v 8) 255)]"
    by (auto simp: ebind_Inr_iff parseUnsigned_Inr)
  with PT_U16 show ?thesis using encoded_u16 [of v pre post] by (simp add: entered_text_def)
next
  case PT_U32
  with assms obtain v where v: "big_int value = Some v" "0 \<le> v" "v < 2 ^ 32"
    "c = [byte_num (js_and v 255), byte_num (js_and (js_shr v 8) 255),
            byte_num (js_and (js_shr v 16) 255), byte_num (js_and (js_shr v 24) 255)]"
    by (auto simp: ebind_Inr_iff parseUnsigned_Inr)
  have "renderParamAt b58enc (pre @ c @ post) t (length pre) None = Inr (utf8_encode (show_int v))"
    unfolding PT_U32 renderParamAt.simps Let_def v(4) encoded_u32 [OF v(2,3)] ..
  with PT_U32 v show ?thesis by (simp add: entered_text_def)
next
  case PT_U128
  with assms show ?thesis
    by (auto simp: ebind_Inr_iff parseUnsigned_Inr entered_text_def read_encoded)
next
  case PT_Bytes20
  with assms have "fromHex value = Inr c" "length c = 20"
    by (auto simp: ebind_Inr_iff exactly_Inr)
  with PT_Bytes20 show ?thesis using slice_at [of 20 c pre post] by (simp add: entered_text_def)
next
  case PT_Bytes32
  with assms have "fromHex value = Inr c" "length c = 32"
    by (auto simp: ebind_Inr_iff exactly_Inr)
  with PT_Bytes32 show ?thesis using slice_at [of 32 c pre post] by (simp add: entered_text_def)
next
  case (PT_Unknown b)
  with assms show ?thesis by simp
qed

lemma concat_split:
  "i < length cs \<Longrightarrow> concat cs = concat (take i cs) @ cs ! i @ concat (drop (Suc i) cs)"
  by (metis concat.simps(2) concat_append id_take_nth_drop)

lemma renderParam_encoded:
  assumes "encodeParams b58dec ctx kv = Inr data" "i < length (params ctx)"
    and "kv (param_name (bytePool ctx) (params ctx ! i)) = Some value"
  shows "renderParam b58enc (params ctx) data i None
    = Inr (utf8_encode (entered_text b58enc b58dec (paramType (params ctx ! i)) value))"
proof -
  obtain cs where cs: "data = concat cs"
    and l: "list_all2 (\<lambda>p c. encode_param b58dec (bytePool ctx) kv p = Inr c) (params ctx) cs"
    and k: "list_all2 (\<lambda>p c. chunk_ok (paramType p) c) (params ctx) cs"
    using assms(1) by (rule encodeParams_chunks)
  then have i: "i < length cs" using assms(2) by (simp add: list_all2_lengthD)
  have "encode_param b58dec (bytePool ctx) kv (params ctx ! i) = Inr (cs ! i)"
    using l assms(2) by (rule list_all2_nthD)
  then have "encodeOne b58dec (paramType (params ctx ! i)) value = Inr (cs ! i)"
    using assms(3) by (simp add: encode_param_def)
  from renderParamAt_entered [OF this, of b58enc "concat (take i cs)" "concat (drop (Suc i) cs)"]
  show ?thesis
    using assms(2) paramOffsetAt_chunks [OF k, of i] by (simp add: renderParam_def cs flip: concat_split [OF i])
qed

section \<open>Templates\<close>

lemma render_loop_literal:
  "0x7b \<notin> set pre \<Longrightarrow> render_loop b58enc ps d (pre @ tpl)
     = ebind (render_loop b58enc ps d tpl) (\<lambda>r. Inr (pre @ r))"
proof (induction pre)
  case Nil
  then show ?case by (cases "render_loop b58enc ps d tpl") auto
next
  case (Cons b pre)
  then show ?case by (cases "render_loop b58enc ps d tpl") auto
qed

lemma index_of_append: "c \<notin> set s \<Longrightarrow> index_of c (s @ c # t) = Some (length s)"
  by (induction s) auto

lemma render_loop_placeholder:
  "0x7d \<notin> set inner \<Longrightarrow> render_loop b58enc ps d (0x7b # inner @ 0x7d # tpl)
     = ebind (renderPlaceholder b58enc ps d (decodeAscii inner)) (\<lambda>chunk.
       ebind (render_loop b58enc ps d tpl) (\<lambda>r. Inr (chunk @ r)))"
  by (simp add: index_of_append)

text \<open>
  A template as its author means it: literal bytes, and holes that name a parameter, with a
  decimal shift or without.  \<open>seg_bytes\<close> is how a segment is written, \<open>seg_text\<close> what it
  shows for the values \<open>kv\<close> entered.
\<close>

datatype segment = Lit bytes | Hole nat "nat option"

definition seg_bytes :: "segment \<Rightarrow> bytes" where
  "seg_bytes g =
     (case g of
        Lit l \<Rightarrow> l
      | Hole i None \<Rightarrow> 0x7b # map ucast (show_nat i) @ [0x7d]
      | Hole i (Some d) \<Rightarrow> 0x7b # map ucast (show_nat i @ js '':10^'' @ show_nat d) @ [0x7d])"

definition entered_value :: "EncodeParamsContext \<Rightarrow> (jsstr \<rightharpoonup> jsstr) \<Rightarrow> nat \<Rightarrow> jsstr" where
  "entered_value ctx kv i = the (kv (param_name (bytePool ctx) (params ctx ! i)))"

definition seg_text ::
  "(bytes \<Rightarrow> jsstr) \<Rightarrow> (jsstr \<Rightarrow> bytes option) \<Rightarrow> EncodeParamsContext \<Rightarrow> (jsstr \<rightharpoonup> jsstr) \<Rightarrow> segment \<Rightarrow> bytes" where
  "seg_text b58enc b58dec ctx kv g =
     (case g of
        Lit l \<Rightarrow> l
      | Hole i None \<Rightarrow>
          utf8_encode (entered_text b58enc b58dec (paramType (params ctx ! i)) (entered_value ctx kv i))
      | Hole i (Some d) \<Rightarrow>
          utf8_encode (formatDecimalU64 (the (big_int (entered_value ctx kv i))) d))"

definition seg_ok :: "EncodeParamsContext \<Rightarrow> segment \<Rightarrow> bool" where
  "seg_ok ctx g =
     (case g of
        Lit l \<Rightarrow> 0x7b \<notin> set l
      | Hole i None \<Rightarrow> i < length (params ctx) \<and> i \<le> 1000000000
      | Hole i (Some d) \<Rightarrow>
          i < length (params ctx) \<and> i \<le> 1000000000 \<and> paramType (params ctx ! i) = PT_U64 \<and> d \<le> 19)"

lemma parse_digits_val:
  "list_all is_digit s \<Longrightarrow> n * 10 ^ length s + digits_val s \<le> 1000000000 \<Longrightarrow>
     parse_digits n s = Inr (n * 10 ^ length s + digits_val s)"
proof (induction s arbitrary: n)
  case Nil
  then show ?case by simp
next
  case (Cons c s)
  have c: "\<not> (c < 0x30 \<or> c > 0x39)" using Cons.prems by (auto simp: is_digit_def)
  have v: "(n * 10 + digit_val c) * 10 ^ length s + digits_val s = n * 10 ^ length (c # s) + digits_val (c # s)"
    by (simp add: digits_val_Cons algebra_simps)
  have "n * 10 + digit_val c \<le> (n * 10 + digit_val c) * 10 ^ length s" by simp
  also have "\<dots> \<le> 1000000000" using Cons.prems(2) v by linarith
  finally have le: "\<not> n * 10 + (unat c - 0x30) > 1000000000" by (simp add: digit_val_def)
  have "parse_digits (n * 10 + digit_val c) s = Inr ((n * 10 + digit_val c) * 10 ^ length s + digits_val s)"
    using Cons.prems v by (intro Cons.IH) auto
  then show ?case
    unfolding parse_digits.simps Let_def if_not_P [OF c] if_not_P [OF le] v
    by (simp add: digit_val_def)
qed

lemma parseDecimal_show: "i \<le> 1000000000 \<Longrightarrow> parseDecimalNonNegative (show_nat i) = Inr i"
  using parse_digits_val [of "show_nat i" 0] by (simp add: parseDecimalNonNegative_def)

lemma parseDecimalSpec_show: "d \<le> 19 \<Longrightarrow> parseDecimalSpec (js ''10^'' @ show_nat d) = Inr d"
  by (simp add: parseDecimalSpec_def parseDecimal_show starts_with_def)

lemma unat_to_byte: "unat (u :: 16 word) < 256 \<Longrightarrow> unat (ucast u :: byte) = unat u"
  by (simp add: unsigned_ucast_eq unsigned_take_bit_eq take_bit_nat_eq_self)

lemma unat_of_byte: "unat (ucast (b :: byte) :: 16 word) = unat b"
  using unat_byte_bound [of b] by (simp add: unsigned_ucast_eq unsigned_take_bit_eq take_bit_nat_eq_self)

lemma digits_bytes: "list_all is_digit s \<Longrightarrow> c < 48 \<or> 57 < c \<Longrightarrow> c < 128 \<Longrightarrow> (word_of_nat c :: byte) \<notin> set (map ucast s)"
proof
  assume s: "list_all is_digit s" and c: "c < 48 \<or> 57 < c" "c < 128" and "(word_of_nat c :: byte) \<in> set (map ucast s)"
  then obtain u where u: "u \<in> set s" "ucast u = (word_of_nat c :: byte)" by auto
  then have d: "48 \<le> unat u" "unat u \<le> 57" using s by (auto simp: list_all_iff is_digit_unat)
  have "unat (ucast u :: byte) = unat u" using d by (intro unat_to_byte) simp
  moreover have "unat (word_of_nat c :: byte) = c"
    unfolding byte_of_def [symmetric] by (rule unat_byte_of) (use c in simp)
  ultimately have "unat u = c" using u(2) by (simp only:)
  with d c show False by linarith
qed

lemma decodeAscii_ucast: "list_all (\<lambda>u. unat u < 128) s \<Longrightarrow> decodeAscii (map ucast s) = s"
proof (induction s)
  case Nil
  then show ?case by (simp add: decodeAscii_def)
next
  case (Cons u s)
  have "unat (ucast (ucast u :: byte) :: 16 word) = unat u"
    using Cons.prems by (simp add: unat_of_byte unat_to_byte)
  then have "ucast (ucast u :: byte) = u" by (simp only: word_unat_eq_iff)
  with Cons show ?case by (simp add: decodeAscii_def)
qed

lemma show_nat_ascii: "list_all (\<lambda>u. unat u < 128) (show_nat i)"
  using show_nat_digits [of i] by (auto simp: list_all_iff is_digit_unat)

lemma colon_not_digit: "(58 :: 16 word) \<notin> set (show_nat i)"
  using show_nat_digits [of i] by (auto simp: list_all_iff is_digit_def)

lemma index_of_none: "c \<notin> set s \<Longrightarrow> index_of c s = None"
  by (induction s) auto

lemma encodeParams_entered:
  assumes "encodeParams b58dec ctx kv = Inr data" "i < length (params ctx)"
  obtains c pre post where "data = pre @ c @ post"
    and "paramOffsetAt (params ctx) data i = Inr (length pre)"
    and "encodeOne b58dec (paramType (params ctx ! i)) (entered_value ctx kv i) = Inr c"
proof -
  obtain cs where cs: "data = concat cs"
    and l: "list_all2 (\<lambda>p c. encode_param b58dec (bytePool ctx) kv p = Inr c) (params ctx) cs"
    and k: "list_all2 (\<lambda>p c. chunk_ok (paramType p) c) (params ctx) cs"
    using assms(1) by (rule encodeParams_chunks)
  then have i: "i < length cs" using assms(2) by (simp add: list_all2_lengthD)
  have "encode_param b58dec (bytePool ctx) kv (params ctx ! i) = Inr (cs ! i)"
    using l assms(2) by (rule list_all2_nthD)
  then have "encodeOne b58dec (paramType (params ctx ! i)) (entered_value ctx kv i) = Inr (cs ! i)"
    by (auto simp: encode_param_def entered_value_def split: option.splits)
  moreover have "paramOffsetAt (params ctx) data i = Inr (length (concat (take i cs)))"
    using paramOffsetAt_chunks [OF k, of i] assms(2) by (simp add: cs)
  ultimately show ?thesis using that cs concat_split [OF i] by blast
qed

lemma renderParam_entered:
  assumes "encodeParams b58dec ctx kv = Inr data" "i < length (params ctx)"
  shows "renderParam b58enc (params ctx) data i None
    = Inr (utf8_encode (entered_text b58enc b58dec (paramType (params ctx ! i)) (entered_value ctx kv i)))"
  using assms
  by (rule encodeParams_entered) (simp add: renderParam_def renderParamAt_entered assms(2))

lemma renderParam_entered_decimal:
  assumes "encodeParams b58dec ctx kv = Inr data" "i < length (params ctx)"
    and "paramType (params ctx ! i) = PT_U64" "d \<le> 19"
  shows "renderParam b58enc (params ctx) data i (Some (js ''10^'' @ show_nat d))
    = Inr (utf8_encode (formatDecimalU64 (the (big_int (entered_value ctx kv i))) d))"
  using assms(1,2)
proof (rule encodeParams_entered)
  fix c pre post
  assume d: "data = pre @ c @ post" "paramOffsetAt (params ctx) data i = Inr (length pre)"
    and "encodeOne b58dec (paramType (params ctx ! i)) (entered_value ctx kv i) = Inr c"
  then obtain v where v: "big_int (entered_value ctx kv i) = Some v" "0 \<le> v" "v < 2 ^ 64" "c = u64LeBytes v"
    using assms(3) by (auto simp: ebind_Inr_iff parseUnsigned_Inr)
  have "renderParamAt b58enc data PT_U64 (length pre) (Some (js ''10^'' @ show_nat d))
      = Inr (utf8_encode (formatDecimalU64 v d))"
    unfolding renderParamAt.simps d(1) v(4) read_encoded(1) [OF v(2,3)] ebind_simps option.case
      parseDecimalSpec_show [OF assms(4)] ..
  then show ?thesis using d(2) assms(2,3) v(1) by (simp add: renderParam_def)
qed

lemma render_segment:
  assumes "encodeParams b58dec ctx kv = Inr data" "seg_ok ctx g"
  shows "render_loop b58enc (params ctx) data (seg_bytes g @ tpl)
     = ebind (render_loop b58enc (params ctx) data tpl) (\<lambda>r. Inr (seg_text b58enc b58dec ctx kv g @ r))"
proof (cases g)
  case (Lit l)
  with assms show ?thesis by (simp add: seg_bytes_def seg_text_def seg_ok_def render_loop_literal)
next
  case (Hole i f)
  then have i: "i < length (params ctx)" "i \<le> 1000000000"
    using assms(2) by (auto simp: seg_ok_def split: option.splits)
  have dig: "125 \<notin> (set (map ucast (show_nat k)) :: byte set)" for k
    using digits_bytes [of "show_nat k" 125] by simp
  show ?thesis
  proof (cases f)
    case None
    have "renderPlaceholder b58enc (params ctx) data (show_nat i)
        = Inr (seg_text b58enc b58dec ctx kv g)"
      using i renderParam_entered [OF assms(1) i(1)] Hole None
      by (simp add: renderPlaceholder_def index_of_none colon_not_digit parseDecimal_show seg_text_def)
    with Hole None show ?thesis
      using render_loop_placeholder [OF dig [of i], of b58enc "params ctx" data tpl]
      by (simp add: seg_bytes_def decodeAscii_ucast show_nat_ascii)
  next
    case (Some d)
    then have d: "paramType (params ctx ! i) = PT_U64" "d \<le> 19"
      using assms(2) Hole by (simp_all add: seg_ok_def)
    let ?inner = "show_nat i @ js '':10^'' @ show_nat d"
    have "index_of 58 ?inner = Some (length (show_nat i))"
      using index_of_append [OF colon_not_digit, of i "js ''10^'' @ show_nat d"] by simp
    then have "renderPlaceholder b58enc (params ctx) data ?inner = Inr (seg_text b58enc b58dec ctx kv g)"
      using i d renderParam_entered_decimal [OF assms(1) i(1) d] Hole Some
      by (simp add: renderPlaceholder_def parseDecimal_show seg_text_def)
    moreover have "decodeAscii (map ucast ?inner) = ?inner"
      by (rule decodeAscii_ucast) (simp add: show_nat_ascii)
    moreover have "125 \<notin> (set (map ucast ?inner) :: byte set)"
      using dig [of i] dig [of d] by simp
    ultimately show ?thesis
      using Hole Some render_loop_placeholder [of "map ucast ?inner" b58enc "params ctx" data tpl]
      by (simp add: seg_bytes_def)
  qed
qed

lemma render_segments:
  assumes "encodeParams b58dec ctx kv = Inr data" "list_all (seg_ok ctx) gs"
  shows "render_loop b58enc (params ctx) data (concat (map seg_bytes gs))
     = Inr (concat (map (seg_text b58enc b58dec ctx kv) gs))"
  using assms(2) by (induction gs) (simp_all add: render_segment [OF assms(1)])

lemma formatDecimalU64_no_trailing:
  assumes "0 \<le> v"
  shows "\<not> (46 \<in> set (formatDecimalU64 v d) \<and> last (formatDecimalU64 v d) \<in> {46, 48})"
proof (cases "d = 0 \<or> v mod 10 ^ d = 0")
  case True
  then have "\<exists>n. formatDecimalU64 v d = show_nat n"
  proof (cases "d = 0")
    case True
    with assms show ?thesis by (auto simp: formatDecimalU64_def show_int_def)
  next
    case False
    with True show ?thesis using formatDecimalU64_form(1) [OF assms, of d] by auto
  qed
  then show ?thesis using dot_not_digit [OF show_nat_digits] by auto
next
  case False
  define r where "r = v mod 10 ^ d"
  define p where "p = pad_start d 0x30 (show_nat (nat r))"
  define k where "k = drop_zeros_end p d"
  note form = formatDecimalU64_form [OF assms, of d, folded r_def, folded p_def, folded k_def]
  have "0 \<le> r" unfolding r_def by (rule pos_mod_sign) simp
  moreover have "r \<noteq> 0" using False by (simp add: r_def)
  ultimately have r: "0 < r" by simp
  have len: "length p = d" and val: "digits_val p = nat r" and dig: "list_all is_digit p"
    using form False by simp_all
  have kd: "k \<le> d" using len by (simp add: k_def drop_zeros_end_le)
  have "k \<noteq> 0"
  proof
    assume "k = 0"
    then have "p = replicate d 48" using drop_zeros_end_zeros [of d p] len by (simp add: k_def)
    then have "digits_val p = 0" by simp
    with val r show False by simp
  qed
  then have ne: "take k p \<noteq> []" using kd len by auto
  then have "last (take k p) = p ! (k - 1)"
    using kd len \<open>k \<noteq> 0\<close> by (subst last_conv_nth) auto
  moreover note ne
  moreover have "p ! (k - 1) \<noteq> 48" using drop_zeros_end_last [of p d] \<open>k \<noteq> 0\<close> by (simp add: k_def)
  moreover have "is_digit (p ! (k - 1))" using dig kd len \<open>k \<noteq> 0\<close> by (simp add: list_all_length)
  then have "p ! (k - 1) \<noteq> 46" by (auto simp: is_digit_def)
  moreover have "d > 0" "r \<noteq> 0" using False r by simp_all
  then have "formatDecimalU64 v d = show_nat (nat (v div 10 ^ d)) @ 46 # take k p"
    using form(1) by simp
  ultimately show ?thesis by simp
qed

section \<open>Properties\<close>

text \<open>
  C38: The decimal-shift formatter.  The text of \<open>v\<close> with \<open>d\<close> decimals denotes exactly
  \<open>v / 10 ^ d\<close>, and it never ends in a zero behind the point.
\<close>

definition trailing_zero :: "jsstr \<Rightarrow> bool" where
  "trailing_zero s \<longleftrightarrow> 46 \<in> set s \<and> last s \<in> {46, 48}"

theorem decimal_exact:
  "decimal_units d (formatDecimalU64 (int v) d) = v \<and> \<not> trailing_zero (formatDecimalU64 (int v) d)"
  using decimal_units_format [of "int v" d] formatDecimalU64_no_trailing [of "int v" d] by (simp add: trailing_zero_def)

text \<open>
  C13: A rendered template shows what was entered.  When the parameters encode, rendering the
  bytes of a template made of literals and holes gives the literals unchanged and, for each
  hole, the text of the value that was entered for that parameter, shifted by its decimals.
\<close>

theorem rendered_as_entered:
  assumes "encodeParams b58dec ctx kv = Inr data"
    and "params r = params ctx" "utf8_encode (template r) = concat (map seg_bytes gs)"
    and "list_all (seg_ok ctx) gs"
  shows "renderTemplate b58enc r data = Inr (concat (map (seg_text b58enc b58dec ctx kv) gs))"
  using render_segments [OF assms(1,4)] assms(2,3) by (simp add: renderTemplate_def)

definition example_ctx :: EncodeParamsContext where
  "example_ctx = \<lparr>params = [\<lparr>paramType = PT_U64, nameOffset = 0, nameLen = 1, constraintType = 0, constraintValue = 0\<rparr>],
     bytePool = [97]\<rparr>"

definition example_template :: RenderContext where
  "example_template = \<lparr>params = params example_ctx, bytePool = [97], template = js ''pay {0:10^3}''\<rparr>"

lemma example_encodes:
  "encodeParams (\<lambda>_. None) example_ctx [js ''a'' \<mapsto> js ''1500''] = Inr [220, 5, 0, 0, 0, 0, 0, 0]"
  by code_simp

theorem rendered_as_entered_witness:
  "renderTemplate (\<lambda>_. []) example_template [220, 5, 0, 0, 0, 0, 0, 0] = Inr (ascii ''pay 1.5'')"
proof -
  have "utf8_encode (template example_template) = concat (map seg_bytes [Lit (ascii ''pay ''), Hole 0 (Some 3)])"
    by (simp add: example_template_def map_ucast_utf8 seg_bytes_def show_nat.simps digit_char_def)
  moreover have "list_all (seg_ok example_ctx) [Lit (ascii ''pay ''), Hole 0 (Some 3)]"
    by (simp add: seg_ok_def example_ctx_def)
  moreover have "concat (map (seg_text (\<lambda>_. []) (\<lambda>_. None) example_ctx [js ''a'' \<mapsto> js ''1500''])
      [Lit (ascii ''pay ''), Hole 0 (Some 3)]) = ascii ''pay 1.5''"
  proof -
    have "the (big_int (entered_value example_ctx [js ''a'' \<mapsto> js ''1500''] 0)) = 1500"
      "formatDecimalU64 1500 3 = js ''1.5''"
      by code_simp+
    then show ?thesis by (simp add: seg_text_def map_ucast_utf8)
  qed
  ultimately show ?thesis
    using rendered_as_entered [OF example_encodes, of example_template "[Lit (ascii ''pay ''), Hole 0 (Some 3)]" "\<lambda>_. []"]
    by (simp add: example_template_def)
qed

end
