(* ===== verification/Msig_Offchain.thy ===== *)
theory Msig_Offchain
  imports JS_Prelude
begin

text \<open>
  \<open>lib/msig/offchain.ts\<close>: the header of a Solana offchain message, its wrapper and its
  reader, and the message builder of the program with its buffer of 2048 bytes
  (\<open>MessageBuilder\<close> in \<open>programs/clear-wallet/src/utils/message.rs\<close>).
\<close>

section \<open>Operations\<close>

definition OFFCHAIN_DOMAIN :: bytes where
  "OFFCHAIN_DOMAIN =
     [0xff, 0x73, 0x6f, 0x6c, 0x61, 0x6e, 0x61, 0x20, 0x6f, 0x66, 0x66, 0x63, 0x68, 0x61, 0x69, 0x6e]"

definition OFFCHAIN_HEADER_LEN :: nat where
  "OFFCHAIN_HEADER_LEN = 20"

definition MAX_OFFCHAIN_BODY_LEN :: nat where
  "MAX_OFFCHAIN_BODY_LEN = 65535"

datatype MessageFlavor = Offchain_v1 | Plain_v2

definition wrapOffchain :: "bytes \<Rightarrow> bytes res" where
  "wrapOffchain body =
     (if length body > MAX_OFFCHAIN_BODY_LEN then Inl (Thrown ''wrapOffchain: body too large'')
      else Inr (OFFCHAIN_DOMAIN
             @ [0, 0,
                word_of_int (js_and (int (length body)) 255),
                word_of_int (js_and (js_shr (int (length body)) 8) 255)]
             @ body))"

definition plainMessage :: "bytes \<Rightarrow> bytes" where
  "plainMessage body = body"

definition unwrapOffchain :: "bytes \<Rightarrow> bytes res" where
  "unwrapOffchain wrapped =
     (if length wrapped < OFFCHAIN_HEADER_LEN then Inl (Thrown ''unwrapOffchain: buffer too short'')
      else if \<not> list_all (\<lambda>i. wrapped ! i = OFFCHAIN_DOMAIN ! i) [0..<length OFFCHAIN_DOMAIN]
      then Inl (Thrown ''unwrapOffchain: domain prefix mismatch'')
      else if wrapped ! 16 \<noteq> 0 then Inl (Thrown ''unwrapOffchain: unexpected version'')
      else let bodyLen = nat (js_or (num_at wrapped 18) (js_shl (num_at wrapped 19) 8)) in
           if OFFCHAIN_HEADER_LEN + bodyLen > length wrapped
           then Inl (Thrown ''unwrapOffchain: declared body length exceeds buffer'')
           else Inr (slice OFFCHAIN_HEADER_LEN (OFFCHAIN_HEADER_LEN + bodyLen) wrapped))"

text \<open>
  The builder of the program: 20 bytes of its buffer of 2048 are kept free for the header, every push
  checks the space left, and \<open>finalize\<close> writes the header and the length, cast to \<open>u16\<close>.  The state
  is the text pushed so far.
\<close>

definition MSG_BUF_SIZE :: nat where
  "MSG_BUF_SIZE = 2048"

definition rs_push_bytes :: "bytes \<Rightarrow> bytes \<Rightarrow> bytes option" where
  "rs_push_bytes data msg = (if OFFCHAIN_HEADER_LEN + length msg + length data \<le> MSG_BUF_SIZE then Some (msg @ data) else None)"

definition rs_finalize :: "bytes \<Rightarrow> bytes option" where
  "rs_finalize msg =
     (if length msg \<le> 65535
      then Some (OFFCHAIN_DOMAIN @ [0, 0] @ le_bytes 2 (int (length msg)) @ msg)
      else None)"

text \<open>A message of the program: its pieces are pushed in order, then the header is written.\<close>

fun rs_push_all :: "bytes list \<Rightarrow> bytes \<Rightarrow> bytes option" where
  "rs_push_all [] msg = Some msg"
| "rs_push_all (d # ds) msg = Option.bind (rs_push_bytes d msg) (rs_push_all ds)"

definition rs_message :: "bytes list \<Rightarrow> bytes option" where
  "rs_message pieces = Option.bind (rs_push_all pieces []) rs_finalize"

section \<open>Lemmas\<close>

lemma length_domain [simp]: "length OFFCHAIN_DOMAIN = 16"
  by (simp add: OFFCHAIN_DOMAIN_def)

lemma le_bytes_2: "le_bytes 2 v = [word_of_int v, word_of_int (v div 256)]"
  by (simp add: eval_nat_numeral)

lemma le_bytes_2_masks: "[word_of_int (js_and v 255), word_of_int (js_and (js_shr v 8) 255)] = le_bytes 2 v"
  using js_and_shr_byte [of 8 v] by (simp add: js_and_byte word_of_int_mod_byte le_bytes_2)

lemma wrapOffchain_eq:
  assumes "length body \<le> 65535"
  shows "wrapOffchain body = Inr (OFFCHAIN_DOMAIN @ [0, 0] @ le_bytes 2 (int (length body)) @ body)"
  using assms by (simp add: wrapOffchain_def MAX_OFFCHAIN_BODY_LEN_def flip: le_bytes_2_masks)

lemma unwrap_header:
  assumes "0 \<le> n" "n < 65536"
  shows "js_or (uint (word_of_int n :: byte)) (js_shl (uint (word_of_int (n div 256) :: byte)) 8) = n"
proof -
  let ?a = "uint (word_of_int n :: byte)" and ?b = "uint (word_of_int (n div 256) :: byte)"
  have "js_or ?a (js_shl ?b 8) = ?a + 2 ^ 8 * ?b"
    using uint_byte_bound by (intro js_or_shl_byte) auto
  also have "\<dots> = n mod 256 + 256 * (n div 256)"
    using assms by (simp only: uint_word_of_int_byte) simp
  finally show ?thesis by simp
qed

lemma unwrap_wrapped:
  assumes "length body \<le> 65535" and "hdr = OFFCHAIN_DOMAIN @ [0, f] @ le_bytes 2 (int (length body))"
  shows "unwrapOffchain (hdr @ body @ rest) = Inr body"
proof -
  let ?w = "hdr @ body @ rest"
  have h: "length hdr = 20" using assms by (simp add: OFFCHAIN_DOMAIN_def)
  have "list_all (\<lambda>i. ?w ! i = OFFCHAIN_DOMAIN ! i) [0..<16]"
    using assms by (auto simp: list_all_iff nth_append)
  moreover have "?w = OFFCHAIN_DOMAIN @ 0 # f # word_of_int (int (length body))
      # word_of_int (int (length body) div 256) # body @ rest"
    using assms by (simp add: le_bytes_2)
  then have "?w ! 16 = 0" "num_at ?w 18 = uint (word_of_int (int (length body)) :: byte)"
    "num_at ?w 19 = uint (word_of_int (int (length body) div 256) :: byte)"
    by (simp_all add: nth_append num_at_def byte_at_def)
  moreover have "slice 20 (20 + length body) ?w = body"
    using h by (intro slice_middle) auto
  moreover have "20 + length body \<le> length ?w" "20 \<le> length ?w" using h by simp_all
  moreover have "nat (int (length body)) = length body" by simp
  ultimately show ?thesis
    using assms(1) unwrap_header [of "int (length body)"]
    by (simp only: unwrapOffchain_def OFFCHAIN_HEADER_LEN_def Let_def length_domain) simp
qed

lemma rs_push_all_eq:
  "length msg \<le> 2028 \<Longrightarrow> rs_push_all ds msg = (if length (msg @ concat ds) \<le> 2028 then Some (msg @ concat ds) else None)"
proof (induction ds arbitrary: msg)
  case (Cons d ds)
  show ?case
  proof (cases "length (msg @ d) \<le> 2028")
    case True
    then have "rs_push_bytes d msg = Some (msg @ d)" by (simp add: rs_push_bytes_def OFFCHAIN_HEADER_LEN_def MSG_BUF_SIZE_def)
    with Cons.IH [OF True] show ?thesis by simp
  next
    case False
    then have "rs_push_bytes d msg = None" by (simp add: rs_push_bytes_def OFFCHAIN_HEADER_LEN_def MSG_BUF_SIZE_def)
    with False show ?thesis by simp
  qed
qed simp

lemma rs_message_eq:
  "rs_message pieces = (if length (concat pieces) \<le> 2028
     then Some (OFFCHAIN_DOMAIN @ [0, 0] @ le_bytes 2 (int (length (concat pieces))) @ concat pieces) else None)"
  by (simp add: rs_message_def rs_push_all_eq rs_finalize_def)

section \<open>Properties\<close>

text \<open>
  C33: The offchain wrapper and its reader, and the message the program builds.  A body that fits the
  length field is wrapped, and unwrapping returns it; a larger one is refused.  The program,
  pushing the same body in whatever pieces, builds the very bytes of the wrapper when the body
  fits its buffer (2028 bytes behind the header), and refuses every longer one, which the page
  still wraps.
\<close>

theorem offchain_roundtrip:
  "case wrapOffchain (concat pieces) of
     Inr w \<Rightarrow> length (concat pieces) \<le> 65535 \<and> unwrapOffchain w = Inr (concat pieces)
       \<and> rs_message pieces = (if length (concat pieces) \<le> 2028 then Some w else None)
   | Inl e \<Rightarrow> 65535 < length (concat pieces) \<and> rs_message pieces = None"
proof (cases "length (concat pieces) \<le> 65535")
  case True
  then have w: "wrapOffchain (concat pieces)
      = Inr ((OFFCHAIN_DOMAIN @ [0, 0] @ le_bytes 2 (int (length (concat pieces)))) @ concat pieces @ [])"
    using wrapOffchain_eq [of "concat pieces"] by simp
  with True unwrap_wrapped [OF True refl, of 0 "[]"] show ?thesis
    unfolding w rs_message_eq by simp
next
  case False
  then show ?thesis by (simp add: wrapOffchain_def rs_message_eq MAX_OFFCHAIN_BODY_LEN_def)
qed

text \<open>
  Whatever \<open>unwrapOffchain\<close> accepts begins with the domain prefix and the version, and
  the body it returns is the declared number of bytes behind the header.
\<close>

theorem unwrap_accepts:
  "case unwrapOffchain w of
     Inl e \<Rightarrow> e \<in> Thrown ` {''unwrapOffchain: buffer too short'', ''unwrapOffchain: domain prefix mismatch'',
                 ''unwrapOffchain: unexpected version'', ''unwrapOffchain: declared body length exceeds buffer''}
   | Inr body \<Rightarrow> take 17 w = OFFCHAIN_DOMAIN @ [0] \<and> 20 + length body \<le> length w
       \<and> take (length body) (drop 20 w) = body
       \<and> int (length body) = uint (w ! 18) + 256 * uint (w ! 19)"
proof (cases "unwrapOffchain w")
  case (Inl e)
  then show ?thesis by (auto simp: unwrapOffchain_def Let_def split: if_splits)
next
  case (Inr body)
  let ?n = "nat (js_or (num_at w 18) (js_shl (num_at w 19) 8))"
  from Inr have l: "20 \<le> length w" "20 + ?n \<le> length w" "body = slice 20 (20 + ?n) w" "w ! 16 = 0"
    and d: "\<And>i. i < 16 \<Longrightarrow> w ! i = OFFCHAIN_DOMAIN ! i"
    by (auto simp: unwrapOffchain_def OFFCHAIN_HEADER_LEN_def Let_def list_all_iff split: if_splits)
  have "take 17 w = take 16 w @ [w ! 16]" using l(1) take_Suc_conv_app_nth [of 16 w] by simp
  moreover have "take 16 w = OFFCHAIN_DOMAIN" using l(1) d by (intro nth_equalityI) auto
  moreover have "js_or (uint (w ! 18)) (js_shl (uint (w ! 19)) 8) = uint (w ! 18) + 2 ^ 8 * uint (w ! 19)"
    using uint_byte_bound by (intro js_or_shl_byte) auto
  moreover have "num_at w 18 = uint (w ! 18)" "num_at w 19 = uint (w ! 19)"
    using l(1) by (simp_all add: num_at_def byte_at_def)
  ultimately show ?thesis
    using Inr l by (simp add: length_slice slice_def)
qed

end
