(* ===== verification/Msig_Datetime.thy ===== *)
theory Msig_Datetime
  imports JS_Strings
begin

text \<open>
  \<open>lib/msig/datetime.ts\<close>: timestamps as \<open>YYYY-MM-DD HH:MM:SS\<close>, and the on-chain formatter
  of \<open>programs/clear-wallet/src/utils/datetime.rs\<close> that it mirrors.  The calendar the
  result is measured against is \<open>next_day\<close>, the successor of a date in the Gregorian
  calendar.
\<close>

section \<open>Operations\<close>

record DateParts =
  year :: int
  month :: int
  day :: int
  hour :: int
  minute :: int
  second :: int

definition truncDiv :: "int \<Rightarrow> int \<Rightarrow> int" where
  "truncDiv a b = a sdiv b"

definition timestampToParts :: "int \<Rightarrow> DateParts" where
  "timestampToParts totalSecs =
     (let days = truncDiv totalSecs 86400;
          daySecs = (totalSecs smod 86400 + 86400) smod 86400;
          days = (if totalSecs < 0 \<and> daySecs > 0 then days - 1 else days);
          hr = truncDiv daySecs 3600;
          mi = truncDiv (daySecs smod 3600) 60;
          sc = daySecs smod 60;
          days = days + 719468;
          era = truncDiv (if days \<ge> 0 then days else days - 146096) 146097;
          doe = days - era * 146097;
          yoe = truncDiv (doe - truncDiv doe 1460 + truncDiv doe 36524 - truncDiv doe 146096) 365;
          y = yoe + era * 400;
          doy = doe - (365 * yoe + truncDiv yoe 4 - truncDiv yoe 100);
          mp = truncDiv (5 * doy + 2) 153;
          d = doy - truncDiv (153 * mp + 2) 5 + 1;
          m = (if mp < 10 then mp + 3 else mp - 9);
          yr = (if m \<le> 2 then y + 1 else y)
      in \<lparr>year = yr, month = m, day = d, hour = hr, minute = mi, second = sc\<rparr>)"

text \<open>
  \<open>(v / 10) | 0\<close> is the quotient brought to 32 bits.  The years of 64-bit timestamps
  stay below \<open>2 ^ 53\<close>, where \<open>Number\<close> is exact.
\<close>

definition writeDecimal4 :: "int \<Rightarrow> jsstr" where
  "writeDecimal4 val =
     (let v = (if val < 0 then 0 else val);
          a = to_int32 (v div 1000);
          b = to_int32 (v div 100) smod 10;
          c = to_int32 (v div 10) smod 10;
          d = v smod 10
      in show_int a @ show_int b @ show_int c @ show_int d)"

definition writeDecimal2 :: "int \<Rightarrow> jsstr" where
  "writeDecimal2 val =
     (let hi = to_int32 (val sdiv 10); lo = val smod 10 in show_int hi @ show_int lo)"

definition formatTimestamp :: "int \<Rightarrow> jsstr" where
  "formatTimestamp timestamp =
     (let p = timestampToParts timestamp in
      writeDecimal4 (year p) @ js ''-'' @ writeDecimal2 (month p) @ js ''-'' @ writeDecimal2 (day p)
      @ js '' '' @ writeDecimal2 (hour p) @ js '':'' @ writeDecimal2 (minute p) @ js '':''
      @ writeDecimal2 (second p))"

text \<open>Every code unit of the text is ASCII, so its UTF-8 bytes are its code units.\<close>

definition formatTimestampBytes :: "int \<Rightarrow> bytes" where
  "formatTimestampBytes timestamp = map ucast (formatTimestamp timestamp)"

section \<open>The formatter of the on-chain program\<close>

definition rs_timestamp_to_parts :: "int \<Rightarrow> int \<times> int \<times> int \<times> int \<times> int \<times> int" where
  "rs_timestamp_to_parts total_secs =
     (let days = total_secs sdiv 86400;
          day_secs = (total_secs smod 86400 + 86400) smod 86400;
          days = (if total_secs < 0 \<and> day_secs > 0 then days - 1 else days);
          hr = day_secs sdiv 3600;
          mi = (day_secs smod 3600) sdiv 60;
          sc = day_secs smod 60;
          days = days + 719468;
          era = (if days \<ge> 0 then days else days - 146096) sdiv 146097;
          doe = days - era * 146097;
          yoe = (doe - doe sdiv 1460 + doe sdiv 36524 - doe sdiv 146096) sdiv 365;
          y = yoe + era * 400;
          doy = doe - (365 * yoe + yoe sdiv 4 - yoe sdiv 100);
          mp = (5 * doy + 2) sdiv 153;
          d = doy - (153 * mp + 2) sdiv 5 + 1;
          m = (if mp < 10 then mp + 3 else mp - 9);
          yr = (if m \<le> 2 then y + 1 else y)
      in (yr, m, d, hr, mi, sc))"

text \<open>\<open>val as u32\<close> keeps 32 bits, and the digit is cast to a byte before \<open>b'0'\<close> is added.\<close>

definition rs_write_decimal_2 :: "32 word \<Rightarrow> bytes" where
  "rs_write_decimal_2 val = [48 + ucast (val div 10), 48 + ucast (val mod 10)]"

definition rs_write_decimal_4 :: "32 word \<Rightarrow> bytes" where
  "rs_write_decimal_4 val =
     [48 + ucast (val div 1000), 48 + ucast (val div 100 mod 10),
      48 + ucast (val div 10 mod 10), 48 + ucast (val mod 10)]"

definition rs_format_timestamp :: "int \<Rightarrow> bytes" where
  "rs_format_timestamp timestamp =
     (case rs_timestamp_to_parts timestamp of (yr, mon, dy, hr, mi, sc) \<Rightarrow>
        rs_write_decimal_4 (word_of_int yr) @ ascii ''-'' @ rs_write_decimal_2 (word_of_int mon)
        @ ascii ''-'' @ rs_write_decimal_2 (word_of_int dy) @ ascii '' ''
        @ rs_write_decimal_2 (word_of_int hr) @ ascii '':'' @ rs_write_decimal_2 (word_of_int mi)
        @ ascii '':'' @ rs_write_decimal_2 (word_of_int sc))"

section \<open>The Gregorian calendar\<close>

definition leap_year :: "int \<Rightarrow> bool" where
  "leap_year y \<longleftrightarrow> 4 dvd y \<and> (\<not> 100 dvd y \<or> 400 dvd y)"

definition days_in_month :: "int \<Rightarrow> int \<Rightarrow> int" where
  "days_in_month y m =
     (if m = 2 then (if leap_year y then 29 else 28) else if m \<in> {4, 6, 9, 11} then 30 else 31)"

fun next_day :: "int \<times> int \<times> int \<Rightarrow> int \<times> int \<times> int" where
  "next_day (y, m, d) =
     (if d < days_in_month y m then (y, m, d + 1)
      else if m < 12 then (y, m + 1, 1)
      else (y + 1, 1, 1))"

definition date_of :: "int \<Rightarrow> int \<times> int \<times> int" where
  "date_of ts = (year (timestampToParts ts), month (timestampToParts ts), day (timestampToParts ts))"

text \<open>The seconds since the epoch of a date and time, by the same calendar.\<close>

definition days_of_civil :: "int \<times> int \<times> int \<Rightarrow> int" where
  "days_of_civil ymd =
     (case ymd of (y, m, d) \<Rightarrow>
        let y' = (if m \<le> 2 then y - 1 else y);
            mp = (if m > 2 then m - 3 else m + 9)
        in 365 * y' + y' div 4 - y' div 100 + y' div 400 + (153 * mp + 2) div 5 + d - 1 - 719468)"

definition secs_of_parts :: "DateParts \<Rightarrow> int" where
  "secs_of_parts p =
     86400 * days_of_civil (year p, month p, day p) + 3600 * hour p + 60 * minute p + second p"

section \<open>Years that begin in March\<close>

text \<open>
  \<open>march_start y\<close> is the number of days before 1 March of the year \<open>y\<close>, counted from
  1 March of the year 0, and \<open>march_len y\<close> the length of the year that begins there.
\<close>

definition march_start :: "int \<Rightarrow> int" where
  "march_start y = 365 * y + y div 4 - y div 100 + y div 400"

definition march_len :: "int \<Rightarrow> int" where
  "march_len y = (if leap_year (y + 1) then 366 else 365)"

definition month_of_doy :: "int \<Rightarrow> int" where
  "month_of_doy doy = (let mp = (5 * doy + 2) div 153 in if mp < 10 then mp + 3 else mp - 9)"

definition day_of_doy :: "int \<Rightarrow> int" where
  "day_of_doy doy = doy - (153 * ((5 * doy + 2) div 153) + 2) div 5 + 1"

lemma dvd_step: "0 < n \<Longrightarrow> (y + 1) div n = y div n + (if n dvd y + 1 then 1 else (0 :: int))"
proof -
  assume n: "0 < n"
  show ?thesis
  proof (cases "n dvd y + 1")
    case True
    then obtain k where k: "y + 1 = n * k" by (elim dvdE)
    then have "y = n * (k - 1) + (n - 1)" by (simp add: algebra_simps)
    then have "y div n = k - 1" by (rule int_div_pos_eq) (use n in simp_all)
    with k n show ?thesis by simp
  next
    case False
    have "0 \<le> y mod n" "y mod n < n" using n by simp_all
    moreover have "y mod n \<noteq> n - 1"
    proof
      assume "y mod n = n - 1"
      then have "y + 1 = n * (y div n) + n" using mult_div_mod_eq [of n y] by linarith
      then have "n dvd y + 1" by simp
      with False show False by contradiction
    qed
    ultimately have "0 \<le> y mod n + 1" "y mod n + 1 < n" by simp_all
    moreover have "y + 1 = n * (y div n) + (y mod n + 1)" by simp
    ultimately have "(y + 1) div n = y div n"
      by (intro int_div_pos_eq)
    with False show ?thesis by simp
  qed
qed

lemma leap_arith:
  fixes a b c y :: int
  assumes "p400 \<longrightarrow> p100" "p100 \<longrightarrow> p4"
  shows "365 * (y + 1) + (a + (if p4 then 1 else 0)) - (b + (if p100 then 1 else 0)) + (c + (if p400 then 1 else 0))
    = 365 * y + a - b + c + (if p4 \<and> (\<not> p100 \<or> p400) then 366 else 365)"
  by (cases p4; cases p100; cases p400) (use assms in simp_all)

lemma dvd_400_100_4: "400 dvd (y :: int) \<longrightarrow> 100 dvd y" "100 dvd (y :: int) \<longrightarrow> 4 dvd y"
  using dvd_trans [of 100 400 y] dvd_trans [of 4 100 y] by simp_all

lemma march_start_Suc: "march_start (y + 1) = march_start y + march_len y"
  unfolding march_start_def march_len_def leap_year_def
    dvd_step [of 4 y, simplified] dvd_step [of 100 y, simplified] dvd_step [of 400 y, simplified]
  by (rule leap_arith [OF dvd_400_100_4])

lemma march_len_bounds: "365 \<le> march_len y" "march_len y \<le> 366"
  by (simp_all add: march_len_def)

lemma march_start_mono: "y \<le> y' \<Longrightarrow> march_start y + 365 * (y' - y) \<le> march_start y'"
proof (induction "nat (y' - y)" arbitrary: y')
  case 0
  then show ?case by simp
next
  case (Suc n)
  then have "n = nat ((y' - 1) - y)" "y \<le> y' - 1" by simp_all
  with Suc have "march_start y + 365 * (y' - 1 - y) \<le> march_start (y' - 1)" by blast
  moreover have "march_start y' = march_start (y' - 1) + march_len (y' - 1)"
    using march_start_Suc [of "y' - 1"] by simp
  ultimately show ?case using march_len_bounds(1) [of "y' - 1"] by (simp add: algebra_simps)
qed

lemma march_unique:
  assumes "march_start y + n = march_start y' + n'"
    and "0 \<le> n" "n < march_len y" "0 \<le> n'" "n' < march_len y'"
  shows "y = y' \<and> n = n'"
proof (cases y y' rule: linorder_cases)
  case less
  then have "march_start (y + 1) \<le> march_start y'" using march_start_mono [of "y + 1" y'] by simp
  then show ?thesis using assms march_start_Suc [of y] by linarith
next
  case equal
  with assms show ?thesis by simp
next
  case greater
  then have "march_start (y' + 1) \<le> march_start y" using march_start_mono [of "y' + 1" y] by simp
  then show ?thesis using assms march_start_Suc [of y'] by linarith
qed

section \<open>The years of an era\<close>

text \<open>\<open>yoe_num doe\<close> is the numerator of the year-of-era quotient; it never decreases.\<close>

definition yoe_num :: "int \<Rightarrow> int" where
  "yoe_num doe = doe - doe div 1460 + doe div 36524 - doe div 146096"

definition yoe_of :: "int \<Rightarrow> int" where
  "yoe_of doe = yoe_num doe div 365"

lemma yoe_num_Suc: "yoe_num n \<le> yoe_num (n + 1)"
proof -
  have "146096 dvd n + 1 \<Longrightarrow> 36524 dvd n + 1"
    using dvd_trans [of 36524 146096 "n + 1"] by simp
  then show ?thesis by (simp add: yoe_num_def dvd_step)
qed

lemma yoe_num_mono: "m \<le> n \<Longrightarrow> yoe_num m \<le> yoe_num n"
proof (induction "nat (n - m)" arbitrary: n)
  case 0
  then show ?case by simp
next
  case (Suc k)
  then have "k = nat ((n - 1) - m)" "m \<le> n - 1" by simp_all
  with Suc have "yoe_num m \<le> yoe_num (n - 1)" by blast
  with yoe_num_Suc [of "n - 1"] show ?case by simp
qed

text \<open>Each quotient of the code at the first day of a year, and before that day.\<close>

lemma div_bounds: "0 < n \<Longrightarrow> n * (y div n) \<le> y \<and> y < n * (y div n) + (n :: int)"
  using pos_mod_bound [of n y] pos_mod_sign [of n y] mult_div_mod_eq [of n y] by linarith

lemma start_div:
  assumes "0 \<le> y" "y < 400"
  shows "march_start y = 365 * y + y div 4 - y div 100"
    and "march_start y div 1460 = y div 4"
    and "march_start y div 36524 = y div 100"
    and "march_start y div 146096 = 0"
    and "0 < y \<Longrightarrow> (march_start y - 1) div 1460 = y div 4"
    and "(march_start y - 1) div 36524 \<le> y div 100"
    and "0 < y \<Longrightarrow> (march_start y - 1) div 146096 = 0"
proof -
  show s: "march_start y = 365 * y + y div 4 - y div 100"
    using assms by (simp add: march_start_def)
  have "y div 100 = y div 4 div 25" using zdiv_zmult2_eq [of 25 y 4] by simp
  then have c: "25 * (y div 100) \<le> y div 4" "y div 4 < 25 * (y div 100) + 25"
    using div_bounds [of 25 "y div 4"] by simp_all
  have q: "4 * (y div 4) \<le> y" "y < 4 * (y div 4) + 4" "0 \<le> y div 100"
    using div_bounds [of 4 y] assms by (simp_all add: pos_imp_zdiv_nonneg_iff)
  have h: "y div 100 \<le> 3" "100 * (y div 100) \<le> y" "y < 100 * (y div 100) + 100"
    using div_bounds [of 100 y] assms by linarith+
  note b = s c q h assms
  show "march_start y div 1460 = y div 4"
    by (rule int_div_pos_eq [of _ _ _ "march_start y - 1460 * (y div 4)"]) (use b in linarith)+
  show "march_start y div 36524 = y div 100"
    by (rule int_div_pos_eq [of _ _ _ "march_start y - 36524 * (y div 100)"]) (use b in linarith)+
  show "march_start y div 146096 = 0"
    by (rule int_div_pos_eq [of _ _ _ "march_start y"]) (use b in linarith)+
  then show "(march_start y - 1) div 36524 \<le> y div 100"
    using \<open>march_start y div 36524 = y div 100\<close> zdiv_mono1 [of "march_start y - 1" "march_start y" 36524]
    by simp
  assume "0 < y"
  then have p: "4 * (y div 4) = y \<longrightarrow> 1 \<le> y div 4" using div_bounds [of 4 y] by linarith
  show "(march_start y - 1) div 1460 = y div 4"
  proof (rule int_div_pos_eq [of _ _ _ "march_start y - 1 - 1460 * (y div 4)"])
    show "0 \<le> march_start y - 1 - 1460 * (y div 4)"
      using b p by (cases "4 * (y div 4) = y") linarith+
  qed (use b in linarith)+
  show "(march_start y - 1) div 146096 = 0"
    by (rule int_div_pos_eq [of _ _ _ "march_start y - 1"]) (use b \<open>0 < y\<close> in linarith)+
qed

lemma yoe_num_start: "0 \<le> y \<Longrightarrow> y < 400 \<Longrightarrow> yoe_num (march_start y) = 365 * y"
  by (simp only: yoe_num_def start_div(2-4)) (simp add: start_div(1))

lemma yoe_num_end_arith:
  fixes t :: int
  assumes "t = 365 * z + q - c" "i = q" "j \<le> c" "k = 0"
  shows "t - 1 - i + j - k < 365 * z"
  using assms by simp

lemma yoe_num_end: "0 \<le> y \<Longrightarrow> y < 399 \<Longrightarrow> yoe_num (march_start (y + 1) - 1) < 365 * (y + 1)"
  unfolding yoe_num_def
  by (rule yoe_num_end_arith [OF start_div(1,5,6,7)]) simp_all

lemma yoe_of_year:
  assumes "0 \<le> y" "y < 400" "march_start y \<le> doe" "doe < march_start (y + 1)"
  shows "yoe_of doe = y"
proof -
  have "365 * y \<le> yoe_num doe"
    using yoe_num_mono [OF assms(3)] yoe_num_start [of y] assms by simp
  moreover have "yoe_num doe < 365 * y + 365"
  proof (cases "y = 399")
    case True
    then have "doe \<le> 146096" using assms by (simp add: march_start_def)
    then have "yoe_num doe \<le> yoe_num 146096" by (rule yoe_num_mono)
    with True show ?thesis by (simp add: yoe_num_def)
  next
    case False
    with assms have "yoe_num (march_start (y + 1) - 1) < 365 * (y + 1)" by (intro yoe_num_end) auto
    moreover have "yoe_num doe \<le> yoe_num (march_start (y + 1) - 1)"
      using assms by (intro yoe_num_mono) simp
    ultimately show ?thesis by simp
  qed
  ultimately show ?thesis
    unfolding yoe_of_def by (intro int_div_pos_eq [of _ _ _ "yoe_num doe - 365 * y"]) auto
qed

lemma march_start_0 [simp]: "march_start 0 = 0"
  by (simp add: march_start_def)

lemma era_year_exists:
  assumes "0 \<le> doe" "doe < 146097"
  obtains y where "0 \<le> y" "y < 400" "march_start y \<le> doe" "doe < march_start (y + 1)"
proof -
  have "\<exists>y. 0 \<le> y \<and> y < int n \<and> march_start y \<le> doe \<and> doe < march_start (y + 1)"
    if "doe < march_start (int n)" for n
    using that
  proof (induction n)
    case 0
    with assms show ?case by simp
  next
    case (Suc n)
    show ?case
    proof (cases "doe < march_start (int n)")
      case True
      with Suc show ?thesis by force
    next
      case False
      with Suc.prems show ?thesis by (intro exI [of _ "int n"]) (simp add: add.commute)
    qed
  qed
  moreover have "march_start (int 400) = 146097" by (simp add: march_start_def)
  ultimately show thesis using assms that by (metis of_nat_numeral)
qed

lemma march_start_era: "march_start (y + 400 * e) = march_start y + 146097 * e"
proof -
  have "(y + 400 * e) div 4 = y div 4 + 100 * e" "(y + 400 * e) div 100 = y div 100 + 4 * e"
    "(y + 400 * e) div 400 = y div 400 + e"
    using div_mult_self1 [of 4 y "100 * e"] div_mult_self1 [of 100 y "4 * e"] by simp_all
  then show ?thesis by (simp add: march_start_def)
qed

text \<open>The year-of-era steps of the code, for every day number.\<close>

lemma march_of_days:
  fixes z :: int
  defines "e \<equiv> z div 146097" and "doe \<equiv> z mod 146097"
  shows "z = march_start (yoe_of doe + 400 * e) + (doe - (365 * yoe_of doe + yoe_of doe div 4 - yoe_of doe div 100))"
    and "0 \<le> doe - (365 * yoe_of doe + yoe_of doe div 4 - yoe_of doe div 100)"
    and "doe - (365 * yoe_of doe + yoe_of doe div 4 - yoe_of doe div 100) < march_len (yoe_of doe + 400 * e)"
    and "0 \<le> yoe_of doe" "yoe_of doe < 400"
proof -
  have "0 \<le> doe" "doe < 146097" by (simp_all add: doe_def)
  then obtain y where y: "0 \<le> y" "y < 400" "march_start y \<le> doe" "doe < march_start (y + 1)"
    by (rule era_year_exists)
  then have [simp]: "yoe_of doe = y" by (rule yoe_of_year)
  have s: "march_start y = 365 * y + y div 4 - y div 100" using y by (simp add: march_start_def)
  have "leap_year (y + 400 * e + 1) \<longleftrightarrow> leap_year (y + 1)"
    using dvd_add_left_iff [of 4 "400 * e" "y + 1"] dvd_add_left_iff [of 100 "400 * e" "y + 1"]
      dvd_add_left_iff [of 400 "400 * e" "y + 1"]
    by (simp add: leap_year_def ac_simps)
  then have l: "march_len (y + 400 * e) = march_len y" by (simp add: march_len_def)
  show "z = march_start (yoe_of doe + 400 * e) + (doe - (365 * yoe_of doe + yoe_of doe div 4 - yoe_of doe div 100))"
    using s by (simp add: march_start_era) (simp add: e_def doe_def)
  show "0 \<le> doe - (365 * yoe_of doe + yoe_of doe div 4 - yoe_of doe div 100)"
    using s y by simp
  show "doe - (365 * yoe_of doe + yoe_of doe div 4 - yoe_of doe div 100) < march_len (yoe_of doe + 400 * e)"
    using s y l march_start_Suc [of y] by simp
  show "0 \<le> yoe_of doe" "yoe_of doe < 400" using y by simp_all
qed

section \<open>The fields of the result\<close>

text \<open>The year that begins in March and the day in it, of a day number counted from 1970.\<close>

definition march_year :: "int \<Rightarrow> int" where
  "march_year n = yoe_of ((n + 719468) mod 146097) + 400 * ((n + 719468) div 146097)"

definition march_doy :: "int \<Rightarrow> int" where
  "march_doy n = n + 719468 - march_start (march_year n)"

lemma march_doy_eq:
  "march_doy n = (let doe = (n + 719468) mod 146097 in
     doe - (365 * yoe_of doe + yoe_of doe div 4 - yoe_of doe div 100))"
  using march_of_days(1) [of "n + 719468"] unfolding march_doy_def march_year_def Let_def by linarith

lemma march_doy_bounds: "0 \<le> march_doy n" "march_doy n < march_len (march_year n)"
  unfolding march_doy_eq march_year_def Let_def using march_of_days(2,3) [of "n + 719468"] by blast+

lemma march_doy_366: "march_doy n < 366"
  using march_doy_bounds(2) [of n] march_len_bounds(2) [of "march_year n"] by linarith

lemma march_split:
  assumes "n + 719468 = march_start y + k" "0 \<le> k" "k < march_len y"
  shows "march_year n = y \<and> march_doy n = k"
proof (rule march_unique)
  show "march_start (march_year n) + march_doy n = march_start y + k"
    using assms(1) unfolding march_doy_def by linarith
qed (use assms march_doy_bounds [of n] in simp_all)

definition civil :: "int \<Rightarrow> int \<times> int \<times> int" where
  "civil n = (let m = month_of_doy (march_doy n) in
     (if m \<le> 2 then march_year n + 1 else march_year n, m, day_of_doy (march_doy n)))"

lemma yoe_steps:
  assumes "0 \<le> doe" "doe < 146097"
  shows "truncDiv (doe - truncDiv doe 1460 + truncDiv doe 36524 - truncDiv doe 146096) 365 = yoe_of doe"
proof -
  have "0 \<le> yoe_num doe" using yoe_num_mono [OF assms(1)] by (simp add: yoe_num_def)
  with assms show ?thesis by (simp add: truncDiv_def sdiv_nonneg yoe_of_def yoe_num_def)
qed

lemma month_steps:
  assumes "0 \<le> doy"
  shows "(if truncDiv (5 * doy + 2) 153 < 10 then truncDiv (5 * doy + 2) 153 + 3
      else truncDiv (5 * doy + 2) 153 - 9) = month_of_doy doy"
    and "doy - truncDiv (153 * truncDiv (5 * doy + 2) 153 + 2) 5 + 1 = day_of_doy doy"
  using assms
  by (simp_all add: truncDiv_def sdiv_nonneg month_of_doy_def day_of_doy_def Let_def pos_imp_zdiv_nonneg_iff)

lemma timestampToParts_eq:
  "timestampToParts ts =
     \<lparr>year = fst (civil (ts div 86400)), month = fst (snd (civil (ts div 86400))),
      day = snd (snd (civil (ts div 86400))), hour = ts mod 86400 div 3600,
      minute = ts mod 86400 mod 3600 div 60, second = ts mod 86400 mod 60\<rparr>"
proof -
  define n where "n = ts div 86400"
  let ?doe = "(n + 719468) mod 146097"
  have a: "(ts smod 86400 + 86400) smod 86400 = ts mod 86400"
    "(if ts < 0 \<and> ts mod 86400 > 0 then truncDiv ts 86400 - 1 else truncDiv ts 86400) = n"
    unfolding truncDiv_def n_def by (rule smod_plus, simp, rule sdiv_floor, simp)
  have b: "truncDiv (if n + 719468 \<ge> 0 then n + 719468 else n + 719468 - 146096) 146097
      = (n + 719468) div 146097"
    unfolding truncDiv_def by (rule sdiv_era) simp_all
  have c: "n + 719468 - (n + 719468) div 146097 * 146097 = ?doe"
    by (simp add: minus_div_mult_eq_mod)
  have y: "truncDiv (yoe_of ?doe) 4 = yoe_of ?doe div 4" "truncDiv (yoe_of ?doe) 100 = yoe_of ?doe div 100"
    using march_of_days(4) [of "n + 719468"] by (simp_all add: truncDiv_def sdiv_nonneg)
  have d: "?doe - (365 * yoe_of ?doe + yoe_of ?doe div 4 - yoe_of ?doe div 100) = march_doy n"
    by (simp add: march_doy_eq Let_def)
  have e: "yoe_of ?doe + (n + 719468) div 146097 * 400 = march_year n"
    by (simp add: march_year_def)
  have m: "0 \<le> ts mod 86400" by simp
  then have h: "truncDiv (ts mod 86400) 3600 = ts mod 86400 div 3600"
    "truncDiv (ts mod 86400 smod 3600) 60 = ts mod 86400 mod 3600 div 60"
    "ts mod 86400 smod 60 = ts mod 86400 mod 60"
    by (simp_all add: truncDiv_def sdiv_nonneg smod_nonneg)
  have doe: "0 \<le> ?doe" "?doe < 146097" by simp_all
  show ?thesis
    unfolding timestampToParts_def Let_def a b c yoe_steps [OF doe] y d e h
      month_steps [OF march_doy_bounds(1)]
    by (simp add: civil_def Let_def n_def)
qed

section \<open>Successive days\<close>

text \<open>The month and day of each day number of a year that begins in March.\<close>

definition doy_ok :: "int \<Rightarrow> bool" where
  "doy_ok k =
     (let m = month_of_doy k; d = day_of_doy k; m' = month_of_doy (k + 1); d' = day_of_doy (k + 1) in
      1 \<le> m \<and> m \<le> 12 \<and> 1 \<le> d \<and>
      (153 * (if m > 2 then m - 3 else m + 9) + 2) div 5 + d - 1 = k \<and>
      (m = 2) = (337 \<le> k) \<and> (m \<le> 2) = (306 \<le> k) \<and>
      (m = 2 \<longrightarrow> d = k - 336 \<and> (k < 365 \<longrightarrow> m' = 2 \<and> d' = d + 1)) \<and>
      (m \<noteq> 2 \<longrightarrow> d \<le> (if m \<in> {4, 6, 9, 11} then 30 else 31) \<and>
        (if d < (if m \<in> {4, 6, 9, 11} then 30 else 31) then m' = m \<and> d' = d + 1
         else d' = 1 \<and> m' = (if m < 12 then m + 1 else 1))))"

lemma doy_ok_all: "\<forall>k \<in> set [0..365]. doy_ok k"
  by code_simp

lemma doy_ok_march: "doy_ok (march_doy n)"
  using doy_ok_all march_doy_bounds(1) [of n] march_doy_366 [of n] by simp

lemma civil_valid: "case civil n of (y, m, d) \<Rightarrow> 1 \<le> m \<and> m \<le> 12 \<and> 1 \<le> d \<and> d \<le> days_in_month y m"
proof -
  have "march_doy n < (if leap_year (march_year n + 1) then 366 else 365)"
    using march_doy_bounds(2) [of n] by (simp add: march_len_def)
  then show ?thesis
    using doy_ok_march [of n] by (auto simp: civil_def doy_ok_def Let_def days_in_month_def split: if_splits)
qed

lemma days_of_civil_march:
  "days_of_civil (y, m, d) = march_start (if m \<le> 2 then y - 1 else y)
     + ((153 * (if m > 2 then m - 3 else m + 9) + 2) div 5 + d - 1) - 719468"
  unfolding days_of_civil_def march_start_def Let_def prod.case by simp

lemma days_of_civil_civil: "days_of_civil (civil n) = n"
proof -
  have "(153 * (if month_of_doy (march_doy n) > 2 then month_of_doy (march_doy n) - 3
      else month_of_doy (march_doy n) + 9) + 2) div 5 + day_of_doy (march_doy n) - 1 = march_doy n"
    using doy_ok_march [of n] unfolding doy_ok_def Let_def by blast
  moreover have "(if m \<le> 2 then (if m \<le> 2 then y + 1 else y) - 1 else if m \<le> 2 then y + 1 else y) = y"
    for m y :: int by simp
  ultimately show ?thesis
    unfolding civil_def Let_def days_of_civil_march march_doy_def by (simp only:)
qed

lemma civil_next: "civil (n + 1) = next_day (civil n)"
proof (cases "march_doy n + 1 < march_len (march_year n)")
  case True
  then have s: "march_year (n + 1) = march_year n \<and> march_doy (n + 1) = march_doy n + 1"
    using march_doy_bounds(1) [of n] by (intro march_split) (auto simp: march_doy_def)
  have l: "march_doy n + 1 < (if leap_year (march_year n + 1) then 366 else 365)"
    using True by (simp add: march_len_def)
  show ?thesis
  proof (cases "month_of_doy (march_doy n) = 2")
    case True
    with doy_ok_march [of n] l s show ?thesis
      by (auto simp: civil_def Let_def doy_ok_def days_in_month_def split: if_splits)
  next
    case False
    with doy_ok_march [of n] s show ?thesis
      by (auto simp: civil_def Let_def doy_ok_def days_in_month_def split: if_splits)
  qed
next
  case False
  then have l: "march_doy n + 1 = march_len (march_year n)" using march_doy_bounds(2) [of n] by simp
  then have s: "march_year (n + 1) = march_year n + 1 \<and> march_doy (n + 1) = 0"
    using march_start_Suc [of "march_year n"] march_len_bounds(1) [of "march_year n + 1"]
    by (intro march_split) (auto simp: march_doy_def)
  have "month_of_doy 0 = 3" "day_of_doy 0 = 1" by (simp_all add: month_of_doy_def day_of_doy_def)
  with s l doy_ok_march [of n] show ?thesis
    by (auto simp: civil_def Let_def doy_ok_def days_in_month_def march_len_def split: if_splits)
qed

lemma date_of_eq: "date_of ts = civil (ts div 86400)"
  by (simp add: date_of_def timestampToParts_eq)

lemma hms: "3600 * (r div 3600) + 60 * (r mod 3600 div 60) + r mod 60 = (r :: int)"
proof -
  have "60 * (r mod 3600 div 60) + r mod 3600 mod 60 = r mod 3600" by (rule mult_div_mod_eq)
  moreover have "r mod 3600 mod 60 = r mod 60" by (rule mod_mod_cancel) simp
  ultimately have "60 * (r mod 3600 div 60) + r mod 60 = r mod 3600" by (simp only:)
  then show ?thesis by (simp only: add.assoc mult_div_mod_eq)
qed

lemma secs_of_timestampToParts: "secs_of_parts (timestampToParts ts) = ts"
  unfolding secs_of_parts_def timestampToParts_eq DateParts.simps prod.collapse days_of_civil_civil
  by (simp only: add.assoc [of "86400 * (ts div 86400)"] hms [unfolded add.assoc] add.assoc mult_div_mod_eq)

section \<open>The text of the years 0 to 9999\<close>

definition ts_in_range :: "int \<Rightarrow> bool" where
  "ts_in_range ts \<longleftrightarrow> -62167219200 \<le> ts \<and> ts \<le> 253402300799"

lemma march_year_less: "n + 719468 < march_start y \<Longrightarrow> march_year n < y"
  using march_start_mono [of y "march_year n"] march_doy_bounds(1) [of n]
  by (cases "march_year n < y") (auto simp: march_doy_def)

lemma march_year_ge: "march_start y \<le> n + 719468 \<Longrightarrow> y \<le> march_year n"
  using march_start_mono [of "march_year n + 1" y] march_doy_bounds(2) [of n] march_start_Suc [of "march_year n"]
  by (cases "y \<le> march_year n") (auto simp: march_doy_def)

lemma civil_year_range:
  assumes "-719528 \<le> n" "n \<le> 2932896"
  shows "0 \<le> fst (civil n)" "fst (civil n) \<le> 9999"
proof -
  have v: "march_start (-1) = -366" "march_start 10000 = 3652425" "march_start 9999 = 3652059"
    by (simp_all add: march_start_def)
  have lo: "-1 \<le> march_year n" using assms v by (intro march_year_ge) simp
  have hi: "march_year n < 10000" using assms v by (intro march_year_less) simp
  have "march_year n = -1 \<Longrightarrow> 306 \<le> march_doy n" "march_year n = 9999 \<Longrightarrow> march_doy n < 306"
    using assms v by (simp_all add: march_doy_def)
  moreover have "(month_of_doy (march_doy n) \<le> 2) = (306 \<le> march_doy n)"
    using doy_ok_march [of n] unfolding doy_ok_def Let_def by blast
  moreover have "march_year n = -1 \<or> 0 \<le> march_year n" "march_year n = 9999 \<or> march_year n \<le> 9998"
    using lo hi by linarith+
  ultimately show "0 \<le> fst (civil n)" "fst (civil n) \<le> 9999"
    using lo hi by (auto simp: civil_def Let_def)
qed

lemma parts_bounds:
  fixes ts :: int
  defines "p \<equiv> timestampToParts ts"
  shows "1 \<le> month p" "month p \<le> 12" "1 \<le> day p" "day p \<le> 31"
    "0 \<le> hour p" "hour p \<le> 23" "0 \<le> minute p" "minute p \<le> 59" "0 \<le> second p" "second p \<le> 59"
    "ts_in_range ts \<Longrightarrow> 0 \<le> year p" "ts_in_range ts \<Longrightarrow> year p \<le> 9999"
proof -
  obtain y m d where c: "civil (ts div 86400) = (y, m, d)" by (metis prod_cases3)
  then have v: "1 \<le> m" "m \<le> 12" "1 \<le> d" "d \<le> 31"
    using civil_valid [of "ts div 86400"] by (auto simp: days_in_month_def split: if_splits)
  have eq: "p = \<lparr>year = y, month = m, day = d, hour = ts mod 86400 div 3600,
      minute = ts mod 86400 mod 3600 div 60, second = ts mod 86400 mod 60\<rparr>"
    by (simp add: p_def timestampToParts_eq c)
  show "1 \<le> month p" "month p \<le> 12" "1 \<le> day p" "day p \<le> 31" using v by (simp_all add: eq)
  have "0 \<le> ts mod 86400" "ts mod 86400 < 86400" by simp_all
  then have "0 \<le> ts mod 86400 div 3600" "ts mod 86400 div 3600 < 24"
    using div_bounds [of 3600 "ts mod 86400"] by linarith+
  then show "0 \<le> hour p" "hour p \<le> 23" by (simp_all add: eq)
  have "0 \<le> ts mod 86400 mod 3600" "ts mod 86400 mod 3600 < 3600" by simp_all
  then have "0 \<le> ts mod 86400 mod 3600 div 60" "ts mod 86400 mod 3600 div 60 < 60"
    using div_bounds [of 60 "ts mod 86400 mod 3600"] by linarith+
  then show "0 \<le> minute p" "minute p \<le> 59" by (simp_all add: eq)
  have "0 \<le> ts mod 86400 mod 60" "ts mod 86400 mod 60 < 60" by simp_all
  then show "0 \<le> second p" "second p \<le> 59" by (simp_all add: eq)
  assume "ts_in_range ts"
  then have "-719528 \<le> ts div 86400" "ts div 86400 \<le> 2932896"
    using div_bounds [of 86400 ts] unfolding ts_in_range_def by linarith+
  then show "0 \<le> year p" "year p \<le> 9999" using civil_year_range [of "ts div 86400"] by (simp_all add: eq c)
qed

definition dc :: "int \<Rightarrow> 16 word" where
  "dc d = digit_char (nat d)"

lemma show_int_digit: "0 \<le> d \<Longrightarrow> d < 10 \<Longrightarrow> show_int d = [dc d]"
  by (subst show_int_def) (simp add: show_nat.simps dc_def)

lemma to_int32_1000: "0 \<le> x \<Longrightarrow> x < 1000 \<Longrightarrow> to_int32 x = x"
  by (rule to_int32_id) simp_all

lemma writeDecimal2_digits:
  assumes "0 \<le> v" "v \<le> 99"
  shows "writeDecimal2 v = [dc (v div 10), dc (v mod 10)]"
proof -
  have "0 \<le> v div 10" "v div 10 < 10" using assms div_bounds [of 10 v] by linarith+
  moreover from this have "to_int32 (v div 10) = v div 10" by (intro to_int32_id) auto
  moreover have "0 \<le> v mod 10" "v mod 10 < 10" by simp_all
  ultimately show ?thesis
    using assms by (simp only: writeDecimal2_def Let_def sdiv_nonneg smod_nonneg zero_less_numeral) (simp add: show_int_digit)
qed

lemma writeDecimal4_digits:
  assumes "0 \<le> v" "v \<le> 9999"
  shows "writeDecimal4 v = [dc (v div 1000), dc (v div 100 mod 10), dc (v div 10 mod 10), dc (v mod 10)]"
proof -
  have b: "0 \<le> v div 1000" "v div 1000 < 10" "0 \<le> v div 100" "v div 100 < 100" "0 \<le> v div 10" "v div 10 < 1000"
    using assms div_bounds [of 10 v] div_bounds [of 100 v] div_bounds [of 1000 v] by linarith+
  have "v div 1000 < 1000" "v div 100 < 1000" by (rule less_trans [OF b(2)], simp, rule less_trans [OF b(4)], simp)
  then have "to_int32 (v div 1000) = v div 1000" "to_int32 (v div 100) = v div 100" "to_int32 (v div 10) = v div 10"
    using b(1,3,5,6) by (simp_all only: to_int32_1000)
  moreover have "(if v < 0 then 0 else v) = v" using assms by simp
  ultimately have "writeDecimal4 v = show_int (v div 1000) @ show_int (v div 100 mod 10)
      @ show_int (v div 10 mod 10) @ show_int (v mod 10)"
    using b assms by (simp only: writeDecimal4_def Let_def smod_nonneg zero_less_numeral)
  with b show ?thesis by (simp add: show_int_digit)
qed

lemma dc_byte: "0 \<le> d \<Longrightarrow> d < 10 \<Longrightarrow> (ucast (dc d) :: byte) = 48 + word_of_int d"
proof -
  have "\<forall>d \<in> set [0..9]. (ucast (dc d) :: byte) = 48 + word_of_int d" by code_simp
  then show "0 \<le> d \<Longrightarrow> d < 10 \<Longrightarrow> (ucast (dc d) :: byte) = 48 + word_of_int d" by simp
qed

lemma dc_inj: "0 \<le> d \<Longrightarrow> d < 10 \<Longrightarrow> 0 \<le> e \<Longrightarrow> e < 10 \<Longrightarrow> dc d = dc e \<longleftrightarrow> d = e"
  unfolding dc_def by (metis digit_val_char nat_less_eq_zless nat_numeral eq_nat_nat_iff)

lemma u32_div_mod:
  assumes "0 \<le> v" "v < 2 ^ 32" "0 < k" "k < 2 ^ 32"
  shows "(word_of_int v :: 32 word) div word_of_int k = word_of_int (v div k)"
    and "(word_of_int v :: 32 word) mod word_of_int k = word_of_int (v mod k)"
proof -
  have u: "uint (word_of_int x :: 32 word) = x" if "0 \<le> x" "x < 2 ^ 32" for x
    using that by (simp add: uint_word_of_int)
  have "0 \<le> v div k" "0 \<le> v mod k" "v mod k < k"
    using assms by (simp_all add: pos_imp_zdiv_nonneg_iff)
  moreover have "v div k \<le> v" using assms zdiv_mono2 [of v 1 k] by simp
  ultimately have "0 \<le> v div k" "v div k < 2 ^ 32" "0 \<le> v mod k" "v mod k < 2 ^ 32"
    using assms by linarith+
  with assms show "(word_of_int v :: 32 word) div word_of_int k = word_of_int (v div k)"
    "(word_of_int v :: 32 word) mod word_of_int k = word_of_int (v mod k)"
    by (simp_all add: word_uint_eq_iff uint_div uint_mod u)
qed

lemma ucast_word_of_int_byte:
  "0 \<le> v \<Longrightarrow> v < 2 ^ 32 \<Longrightarrow> (ucast (word_of_int v :: 32 word) :: byte) = word_of_int v"
  by (simp add: ucast_eq uint_word_of_int)

lemma rs_digit:
  assumes "0 \<le> v" "v < 2 ^ 32" "0 < k" "k < 2 ^ 32" "v div k < 10"
  shows "48 + ucast ((word_of_int v :: 32 word) div word_of_int k) = (ucast (dc (v div k)) :: byte)"
proof -
  have "0 \<le> v div k" using assms by (simp add: pos_imp_zdiv_nonneg_iff)
  with assms show ?thesis by (simp add: u32_div_mod dc_byte ucast_word_of_int_byte)
qed

lemma rs_digit_mod:
  assumes "0 \<le> v" "v < 2 ^ 32" "0 < k" "k < 2 ^ 32"
  shows "48 + ucast ((word_of_int v :: 32 word) div word_of_int k mod 10) = (ucast (dc (v div k mod 10)) :: byte)"
proof -
  have q: "0 \<le> v div k" "v div k \<le> v" using assms zdiv_mono2 [of v 1 k] by (simp_all add: pos_imp_zdiv_nonneg_iff)
  have "0 \<le> v div k mod 10" "v div k mod 10 < 10" by simp_all
  with assms q show ?thesis
    using u32_div_mod(2) [of "v div k" 10] by (simp add: u32_div_mod(1) dc_byte ucast_word_of_int_byte)
qed

lemma rs_write_decimal_2_eq:
  assumes "0 \<le> v" "v \<le> 99"
  shows "rs_write_decimal_2 (word_of_int v) = map ucast (writeDecimal2 v)"
proof -
  have "0 \<le> v div 10" "v div 10 < 10" using assms div_bounds [of 10 v] by linarith+
  then show ?thesis
    using assms u32_div_mod [of v 10]
    by (simp add: rs_write_decimal_2_def writeDecimal2_digits dc_byte ucast_word_of_int_byte)
qed

lemma rs_write_decimal_4_eq:
  assumes "0 \<le> v" "v \<le> 9999"
  shows "rs_write_decimal_4 (word_of_int v) = map ucast (writeDecimal4 v)"
proof -
  have b: "0 \<le> v div 1000" "v div 1000 < 10" "0 \<le> v div 100" "v div 100 < 100" "0 \<le> v div 10" "v div 10 < 1000"
    using assms div_bounds [of 10 v] div_bounds [of 100 v] div_bounds [of 1000 v] by linarith+
  have v32: "v < 4294967296" using assms by linarith
  let ?w = "word_of_int v :: 32 word"
  have d: "48 + ucast (?w div 1000) = (ucast (dc (v div 1000)) :: byte)"
    "48 + ucast (?w div 100 mod 10) = (ucast (dc (v div 100 mod 10)) :: byte)"
    "48 + ucast (?w div 10 mod 10) = (ucast (dc (v div 10 mod 10)) :: byte)"
    "48 + ucast (?w mod 10) = (ucast (dc (v mod 10)) :: byte)"
    by (rule rs_digit [of v 1000, simplified, OF assms(1) v32 b(2)]
        rs_digit_mod [of v 100, simplified, OF assms(1) v32]
        rs_digit_mod [of v 10, simplified, OF assms(1) v32]
        rs_digit_mod [of v 1, simplified, OF assms(1) v32])+
  show ?thesis
    unfolding rs_write_decimal_4_def writeDecimal4_digits [OF assms] list.map d ..
qed

lemma rs_timestamp_to_parts_eq:
  "rs_timestamp_to_parts ts = (let p = timestampToParts ts in
     (year p, month p, day p, hour p, minute p, second p))"
  unfolding rs_timestamp_to_parts_def timestampToParts_def truncDiv_def Let_def DateParts.simps ..

lemma rs_format_timestamp_eq: "ts_in_range ts \<Longrightarrow> rs_format_timestamp ts = formatTimestampBytes ts"
  using parts_bounds [of ts]
  unfolding rs_format_timestamp_def rs_timestamp_to_parts_eq formatTimestampBytes_def formatTimestamp_def
    Let_def prod.case
  by (simp add: rs_write_decimal_2_eq rs_write_decimal_4_eq)

section \<open>The text determines the time\<close>

lemma zdiv_div_10: "v div 10 div 10 = v div 100" "v div 100 div 10 = (v :: int) div 1000"
  using zdiv_zmult2_eq [of 10 v 10] zdiv_zmult2_eq [of 10 v 100] by simp_all

lemma digits4_inj:
  fixes v w :: int
  assumes "v div 1000 = w div 1000" "v div 100 mod 10 = w div 100 mod 10"
    "v div 10 mod 10 = w div 10 mod 10" "v mod 10 = w mod 10"
  shows "v = w"
proof -
  have "v div 10 div 10 = v div 100" "w div 10 div 10 = w div 100"
    "v div 100 div 10 = v div 1000" "w div 100 div 10 = w div 1000"
    by (simp_all only: zdiv_div_10)
  with assms show ?thesis by (metis mult_div_mod_eq)
qed

lemma mod10: "0 \<le> (v :: int) mod 10" "(v :: int) mod 10 < 10"
  by simp_all

lemma writeDecimal2_inj:
  assumes "writeDecimal2 v = writeDecimal2 w" "0 \<le> v" "v \<le> 99" "0 \<le> w" "w \<le> 99"
  shows "v = w"
proof -
  have "0 \<le> v div 10" "v div 10 < 10" "0 \<le> w div 10" "w div 10 < 10"
    using assms div_bounds [of 10 v] div_bounds [of 10 w] by linarith+
  then have "v div 10 = w div 10" "v mod 10 = w mod 10"
    using assms(1) unfolding writeDecimal2_digits [OF assms(2,3)] writeDecimal2_digits [OF assms(4,5)]
      list.inject by (metis dc_inj mod10)+
  then show ?thesis by (metis mult_div_mod_eq)
qed

lemma writeDecimal4_inj:
  assumes "writeDecimal4 v = writeDecimal4 w" "0 \<le> v" "v \<le> 9999" "0 \<le> w" "w \<le> 9999"
  shows "v = w"
proof (rule digits4_inj)
  have "0 \<le> v div 1000" "v div 1000 < 10" "0 \<le> w div 1000" "w div 1000 < 10"
    using assms div_bounds [of 1000 v] div_bounds [of 1000 w] by linarith+
  then show "v div 1000 = w div 1000" "v div 100 mod 10 = w div 100 mod 10"
    "v div 10 mod 10 = w div 10 mod 10" "v mod 10 = w mod 10"
    using assms(1) unfolding writeDecimal4_digits [OF assms(2,3)] writeDecimal4_digits [OF assms(4,5)]
      list.inject by (metis dc_inj mod10)+
qed

lemma length_writeDecimal:
  "0 \<le> v \<Longrightarrow> v \<le> 99 \<Longrightarrow> length (writeDecimal2 v) = 2"
  "0 \<le> v \<Longrightarrow> v \<le> 9999 \<Longrightarrow> length (writeDecimal4 v) = 4"
  by (simp_all add: writeDecimal2_digits writeDecimal4_digits)

lemma formatTimestamp_inj:
  assumes "ts_in_range a" "ts_in_range b" "formatTimestamp a = formatTimestamp b"
  shows "a = b"
proof -
  let ?p = "timestampToParts a" and ?q = "timestampToParts b"
  note bd = parts_bounds [of a] parts_bounds [of b] assms(1,2)
  have l: "length (writeDecimal4 (year ?p)) = length (writeDecimal4 (year ?q))"
    "length (writeDecimal2 (month ?p)) = length (writeDecimal2 (month ?q))"
    "length (writeDecimal2 (day ?p)) = length (writeDecimal2 (day ?q))"
    "length (writeDecimal2 (hour ?p)) = length (writeDecimal2 (hour ?q))"
    "length (writeDecimal2 (minute ?p)) = length (writeDecimal2 (minute ?q))"
    using bd by (simp_all add: length_writeDecimal)
  from assms(3) l have "writeDecimal4 (year ?p) = writeDecimal4 (year ?q)"
    "writeDecimal2 (month ?p) = writeDecimal2 (month ?q)" "writeDecimal2 (day ?p) = writeDecimal2 (day ?q)"
    "writeDecimal2 (hour ?p) = writeDecimal2 (hour ?q)" "writeDecimal2 (minute ?p) = writeDecimal2 (minute ?q)"
    "writeDecimal2 (second ?p) = writeDecimal2 (second ?q)"
    unfolding formatTimestamp_def Let_def by simp_all
  then have "year ?p = year ?q" "month ?p = month ?q" "day ?p = day ?q" "hour ?p = hour ?q"
    "minute ?p = minute ?q" "second ?p = second ?q"
    using bd by (auto intro: writeDecimal2_inj writeDecimal4_inj)
  then have "secs_of_parts ?p = secs_of_parts ?q" by (simp add: secs_of_parts_def)
  then show ?thesis by (simp only: secs_of_timestampToParts)
qed

lemma length_formatTimestamp: "ts_in_range ts \<Longrightarrow> length (formatTimestamp ts) = 19"
  using parts_bounds [of ts] by (simp add: formatTimestamp_def Let_def length_writeDecimal)

section \<open>Properties\<close>

text \<open>
  C14: The calendar.  The epoch is 1 January 1970, one day later is the next day of the
  Gregorian calendar, leap years included, for every timestamp before or after the epoch,
  and the date does not change within a day.
\<close>

theorem date_of_calendar:
  "date_of 0 = (1970, 1, 1) \<and> date_of (ts + 86400) = next_day (date_of ts)
     \<and> date_of (ts - ts mod 86400) = date_of ts"
proof -
  have "(ts + 86400) div 86400 = ts div 86400 + 1" by simp
  moreover have "(ts - ts mod 86400) div 86400 = ts div 86400"
    by (simp add: minus_mod_eq_mult_div)
  moreover have "date_of 0 = (1970, 1, 1)" by code_simp
  ultimately show ?thesis by (simp add: date_of_eq civil_next)
qed

text \<open>
  The parts of a timestamp lie in their ranges and determine it: counting the days of the
  calendar date and adding the time of day gives the timestamp back.
\<close>

theorem parts_determine_timestamp:
  "secs_of_parts (timestampToParts ts) = ts
     \<and> (let p = timestampToParts ts in
        month p \<in> {1..12} \<and> day p \<in> {1..days_in_month (year p) (month p)}
        \<and> hour p \<in> {0..23} \<and> minute p \<in> {0..59} \<and> second p \<in> {0..59})"
proof -
  have "day (timestampToParts ts) \<le> days_in_month (year (timestampToParts ts)) (month (timestampToParts ts))"
    using civil_valid [of "ts div 86400"] unfolding timestampToParts_eq DateParts.simps split_beta by blast
  then show ?thesis
    unfolding Let_def atLeastAtMost_iff using parts_bounds [of ts] secs_of_timestampToParts [of ts] by blast
qed

text \<open>
  In the years 0 to 9999 the text has the 19 bytes the program writes, and no two
  timestamps share it, so the text a member signs fixes the expiry to the second.
\<close>

theorem format_agrees:
  assumes "ts_in_range a" "ts_in_range b"
  shows "formatTimestampBytes a = rs_format_timestamp a \<and> length (formatTimestamp a) = 19
     \<and> (formatTimestamp a = formatTimestamp b \<longleftrightarrow> a = b)"
  using assms formatTimestamp_inj [of a b] by (auto simp: rs_format_timestamp_eq length_formatTimestamp)

theorem format_agrees_witness:
  "formatTimestampBytes 1893456000 = rs_format_timestamp 1893456000 \<and> length (formatTimestamp 1893456000) = 19
     \<and> formatTimestamp 1893456000 \<noteq> formatTimestamp (- 86399)"
  using format_agrees [of 1893456000 "- 86399"] by (simp add: ts_in_range_def)

text \<open>
  Two timestamps where the formatters part: for the first second of the year 10000 the code writes a
  longer text where the program writes a byte above \<open>9\<close>, and for the last second before the year 0
  the code writes the year 0000 where the program wraps the year to 32 bits.
\<close>

theorem format_differs_outside:
  "formatTimestampBytes 253402300800 \<noteq> rs_format_timestamp 253402300800
     \<and> formatTimestamp 253402300800 = js ''10000-01-01 00:00:00''
     \<and> formatTimestampBytes (- 62167219201) \<noteq> rs_format_timestamp (- 62167219201)
     \<and> formatTimestamp (- 62167219201) = js ''0000-12-31 23:59:59''"
  by code_simp

end
