(* ===== verification/Msig_Message.thy ===== *)
theory Msig_Message
  imports Msig_Render Msig_Offchain Msig_Datetime
begin

text \<open>
  \<open>lib/msig/message.ts\<close>: the text a member signs and its offchain wrapper.  \<open>sha256\<close> is
  the hash function of the hash library, \<open>b58enc\<close> the base58 encoder.
\<close>

section \<open>Operations\<close>

definition AddIntent :: byte where "AddIntent = 0"
definition RemoveIntent :: byte where "RemoveIntent = 1"
definition UpdateIntent :: byte where "UpdateIntent = 2"
definition Custom :: byte where "Custom = 3"

datatype Action = Propose | Approve | Cancel

fun action_verb :: "Action \<Rightarrow> jsstr" where
  "action_verb Propose = js ''propose''"
| "action_verb Approve = js ''approve''"
| "action_verb Cancel = js ''cancel''"

record SignableIntent = RenderContext +
  intentType :: byte

record 'i BuildMessageInput =
  action :: Action
  expiry :: int
  walletName :: jsstr
  proposalIndex :: int
  intent :: 'i
  paramsData :: bytes

definition te :: "string \<Rightarrow> bytes" where
  "te s = utf8_encode (js s)"

text \<open>The part of the body that depends on the type of the intent.\<close>

definition message_content ::
  "(bytes \<Rightarrow> bytes) \<Rightarrow> (bytes \<Rightarrow> jsstr) \<Rightarrow> 'a SignableIntent_scheme \<Rightarrow> bytes \<Rightarrow> bytes res" where
  "message_content sha256 b58enc i d =
     (if intentType i = AddIntent then
        Inr (te ''add intent definition_hash: '' @ utf8_encode (toHex (sha256 d)))
      else if intentType i = RemoveIntent then
        (if length d \<noteq> 1 then Inl (Thrown ''buildMessageBody: RemoveIntent params_data must be 1 byte'')
         else Inr (te ''remove intent '' @ utf8_encode (show_int (uint (d ! 0)))))
      else if intentType i = UpdateIntent then
        (if length d < 2 then Inl (Thrown ''buildMessageBody: UpdateIntent params_data must be > 1 byte'')
         else Inr (te ''update intent '' @ utf8_encode (show_int (uint (d ! 0)))
                @ te '' definition_hash: '' @ utf8_encode (toHex (sha256 (drop 1 d)))))
      else if intentType i = Custom then renderTemplate b58enc i d
      else Inl (Thrown ''buildMessageBody: unknown IntentType''))"

definition buildMessageBody ::
  "(bytes \<Rightarrow> bytes) \<Rightarrow> (bytes \<Rightarrow> jsstr) \<Rightarrow> 'a SignableIntent_scheme BuildMessageInput \<Rightarrow> bytes res" where
  "buildMessageBody sha256 b58enc input =
     ebind (message_content sha256 b58enc (intent input) (paramsData input)) (\<lambda>content.
       if proposalIndex input < 0 then Inl (Thrown ''buildMessageBody: negative proposal index'')
       else Inr (te ''expires '' @ formatTimestampBytes (expiry input) @ te '': ''
              @ utf8_encode (action_verb (action input)) @ te '' ''
              @ content
              @ te '' | wallet: '' @ utf8_encode (walletName input)
              @ te '' proposal: '' @ utf8_encode (show_int (proposalIndex input))))"

record SignableMessage =
  wrapped :: bytes
  body :: bytes
  bodyText :: jsstr

definition buildSignableMessage ::
  "(bytes \<Rightarrow> bytes) \<Rightarrow> (bytes \<Rightarrow> jsstr) \<Rightarrow> 'a SignableIntent_scheme BuildMessageInput \<Rightarrow> MessageFlavor
    \<Rightarrow> SignableMessage res" where
  "buildSignableMessage sha256 b58enc input flavor =
     ebind (buildMessageBody sha256 b58enc input) (\<lambda>b.
     ebind (if flavor = Offchain_v1 then wrapOffchain b else Inr (plainMessage b)) (\<lambda>w.
     Inr \<lparr>wrapped = w, body = b, bodyText = utf8_decode b\<rparr>))"

section \<open>What the body determines\<close>

lemma te_ascii: "te s = utf8_encode (js s)"
  by (rule te_def)

lemma show_int_ascii: "list_all (\<lambda>u. unat u < 128) (show_int i)"
  by (simp add: show_int_def show_nat_ascii)

lemma map_ucast_inj:
  fixes s t :: jsstr
  assumes "list_all (\<lambda>u. unat u < 128) s" "list_all (\<lambda>u. unat u < 128) t"
    and "(map ucast s :: bytes) = map ucast t"
  shows "s = t"
  using arg_cong [OF assms(3), of decodeAscii] unfolding decodeAscii_ucast [OF assms(1)] decodeAscii_ucast [OF assms(2)] .

lemma dc_ascii: "0 \<le> d \<Longrightarrow> d < 10 \<Longrightarrow> unat (dc d) < 128"
proof -
  assume "0 \<le> d" "d < 10"
  then have n: "nat d < 10" by simp
  show ?thesis
    unfolding dc_def unat_digit_char [OF n] using n by linarith
qed

text \<open>The text after the last \<open>" proposal: "\<close> is a decimal number without spaces.\<close>

lemma takeWhile_sep: "sep \<notin> set x \<Longrightarrow> takeWhile (\<lambda>c. c \<noteq> sep) (rev x @ sep # y) = rev x"
  by (subst takeWhile_append2) auto

lemma suffix_digits_unique:
  assumes "a @ sep # s = b @ sep # t" "sep \<notin> set s" "sep \<notin> set t"
  shows "s = t"
proof -
  have "rev s @ sep # rev a = rev t @ sep # rev b"
    using arg_cong [OF assms(1), of rev] by simp
  then have "rev s = rev t" using takeWhile_sep [OF assms(2), of "rev a"] takeWhile_sep [OF assms(3), of "rev b"]
    by simp
  then show ?thesis by simp
qed

lemma space_not_digits: "0 \<le> i \<Longrightarrow> (32 :: byte) \<notin> set (utf8_encode (show_int i))"
  using digits_bytes [of "show_nat (nat i)" 32] by (simp add: show_int_def map_ucast_utf8 show_nat_ascii)

lemma utf8_show_int_inj: "utf8_encode (show_int i) = utf8_encode (show_int j) \<Longrightarrow> i = j"
proof -
  assume "utf8_encode (show_int i) = utf8_encode (show_int j)"
  then have "show_int i = show_int j"
    by (simp only: map_ucast_utf8 [OF show_int_ascii]) (rule map_ucast_inj [OF show_int_ascii show_int_ascii])
  then show "i = j" by (rule show_int_inj)
qed

lemma writeDecimal_ascii:
  "0 \<le> v \<Longrightarrow> v \<le> 99 \<Longrightarrow> list_all (\<lambda>u. unat u < 128) (writeDecimal2 v)"
  "0 \<le> v \<Longrightarrow> v \<le> 9999 \<Longrightarrow> list_all (\<lambda>u. unat u < 128) (writeDecimal4 v)"
proof -
  assume v: "0 \<le> v" "v \<le> 99"
  then have "0 \<le> v div 10" "v div 10 < 10" using div_bounds [of 10 v] by linarith+
  with v show "list_all (\<lambda>u. unat u < 128) (writeDecimal2 v)"
    by (simp add: writeDecimal2_digits dc_ascii)
next
  assume v: "0 \<le> v" "v \<le> 9999"
  then have "0 \<le> v div 1000" "v div 1000 < 10" using div_bounds [of 1000 v] by linarith+
  with v show "list_all (\<lambda>u. unat u < 128) (writeDecimal4 v)"
    by (simp add: writeDecimal4_digits dc_ascii)
qed

lemma formatTimestamp_ascii: "ts_in_range ts \<Longrightarrow> list_all (\<lambda>u. unat u < 128) (formatTimestamp ts)"
  using parts_bounds [of ts] by (simp add: formatTimestamp_def Let_def writeDecimal_ascii)

lemma formatTimestampBytes_inj:
  "ts_in_range a \<Longrightarrow> ts_in_range b \<Longrightarrow> formatTimestampBytes a = formatTimestampBytes b \<Longrightarrow> a = b"
  unfolding formatTimestampBytes_def
  by (blast intro: formatTimestamp_inj map_ucast_inj formatTimestamp_ascii)

lemma length_formatTimestampBytes: "ts_in_range ts \<Longrightarrow> length (formatTimestampBytes ts) = 19"
  by (simp add: formatTimestampBytes_def length_formatTimestamp)

lemma action_verb_bytes:
  "utf8_encode (action_verb a) @ te '' '' @ x = utf8_encode (action_verb b) @ te '' '' @ y \<Longrightarrow> a = b \<and> x = y"
  by (cases a; cases b) (simp_all add: map_ucast_utf8 te_def)

lemma te_proposal: "te '' proposal: '' = te '' proposal:'' @ [32]"
  by (simp add: te_def map_ucast_utf8)

lemma body_parts:
  assumes "buildMessageBody sha256 b58enc inp = Inr b"
  obtains content where "message_content sha256 b58enc (intent inp) (paramsData inp) = Inr content"
    and "0 \<le> proposalIndex inp"
    and "b = te ''expires '' @ formatTimestampBytes (expiry inp) @ te '': ''
              @ utf8_encode (action_verb (action inp)) @ te '' '' @ content
              @ te '' | wallet: '' @ utf8_encode (walletName inp)
              @ te '' proposal: '' @ utf8_encode (show_int (proposalIndex inp))"
  using assms by (auto simp: buildMessageBody_def ebind_Inr_iff split: if_splits)

lemma body_binds:
  assumes "buildMessageBody sha256 b58enc i = Inr b" "buildMessageBody sha256 b58enc j = Inr b"
    and "ts_in_range (expiry i)" "ts_in_range (expiry j)"
  shows "expiry i = expiry j" "action i = action j" "proposalIndex i = proposalIndex j"
    and "\<exists>ci cj. message_content sha256 b58enc (intent i) (paramsData i) = Inr ci \<and>
           message_content sha256 b58enc (intent j) (paramsData j) = Inr cj \<and>
           ci @ te '' | wallet: '' @ utf8_encode (walletName i) = cj @ te '' | wallet: '' @ utf8_encode (walletName j)"
proof -
  obtain ci where ci: "message_content sha256 b58enc (intent i) (paramsData i) = Inr ci" "0 \<le> proposalIndex i"
    "b = te ''expires '' @ formatTimestampBytes (expiry i) @ te '': ''
              @ utf8_encode (action_verb (action i)) @ te '' '' @ ci @ te '' | wallet: '' @ utf8_encode (walletName i)
              @ te '' proposal: '' @ utf8_encode (show_int (proposalIndex i))"
    using assms(1) by (rule body_parts)
  obtain cj where cj: "message_content sha256 b58enc (intent j) (paramsData j) = Inr cj" "0 \<le> proposalIndex j"
    "b = te ''expires '' @ formatTimestampBytes (expiry j) @ te '': ''
              @ utf8_encode (action_verb (action j)) @ te '' '' @ cj @ te '' | wallet: '' @ utf8_encode (walletName j)
              @ te '' proposal: '' @ utf8_encode (show_int (proposalIndex j))"
    using assms(2) by (rule body_parts)
  from ci(3) cj(3) have e: "formatTimestampBytes (expiry i) = formatTimestampBytes (expiry j)"
    and r: "utf8_encode (action_verb (action i)) @ te '' '' @ ci @ te '' | wallet: '' @ utf8_encode (walletName i)
              @ te '' proposal: '' @ utf8_encode (show_int (proposalIndex i))
      = utf8_encode (action_verb (action j)) @ te '' '' @ cj @ te '' | wallet: '' @ utf8_encode (walletName j)
              @ te '' proposal: '' @ utf8_encode (show_int (proposalIndex j))"
    using length_formatTimestampBytes [OF assms(3)] length_formatTimestampBytes [OF assms(4)] by simp_all
  from e assms(3,4) show "expiry i = expiry j" by (rule formatTimestampBytes_inj [rotated 2])
  note v = action_verb_bytes [OF r]
  then show "action i = action j" by simp
  from v have t: "(ci @ te '' | wallet: '' @ utf8_encode (walletName i) @ te '' proposal:'') @ 32 # utf8_encode (show_int (proposalIndex i))
      = (cj @ te '' | wallet: '' @ utf8_encode (walletName j) @ te '' proposal:'') @ 32 # utf8_encode (show_int (proposalIndex j))"
    by (simp add: te_proposal)
  then have d: "utf8_encode (show_int (proposalIndex i)) = utf8_encode (show_int (proposalIndex j))"
    by (rule suffix_digits_unique [OF _ space_not_digits [OF ci(2)] space_not_digits [OF cj(2)]])
  then show "proposalIndex i = proposalIndex j" by (rule utf8_show_int_inj)
  have "ci @ te '' | wallet: '' @ utf8_encode (walletName i) = cj @ te '' | wallet: '' @ utf8_encode (walletName j)"
    using t d by (simp flip: append_assoc)
  with ci(1) cj(1) show "\<exists>ci cj. message_content sha256 b58enc (intent i) (paramsData i) = Inr ci \<and>
           message_content sha256 b58enc (intent j) (paramsData j) = Inr cj \<and>
           ci @ te '' | wallet: '' @ utf8_encode (walletName i) = cj @ te '' | wallet: '' @ utf8_encode (walletName j)"
    by blast
qed

lemma is_hex_ascii: "is_hex u \<Longrightarrow> unat u < 128"
proof -
  assume "is_hex u"
  then have "unat u \<le> unat (0x39 :: 16 word) \<or> unat u \<le> unat (0x66 :: 16 word)"
    unfolding is_hex_def word_le_nat_alt by blast
  moreover have "unat (0x39 :: 16 word) = 57" "unat (0x66 :: 16 word) = 102" by simp_all
  ultimately show ?thesis by linarith
qed

lemma toHex_ascii: "list_all (\<lambda>u. unat u < 128) (toHex b)"
  by (rule list.pred_mono_strong [OF toHex_is_hex is_hex_ascii])

lemma add_intent_binds:
  assumes "intentType (intent i) = AddIntent" "intentType (intent j) = AddIntent"
    and "length (sha256 (paramsData i)) = 32" "length (sha256 (paramsData j)) = 32"
    and "message_content sha256 b58enc (intent i) (paramsData i) = Inr ci"
    and "message_content sha256 b58enc (intent j) (paramsData j) = Inr cj"
    and "ci @ te '' | wallet: '' @ utf8_encode (walletName i) = cj @ te '' | wallet: '' @ utf8_encode (walletName j)"
  shows "sha256 (paramsData i) = sha256 (paramsData j)"
    and "utf8_encode (walletName i) = utf8_encode (walletName j)"
proof -
  note h = toHex_ascii
  have c: "ci = te ''add intent definition_hash: '' @ map ucast (toHex (sha256 (paramsData i)))"
    "cj = te ''add intent definition_hash: '' @ map ucast (toHex (sha256 (paramsData j)))"
    using assms(1,2,5,6) by (simp_all add: message_content_def map_ucast_utf8 h)
  let ?a = "map ucast (toHex (sha256 (paramsData i))) :: bytes" and ?b = "map ucast (toHex (sha256 (paramsData j))) :: bytes"
  have "?a @ te '' | wallet: '' @ utf8_encode (walletName i) = ?b @ te '' | wallet: '' @ utf8_encode (walletName j)"
    using assms(7) unfolding c append_assoc same_append_eq .
  moreover have l: "length ?a = length ?b" unfolding length_map length_toHex assms(3,4) ..
  ultimately have "?a = ?b \<and> te '' | wallet: '' @ utf8_encode (walletName i) = te '' | wallet: '' @ utf8_encode (walletName j)"
    unfolding append_eq_append_conv [OF disjI1 [OF l]] by blast
  then have e: "?a = ?b"
    and n: "te '' | wallet: '' @ utf8_encode (walletName i) = te '' | wallet: '' @ utf8_encode (walletName j)"
    by blast+
  from e have "toHex (sha256 (paramsData i)) = toHex (sha256 (paramsData j))"
    by (rule map_ucast_inj [OF h h])
  then show "sha256 (paramsData i) = sha256 (paramsData j)" by (simp add: toHex_inj)
  show "utf8_encode (walletName i) = utf8_encode (walletName j)" using n by simp
qed

lemma buildMessageBody_add:
  "intentType (intent i) = AddIntent \<Longrightarrow> 0 \<le> proposalIndex i \<Longrightarrow>
     \<exists>b. buildMessageBody sha256 b58enc i = Inr b"
  by (simp add: buildMessageBody_def message_content_def)

section \<open>Properties\<close>

text \<open>
  C3: Whatever the intents and the wallets, two inputs with the same signed body have the
  same expiry, the same verb and the same proposal index: a signature over one cannot be
  replayed as an approval of another proposal, as a different action or with another expiry.
\<close>

theorem signed_body_binds:
  assumes "buildMessageBody sha256 b58enc i = Inr b" "buildMessageBody sha256 b58enc j = Inr b"
    and "ts_in_range (expiry i)" "ts_in_range (expiry j)"
  shows "expiry i = expiry j \<and> action i = action j \<and> proposalIndex i = proposalIndex j"
  using body_binds [OF assms] by blast

definition example_remove :: "SignableIntent BuildMessageInput" where
  "example_remove = \<lparr>action = Approve, expiry = 1893456000, walletName = js ''ops'', proposalIndex = 7,
     intent = \<lparr>params = [], bytePool = [], template = [], intentType = RemoveIntent\<rparr>, paramsData = [1]\<rparr>"

definition example_custom :: "SignableIntent BuildMessageInput" where
  "example_custom = \<lparr>action = Approve, expiry = 1893456000, walletName = js ''ops'', proposalIndex = 7,
     intent = \<lparr>params = [], bytePool = [], template = js ''remove intent 1'', intentType = Custom\<rparr>, paramsData = []\<rparr>"

lemma example_bodies:
  "buildMessageBody (\<lambda>_. []) (\<lambda>_. []) example_remove =
     Inr (ascii ''expires 2030-01-01 00:00:00: approve remove intent 1 | wallet: ops proposal: 7'')"
  "buildMessageBody (\<lambda>_. []) (\<lambda>_. []) example_custom =
     Inr (ascii ''expires 2030-01-01 00:00:00: approve remove intent 1 | wallet: ops proposal: 7'')"
proof -
  have n: "show_int 7 = [55]" "show_int 1 = [49]" by code_simp+
  have t: "formatTimestamp 1893456000 = js ''2030-01-01 00:00:00''" by code_simp
  show "buildMessageBody (\<lambda>_. []) (\<lambda>_. []) example_remove =
     Inr (ascii ''expires 2030-01-01 00:00:00: approve remove intent 1 | wallet: ops proposal: 7'')"
    by (simp add: buildMessageBody_def message_content_def example_remove_def te_def map_ucast_utf8
        formatTimestampBytes_def t RemoveIntent_def AddIntent_def n)
  show "buildMessageBody (\<lambda>_. []) (\<lambda>_. []) example_custom =
     Inr (ascii ''expires 2030-01-01 00:00:00: approve remove intent 1 | wallet: ops proposal: 7'')"
    by (simp add: buildMessageBody_def message_content_def example_custom_def te_def map_ucast_utf8
        formatTimestampBytes_def t RemoveIntent_def AddIntent_def UpdateIntent_def Custom_def renderTemplate_def n)
qed

theorem signed_body_binds_witness:
  "expiry example_remove = expiry example_custom \<and> action example_remove = action example_custom
     \<and> proposalIndex example_remove = proposalIndex example_custom \<and> intent example_remove \<noteq> intent example_custom"
proof -
  have "ts_in_range (expiry example_remove)" "ts_in_range (expiry example_custom)"
    by (simp_all add: ts_in_range_def example_remove_def example_custom_def)
  from signed_body_binds [OF example_bodies this] show ?thesis
    by (simp add: example_remove_def example_custom_def RemoveIntent_def Custom_def)
qed

text \<open>
  C37: For proposals that add an intent the body also fixes the hash of the definition and the
  wallet's name, given only that the hash function returns 32 bytes.
\<close>

theorem add_intent_body_binds:
  assumes "\<And>x. length (sha256 x) = 32"
    and "buildMessageBody sha256 b58enc i = Inr b" "buildMessageBody sha256 b58enc j = Inr b"
    and "ts_in_range (expiry i)" "ts_in_range (expiry j)"
    and "intentType (intent i) = AddIntent" "intentType (intent j) = AddIntent"
    and "well_formed (walletName i)" "well_formed (walletName j)"
  shows "sha256 (paramsData i) = sha256 (paramsData j) \<and> walletName i = walletName j"
proof -
  obtain ci cj where "message_content sha256 b58enc (intent i) (paramsData i) = Inr ci"
    "message_content sha256 b58enc (intent j) (paramsData j) = Inr cj"
    "ci @ te '' | wallet: '' @ utf8_encode (walletName i) = cj @ te '' | wallet: '' @ utf8_encode (walletName j)"
    using body_binds(4) [OF assms(2-5)] by blast
  from add_intent_binds [OF assms(6,7) assms(1) assms(1) this] show ?thesis
    using utf8_encode_inj [OF assms(8,9)] by blast
qed

definition example_add :: "bytes \<Rightarrow> SignableIntent BuildMessageInput" where
  "example_add d = \<lparr>action = Propose, expiry = 0, walletName = js ''ops'', proposalIndex = 1,
     intent = \<lparr>params = [], bytePool = [], template = [], intentType = AddIntent\<rparr>, paramsData = d\<rparr>"

theorem add_intent_body_binds_witness:
  "replicate 32 0 = replicate 32 (0 :: byte) \<and> walletName (example_add [1]) = walletName (example_add [2])"
proof -
  define H :: "bytes \<Rightarrow> bytes" where "H = (\<lambda>_. replicate 32 0)"
  have h: "H [1] = H [2]" by (simp add: H_def)
  have "buildMessageBody H (\<lambda>_. []) (example_add [1]) = buildMessageBody H (\<lambda>_. []) (example_add [2])"
    using h by (simp add: buildMessageBody_def message_content_def example_add_def AddIntent_def)
  moreover obtain b where "buildMessageBody H (\<lambda>_. []) (example_add [1]) = Inr b"
    using buildMessageBody_add [of "example_add [1]" H "\<lambda>_. []"] by (auto simp: example_add_def)
  ultimately have b: "buildMessageBody H (\<lambda>_. []) (example_add [1]) = Inr b"
    "buildMessageBody H (\<lambda>_. []) (example_add [2]) = Inr b" by simp_all
  have l: "length (H x) = 32" for x by (simp add: H_def)
  have w: "well_formed (js ''ops'')" by (simp add: is_high_def is_low_def)
  show ?thesis
    using add_intent_body_binds [OF l b] w by (simp add: example_add_def ts_in_range_def)
qed

end
