(* ===== verification/Field_Codec.thy ===== *)
theory Field_Codec
  imports JS_Prelude
begin

text \<open>
  The contract of a field of an account: a reader takes the buffer and an offset and
  returns a value and the offset behind it.  A codec pairs a reader with the bytes the
  program writes: what was written is read back, as \<open>view\<close> shows it, and the reader stops
  behind it.  The vectors of a codec form a codec again.
\<close>

type_synonym 'a reader = "bytes \<Rightarrow> nat \<Rightarrow> ('a \<times> nat) res"

text \<open>\<open>at_pos d off rest\<close>: what is left of the buffer \<open>d\<close> at the offset \<open>off\<close> is \<open>rest\<close>.\<close>

definition at_pos :: "bytes \<Rightarrow> nat \<Rightarrow> bytes \<Rightarrow> bool" where
  "at_pos d off rest \<longleftrightarrow> off \<le> length d \<and> drop off d = rest"

lemma at_pos_step: "at_pos d off (x @ rest) \<Longrightarrow> at_pos d (off + length x) rest"
  unfolding at_pos_def by (metis append_eq_conv_conj drop_drop add.commute length_append length_drop le_add1
      le_add_diff_inverse add_le_cancel_left)

lemma at_pos_append: "at_pos (pre @ rest) (length pre) rest"
  by (simp add: at_pos_def)

lemma at_pos_slice: "at_pos d off (x @ rest) \<Longrightarrow> n = length x \<Longrightarrow> slice off (off + n) d = x"
  by (simp add: at_pos_def slice_def)

lemma at_pos_le: "at_pos d off (x @ rest) \<Longrightarrow> off + length x \<le> length d"
  unfolding at_pos_def by (metis length_append length_drop le_add1 le_add_diff_inverse add_le_cancel_left)

lemma at_pos_nth: "at_pos d off (b # rest) \<Longrightarrow> off < length d \<and> d ! off = b"
  by (auto simp: at_pos_def) (metis Cons_nth_drop_Suc drop_eq_Nil le_eq_less_or_eq list.sel(1) list.distinct(1))+

section \<open>The reader of a vector\<close>

fun rd_many :: "'a reader \<Rightarrow> nat \<Rightarrow> 'a list reader" where
  "rd_many rd 0 d off = Inr ([], off)"
| "rd_many rd (Suc n) d off =
     ebind (rd d off) (\<lambda>(x, off). ebind (rd_many rd n d off) (\<lambda>(xs, off). Inr (x # xs, off)))"

definition rd_u32 :: "nat reader" where
  "rd_u32 d off =
     (if off + 4 > length d then Inl (Thrown ''unexpected end of data'')
      else Inr (nat (le_val (slice off (off + 4) d)), off + 4))"

definition rd_vec :: "'a reader \<Rightarrow> 'a list reader" where
  "rd_vec rd d off = ebind (rd_u32 d off) (\<lambda>(n, off). rd_many rd n d off)"

definition put_vec :: "('a \<Rightarrow> bytes) \<Rightarrow> 'a list \<Rightarrow> bytes" where
  "put_vec put xs = le_bytes 4 (int (length xs)) @ concat (map put xs)"

lemma rd_u32_put:
  assumes "at_pos d off (le_bytes 4 (int n) @ rest)" "n < 2 ^ 32"
  shows "rd_u32 d off = Inr (n, off + 4)"
proof -
  have "int n mod 256 ^ 4 = int n" using assms(2) by simp
  then show ?thesis
    using at_pos_le [OF assms(1)] at_pos_slice [OF assms(1), of 4]
    by (simp add: rd_u32_def le_val_le_bytes)
qed

section \<open>The contract\<close>

locale codec =
  fixes put :: "'a \<Rightarrow> bytes"
    and rd :: "'b reader"
    and view :: "'a \<Rightarrow> 'b"
    and ok :: "'a \<Rightarrow> bool"
  assumes rd_put: "ok x \<Longrightarrow> at_pos d off (put x @ rest) \<Longrightarrow> rd d off = Inr (view x, off + length (put x))"
begin

lemma rd_many_put:
  "list_all ok xs \<Longrightarrow> at_pos d off (concat (map put xs) @ rest) \<Longrightarrow>
     rd_many rd (length xs) d off = Inr (map view xs, off + length (concat (map put xs)))"
proof (induction xs arbitrary: off)
  case Nil
  then show ?case by simp
next
  case (Cons x xs)
  have a: "at_pos d off (put x @ concat (map put xs) @ rest)" using Cons.prems(2) by simp
  have "rd d off = Inr (view x, off + length (put x))" using Cons.prems(1) a by (intro rd_put) auto
  moreover have "rd_many rd (length xs) d (off + length (put x))
      = Inr (map view xs, off + length (put x) + length (concat (map put xs)))"
    using Cons.prems(1) by (intro Cons.IH at_pos_step [OF a]) auto
  ultimately show ?case by (simp add: add.assoc)
qed

lemma rd_vec_put:
  assumes "list_all ok xs \<and> length xs < 2 ^ 32" "at_pos d off (put_vec put xs @ rest)"
  shows "rd_vec rd d off = Inr (map view xs, off + length (put_vec put xs))"
proof -
  have a: "at_pos d off (le_bytes 4 (int (length xs)) @ concat (map put xs) @ rest)"
    using assms(2) by (simp add: put_vec_def)
  have "rd_u32 d off = Inr (length xs, off + 4)" using a assms(1) by (intro rd_u32_put) auto
  moreover have "rd_many rd (length xs) d (off + 4) = Inr (map view xs, off + 4 + length (concat (map put xs)))"
    using assms(1) at_pos_step [OF a] by (intro rd_many_put) auto
  ultimately show ?thesis by (simp add: rd_vec_def put_vec_def)
qed

lemma vec_codec: "codec (put_vec put) (rd_vec rd) (map view) (\<lambda>xs. list_all ok xs \<and> length xs < 2 ^ 32)"
  by unfold_locales (rule rd_vec_put)

lemma rd_put_end: "ok x \<Longrightarrow> rd (pre @ put x) (length pre) = Inr (view x, length pre + length (put x))"
  by (rule rd_put [where rest = "[]"]) (simp_all add: at_pos_append)

end

text \<open>A codec whose values are all as long: it can be read at a known offset.\<close>

locale fixed_codec = codec +
  fixes width :: nat
  assumes length_put: "ok x \<Longrightarrow> length (put x) = width"
begin

lemma rd_put_width: "ok x \<Longrightarrow> at_pos d off (put x @ rest) \<Longrightarrow> rd d off = Inr (view x, off + width)"
  by (simp add: rd_put length_put)

lemma length_put_vec: "list_all ok xs \<Longrightarrow> length (put_vec put xs) = 4 + width * length xs"
  by (induction xs) (simp_all add: put_vec_def length_put)

end

end
