(* ===== verification/Msig_Accounts.thy ===== *)
theory Msig_Accounts
  imports Msig_Message Field_Codec
begin

text \<open>
  \<open>lib/msig/accounts.ts\<close>: the parsers of the program's accounts.  The \<open>Reader\<close> class keeps
  its offset in a field; here each of its methods takes the offset and returns the next one.
  The buffers the program writes (\<open>programs/clear-wallet/src/state/*.rs\<close>) are the
  \<open>put\<close> functions of the codecs.
\<close>

section \<open>The reader\<close>

definition ensureAvailable :: "bytes \<Rightarrow> nat \<Rightarrow> nat \<Rightarrow> unit res" where
  "ensureAvailable d off n = (if off + n > length d then Inl (Thrown ''unexpected end of data'') else Inr ())"

definition rd_u8 :: "byte reader" where
  "rd_u8 d off = ebind (ensureAvailable d off 1) (\<lambda>_. Inr (d ! off, off + 1))"

definition rd_u16 :: "nat reader" where
  "rd_u16 d off = ebind (ensureAvailable d off 2) (\<lambda>_. Inr (nat (le_val (slice off (off + 2) d)), off + 2))"

definition rd_u64 :: "int reader" where
  "rd_u64 d off = ebind (ensureAvailable d off 8) (\<lambda>_. Inr (le_val (slice off (off + 8) d), off + 8))"

definition rd_i64 :: "int reader" where
  "rd_i64 d off = ebind (ensureAvailable d off 8) (\<lambda>_. Inr (le_sval (slice off (off + 8) d), off + 8))"

definition rd_address :: "(bytes \<Rightarrow> jsstr) \<Rightarrow> jsstr reader" where
  "rd_address b58enc d off =
     ebind (ensureAvailable d off 32) (\<lambda>_. Inr (b58enc (slice off (off + 32) d), off + 32))"

definition rd_bytes :: "nat \<Rightarrow> bytes reader" where
  "rd_bytes n d off = ebind (ensureAvailable d off n) (\<lambda>_. Inr (slice off (off + n) d, off + n))"

definition rd_utf8 :: "nat \<Rightarrow> jsstr reader" where
  "rd_utf8 n d off = ebind (ensureAvailable d off n) (\<lambda>_. Inr (utf8_decode (slice off (off + n) d), off + n))"

definition rd_vecU8 :: "bytes reader" where
  "rd_vecU8 d off = ebind (rd_u32 d off) (\<lambda>(n, off). rd_bytes n d off)"

definition rd_bool :: "bool reader" where
  "rd_bool d off = ebind (rd_u8 d off) (\<lambda>(b, off). Inr (b \<noteq> 0, off))"

definition readParamEntry :: "ParamEntry reader" where
  "readParamEntry d off =
     ebind (ensureAvailable d off 14) (\<lambda>_.
     ebind (rd_u8 d off) (\<lambda>(t, off).
     ebind (rd_u16 d off) (\<lambda>(no, off).
     ebind (rd_u16 d off) (\<lambda>(nl, off).
     ebind (rd_u8 d off) (\<lambda>(ct, off).
     ebind (rd_u64 d off) (\<lambda>(cv, off).
     Inr (\<lparr>paramType = param_type_of t, nameOffset = no, nameLen = nl,
            constraintType = ct, constraintValue = cv\<rparr>, off)))))))"

definition readAccountEntry :: "AccountEntry reader" where
  "readAccountEntry d off =
     ebind (ensureAvailable d off 7) (\<lambda>_.
     ebind (rd_bool d off) (\<lambda>(s, off).
     ebind (rd_bool d off) (\<lambda>(w, off).
     ebind (rd_u8 d off) (\<lambda>(t, off).
     ebind (rd_u16 d off) (\<lambda>(po, off).
     ebind (rd_u16 d off) (\<lambda>(pl, off).
     Inr (\<lparr>isSigner = s, isWritable = w, sourceType = t, a_poolOffset = po, a_poolLen = pl\<rparr>, off)))))))"

definition readInstructionEntry :: "InstructionEntry reader" where
  "readInstructionEntry d off =
     ebind (ensureAvailable d off 9) (\<lambda>_.
     ebind (rd_u8 d off) (\<lambda>(p, off).
     ebind (rd_u16 d off) (\<lambda>(ao, off).
     ebind (rd_u16 d off) (\<lambda>(al, off).
     ebind (rd_u16 d off) (\<lambda>(ss, off).
     ebind (rd_u16 d off) (\<lambda>(sc, off).
     Inr (\<lparr>programAccountIndex = p, accountIndexesOffset = ao, accountIndexesLen = al,
            segmentsStart = ss, segmentsCount = sc\<rparr>, off)))))))"

definition readDataSegmentEntry :: "DataSegmentEntry reader" where
  "readDataSegmentEntry d off =
     ebind (ensureAvailable d off 5) (\<lambda>_.
     ebind (rd_u8 d off) (\<lambda>(t, off).
     ebind (rd_u16 d off) (\<lambda>(po, off).
     ebind (rd_u16 d off) (\<lambda>(pl, off).
     Inr (\<lparr>segmentType = t, d_poolOffset = po, d_poolLen = pl\<rparr>, off)))))"

definition readSeedEntry :: "SeedEntry reader" where
  "readSeedEntry d off =
     ebind (ensureAvailable d off 5) (\<lambda>_.
     ebind (rd_u8 d off) (\<lambda>(t, off).
     ebind (rd_u16 d off) (\<lambda>(po, off).
     ebind (rd_u16 d off) (\<lambda>(pl, off).
     Inr (\<lparr>seedType = t, s_poolOffset = po, s_poolLen = pl\<rparr>, off)))))"

text \<open>The constructor: the discriminator is checked and the offset set behind it.\<close>

definition newReader :: "bytes \<Rightarrow> byte \<Rightarrow> nat res" where
  "newReader d disc =
     (if length d = 0 \<or> d ! 0 \<noteq> disc then Inl (Thrown ''parse: wrong discriminator'') else Inr 1)"

section \<open>Accounts\<close>

record WalletAccount =
  w_bump :: byte
  w_proposalIndex :: int
  w_intentIndex :: byte
  w_creator :: jsstr
  w_name :: jsstr

definition parseWallet :: "(bytes \<Rightarrow> jsstr) \<Rightarrow> bytes \<Rightarrow> WalletAccount res" where
  "parseWallet b58enc d =
     ebind (newReader d 1) (\<lambda>off.
     ebind (rd_u8 d off) (\<lambda>(bump, off).
     ebind (rd_u64 d off) (\<lambda>(pidx, off).
     ebind (rd_u8 d off) (\<lambda>(iidx, off).
     ebind (rd_address b58enc d off) (\<lambda>(creator, off).
     ebind (rd_u32 d off) (\<lambda>(nameLen, off).
     ebind (rd_utf8 nameLen d off) (\<lambda>(name, off).
     Inr \<lparr>w_bump = bump, w_proposalIndex = pidx, w_intentIndex = iidx, w_creator = creator, w_name = name\<rparr>)))))))"

record IntentAccount = SignableIntent +
  i_wallet :: jsstr
  i_bump :: byte
  i_intentIndex :: byte
  i_chainKind :: byte
  i_approved :: bool
  approvalThreshold :: byte
  cancellationThreshold :: byte
  timelockSeconds :: nat
  templateOffset :: nat
  templateLen :: nat
  txTemplateOffset :: nat
  txTemplateLen :: nat
  activeProposalCount :: nat
  proposers :: "jsstr list"
  approvers :: "jsstr list"
  i_accounts :: "AccountEntry list"
  instructions :: "InstructionEntry list"
  dataSegments :: "DataSegmentEntry list"
  seeds :: "SeedEntry list"
  policyCiphertexts :: bytes
  policyCiphertextIds :: "jsstr list"

definition checkedSlice :: "bytes \<Rightarrow> nat \<Rightarrow> nat \<Rightarrow> bytes res" where
  "checkedSlice d offset len =
     (if offset + len > length d then Inl (Thrown ''parseIntent: range outside byte_pool'')
      else Inr (slice offset (offset + len) d))"

text \<open>The closure \<open>readU16\<close> of \<open>decodePolicyCiphertexts\<close>: \<open>None\<close> is its \<open>null\<close>.\<close>

definition readU16 :: "bytes \<Rightarrow> nat \<Rightarrow> (nat \<times> nat) option" where
  "readU16 d offset =
     (if offset + 2 > length d then None
      else Some (nat (js_or (num_at d offset) (js_shl (num_at d (offset + 1)) 8)), offset + 2))"

fun policy_ids :: "nat \<Rightarrow> bytes \<Rightarrow> nat \<Rightarrow> jsstr list" where
  "policy_ids 0 d offset = []"
| "policy_ids (Suc n) d offset =
     (case readU16 d offset of
        None \<Rightarrow> []
      | Some (len, off) \<Rightarrow>
          if off + len > length d then []
          else utf8_decode (slice off (off + len) d) # policy_ids n d (off + len))"

definition decodePolicyCiphertexts :: "bytes \<Rightarrow> jsstr list" where
  "decodePolicyCiphertexts d =
     (if length d = 0 then []
      else case readU16 d 0 of None \<Rightarrow> [] | Some (count, off) \<Rightarrow> policy_ids count d off)"

definition readOptionalVecU8 :: "bytes \<Rightarrow> nat \<Rightarrow> (bytes \<times> nat) res" where
  "readOptionalVecU8 d offset =
     (if offset = length d then Inr ([], offset)
      else if offset + 4 > length d then Inl (Thrown ''unexpected end of data'')
      else let len = nat (le_val (slice offset (offset + 4) d)); start = offset + 4; stop = start + len in
           if stop > length d then Inl (Thrown ''unexpected end of data'')
           else Inr (slice start stop d, stop))"

text \<open>The two byte vectors at the end, or the older layout that has only the byte pool.\<close>

definition intent_tail :: "bytes \<Rightarrow> nat \<Rightarrow> (bytes \<times> bytes) res" where
  "intent_tail d tailOffset =
     (case ebind (rd_vecU8 d tailOffset) (\<lambda>(pc, off). ebind (rd_vecU8 d off) (\<lambda>(bp, off). Inr (pc, bp))) of
        Inr r \<Rightarrow> Inr r
      | Inl e \<Rightarrow> ebind (readOptionalVecU8 d tailOffset) (\<lambda>(bp, off). Inr ([], bp)))"

definition parseIntent :: "(bytes \<Rightarrow> jsstr) \<Rightarrow> bytes \<Rightarrow> IntentAccount res" where
  "parseIntent b58enc d =
     ebind (newReader d 2) (\<lambda>off.
     ebind (rd_address b58enc d off) (\<lambda>(wallet, off).
     ebind (rd_u8 d off) (\<lambda>(bump, off).
     ebind (rd_u8 d off) (\<lambda>(index, off).
     ebind (rd_u8 d off) (\<lambda>(itype, off).
     ebind (rd_u8 d off) (\<lambda>(chain, off).
     ebind (rd_bool d off) (\<lambda>(approved, off).
     ebind (rd_u8 d off) (\<lambda>(athr, off).
     ebind (rd_u8 d off) (\<lambda>(cthr, off).
     ebind (rd_u32 d off) (\<lambda>(timelock, off).
     ebind (rd_u16 d off) (\<lambda>(tplOff, off).
     ebind (rd_u16 d off) (\<lambda>(tplLen, off).
     ebind (rd_u16 d off) (\<lambda>(txOff, off).
     ebind (rd_u16 d off) (\<lambda>(txLen, off).
     ebind (rd_u16 d off) (\<lambda>(active, off).
     ebind (rd_vec (rd_address b58enc) d off) (\<lambda>(props, off).
     ebind (rd_vec (rd_address b58enc) d off) (\<lambda>(apprs, off).
     ebind (rd_vec readParamEntry d off) (\<lambda>(ps, off).
     ebind (rd_vec readAccountEntry d off) (\<lambda>(accs, off).
     ebind (rd_vec readInstructionEntry d off) (\<lambda>(ins, off).
     ebind (rd_vec readDataSegmentEntry d off) (\<lambda>(segs, off).
     ebind (rd_vec readSeedEntry d off) (\<lambda>(sds, off).
     ebind (intent_tail d off) (\<lambda>(pc, bp).
     ebind (checkedSlice bp tplOff tplLen) (\<lambda>tpl.
     ebind (checkedSlice bp txOff txLen) (\<lambda>_.
     ebind (emap (\<lambda>p. checkedSlice bp (nameOffset p) (nameLen p)) ps) (\<lambda>_.
     Inr \<lparr>params = ps, bytePool = bp, template = utf8_decode tpl, intentType = itype,
          i_wallet = wallet, i_bump = bump, i_intentIndex = index, i_chainKind = chain,
          i_approved = approved, approvalThreshold = athr, cancellationThreshold = cthr,
          timelockSeconds = timelock, templateOffset = tplOff, templateLen = tplLen,
          txTemplateOffset = txOff, txTemplateLen = txLen, activeProposalCount = active,
          proposers = props, approvers = apprs, i_accounts = accs, instructions = ins,
          dataSegments = segs, seeds = sds, policyCiphertexts = pc,
          policyCiphertextIds = decodePolicyCiphertexts pc\<rparr>))))))))))))))))))))))))))"

record WalletPolicyAccount =
  p_wallet :: jsstr
  policyCommitments :: "jsstr list"
  p_version :: int
  updatedAt :: int
  p_bump :: byte

definition WALLET_POLICY_CHAIN_SLOTS :: nat where
  "WALLET_POLICY_CHAIN_SLOTS = 6"

definition rd_commitment :: "jsstr reader" where
  "rd_commitment d off = ebind (rd_bytes 32 d off) (\<lambda>(b, off). Inr (toHex b, off))"

definition parseWalletPolicy :: "(bytes \<Rightarrow> jsstr) \<Rightarrow> bytes \<Rightarrow> WalletPolicyAccount res" where
  "parseWalletPolicy b58enc d =
     ebind (newReader d 8) (\<lambda>off.
     ebind (rd_address b58enc d off) (\<lambda>(wallet, off).
     ebind (rd_many rd_commitment WALLET_POLICY_CHAIN_SLOTS d off) (\<lambda>(pcs, off).
     ebind (rd_u64 d off) (\<lambda>(version, off).
     ebind (rd_i64 d off) (\<lambda>(updated, off).
     ebind (rd_u8 d off) (\<lambda>(bump, off).
     Inr \<lparr>p_wallet = wallet, policyCommitments = pcs, p_version = version, updatedAt = updated,
          p_bump = bump\<rparr>))))))"

section \<open>Proposals\<close>

datatype StatusLabel = S_Active | S_Approved | S_Executed | S_Cancelled | S_Unknown

definition status_label :: "byte \<Rightarrow> StatusLabel" where
  "status_label b =
     (if unat b < 4 then [S_Active, S_Approved, S_Executed, S_Cancelled] ! unat b else S_Unknown)"

record ProposalAccount =
  pr_wallet :: jsstr
  pr_intent :: jsstr
  pr_proposalIndex :: int
  pr_proposer :: jsstr
  pr_status :: byte
  pr_statusLabel :: StatusLabel
  pr_proposedAt :: int
  pr_approvedAt :: int
  pr_bump :: byte
  pr_approvalBitmap :: nat
  pr_cancellationBitmap :: nat
  pr_rentRefund :: jsstr
  pr_paramsData :: bytes

definition parseProposal :: "(bytes \<Rightarrow> jsstr) \<Rightarrow> bytes \<Rightarrow> ProposalAccount res" where
  "parseProposal b58enc d =
     ebind (newReader d 3) (\<lambda>off.
     ebind (rd_address b58enc d off) (\<lambda>(wallet, off).
     ebind (rd_address b58enc d off) (\<lambda>(int_key, off).
     ebind (rd_u64 d off) (\<lambda>(pidx, off).
     ebind (rd_address b58enc d off) (\<lambda>(proposer, off).
     ebind (rd_u8 d off) (\<lambda>(status, off).
     ebind (rd_i64 d off) (\<lambda>(proposed, off).
     ebind (rd_i64 d off) (\<lambda>(approved, off).
     ebind (rd_u8 d off) (\<lambda>(bump, off).
     ebind (rd_u16 d off) (\<lambda>(abm, off).
     ebind (rd_u16 d off) (\<lambda>(cbm, off).
     ebind (rd_address b58enc d off) (\<lambda>(refund, off).
     ebind (rd_vecU8 d off) (\<lambda>(pdata, off).
     Inr \<lparr>pr_wallet = wallet, pr_intent = int_key, pr_proposalIndex = pidx, pr_proposer = proposer,
          pr_status = status, pr_statusLabel = status_label status, pr_proposedAt = proposed,
          pr_approvedAt = approved, pr_bump = bump, pr_approvalBitmap = abm,
          pr_cancellationBitmap = cbm, pr_rentRefund = refund, pr_paramsData = pdata\<rparr>)))))))))))))"

record TypedProposalAccount =
  tp_wallet :: jsstr
  tp_intent :: jsstr
  tp_proposalIndex :: int
  tp_proposer :: jsstr
  tp_status :: byte
  tp_statusLabel :: StatusLabel
  tp_actionKind :: byte
  tp_proposedAt :: int
  tp_approvedAt :: int
  tp_expiresAt :: int
  tp_bump :: byte
  tp_approvalBitmap :: nat
  tp_cancellationBitmap :: nat
  tp_rentRefund :: jsstr
  tp_policyCommitment :: jsstr
  tp_payloadHash :: jsstr
  tp_envelopeHash :: jsstr
  tp_actionId :: jsstr
  tp_nonce :: jsstr
  tp_policyBytesHex :: jsstr
  tp_actionIdHex :: jsstr
  tp_nonceHex :: jsstr
  tp_clearTextHex :: "jsstr option"

text \<open>
  The \<open>try\<close> block of \<open>parseTypedProposal\<close>: the policy and the document.  What was
  assigned before an exception stays assigned.
\<close>

definition typed_tail :: "bytes \<Rightarrow> bytes \<Rightarrow> bytes \<Rightarrow> nat \<Rightarrow> jsstr \<times> jsstr option" where
  "typed_tail actionBytes nonceBytes d off =
     (case rd_vecU8 d off of
        Inl _ \<Rightarrow> ([], None)
      | Inr (policy, off) \<Rightarrow>
          if length policy > 2048 then ([], None)
          else (case rd_vecU8 d off of
             Inl _ \<Rightarrow> (toHex policy, None)
           | Inr (document, off) \<Rightarrow>
               if length policy > 2048 \<or> length document > 2048 \<or> length actionBytes > 128
                  \<or> length nonceBytes > 128 \<or> list_ex (\<lambda>b. b \<noteq> 0) (drop off d)
               then (toHex policy, None)
               else (toHex policy, Some (toHex document))))"

definition parseTypedProposal :: "(bytes \<Rightarrow> jsstr) \<Rightarrow> bytes \<Rightarrow> TypedProposalAccount res" where
  "parseTypedProposal b58enc d =
     ebind (newReader d 6) (\<lambda>off.
     ebind (rd_address b58enc d off) (\<lambda>(wallet, off).
     ebind (rd_address b58enc d off) (\<lambda>(int_key, off).
     ebind (rd_u64 d off) (\<lambda>(pidx, off).
     ebind (rd_address b58enc d off) (\<lambda>(proposer, off).
     ebind (rd_u8 d off) (\<lambda>(status, off).
     ebind (rd_u8 d off) (\<lambda>(kind, off).
     ebind (rd_i64 d off) (\<lambda>(proposed, off).
     ebind (rd_i64 d off) (\<lambda>(approved, off).
     ebind (rd_i64 d off) (\<lambda>(expires, off).
     ebind (rd_u8 d off) (\<lambda>(bump, off).
     ebind (rd_u16 d off) (\<lambda>(abm, off).
     ebind (rd_u16 d off) (\<lambda>(cbm, off).
     ebind (rd_address b58enc d off) (\<lambda>(refund, off).
     ebind (rd_commitment d off) (\<lambda>(pc, off).
     ebind (rd_commitment d off) (\<lambda>(ph, off).
     ebind (rd_commitment d off) (\<lambda>(eh, off).
     ebind (rd_vecU8 d off) (\<lambda>(actionBytes, off).
     ebind (rd_vecU8 d off) (\<lambda>(nonceBytes, off).
     Inr \<lparr>tp_wallet = wallet, tp_intent = int_key, tp_proposalIndex = pidx, tp_proposer = proposer,
          tp_status = status, tp_statusLabel = status_label status, tp_actionKind = kind,
          tp_proposedAt = proposed, tp_approvedAt = approved, tp_expiresAt = expires, tp_bump = bump,
          tp_approvalBitmap = abm, tp_cancellationBitmap = cbm, tp_rentRefund = refund,
          tp_policyCommitment = pc, tp_payloadHash = ph, tp_envelopeHash = eh,
          tp_actionId = utf8_decode_bom actionBytes, tp_nonce = utf8_decode_bom nonceBytes,
          tp_policyBytesHex = fst (typed_tail actionBytes nonceBytes d off),
          tp_actionIdHex = toHex actionBytes, tp_nonceHex = toHex nonceBytes,
          tp_clearTextHex = snd (typed_tail actionBytes nonceBytes d off)\<rparr>)))))))))))))))))))"

datatype AnyProposalAccount = TypedProposal TypedProposalAccount | PlainProposal ProposalAccount

definition parseAnyProposal :: "(bytes \<Rightarrow> jsstr) \<Rightarrow> bytes \<Rightarrow> AnyProposalAccount res" where
  "parseAnyProposal b58enc d =
     (if byte_at d 0 = Some 6 then ebind (parseTypedProposal b58enc d) (\<lambda>p. Inr (TypedProposal p))
      else ebind (parseProposal b58enc d) (\<lambda>p. Inr (PlainProposal p)))"

section \<open>Bindings to dWallets\<close>

record IkaConfigAccount =
  ik_wallet :: jsstr
  ik_dwallet :: jsstr
  ik_userPubkeyHex :: jsstr
  ik_chainKind :: byte
  ik_signatureScheme :: byte
  ik_bump :: byte

text \<open>\<open>b.toString(16)\<close> of a byte.\<close>

definition toString16 :: "byte \<Rightarrow> jsstr" where
  "toString16 b = (if unat b < 16 then [HEX ! unat b] else [HEX ! (unat b div 16), HEX ! (unat b mod 16)])"

definition parseIkaConfig :: "(bytes \<Rightarrow> jsstr) \<Rightarrow> bytes \<Rightarrow> IkaConfigAccount res" where
  "parseIkaConfig b58enc d =
     (if length d < 100 \<or> d ! 0 \<noteq> 4 then Inl (Thrown ''parseIkaConfig: not an IkaConfig account'')
      else Inr \<lparr>ik_wallet = b58enc (slice 1 33 d), ik_dwallet = b58enc (slice 33 65 d),
             ik_userPubkeyHex = concat (map (\<lambda>b. pad_start 2 48 (toString16 b)) (slice 65 97 d)),
             ik_chainKind = d ! 97, ik_signatureScheme = d ! 98, ik_bump = d ! 99\<rparr>)"

record DwalletOwnershipAccount =
  dw_wallet :: jsstr
  dw_dwallet :: jsstr
  dw_bump :: byte

definition parseDwalletOwnership :: "(bytes \<Rightarrow> jsstr) \<Rightarrow> bytes \<Rightarrow> DwalletOwnershipAccount res" where
  "parseDwalletOwnership b58enc d =
     (if length d < 66 \<or> d ! 0 \<noteq> 5 then Inl (Thrown ''parseDwalletOwnership: bad account'')
      else Inr \<lparr>dw_wallet = b58enc (slice 1 33 d), dw_dwallet = b58enc (slice 33 65 d), dw_bump = d ! 65\<rparr>)"

section \<open>The fields as codecs\<close>

lemma rd_fixed:
  assumes "at_pos d off (x @ rest)"
  shows "ensureAvailable d off (length x) = Inr ()" "slice off (off + length x) d = x"
  using at_pos_le [OF assms] at_pos_slice [OF assms] by (simp_all add: ensureAvailable_def)

definition key_ok :: "bytes \<Rightarrow> bool" where
  "key_ok k \<longleftrightarrow> length k = 32"

definition put_u8 :: "byte \<Rightarrow> bytes" where "put_u8 b = [b]"
definition put_bool :: "bool \<Rightarrow> bytes" where "put_bool b = [if b then 1 else 0]"
definition put_int :: "nat \<Rightarrow> int \<Rightarrow> bytes" where "put_int n v = le_bytes n v"
definition put_nat :: "nat \<Rightarrow> nat \<Rightarrow> bytes" where "put_nat n v = le_bytes n (int v)"

interpretation f_u8: fixed_codec put_u8 rd_u8 id "\<lambda>_. True" 1
proof
  show "rd_u8 d off = Inr (id x, off + length (put_u8 x))" if "at_pos d off (put_u8 x @ rest)" for d off x rest
    using that at_pos_nth [of d off x rest] by (simp add: put_u8_def rd_u8_def ensureAvailable_def)
qed (simp add: put_u8_def)

interpretation f_bool: fixed_codec put_bool rd_bool id "\<lambda>_. True" 1
proof
  show "rd_bool d off = Inr (id x, off + length (put_bool x))" if "at_pos d off (put_bool x @ rest)" for d off x rest
    using that f_u8.rd_put [of d off "if x then 1 else 0" rest]
    by (simp add: put_bool_def put_u8_def rd_bool_def)
qed (simp add: put_bool_def)

interpretation f_u16: fixed_codec "put_nat 2" rd_u16 id "\<lambda>n. n < 2 ^ 16" 2
proof
  show "rd_u16 d off = Inr (id x, off + length (put_nat 2 x))"
    if "x < 2 ^ 16" "at_pos d off (put_nat 2 x @ rest)" for d off x rest
    using that rd_fixed [OF that(2)] by (simp add: put_nat_def rd_u16_def le_val_le_bytes)
qed (simp add: put_nat_def)

interpretation f_u32: fixed_codec "put_nat 4" rd_u32 id "\<lambda>n. n < 2 ^ 32" 4
proof
  show "rd_u32 d off = Inr (id x, off + length (put_nat 4 x))"
    if "x < 2 ^ 32" "at_pos d off (put_nat 4 x @ rest)" for d off x rest
    using that rd_u32_put by (simp add: put_nat_def)
qed (simp add: put_nat_def)

interpretation f_u64: fixed_codec "put_int 8" rd_u64 id "\<lambda>v. 0 \<le> v \<and> v < 2 ^ 64" 8
proof
  show "rd_u64 d off = Inr (id x, off + length (put_int 8 x))"
    if "0 \<le> x \<and> x < 2 ^ 64" "at_pos d off (put_int 8 x @ rest)" for d off x rest
    using that rd_fixed [OF that(2)] le_val_le_bytes_id [of x 8] by (simp add: put_int_def rd_u64_def)
qed (simp add: put_int_def)

interpretation f_i64: fixed_codec "put_int 8" rd_i64 id "\<lambda>v. - (2 ^ 63) \<le> v \<and> v < 2 ^ 63" 8
proof
  show "rd_i64 d off = Inr (id x, off + length (put_int 8 x))"
    if "- (2 ^ 63) \<le> x \<and> x < 2 ^ 63" "at_pos d off (put_int 8 x @ rest)" for d off x rest
    using that rd_fixed [OF that(2)] le_sval_le_bytes [of 8 x] by (simp add: put_int_def rd_i64_def)
qed (simp add: put_int_def)

interpretation f_address: fixed_codec id "rd_address b58enc" b58enc key_ok 32 for b58enc
proof
  show "rd_address b58enc d off = Inr (b58enc x, off + length (id x))"
    if "key_ok x" "at_pos d off (id x @ rest)" for d off x rest
  proof -
    from that have "at_pos d off (x @ rest)" by simp
    from rd_fixed [OF this] that(1) show ?thesis by (simp add: key_ok_def rd_address_def)
  qed
qed (simp add: key_ok_def)

interpretation f_commitment: fixed_codec id rd_commitment toHex key_ok 32
proof
  show "rd_commitment d off = Inr (toHex x, off + length (id x))"
    if "key_ok x" "at_pos d off (id x @ rest)" for d off x rest
  proof -
    from that have "at_pos d off (x @ rest)" by simp
    from rd_fixed [OF this] that(1) show ?thesis by (simp add: key_ok_def rd_commitment_def rd_bytes_def)
  qed
qed (simp add: key_ok_def)

definition put_vecU8 :: "bytes \<Rightarrow> bytes" where
  "put_vecU8 b = le_bytes 4 (int (length b)) @ b"

interpretation f_vecU8: codec put_vecU8 rd_vecU8 id "\<lambda>b. length b < 2 ^ 32"
proof
  show "rd_vecU8 d off = Inr (id x, off + length (put_vecU8 x))"
    if "length x < 2 ^ 32" "at_pos d off (put_vecU8 x @ rest)" for d off x rest
  proof -
    have a: "at_pos d off (le_bytes 4 (int (length x)) @ x @ rest)"
      using that(2) by (simp add: put_vecU8_def)
    have "rd_u32 d off = Inr (length x, off + 4)" using rd_u32_put [OF a that(1)] .
    moreover have "at_pos d (off + 4) (x @ rest)" using at_pos_step [OF a] by simp
    ultimately show ?thesis
      using rd_fixed [of d "off + 4" x rest] by (simp add: rd_vecU8_def rd_bytes_def put_vecU8_def)
  qed
qed

section \<open>The entries of an intent as codecs\<close>

text \<open>How the program lays out each entry, and which entries it can hold.\<close>

definition param_byte :: "ParamType \<Rightarrow> byte" where
  "param_byte t =
     (case t of
        PT_Address \<Rightarrow> 0 | PT_U64 \<Rightarrow> 1 | PT_I64 \<Rightarrow> 2 | PT_String \<Rightarrow> 3 | PT_Bool \<Rightarrow> 4 | PT_U8 \<Rightarrow> 5
      | PT_U16 \<Rightarrow> 6 | PT_U32 \<Rightarrow> 7 | PT_U128 \<Rightarrow> 8 | PT_Bytes20 \<Rightarrow> 9 | PT_Bytes32 \<Rightarrow> 10 | PT_Unknown b \<Rightarrow> b)"

definition param_type_ok :: "ParamType \<Rightarrow> bool" where
  "param_type_ok t \<longleftrightarrow> (case t of PT_Unknown b \<Rightarrow> 11 \<le> unat b | _ \<Rightarrow> True)"

lemma param_type_of_byte: "param_type_ok t \<Longrightarrow> param_type_of (param_byte t) = t"
  by (cases t) (auto simp: param_type_ok_def param_byte_def param_type_of_def param_types_def)

definition u16_ok :: "nat \<Rightarrow> bool" where "u16_ok n \<longleftrightarrow> n < 2 ^ 16"
definition u32_ok :: "nat \<Rightarrow> bool" where "u32_ok n \<longleftrightarrow> n < 2 ^ 32"
definition u64_ok :: "int \<Rightarrow> bool" where "u64_ok v \<longleftrightarrow> 0 \<le> v \<and> v < 2 ^ 64"
definition i64_ok :: "int \<Rightarrow> bool" where "i64_ok v \<longleftrightarrow> - (2 ^ 63) \<le> v \<and> v < 2 ^ 63"

text \<open>One step of a reader, in the form the record proofs rewrite with.\<close>

lemma step_u8: "at_pos d off (put_u8 b @ rest) \<Longrightarrow> rd_u8 d off = Inr (b, off + length (put_u8 b))"
  and step_bool: "at_pos d off (put_bool x @ rest) \<Longrightarrow> rd_bool d off = Inr (x, off + length (put_bool x))"
  and step_u16: "at_pos d off (put_nat 2 n @ rest) \<Longrightarrow> u16_ok n \<Longrightarrow> rd_u16 d off = Inr (n, off + length (put_nat 2 n))"
  and step_u32: "at_pos d off (put_nat 4 n @ rest) \<Longrightarrow> u32_ok n \<Longrightarrow> rd_u32 d off = Inr (n, off + length (put_nat 4 n))"
  and step_u64: "at_pos d off (put_int 8 v @ rest) \<Longrightarrow> u64_ok v \<Longrightarrow> rd_u64 d off = Inr (v, off + length (put_int 8 v))"
  and step_i64: "at_pos d off (put_int 8 v @ rest) \<Longrightarrow> i64_ok v \<Longrightarrow> rd_i64 d off = Inr (v, off + length (put_int 8 v))"
  and step_address: "at_pos d off (k @ rest) \<Longrightarrow> key_ok k \<Longrightarrow> rd_address b58enc d off = Inr (b58enc k, off + length k)"
  and step_commitment: "at_pos d off (k @ rest) \<Longrightarrow> key_ok k \<Longrightarrow> rd_commitment d off = Inr (toHex k, off + length k)"
  and step_vecU8: "at_pos d off (put_vecU8 bs @ rest) \<Longrightarrow> u32_ok (length bs) \<Longrightarrow> rd_vecU8 d off = Inr (bs, off + length (put_vecU8 bs))"
  using f_u8.rd_put f_bool.rd_put f_u16.rd_put f_u32.rd_put f_u64.rd_put f_i64.rd_put f_address.rd_put
    f_commitment.rd_put f_vecU8.rd_put
  by (auto simp: u16_ok_def u32_ok_def u64_ok_def i64_ok_def)

lemmas read_steps = step_u8 step_bool step_u16 step_u32 step_u64 step_i64 step_address step_commitment step_vecU8

lemma ensure_at: "at_pos d off (x @ rest) \<Longrightarrow> n \<le> length x \<Longrightarrow> ensureAvailable d off n = Inr ()"
  using at_pos_le by (fastforce simp: ensureAvailable_def)

lemma length_puts [simp]:
  "length (put_u8 b) = 1" "length (put_bool x) = 1" "length (put_nat n k) = n" "length (put_int n v) = n"
  "length (put_vecU8 bs) = 4 + length bs"
  by (simp_all add: put_u8_def put_bool_def put_nat_def put_int_def put_vecU8_def)

definition put_param :: "ParamEntry \<Rightarrow> bytes" where
  "put_param e = put_u8 (param_byte (paramType e)) @ put_nat 2 (nameOffset e) @ put_nat 2 (nameLen e)
     @ put_u8 (constraintType e) @ put_int 8 (constraintValue e)"

definition param_ok :: "ParamEntry \<Rightarrow> bool" where
  "param_ok e \<longleftrightarrow> param_type_ok (paramType e) \<and> u16_ok (nameOffset e) \<and> u16_ok (nameLen e) \<and> u64_ok (constraintValue e)"

interpretation f_param: fixed_codec put_param readParamEntry id param_ok 14
proof
  fix x d off rest
  assume ok: "param_ok x" and a: "at_pos d off (put_param x @ rest)"
  note e = ensure_at [OF a, of 14, unfolded put_param_def, simplified]
  note a0 = a [unfolded put_param_def append_assoc]
  note a1 = at_pos_step [OF a0] note a2 = at_pos_step [OF a1] note a3 = at_pos_step [OF a2]
  note a4 = at_pos_step [OF a3]
  have "readParamEntry d off = Inr (x, off + 1 + 2 + 2 + 1 + 8)"
    using ok read_steps(1) [OF a0] step_u16 [OF a1] step_u16 [OF a2] step_u8 [OF a3] step_u64 [OF a4]
    by (simp add: readParamEntry_def e param_ok_def param_type_of_byte)
  then show "readParamEntry d off = Inr (id x, off + length (put_param x))"
    by (simp add: put_param_def)
qed (simp add: put_param_def)

definition put_account :: "AccountEntry \<Rightarrow> bytes" where
  "put_account e = put_bool (isSigner e) @ put_bool (isWritable e) @ put_u8 (sourceType e)
     @ put_nat 2 (a_poolOffset e) @ put_nat 2 (a_poolLen e)"

definition account_ok :: "AccountEntry \<Rightarrow> bool" where
  "account_ok e \<longleftrightarrow> u16_ok (a_poolOffset e) \<and> u16_ok (a_poolLen e)"

interpretation f_account: fixed_codec put_account readAccountEntry id account_ok 7
proof
  fix x d off rest
  assume ok: "account_ok x" and a: "at_pos d off (put_account x @ rest)"
  note e = ensure_at [OF a, of 7, unfolded put_account_def, simplified]
  note a0 = a [unfolded put_account_def append_assoc]
  note a1 = at_pos_step [OF a0] note a2 = at_pos_step [OF a1] note a3 = at_pos_step [OF a2]
  note a4 = at_pos_step [OF a3]
  have "readAccountEntry d off = Inr (x, off + 1 + 1 + 1 + 2 + 2)"
    using ok step_bool [OF a0] step_bool [OF a1] step_u8 [OF a2] step_u16 [OF a3] step_u16 [OF a4]
    by (simp add: readAccountEntry_def e account_ok_def)
  then show "readAccountEntry d off = Inr (id x, off + length (put_account x))"
    by (simp add: put_account_def)
qed (simp add: put_account_def)

definition put_instruction :: "InstructionEntry \<Rightarrow> bytes" where
  "put_instruction e = put_u8 (programAccountIndex e) @ put_nat 2 (accountIndexesOffset e)
     @ put_nat 2 (accountIndexesLen e) @ put_nat 2 (segmentsStart e) @ put_nat 2 (segmentsCount e)"

definition instruction_ok :: "InstructionEntry \<Rightarrow> bool" where
  "instruction_ok e \<longleftrightarrow> u16_ok (accountIndexesOffset e) \<and> u16_ok (accountIndexesLen e)
     \<and> u16_ok (segmentsStart e) \<and> u16_ok (segmentsCount e)"

interpretation f_instruction: fixed_codec put_instruction readInstructionEntry id instruction_ok 9
proof
  fix x d off rest
  assume ok: "instruction_ok x" and a: "at_pos d off (put_instruction x @ rest)"
  note e = ensure_at [OF a, of 9, unfolded put_instruction_def, simplified]
  note a0 = a [unfolded put_instruction_def append_assoc]
  note a1 = at_pos_step [OF a0] note a2 = at_pos_step [OF a1] note a3 = at_pos_step [OF a2]
  note a4 = at_pos_step [OF a3]
  have "readInstructionEntry d off = Inr (x, off + 1 + 2 + 2 + 2 + 2)"
    using ok step_u8 [OF a0] step_u16 [OF a1] step_u16 [OF a2] step_u16 [OF a3] step_u16 [OF a4]
    by (simp add: readInstructionEntry_def e instruction_ok_def)
  then show "readInstructionEntry d off = Inr (id x, off + length (put_instruction x))"
    by (simp add: put_instruction_def)
qed (simp add: put_instruction_def)

definition put_segment :: "DataSegmentEntry \<Rightarrow> bytes" where
  "put_segment e = put_u8 (segmentType e) @ put_nat 2 (d_poolOffset e) @ put_nat 2 (d_poolLen e)"

definition segment_ok :: "DataSegmentEntry \<Rightarrow> bool" where
  "segment_ok e \<longleftrightarrow> u16_ok (d_poolOffset e) \<and> u16_ok (d_poolLen e)"

interpretation f_segment: fixed_codec put_segment readDataSegmentEntry id segment_ok 5
proof
  fix x d off rest
  assume ok: "segment_ok x" and a: "at_pos d off (put_segment x @ rest)"
  note e = ensure_at [OF a, of 5, unfolded put_segment_def, simplified]
  note a0 = a [unfolded put_segment_def append_assoc]
  note a1 = at_pos_step [OF a0] note a2 = at_pos_step [OF a1]
  have "readDataSegmentEntry d off = Inr (x, off + 1 + 2 + 2)"
    using ok step_u8 [OF a0] step_u16 [OF a1] step_u16 [OF a2]
    by (simp add: readDataSegmentEntry_def e segment_ok_def)
  then show "readDataSegmentEntry d off = Inr (id x, off + length (put_segment x))"
    by (simp add: put_segment_def)
qed (simp add: put_segment_def)

definition put_seed :: "SeedEntry \<Rightarrow> bytes" where
  "put_seed e = put_u8 (seedType e) @ put_nat 2 (s_poolOffset e) @ put_nat 2 (s_poolLen e)"

definition seed_ok :: "SeedEntry \<Rightarrow> bool" where
  "seed_ok e \<longleftrightarrow> u16_ok (s_poolOffset e) \<and> u16_ok (s_poolLen e)"

interpretation f_seed: fixed_codec put_seed readSeedEntry id seed_ok 5
proof
  fix x d off rest
  assume ok: "seed_ok x" and a: "at_pos d off (put_seed x @ rest)"
  note e = ensure_at [OF a, of 5, unfolded put_seed_def, simplified]
  note a0 = a [unfolded put_seed_def append_assoc]
  note a1 = at_pos_step [OF a0] note a2 = at_pos_step [OF a1]
  have "readSeedEntry d off = Inr (x, off + 1 + 2 + 2)"
    using ok step_u8 [OF a0] step_u16 [OF a1] step_u16 [OF a2]
    by (simp add: readSeedEntry_def e seed_ok_def)
  then show "readSeedEntry d off = Inr (id x, off + length (put_seed x))"
    by (simp add: put_seed_def)
qed (simp add: put_seed_def)

section \<open>Reading back what the program stores\<close>

text \<open>
  The stored form of each account, and the accounts it can hold: \<open>w\<close>, \<open>c\<close> and so on
  are the keys, which the parsed record shows in base58.
\<close>

lemma newReader_disc: "newReader (disc # r) disc = Inr 1"
  by (simp add: newReader_def)

lemma at_pos_disc: "at_pos (disc # r) 1 r"
  by (simp add: at_pos_def)

definition put_wallet :: "bytes \<Rightarrow> WalletAccount \<Rightarrow> bytes" where
  "put_wallet c a = 1 # put_u8 (w_bump a) @ put_int 8 (w_proposalIndex a) @ put_u8 (w_intentIndex a) @ c
     @ put_vecU8 (utf8_encode (w_name a))"

definition wallet_ok :: "(bytes \<Rightarrow> jsstr) \<Rightarrow> bytes \<Rightarrow> WalletAccount \<Rightarrow> bool" where
  "wallet_ok b58enc c a \<longleftrightarrow> key_ok c \<and> w_creator a = b58enc c \<and> u64_ok (w_proposalIndex a)
     \<and> u32_ok (length (utf8_encode (w_name a))) \<and> well_formed (w_name a) \<and> (w_name a = [] \<or> hd (w_name a) \<noteq> 0xFEFF)"

lemma parseWallet_put:
  assumes "wallet_ok b58enc c a"
  shows "parseWallet b58enc (put_wallet c a @ rest) = Inr a"
proof -
  let ?u = "utf8_encode (w_name a)"
  let ?d = "put_wallet c a @ rest"
  note ok = assms [unfolded wallet_ok_def]
  have d: "?d = 1 # put_u8 (w_bump a) @ put_int 8 (w_proposalIndex a) @ put_u8 (w_intentIndex a) @ c
      @ put_nat 4 (length ?u) @ ?u @ rest"
    by (simp add: put_wallet_def put_vecU8_def put_nat_def)
  note a0 = at_pos_disc [of 1 "put_u8 (w_bump a) @ put_int 8 (w_proposalIndex a) @ put_u8 (w_intentIndex a) @ c
      @ put_nat 4 (length ?u) @ ?u @ rest", folded d]
  note a1 = at_pos_step [OF a0] note a2 = at_pos_step [OF a1] note a3 = at_pos_step [OF a2]
  note a4 = at_pos_step [OF a3] note a5 = at_pos_step [OF a4]
  have "newReader ?d 1 = Inr 1" unfolding d by (rule newReader_disc)
  moreover have "utf8_decode ?u = w_name a" using ok by (simp add: utf8_decode_encode)
  ultimately show ?thesis
    using ok step_u8 [OF a0] step_u64 [OF a1] step_u8 [OF a2] step_address [OF a3, of b58enc] step_u32 [OF a4]
      rd_fixed [OF a5]
    by (simp add: parseWallet_def rd_utf8_def key_ok_def)
qed

definition put_proposal :: "bytes \<Rightarrow> bytes \<Rightarrow> bytes \<Rightarrow> bytes \<Rightarrow> ProposalAccount \<Rightarrow> bytes" where
  "put_proposal w i p r a = 3 # w @ i @ put_int 8 (pr_proposalIndex a) @ p @ put_u8 (pr_status a)
     @ put_int 8 (pr_proposedAt a) @ put_int 8 (pr_approvedAt a) @ put_u8 (pr_bump a)
     @ put_nat 2 (pr_approvalBitmap a) @ put_nat 2 (pr_cancellationBitmap a) @ r @ put_vecU8 (pr_paramsData a)"

definition proposal_ok :: "(bytes \<Rightarrow> jsstr) \<Rightarrow> bytes \<Rightarrow> bytes \<Rightarrow> bytes \<Rightarrow> bytes \<Rightarrow> ProposalAccount \<Rightarrow> bool" where
  "proposal_ok b58enc w i p r a \<longleftrightarrow> key_ok w \<and> key_ok i \<and> key_ok p \<and> key_ok r
     \<and> pr_wallet a = b58enc w \<and> pr_intent a = b58enc i \<and> pr_proposer a = b58enc p \<and> pr_rentRefund a = b58enc r
     \<and> pr_statusLabel a = status_label (pr_status a)
     \<and> u64_ok (pr_proposalIndex a) \<and> i64_ok (pr_proposedAt a) \<and> i64_ok (pr_approvedAt a)
     \<and> u16_ok (pr_approvalBitmap a) \<and> u16_ok (pr_cancellationBitmap a) \<and> u32_ok (length (pr_paramsData a))"

lemma parseProposal_put:
  assumes "proposal_ok b58enc w i p r a"
  shows "parseProposal b58enc (put_proposal w i p r a @ rest) = Inr a"
proof -
  let ?d = "put_proposal w i p r a @ rest"
  note ok = assms [unfolded proposal_ok_def]
  have d: "?d = 3 # w @ i @ put_int 8 (pr_proposalIndex a) @ p @ put_u8 (pr_status a)
     @ put_int 8 (pr_proposedAt a) @ put_int 8 (pr_approvedAt a) @ put_u8 (pr_bump a)
     @ put_nat 2 (pr_approvalBitmap a) @ put_nat 2 (pr_cancellationBitmap a) @ r @ put_vecU8 (pr_paramsData a) @ rest"
    by (simp add: put_proposal_def)
  have a0: "at_pos ?d 1 (w @ i @ put_int 8 (pr_proposalIndex a) @ p @ put_u8 (pr_status a)
     @ put_int 8 (pr_proposedAt a) @ put_int 8 (pr_approvedAt a) @ put_u8 (pr_bump a)
     @ put_nat 2 (pr_approvalBitmap a) @ put_nat 2 (pr_cancellationBitmap a) @ r @ put_vecU8 (pr_paramsData a) @ rest)"
    unfolding d by (rule at_pos_disc)
  note a1 = at_pos_step [OF a0] note a2 = at_pos_step [OF a1] note a3 = at_pos_step [OF a2]
  note a4 = at_pos_step [OF a3] note a5 = at_pos_step [OF a4] note a6 = at_pos_step [OF a5]
  note a7 = at_pos_step [OF a6] note a8 = at_pos_step [OF a7] note a9 = at_pos_step [OF a8]
  note a10 = at_pos_step [OF a9] note a11 = at_pos_step [OF a10]
  have "newReader ?d 3 = Inr 1" unfolding d by (rule newReader_disc)
  then show ?thesis
    using ok step_address [OF a0, of b58enc] step_address [OF a1, of b58enc] step_u64 [OF a2]
      step_address [OF a3, of b58enc] step_u8 [OF a4] step_i64 [OF a5] step_i64 [OF a6] step_u8 [OF a7]
      step_u16 [OF a8] step_u16 [OF a9] step_address [OF a10, of b58enc] step_vecU8 [OF a11]
    by (simp add: parseProposal_def)
qed

definition put_intent :: "bytes \<Rightarrow> bytes list \<Rightarrow> bytes list \<Rightarrow> IntentAccount \<Rightarrow> bytes" where
  "put_intent w ps as a = 2 # w @ put_u8 (i_bump a) @ put_u8 (i_intentIndex a) @ put_u8 (intentType a)
     @ put_u8 (i_chainKind a) @ put_bool (i_approved a) @ put_u8 (approvalThreshold a)
     @ put_u8 (cancellationThreshold a) @ put_nat 4 (timelockSeconds a) @ put_nat 2 (templateOffset a)
     @ put_nat 2 (templateLen a) @ put_nat 2 (txTemplateOffset a) @ put_nat 2 (txTemplateLen a)
     @ put_nat 2 (activeProposalCount a) @ put_vec id ps @ put_vec id as @ put_vec put_param (params a)
     @ put_vec put_account (i_accounts a) @ put_vec put_instruction (instructions a)
     @ put_vec put_segment (dataSegments a) @ put_vec put_seed (seeds a)
     @ put_vecU8 (policyCiphertexts a) @ put_vecU8 (bytePool a)"

definition vec_ok :: "('a \<Rightarrow> bool) \<Rightarrow> 'a list \<Rightarrow> bool" where
  "vec_ok ok xs \<longleftrightarrow> list_all ok xs \<and> length xs < 2 ^ 32"

text \<open>The ranges inside the byte pool, and the fields the parser derives from others.\<close>

definition in_pool :: "bytes \<Rightarrow> nat \<Rightarrow> nat \<Rightarrow> bool" where
  "in_pool bp off len \<longleftrightarrow> off + len \<le> length bp"

definition intent_ok :: "(bytes \<Rightarrow> jsstr) \<Rightarrow> bytes \<Rightarrow> bytes list \<Rightarrow> bytes list \<Rightarrow> IntentAccount \<Rightarrow> bool" where
  "intent_ok b58enc w ps as a \<longleftrightarrow> key_ok w \<and> vec_ok key_ok ps \<and> vec_ok key_ok as
     \<and> i_wallet a = b58enc w \<and> proposers a = map b58enc ps \<and> approvers a = map b58enc as
     \<and> u32_ok (timelockSeconds a) \<and> u16_ok (templateOffset a) \<and> u16_ok (templateLen a)
     \<and> u16_ok (txTemplateOffset a) \<and> u16_ok (txTemplateLen a) \<and> u16_ok (activeProposalCount a)
     \<and> vec_ok param_ok (params a) \<and> vec_ok account_ok (i_accounts a) \<and> vec_ok instruction_ok (instructions a)
     \<and> vec_ok segment_ok (dataSegments a) \<and> vec_ok seed_ok (seeds a)
     \<and> u32_ok (length (policyCiphertexts a)) \<and> u32_ok (length (bytePool a))
     \<and> in_pool (bytePool a) (templateOffset a) (templateLen a)
     \<and> in_pool (bytePool a) (txTemplateOffset a) (txTemplateLen a)
     \<and> list_all (\<lambda>p. in_pool (bytePool a) (nameOffset p) (nameLen p)) (params a)
     \<and> template a = utf8_decode (slice (templateOffset a) (templateOffset a + templateLen a) (bytePool a))
     \<and> policyCiphertextIds a = decodePolicyCiphertexts (policyCiphertexts a)"

lemma step_keys: "at_pos d off (put_vec id ks @ rest) \<Longrightarrow> vec_ok key_ok ks \<Longrightarrow>
    rd_vec (rd_address b58enc) d off = Inr (map b58enc ks, off + length (put_vec id ks))"
  and step_params: "at_pos d off (put_vec put_param es @ rest) \<Longrightarrow> vec_ok param_ok es \<Longrightarrow>
    rd_vec readParamEntry d off = Inr (es, off + length (put_vec put_param es))"
  and step_accounts: "at_pos d off (put_vec put_account ae @ rest) \<Longrightarrow> vec_ok account_ok ae \<Longrightarrow>
    rd_vec readAccountEntry d off = Inr (ae, off + length (put_vec put_account ae))"
  and step_instructions: "at_pos d off (put_vec put_instruction ie @ rest) \<Longrightarrow> vec_ok instruction_ok ie \<Longrightarrow>
    rd_vec readInstructionEntry d off = Inr (ie, off + length (put_vec put_instruction ie))"
  and step_segments: "at_pos d off (put_vec put_segment ge @ rest) \<Longrightarrow> vec_ok segment_ok ge \<Longrightarrow>
    rd_vec readDataSegmentEntry d off = Inr (ge, off + length (put_vec put_segment ge))"
  and step_seeds: "at_pos d off (put_vec put_seed se @ rest) \<Longrightarrow> vec_ok seed_ok se \<Longrightarrow>
    rd_vec readSeedEntry d off = Inr (se, off + length (put_vec put_seed se))"
  unfolding vec_ok_def
  using f_address.rd_vec_put f_param.rd_vec_put f_account.rd_vec_put f_instruction.rd_vec_put
    f_segment.rd_vec_put f_seed.rd_vec_put
  by simp_all

lemma checkedSlice_in_pool: "in_pool bp off len \<Longrightarrow> checkedSlice bp off len = Inr (slice off (off + len) bp)"
  by (simp add: checkedSlice_def in_pool_def)

lemma emap_checked:
  "list_all (\<lambda>p. in_pool bp (nameOffset p) (nameLen p)) ps \<Longrightarrow>
     emap (\<lambda>p. checkedSlice bp (nameOffset p) (nameLen p)) ps
       = Inr (map (\<lambda>p. slice (nameOffset p) (nameOffset p + nameLen p) bp) ps)"
  by (rule emap_all_Inr) (simp add: list_all_iff checkedSlice_in_pool)

lemma intent_tail_put:
  assumes "at_pos d off (put_vecU8 pc @ put_vecU8 bp @ rest)" "u32_ok (length pc)" "u32_ok (length bp)"
  shows "intent_tail d off = Inr (pc, bp)"
  using step_vecU8 [OF assms(1,2)] step_vecU8 [OF at_pos_step [OF assms(1)] assms(3)]
  by (simp add: intent_tail_def)

lemma parseIntent_put:
  assumes "intent_ok b58enc w ps as a"
  shows "parseIntent b58enc (put_intent w ps as a @ rest) = Inr a"
proof -
  let ?d = "put_intent w ps as a @ rest"
  let ?r = "w @ put_u8 (i_bump a) @ put_u8 (i_intentIndex a) @ put_u8 (intentType a)
     @ put_u8 (i_chainKind a) @ put_bool (i_approved a) @ put_u8 (approvalThreshold a)
     @ put_u8 (cancellationThreshold a) @ put_nat 4 (timelockSeconds a) @ put_nat 2 (templateOffset a)
     @ put_nat 2 (templateLen a) @ put_nat 2 (txTemplateOffset a) @ put_nat 2 (txTemplateLen a)
     @ put_nat 2 (activeProposalCount a) @ put_vec id ps @ put_vec id as @ put_vec put_param (params a)
     @ put_vec put_account (i_accounts a) @ put_vec put_instruction (instructions a)
     @ put_vec put_segment (dataSegments a) @ put_vec put_seed (seeds a)
     @ put_vecU8 (policyCiphertexts a) @ put_vecU8 (bytePool a) @ rest"
  note ok = assms [unfolded intent_ok_def]
  have d: "?d = 2 # ?r" by (simp add: put_intent_def)
  have a0: "at_pos ?d 1 ?r" unfolding d by (rule at_pos_disc)
  note a1 = at_pos_step [OF a0] note a2 = at_pos_step [OF a1] note a3 = at_pos_step [OF a2]
  note a4 = at_pos_step [OF a3] note a5 = at_pos_step [OF a4] note a6 = at_pos_step [OF a5]
  note a7 = at_pos_step [OF a6] note a8 = at_pos_step [OF a7] note a9 = at_pos_step [OF a8]
  note a10 = at_pos_step [OF a9] note a11 = at_pos_step [OF a10] note a12 = at_pos_step [OF a11]
  note a13 = at_pos_step [OF a12] note a14 = at_pos_step [OF a13] note a15 = at_pos_step [OF a14]
  note a16 = at_pos_step [OF a15] note a17 = at_pos_step [OF a16] note a18 = at_pos_step [OF a17]
  note a19 = at_pos_step [OF a18] note a20 = at_pos_step [OF a19] note a21 = at_pos_step [OF a20]
  have n: "newReader ?d 2 = Inr 1" unfolding d by (rule newReader_disc)
  note steps = step_address [OF a0] step_u8 [OF a1] step_u8 [OF a2] step_u8 [OF a3] step_u8 [OF a4]
    step_bool [OF a5] step_u8 [OF a6] step_u8 [OF a7] step_u32 [OF a8] step_u16 [OF a9] step_u16 [OF a10]
    step_u16 [OF a11] step_u16 [OF a12] step_u16 [OF a13] step_keys [OF a14] step_keys [OF a15]
    step_params [OF a16] step_accounts [OF a17] step_instructions [OF a18] step_segments [OF a19]
    step_seeds [OF a20] intent_tail_put [OF a21]
  show ?thesis
    using ok by (simp only: parseIntent_def n steps ebind_simps prod.case checkedSlice_in_pool emap_checked) simp
qed

definition put_wallet_policy :: "bytes \<Rightarrow> bytes list \<Rightarrow> WalletPolicyAccount \<Rightarrow> bytes" where
  "put_wallet_policy w cs a = 8 # w @ concat cs @ put_int 8 (p_version a) @ put_int 8 (updatedAt a) @ put_u8 (p_bump a)"

definition wallet_policy_ok :: "(bytes \<Rightarrow> jsstr) \<Rightarrow> bytes \<Rightarrow> bytes list \<Rightarrow> WalletPolicyAccount \<Rightarrow> bool" where
  "wallet_policy_ok b58enc w cs a \<longleftrightarrow> key_ok w \<and> length cs = WALLET_POLICY_CHAIN_SLOTS \<and> list_all key_ok cs
     \<and> p_wallet a = b58enc w \<and> policyCommitments a = map toHex cs \<and> u64_ok (p_version a) \<and> i64_ok (updatedAt a)"

lemma parseWalletPolicy_put:
  assumes "wallet_policy_ok b58enc w cs a"
  shows "parseWalletPolicy b58enc (put_wallet_policy w cs a @ rest) = Inr a"
proof -
  let ?d = "put_wallet_policy w cs a @ rest"
  let ?r = "w @ concat cs @ put_int 8 (p_version a) @ put_int 8 (updatedAt a) @ put_u8 (p_bump a) @ rest"
  note ok = assms [unfolded wallet_policy_ok_def]
  have d: "?d = 8 # ?r" by (simp add: put_wallet_policy_def)
  have a0: "at_pos ?d 1 ?r" unfolding d by (rule at_pos_disc)
  note a1 = at_pos_step [OF a0] note a2 = at_pos_step [OF a1] note a3 = at_pos_step [OF a2]
  note a4 = at_pos_step [OF a3]
  have c: "rd_many rd_commitment WALLET_POLICY_CHAIN_SLOTS ?d (1 + length w)
      = Inr (map toHex cs, 1 + length w + length (concat cs))"
    using f_commitment.rd_many_put [of cs ?d "1 + length w"] a1 ok by (metis list.map_id)
  have "newReader ?d 8 = Inr 1" unfolding d by (rule newReader_disc)
  then show ?thesis
    using ok by (simp only: parseWalletPolicy_def step_address [OF a0] c step_u64 [OF a2] step_i64 [OF a3]
        step_u8 [OF a4] ebind_simps prod.case) simp
qed

text \<open>
  The program's \<open>IkaConfig\<close> has 101 bytes: the signature scheme takes two
  (\<open>state/ika_config.rs\<close>, \<open>IKA_CONFIG_LEN\<close>).
\<close>

definition rs_put_ika :: "bytes \<Rightarrow> bytes \<Rightarrow> bytes \<Rightarrow> byte \<Rightarrow> nat \<Rightarrow> byte \<Rightarrow> bytes" where
  "rs_put_ika wallet dwallet user chain scheme bump =
     4 # wallet @ dwallet @ user @ [chain] @ le_bytes 2 (int scheme) @ [bump]"

lemma pad_toString16: "concat (map (\<lambda>b. pad_start 2 48 (toString16 b)) bs) = toHex bs"
proof -
  have "pad_start 2 48 (toString16 b) = [hexc (unat b div 16), hexc (unat b mod 16)]" for b
    by (simp add: toString16_def pad_start_def hexc_def HEX_def)
  then show ?thesis by (induction bs) simp_all
qed

lemma parseIkaConfig_rs:
  assumes "key_ok w" "key_ok dw" "key_ok u"
  shows "parseIkaConfig b58enc (rs_put_ika w dw u chain scheme bump) =
     Inr \<lparr>ik_wallet = b58enc w, ik_dwallet = b58enc dw, ik_userPubkeyHex = toHex u, ik_chainKind = chain,
          ik_signatureScheme = word_of_int (int scheme), ik_bump = word_of_int (int scheme div 256)\<rparr>"
proof -
  let ?d = "rs_put_ika w dw u chain scheme bump"
  have l: "length w = 32" "length dw = 32" "length u = 32" using assms by (simp_all add: key_ok_def)
  have d: "?d = 4 # w @ dw @ u @ chain # word_of_int (int scheme) # word_of_int (int scheme div 256) # [bump]"
    by (simp only: rs_put_ika_def le_bytes_2) simp
  have s: "slice 1 33 ?d = w" "slice 33 65 ?d = dw" "slice 65 97 ?d = u"
    using l by (simp_all add: slice_def d)
  have n: "?d ! 97 = chain" "?d ! 98 = word_of_int (int scheme)" "?d ! 99 = word_of_int (int scheme div 256)"
    "?d ! 0 = 4" "\<not> length ?d < 100"
    using l by (simp_all only: d) (simp_all add: nth_Cons' nth_append)
  show ?thesis
    unfolding parseIkaConfig_def s pad_toString16 using n by simp
qed

lemma parseDwalletOwnership_put:
  assumes "key_ok w" "key_ok dw"
  shows "parseDwalletOwnership b58enc (5 # w @ dw @ bump # rest) =
     Inr \<lparr>dw_wallet = b58enc w, dw_dwallet = b58enc dw, dw_bump = bump\<rparr>"
  using assms by (simp add: parseDwalletOwnership_def key_ok_def slice_def nth_append nth_Cons')

definition put_typed ::
  "bytes \<Rightarrow> bytes \<Rightarrow> bytes \<Rightarrow> bytes \<Rightarrow> bytes list \<Rightarrow> bytes \<Rightarrow> bytes \<Rightarrow> bytes \<Rightarrow> bytes \<Rightarrow> TypedProposalAccount \<Rightarrow> bytes" where
  "put_typed w i p r hs act non pol doc a = 6 # w @ i @ put_int 8 (tp_proposalIndex a) @ p @ put_u8 (tp_status a)
     @ put_u8 (tp_actionKind a) @ put_int 8 (tp_proposedAt a) @ put_int 8 (tp_approvedAt a)
     @ put_int 8 (tp_expiresAt a) @ put_u8 (tp_bump a) @ put_nat 2 (tp_approvalBitmap a)
     @ put_nat 2 (tp_cancellationBitmap a) @ r @ hs ! 0 @ hs ! 1 @ hs ! 2
     @ put_vecU8 act @ put_vecU8 non @ put_vecU8 pol @ put_vecU8 doc"

definition typed_ok ::
  "(bytes \<Rightarrow> jsstr) \<Rightarrow> bytes \<Rightarrow> bytes \<Rightarrow> bytes \<Rightarrow> bytes \<Rightarrow> bytes list \<Rightarrow> bytes \<Rightarrow> bytes \<Rightarrow> bytes \<Rightarrow> bytes \<Rightarrow> TypedProposalAccount \<Rightarrow> bool" where
  "typed_ok b58enc w i p r hs act non pol doc a \<longleftrightarrow> key_ok w \<and> key_ok i \<and> key_ok p \<and> key_ok r
     \<and> key_ok (hs ! 0) \<and> key_ok (hs ! 1) \<and> key_ok (hs ! 2)
     \<and> tp_wallet a = b58enc w \<and> tp_intent a = b58enc i \<and> tp_proposer a = b58enc p \<and> tp_rentRefund a = b58enc r
     \<and> tp_statusLabel a = status_label (tp_status a)
     \<and> u64_ok (tp_proposalIndex a) \<and> i64_ok (tp_proposedAt a) \<and> i64_ok (tp_approvedAt a) \<and> i64_ok (tp_expiresAt a)
     \<and> u16_ok (tp_approvalBitmap a) \<and> u16_ok (tp_cancellationBitmap a)
     \<and> tp_policyCommitment a = toHex (hs ! 0) \<and> tp_payloadHash a = toHex (hs ! 1) \<and> tp_envelopeHash a = toHex (hs ! 2)
     \<and> length act \<le> 128 \<and> length non \<le> 128 \<and> length pol \<le> 2048 \<and> length doc \<le> 2048
     \<and> tp_actionId a = utf8_decode_bom act \<and> tp_nonce a = utf8_decode_bom non
     \<and> tp_actionIdHex a = toHex act \<and> tp_nonceHex a = toHex non
     \<and> tp_policyBytesHex a = toHex pol \<and> tp_clearTextHex a = Some (toHex doc)"

lemma typed_tail_put:
  assumes "at_pos d off (put_vecU8 pol @ put_vecU8 doc @ rest)" "list_all (\<lambda>b. b = 0) rest"
    and "length act \<le> 128" "length non \<le> 128" "length pol \<le> 2048" "length doc \<le> 2048"
  shows "typed_tail act non d off = (toHex pol, Some (toHex doc))"
proof -
  have u: "u32_ok (length pol)" "u32_ok (length doc)" using assms by (simp_all add: u32_ok_def)
  note a1 = at_pos_step [OF assms(1)] note a2 = at_pos_step [OF a1]
  have "drop (off + length (put_vecU8 pol) + length (put_vecU8 doc)) d = rest" using a2 by (simp only: at_pos_def)
  moreover have "\<not> list_ex (\<lambda>b. b \<noteq> 0) rest" using assms(2) by (simp add: list_all_iff list_ex_iff)
  moreover have "\<not> length pol > 2048" "\<not> (length pol > 2048 \<or> length doc > 2048 \<or> length act > 128 \<or> length non > 128)"
    using assms by simp_all
  ultimately show ?thesis
    unfolding typed_tail_def step_vecU8 [OF assms(1) u(1)] step_vecU8 [OF a1 u(2)] sum.case prod.case by simp
qed

lemma parseTypedProposal_put:
  assumes "typed_ok b58enc w i p r hs act non pol doc a" "list_all (\<lambda>b. b = 0) rest"
  shows "parseTypedProposal b58enc (put_typed w i p r hs act non pol doc a @ rest) = Inr a"
proof -
  let ?d = "put_typed w i p r hs act non pol doc a @ rest"
  let ?r = "w @ i @ put_int 8 (tp_proposalIndex a) @ p @ put_u8 (tp_status a)
     @ put_u8 (tp_actionKind a) @ put_int 8 (tp_proposedAt a) @ put_int 8 (tp_approvedAt a)
     @ put_int 8 (tp_expiresAt a) @ put_u8 (tp_bump a) @ put_nat 2 (tp_approvalBitmap a)
     @ put_nat 2 (tp_cancellationBitmap a) @ r @ hs ! 0 @ hs ! 1 @ hs ! 2
     @ put_vecU8 act @ put_vecU8 non @ put_vecU8 pol @ put_vecU8 doc @ rest"
  note ok = assms(1) [unfolded typed_ok_def]
  have d: "?d = 6 # ?r" by (simp add: put_typed_def)
  have a0: "at_pos ?d 1 ?r" unfolding d by (rule at_pos_disc)
  note a1 = at_pos_step [OF a0] note a2 = at_pos_step [OF a1] note a3 = at_pos_step [OF a2]
  note a4 = at_pos_step [OF a3] note a5 = at_pos_step [OF a4] note a6 = at_pos_step [OF a5]
  note a7 = at_pos_step [OF a6] note a8 = at_pos_step [OF a7] note a9 = at_pos_step [OF a8]
  note a10 = at_pos_step [OF a9] note a11 = at_pos_step [OF a10] note a12 = at_pos_step [OF a11]
  note a13 = at_pos_step [OF a12] note a14 = at_pos_step [OF a13] note a15 = at_pos_step [OF a14]
  note a16 = at_pos_step [OF a15] note a17 = at_pos_step [OF a16] note a18 = at_pos_step [OF a17]
  have n: "newReader ?d 6 = Inr 1" unfolding d by (rule newReader_disc)
  have u: "u32_ok (length act)" "u32_ok (length non)" using ok by (simp_all add: u32_ok_def)
  note t = typed_tail_put [OF a18 assms(2)]
  note steps = step_address [OF a0] step_address [OF a1] step_u64 [OF a2] step_address [OF a3] step_u8 [OF a4]
    step_u8 [OF a5] step_i64 [OF a6] step_i64 [OF a7] step_i64 [OF a8] step_u8 [OF a9] step_u16 [OF a10]
    step_u16 [OF a11] step_address [OF a12] step_commitment [OF a13] step_commitment [OF a14]
    step_commitment [OF a15] step_vecU8 [OF a16 u(1)] step_vecU8 [OF a17 u(2)]
  show ?thesis
    using ok by (simp only: parseTypedProposal_def n steps ebind_simps prod.case t fst_conv snd_conv) simp
qed

section \<open>Properties\<close>

text \<open>
  C20: An intent account the program stores is parsed back field by field, with its keys in
  base58 and its template decoded from the byte pool, whatever follows it in the buffer.
\<close>

theorem parseIntent_roundtrip:
  assumes "intent_ok b58enc w ps as a"
  shows "parseIntent b58enc (put_intent w ps as a @ rest) = Inr a"
  by (rule parseIntent_put [OF assms])

definition example_intent :: IntentAccount where
  "example_intent =
     \<lparr>params = [\<lparr>paramType = PT_U64, nameOffset = 0, nameLen = 1, constraintType = 1, constraintValue = 9\<rparr>],
      bytePool = [97, 98], template = utf8_decode [97, 98], intentType = 3,
      i_wallet = [], i_bump = 254, i_intentIndex = 3, i_chainKind = 1, i_approved = True,
      approvalThreshold = 2, cancellationThreshold = 1, timelockSeconds = 3600,
      templateOffset = 0, templateLen = 2, txTemplateOffset = 2, txTemplateLen = 0, activeProposalCount = 1,
      proposers = [[]], approvers = [[], []], i_accounts = [], instructions = [], dataSegments = [], seeds = [],
      policyCiphertexts = [], policyCiphertextIds = []\<rparr>"

theorem parseIntent_roundtrip_witness:
  "parseIntent (\<lambda>_. []) (put_intent (replicate 32 1) [replicate 32 2] [replicate 32 3, replicate 32 4] example_intent @ [0, 0])
     = Inr example_intent"
proof (rule parseIntent_roundtrip)
  show "intent_ok (\<lambda>_. []) (replicate 32 1) [replicate 32 2] [replicate 32 3, replicate 32 4] example_intent"
    by (simp add: intent_ok_def example_intent_def vec_ok_def key_ok_def u16_ok_def u32_ok_def u64_ok_def param_ok_def
        param_type_ok_def in_pool_def slice_def decodePolicyCiphertexts_def)
qed

text \<open>
  A typed proposal is parsed back with its policy and its document in hexadecimal, and
  \<open>parseAnyProposal\<close> recognises both kinds of proposal by their discriminator.
\<close>

theorem parse_proposals_roundtrip:
  assumes "typed_ok b58enc w i p r hs act non pol doc a" "list_all (\<lambda>x. x = 0) pad"
    and "proposal_ok b58enc w' i' p' r' b"
  shows "parseAnyProposal b58enc (put_typed w i p r hs act non pol doc a @ pad) = Inr (TypedProposal a)
    \<and> parseAnyProposal b58enc (put_proposal w' i' p' r' b @ rest) = Inr (PlainProposal b)"
proof -
  have "byte_at (put_typed w i p r hs act non pol doc a @ pad) 0 = Some 6"
    "byte_at (put_proposal w' i' p' r' b @ rest) 0 = Some 3"
    by (simp_all add: put_typed_def put_proposal_def byte_at_def)
  then show ?thesis
    using parseTypedProposal_put [OF assms(1,2)] parseProposal_put [OF assms(3)]
    by (simp add: parseAnyProposal_def)
qed

definition example_typed :: TypedProposalAccount where
  "example_typed =
     \<lparr>tp_wallet = [], tp_intent = [], tp_proposalIndex = 5, tp_proposer = [], tp_status = 1, tp_statusLabel = S_Approved,
      tp_actionKind = 2, tp_proposedAt = 100, tp_approvedAt = 200, tp_expiresAt = - 1, tp_bump = 255,
      tp_approvalBitmap = 3, tp_cancellationBitmap = 0, tp_rentRefund = [],
      tp_policyCommitment = toHex (replicate 32 1), tp_payloadHash = toHex (replicate 32 2),
      tp_envelopeHash = toHex (replicate 32 3), tp_actionId = utf8_decode_bom [97], tp_nonce = utf8_decode_bom [98],
      tp_policyBytesHex = toHex [1, 2], tp_actionIdHex = toHex [97], tp_nonceHex = toHex [98],
      tp_clearTextHex = Some (toHex [123])\<rparr>"

definition example_proposal :: ProposalAccount where
  "example_proposal =
     \<lparr>pr_wallet = [], pr_intent = [], pr_proposalIndex = 4, pr_proposer = [], pr_status = 9, pr_statusLabel = S_Unknown,
      pr_proposedAt = 7, pr_approvedAt = 0, pr_bump = 1, pr_approvalBitmap = 1, pr_cancellationBitmap = 2,
      pr_rentRefund = [], pr_paramsData = [1, 2, 3]\<rparr>"

theorem parse_proposals_roundtrip_witness:
  "parseAnyProposal (\<lambda>_. []) (put_typed (replicate 32 7) (replicate 32 7) (replicate 32 7) (replicate 32 7)
       [replicate 32 1, replicate 32 2, replicate 32 3] [97] [98] [1, 2] [123] example_typed @ [0, 0]) = Inr (TypedProposal example_typed)
   \<and> parseAnyProposal (\<lambda>_. []) (put_proposal (replicate 32 7) (replicate 32 7) (replicate 32 7) (replicate 32 7) example_proposal @ [5])
     = Inr (PlainProposal example_proposal)"
proof (rule parse_proposals_roundtrip)
  show "typed_ok (\<lambda>_. []) (replicate 32 7) (replicate 32 7) (replicate 32 7) (replicate 32 7)
       [replicate 32 1, replicate 32 2, replicate 32 3] [97] [98] [1, 2] [123] example_typed"
    by (simp add: typed_ok_def example_typed_def key_ok_def u16_ok_def u64_ok_def i64_ok_def status_label_def)
  show "proposal_ok (\<lambda>_. []) (replicate 32 7) (replicate 32 7) (replicate 32 7) (replicate 32 7) example_proposal"
    by (simp add: proposal_ok_def example_proposal_def key_ok_def u16_ok_def u32_ok_def u64_ok_def i64_ok_def status_label_def)
qed simp

text \<open>
  A wallet is parsed back with its name and its creator, and the policy account with one
  commitment for each of the six chain slots.
\<close>

theorem parse_wallet_roundtrip:
  assumes "wallet_ok b58enc c a" "wallet_policy_ok b58enc w cs p"
  shows "parseWallet b58enc (put_wallet c a @ rest) = Inr a
    \<and> parseWalletPolicy b58enc (put_wallet_policy w cs p @ rest) = Inr p"
  using parseWallet_put [OF assms(1)] parseWalletPolicy_put [OF assms(2)] by blast

theorem parse_wallet_roundtrip_witness:
  "let a = \<lparr>w_bump = 3, w_proposalIndex = 2 ^ 64 - 1, w_intentIndex = 4, w_creator = [], w_name = js ''ops''\<rparr>;
       p = \<lparr>p_wallet = [], policyCommitments = replicate 6 (toHex (replicate 32 1)), p_version = 2, updatedAt = - 5, p_bump = 9\<rparr>
   in parseWallet (\<lambda>_. []) (put_wallet (replicate 32 1) a @ [9]) = Inr a
    \<and> parseWalletPolicy (\<lambda>_. []) (put_wallet_policy (replicate 32 2) (replicate 6 (replicate 32 1)) p @ [9]) = Inr p"
  unfolding Let_def
proof (rule parse_wallet_roundtrip)
  show "wallet_ok (\<lambda>_. []) (replicate 32 1)
      \<lparr>w_bump = 3, w_proposalIndex = 2 ^ 64 - 1, w_intentIndex = 4, w_creator = [], w_name = js ''ops''\<rparr>"
    by (simp add: wallet_ok_def key_ok_def u64_ok_def u32_ok_def map_ucast_utf8 is_high_def is_low_def)
  show "wallet_policy_ok (\<lambda>_. []) (replicate 32 2) (replicate 6 (replicate 32 1))
      \<lparr>p_wallet = [], policyCommitments = replicate 6 (toHex (replicate 32 1)), p_version = 2, updatedAt = - 5, p_bump = 9\<rparr>"
    by (simp add: wallet_policy_ok_def key_ok_def u64_ok_def i64_ok_def WALLET_POLICY_CHAIN_SLOTS_def list_all_iff)
qed

text \<open>
  The binding of a wallet to a dWallet.  The program's signature scheme takes two bytes,
  the parser's one: the field \<open>bump\<close> it returns is the high byte of the scheme, never the
  bump the program stored (the buffer of scheme 5 and bump 254 shows bump 0).
\<close>

theorem ika_config_bump_is_scheme:
  "parseIkaConfig b58enc (rs_put_ika (replicate 32 1) (replicate 32 2) (replicate 32 3) chain 5 254) =
     Inr \<lparr>ik_wallet = b58enc (replicate 32 1), ik_dwallet = b58enc (replicate 32 2), ik_userPubkeyHex = toHex (replicate 32 3),
          ik_chainKind = chain, ik_signatureScheme = 5, ik_bump = 0\<rparr>"
  using parseIkaConfig_rs [of "replicate 32 1" "replicate 32 2" "replicate 32 3" b58enc chain 5 254]
  by (simp add: key_ok_def)

end
