(* ===== verification/Msig_Verify.thy ===== *)
theory Msig_Verify
  imports Msig_Accounts
begin

text \<open>
  \<open>lib/msig/verify.ts\<close>: the check that the bytes a backend asks a member to sign are the
  bytes of the intent on chain.  \<open>fetch\<close> stands for the key parser and the account lookup
  of the web3 library: \<open>Inl\<close> where one of them throws, \<open>None\<close> where there is no account.
\<close>

section \<open>Operations\<close>

datatype verify_code =
  Intent_fetch_failed | Intent_parse_failed | Missing_field | Message_mismatch | Invalid_action

text \<open>\<open>Other\<close> is an exception that is not a \<open>MessageVerificationError\<close>.\<close>

datatype verify_error = Verification verify_code | Other js_error

record DryRunDescriptor =
  d_action :: jsstr
  proposal_index :: "int option"
  intent_pubkey :: jsstr
  d_expiry :: int
  wallet_name :: jsstr
  params_data_hex :: jsstr
  message_hex :: jsstr

definition ACTION_TO_BYTE_VERB :: "(jsstr \<times> Action) list" where
  "ACTION_TO_BYTE_VERB =
     [(js ''intent_add'', Propose), (js ''intent_remove'', Propose), (js ''intent_update'', Propose),
      (js ''proposal_create'', Propose), (js ''proposal_approve'', Approve), (js ''proposal_cancel'', Cancel),
      (js ''propose'', Propose), (js ''approve'', Approve), (js ''cancel'', Cancel)]"

definition asAction :: "jsstr \<Rightarrow> verify_error + Action" where
  "asAction a =
     (case map_of ACTION_TO_BYTE_VERB a of
        None \<Rightarrow> Inl (Verification Invalid_action)
      | Some verb \<Rightarrow> Inr verb)"

text \<open>The loop of \<open>equalBytes\<close>: the differences are collected in one number.\<close>

definition equalBytes :: "bytes \<Rightarrow> bytes \<Rightarrow> bool" where
  "equalBytes a b =
     (if length a \<noteq> length b then False
      else foldl (\<lambda>diff i. js_or diff (js_xor (uint (a ! i)) (uint (b ! i)))) 0 [0..<length a] = 0)"

definition decodeExpectedBody :: "bytes \<Rightarrow> bytes" where
  "decodeExpectedBody expected = (case unwrapOffchain expected of Inr b \<Rightarrow> b | Inl _ \<Rightarrow> expected)"

definition other :: "js_error + 'a \<Rightarrow> verify_error + 'a" where
  "other m = (case m of Inl e \<Rightarrow> Inl (Other e) | Inr x \<Rightarrow> Inr x)"

definition rebuildAndVerifyMessage ::
  "(bytes \<Rightarrow> bytes) \<Rightarrow> (bytes \<Rightarrow> jsstr) \<Rightarrow> (jsstr \<Rightarrow> js_error + bytes option) \<Rightarrow> DryRunDescriptor
    \<Rightarrow> MessageFlavor \<Rightarrow> verify_error + bytes" where
  "rebuildAndVerifyMessage sha256 b58enc fetch descriptor flavor =
     (case proposal_index descriptor of
        None \<Rightarrow> Inl (Verification Missing_field)
      | Some pidx \<Rightarrow>
     ebind (asAction (d_action descriptor)) (\<lambda>act.
     ebind (other (fetch (intent_pubkey descriptor))) (\<lambda>info.
     case info of
        None \<Rightarrow> Inl (Verification Intent_fetch_failed)
      | Some data \<Rightarrow>
     (case parseIntent b58enc data of
        Inl _ \<Rightarrow> Inl (Verification Intent_parse_failed)
      | Inr parsed \<Rightarrow>
     if intentType parsed \<noteq> AddIntent \<and> intentType parsed \<noteq> RemoveIntent
        \<and> intentType parsed \<noteq> UpdateIntent \<and> intentType parsed \<noteq> Custom
     then Inl (Verification Intent_parse_failed)
     else
     ebind (other (fromHex (params_data_hex descriptor))) (\<lambda>pdata.
     ebind (other (buildSignableMessage sha256 b58enc
                \<lparr>action = act, expiry = d_expiry descriptor, walletName = wallet_name descriptor,
                 proposalIndex = pidx, intent = parsed, paramsData = pdata\<rparr> flavor)) (\<lambda>m.
     ebind (other (fromHex (message_hex descriptor))) (\<lambda>expected.
     let expectedBody = decodeExpectedBody expected in
     if (flavor = Offchain_v1 \<and> \<not> equalBytes (wrapped m) expected)
        \<or> (flavor \<noteq> Offchain_v1 \<and> \<not> equalBytes (body m) expectedBody)
     then Inl (Verification Message_mismatch)
     else Inr (if flavor = Offchain_v1 then wrapped m else body m))))))))"

section \<open>Lemmas\<close>

lemma to_int32_byte_range: "0 \<le> a \<Longrightarrow> a < 256 \<Longrightarrow> to_int32 a = a"
  by (rule to_int32_byte) simp_all

lemma js_or_0_iff:
  assumes "0 \<le> a" "a < 256" "0 \<le> b" "b < 256"
  shows "0 \<le> js_or a b \<and> js_or a b < 256 \<and> (js_or a b = 0 \<longleftrightarrow> a = 0 \<and> b = 0)"
proof -
  have "a OR b < 2 ^ 8" using assms by (intro OR_upper) auto
  moreover have "a OR b = 0 \<longleftrightarrow> a = 0 \<and> b = 0"
    by (auto simp: bit_eq_iff bit_or_iff)
  ultimately show ?thesis using assms by (simp add: js_or_def to_int32_byte_range)
qed

lemma js_xor_0_iff:
  assumes "0 \<le> a" "a < 256" "0 \<le> b" "b < 256"
  shows "0 \<le> js_xor a b \<and> js_xor a b < 256 \<and> (js_xor a b = 0 \<longleftrightarrow> a = b)"
proof -
  have "a XOR b < 2 ^ 8" using assms by (intro XOR_upper) auto
  moreover have "a XOR b = 0 \<longleftrightarrow> a = b"
    by (auto simp: bit_eq_iff bit_xor_iff)
  ultimately show ?thesis using assms by (simp add: js_xor_def to_int32_byte_range)
qed

lemma diff_fold:
  assumes "0 \<le> acc" "acc < 256"
  shows "0 \<le> foldl (\<lambda>diff i. js_or diff (js_xor (uint (a ! i)) (uint (b ! i)))) acc is
    \<and> (foldl (\<lambda>diff i. js_or diff (js_xor (uint (a ! i)) (uint (b ! i)))) acc is = 0
         \<longleftrightarrow> acc = 0 \<and> (\<forall>i \<in> set is. a ! i = (b ! i :: byte)))"
  using assms
proof (induction "is" arbitrary: acc)
  case Nil
  then show ?case by simp
next
  case (Cons i xs)
  have x: "0 \<le> js_xor (uint (a ! i)) (uint (b ! i))" "js_xor (uint (a ! i)) (uint (b ! i)) < 256"
    "js_xor (uint (a ! i)) (uint (b ! i)) = 0 \<longleftrightarrow> a ! i = b ! i"
    using js_xor_0_iff [OF uint_byte_bound uint_byte_bound, of "a ! i" "b ! i"]
    unfolding word_uint_eq_iff by blast+
  define acc' where "acc' = js_or acc (js_xor (uint (a ! i)) (uint (b ! i)))"
  have acc': "0 \<le> acc'" "acc' < 256" "acc' = 0 \<longleftrightarrow> acc = 0 \<and> a ! i = b ! i"
    using js_or_0_iff [OF Cons.prems x(1,2)] x(3) unfolding acc'_def by blast+
  show ?case
    using Cons.IH [OF acc'(1,2)] acc'(3) unfolding foldl_Cons acc'_def [symmetric] set_simps ball_simps by blast
qed

lemma equalBytes_iff: "equalBytes a b \<longleftrightarrow> a = b"
proof -
  have "foldl (\<lambda>diff i. js_or diff (js_xor (uint (a ! i)) (uint (b ! i)))) 0 [0..<length a] = 0
      \<longleftrightarrow> (\<forall>i \<in> set [0..<length a]. a ! i = b ! i)"
    using diff_fold [OF order_refl zero_less_numeral, of a b "[0..<length a]"] by blast
  then show ?thesis
    unfolding equalBytes_def list_eq_iff_nth_eq by (simp only:) auto
qed

lemma other_Inr: "other m = Inr x \<longleftrightarrow> m = Inr x"
  by (cases m) (simp_all add: other_def)

text \<open>The result of the check, with the message rebuilt from the account on chain.\<close>

definition rebuilt ::
  "(bytes \<Rightarrow> bytes) \<Rightarrow> (bytes \<Rightarrow> jsstr) \<Rightarrow> (jsstr \<Rightarrow> js_error + bytes option) \<Rightarrow> DryRunDescriptor
    \<Rightarrow> bytes res" where
  "rebuilt sha256 b58enc fetch descriptor =
     (case (proposal_index descriptor, map_of ACTION_TO_BYTE_VERB (d_action descriptor), fetch (intent_pubkey descriptor)) of
        (Some pidx, Some act, Inr (Some data)) \<Rightarrow>
          ebind (parseIntent b58enc data) (\<lambda>parsed.
          ebind (fromHex (params_data_hex descriptor)) (\<lambda>pdata.
          buildMessageBody sha256 b58enc
            \<lparr>action = act, expiry = d_expiry descriptor, walletName = wallet_name descriptor,
             proposalIndex = pidx, intent = parsed, paramsData = pdata\<rparr>))
      | _ \<Rightarrow> Inl TypeError)"

lemma verify_sound:
  assumes "rebuildAndVerifyMessage sha256 b58enc fetch descriptor flavor = Inr m"
  shows "\<exists>b expected. rebuilt sha256 b58enc fetch descriptor = Inr b \<and> fromHex (message_hex descriptor) = Inr expected \<and>
    (if flavor = Offchain_v1 then wrapOffchain b = Inr m \<and> expected = m
     else m = b \<and> decodeExpectedBody expected = b)"
proof -
  obtain pidx where p1: "proposal_index descriptor = Some pidx"
    using assms by (cases "proposal_index descriptor") (simp_all add: rebuildAndVerifyMessage_def)
  obtain act where p2: "map_of ACTION_TO_BYTE_VERB (d_action descriptor) = Some act"
    using assms p1 by (cases "map_of ACTION_TO_BYTE_VERB (d_action descriptor)")
      (simp_all add: rebuildAndVerifyMessage_def asAction_def)
  obtain info where p3: "fetch (intent_pubkey descriptor) = Inr info"
    using assms p1 p2 by (cases "fetch (intent_pubkey descriptor)")
      (simp_all add: rebuildAndVerifyMessage_def asAction_def other_def)
  obtain data where "info = Some data"
    using assms p1 p2 p3 by (cases info) (simp_all add: rebuildAndVerifyMessage_def asAction_def other_def)
  note p = p1 p2 p3 [unfolded this]
  show ?thesis
    using assms p
    by (cases flavor)
      (auto simp: rebuildAndVerifyMessage_def rebuilt_def asAction_def ebind_Inr_iff other_Inr Let_def
        buildSignableMessage_def equalBytes_iff plainMessage_def
        split: sum.splits if_splits)
qed

lemma decodeExpectedBody_wrapped: "wrapOffchain b = Inr w \<Longrightarrow> decodeExpectedBody w = b"
proof -
  assume w: "wrapOffchain b = Inr w"
  then have l: "length b \<le> 65535" by (auto simp: wrapOffchain_def MAX_OFFCHAIN_BODY_LEN_def split: if_splits)
  with w have "w = (OFFCHAIN_DOMAIN @ [0, 0] @ le_bytes 2 (int (length b))) @ b @ []"
    by (simp add: wrapOffchain_eq)
  then have "unwrapOffchain w = Inr b"
    using unwrap_wrapped [OF l refl, of 0 "[]"] by simp
  then show ?thesis by (simp add: decodeExpectedBody_def)
qed

lemma rebuilt_parts:
  assumes "rebuilt sha256 b58enc fetch descriptor = Inr b"
  obtains pidx act data parsed pdata where "proposal_index descriptor = Some pidx"
    "map_of ACTION_TO_BYTE_VERB (d_action descriptor) = Some act" "fetch (intent_pubkey descriptor) = Inr (Some data)"
    "parseIntent b58enc data = Inr parsed" "fromHex (params_data_hex descriptor) = Inr pdata"
    "buildMessageBody sha256 b58enc
            \<lparr>action = act, expiry = d_expiry descriptor, walletName = wallet_name descriptor,
             proposalIndex = pidx, intent = parsed, paramsData = pdata\<rparr> = Inr b"
    "intentType parsed \<in> {AddIntent, RemoveIntent, UpdateIntent, Custom}"
proof -
  from assms obtain pidx act data parsed pdata where p: "proposal_index descriptor = Some pidx"
    "map_of ACTION_TO_BYTE_VERB (d_action descriptor) = Some act" "fetch (intent_pubkey descriptor) = Inr (Some data)"
    "parseIntent b58enc data = Inr parsed" "fromHex (params_data_hex descriptor) = Inr pdata"
    "buildMessageBody sha256 b58enc
            \<lparr>action = act, expiry = d_expiry descriptor, walletName = wallet_name descriptor,
             proposalIndex = pidx, intent = parsed, paramsData = pdata\<rparr> = Inr b"
    by (auto simp: rebuilt_def ebind_Inr_iff split: option.splits sum.splits)
  moreover from this(6) have "intentType parsed \<in> {AddIntent, RemoveIntent, UpdateIntent, Custom}"
    by (auto simp: buildMessageBody_def message_content_def ebind_Inr_iff split: if_splits)
  ultimately show thesis using that by blast
qed

lemma verify_complete:
  assumes "rebuilt sha256 b58enc fetch descriptor = Inr b" "wrapOffchain b = Inr w"
    and "fromHex (message_hex descriptor) = Inr w"
  shows "rebuildAndVerifyMessage sha256 b58enc fetch descriptor Offchain_v1 = Inr w"
  by (rule rebuilt_parts [OF assms(1)])
    (use assms(2,3) in \<open>auto simp: rebuildAndVerifyMessage_def asAction_def other_def buildSignableMessage_def
        Let_def equalBytes_iff\<close>)

lemma verify_complete_plain:
  assumes "rebuilt sha256 b58enc fetch descriptor = Inr b" "fromHex (message_hex descriptor) = Inr e"
    and "decodeExpectedBody e = b"
  shows "rebuildAndVerifyMessage sha256 b58enc fetch descriptor Plain_v2 = Inr b"
  by (rule rebuilt_parts [OF assms(1)])
    (use assms(2,3) in \<open>auto simp: rebuildAndVerifyMessage_def asAction_def other_def buildSignableMessage_def
        Let_def equalBytes_iff plainMessage_def\<close>)

section \<open>Properties\<close>

text \<open>
  C1: The check accepts exactly the bytes rebuilt from the account on chain.  With the
  offchain wrapper it returns \<open>m\<close> if and only if \<open>m\<close> wraps the body rebuilt from that
  account, the descriptor and the parameters, and the backend supplied those very bytes; with
  plain signing, if and only if \<open>m\<close> is that body and the backend supplied it, wrapped or not.
\<close>

theorem verify_exact:
  "(rebuildAndVerifyMessage sha256 b58enc fetch descriptor Offchain_v1 = Inr m \<longleftrightarrow>
      (\<exists>b. rebuilt sha256 b58enc fetch descriptor = Inr b \<and> wrapOffchain b = Inr m
         \<and> fromHex (message_hex descriptor) = Inr m))
   \<and> (rebuildAndVerifyMessage sha256 b58enc fetch descriptor Plain_v2 = Inr m \<longleftrightarrow>
      (\<exists>e. rebuilt sha256 b58enc fetch descriptor = Inr m \<and> fromHex (message_hex descriptor) = Inr e
         \<and> decodeExpectedBody e = m))"
  using verify_sound [of sha256 b58enc fetch descriptor Offchain_v1 m]
    verify_sound [of sha256 b58enc fetch descriptor Plain_v2 m]
    verify_complete [of sha256 b58enc fetch descriptor _ m] verify_complete_plain [of sha256 b58enc fetch descriptor m]
  by auto

text \<open>
  The constant-time comparison collects the differences of all bytes, and is equality.
\<close>

theorem equalBytes_equality: "equalBytes a b \<longleftrightarrow> a = b"
  by (rule equalBytes_iff)

end
