(* ===== verification/Msig_Pda.thy ===== *)
theory Msig_Pda
  imports JS_Utf8
begin

text \<open>
  \<open>lib/msig/pda.ts\<close>: the seeds of the program's addresses.  \<open>fpa\<close> is
  \<open>PublicKey.findProgramAddressSync\<close>, \<open>sha256\<close> the hash function; a key is its 32 bytes.
\<close>

section \<open>Operations\<close>

type_synonym fpa = "bytes list \<Rightarrow> bytes \<Rightarrow> bytes \<times> nat"

definition SEED_CLEAR_WALLET :: bytes where "SEED_CLEAR_WALLET = ascii ''clear_wallet''"
definition SEED_VAULT :: bytes where "SEED_VAULT = ascii ''vault''"
definition SEED_INTENT :: bytes where "SEED_INTENT = ascii ''intent''"
definition SEED_PROPOSAL :: bytes where "SEED_PROPOSAL = ascii ''proposal''"
definition SEED_TYPED_PROPOSAL :: bytes where "SEED_TYPED_PROPOSAL = ascii ''typed_proposal''"
definition SEED_IKA_CONFIG :: bytes where "SEED_IKA_CONFIG = ascii ''ika_config''"
definition SEED_WALLET_POLICY :: bytes where "SEED_WALLET_POLICY = ascii ''wallet_policy''"
definition SEED_ASSET_POLICY :: bytes where "SEED_ASSET_POLICY = ascii ''asset_policy''"
definition SEED_AGENT_RISK :: bytes where "SEED_AGENT_RISK = ascii ''agent_risk''"
definition SEED_DWALLET_OWNERSHIP :: bytes where "SEED_DWALLET_OWNERSHIP = ascii ''dwallet_owner''"
definition SEED_CPI_AUTHORITY :: bytes where "SEED_CPI_AUTHORITY = ascii ''__ika_cpi_authority''"

definition findWalletAddress :: "(bytes \<Rightarrow> bytes) \<Rightarrow> fpa \<Rightarrow> jsstr \<Rightarrow> bytes \<Rightarrow> bytes \<Rightarrow> bytes \<times> nat" where
  "findWalletAddress sha256 fpa name creator programId =
     (let nameHash = sha256 (utf8_encode name) in fpa [SEED_CLEAR_WALLET, creator, nameHash] programId)"

definition findVaultAddress :: "fpa \<Rightarrow> bytes \<Rightarrow> bytes \<Rightarrow> bytes \<times> nat" where
  "findVaultAddress fpa wallet programId = fpa [SEED_VAULT, wallet] programId"

definition findIntentAddress :: "fpa \<Rightarrow> bytes \<Rightarrow> int \<Rightarrow> bytes \<Rightarrow> (bytes \<times> nat) res" where
  "findIntentAddress fpa wallet index programId =
     (if index < 0 \<or> index > 255 then Inl (Thrown ''findIntentAddress: index must fit in u8'')
      else Inr (fpa [SEED_INTENT, wallet, [word_of_int index]] programId))"

definition findProposalAddress :: "fpa \<Rightarrow> bytes \<Rightarrow> int \<Rightarrow> bytes \<Rightarrow> (bytes \<times> nat) res" where
  "findProposalAddress fpa intent index programId =
     (if index < 0 \<or> index > 0xffffffffffffffff then Inl (Thrown ''findProposalAddress: index must fit in u64'')
      else Inr (fpa [SEED_PROPOSAL, intent, le_bytes 8 index] programId))"

definition findTypedProposalAddress :: "fpa \<Rightarrow> bytes \<Rightarrow> int \<Rightarrow> bytes \<Rightarrow> (bytes \<times> nat) res" where
  "findTypedProposalAddress fpa intent index programId =
     (if index < 0 \<or> index > 0xffffffffffffffff then Inl (Thrown ''findTypedProposalAddress: index must fit in u64'')
      else Inr (fpa [SEED_TYPED_PROPOSAL, intent, le_bytes 8 index] programId))"

definition findIkaConfigAddress :: "fpa \<Rightarrow> bytes \<Rightarrow> int \<Rightarrow> bytes \<Rightarrow> (bytes \<times> nat) res" where
  "findIkaConfigAddress fpa wallet chainKind programId =
     (if chainKind < 0 \<or> chainKind > 255 then Inl (Thrown ''findIkaConfigAddress: chainKind must fit in u8'')
      else Inr (fpa [SEED_IKA_CONFIG, wallet, [word_of_int chainKind]] programId))"

definition findWalletPolicyAddress :: "fpa \<Rightarrow> bytes \<Rightarrow> bytes \<Rightarrow> bytes \<times> nat" where
  "findWalletPolicyAddress fpa wallet programId = fpa [SEED_WALLET_POLICY, wallet] programId"

definition findAssetPolicyAddress :: "fpa \<Rightarrow> bytes \<Rightarrow> bytes \<Rightarrow> bytes \<Rightarrow> bytes \<times> nat" where
  "findAssetPolicyAddress fpa wallet assetId programId = fpa [SEED_ASSET_POLICY, wallet, assetId] programId"

definition findAgentRiskAddress :: "fpa \<Rightarrow> bytes \<Rightarrow> bytes \<Rightarrow> bytes \<Rightarrow> (bytes \<times> nat) res" where
  "findAgentRiskAddress fpa wallet sessionIdHash programId =
     (if length sessionIdHash \<noteq> 32 then Inl (Thrown ''findAgentRiskAddress: session hash must be 32 bytes'')
      else Inr (fpa [SEED_AGENT_RISK, wallet, sessionIdHash] programId))"

definition findDwalletOwnershipAddress :: "fpa \<Rightarrow> bytes \<Rightarrow> bytes \<Rightarrow> bytes \<times> nat" where
  "findDwalletOwnershipAddress fpa dwallet programId = fpa [SEED_DWALLET_OWNERSHIP, dwallet] programId"

definition findCpiAuthority :: "fpa \<Rightarrow> bytes \<Rightarrow> bytes \<times> nat" where
  "findCpiAuthority fpa programId = fpa [SEED_CPI_AUTHORITY] programId"

record WalletPdas =
  pda_wallet :: bytes
  walletBump :: nat
  pda_vault :: bytes
  vaultBump :: nat
  addIntent :: bytes
  removeIntent :: bytes
  updateIntent :: bytes

definition deriveWalletPdas :: "(bytes \<Rightarrow> bytes) \<Rightarrow> fpa \<Rightarrow> jsstr \<Rightarrow> bytes \<Rightarrow> bytes \<Rightarrow> WalletPdas res" where
  "deriveWalletPdas sha256 fpa name creator programId =
     (let (wallet, wb) = findWalletAddress sha256 fpa name creator programId;
          (vault, vb) = findVaultAddress fpa wallet programId
      in ebind (findIntentAddress fpa wallet 0 programId) (\<lambda>(a, _).
         ebind (findIntentAddress fpa wallet 1 programId) (\<lambda>(r, _).
         ebind (findIntentAddress fpa wallet 2 programId) (\<lambda>(u, _).
         Inr \<lparr>pda_wallet = wallet, walletBump = wb, pda_vault = vault, vaultBump = vb,
              addIntent = a, removeIntent = r, updateIntent = u\<rparr>))))"

section \<open>Separate seeds\<close>

text \<open>
  The address is a hash of the seeds joined together, so two accounts can only share one
  when their joined seeds are equal.  \<open>pda\<close> names the accounts by what identifies them;
  \<open>record_fpa\<close> keeps what the address function is given.
\<close>

datatype pda =
    P_Wallet jsstr bytes | P_Vault bytes | P_Intent bytes int | P_Proposal bytes int
  | P_Typed bytes int | P_Ika bytes int | P_Policy bytes | P_Asset bytes bytes
  | P_Risk bytes bytes | P_Owner bytes | P_Authority

definition joined :: fpa where
  "joined seeds programId = (concat seeds, 0)"

definition pda_input :: "(bytes \<Rightarrow> bytes) \<Rightarrow> pda \<Rightarrow> bytes res" where
  "pda_input sha256 k =
     (let get = (\<lambda>r. ebind r (\<lambda>(a, b). Inr a)) in
      case k of
        P_Wallet name creator \<Rightarrow> get (Inr (findWalletAddress sha256 joined name creator []))
      | P_Vault w \<Rightarrow> get (Inr (findVaultAddress joined w []))
      | P_Intent w i \<Rightarrow> get (findIntentAddress joined w i [])
      | P_Proposal p i \<Rightarrow> get (findProposalAddress joined p i [])
      | P_Typed p i \<Rightarrow> get (findTypedProposalAddress joined p i [])
      | P_Ika w c \<Rightarrow> get (findIkaConfigAddress joined w c [])
      | P_Policy w \<Rightarrow> get (Inr (findWalletPolicyAddress joined w []))
      | P_Asset w a \<Rightarrow> get (Inr (findAssetPolicyAddress joined w a []))
      | P_Risk w s \<Rightarrow> get (findAgentRiskAddress joined w s [])
      | P_Owner d \<Rightarrow> get (Inr (findDwalletOwnershipAddress joined d []))
      | P_Authority \<Rightarrow> get (Inr (findCpiAuthority joined [])))"

definition pda_ok :: "pda \<Rightarrow> bool" where
  "pda_ok k \<longleftrightarrow>
     (case k of
        P_Wallet name creator \<Rightarrow> well_formed name \<and> length creator = 32
      | P_Asset w a \<Rightarrow> length w = 32 \<and> length a = 32
      | P_Vault w \<Rightarrow> length w = 32 | P_Intent w i \<Rightarrow> length w = 32 | P_Proposal p i \<Rightarrow> length p = 32
      | P_Typed p i \<Rightarrow> length p = 32 | P_Ika w c \<Rightarrow> length w = 32 | P_Policy w \<Rightarrow> length w = 32
      | P_Risk w s \<Rightarrow> length w = 32 | P_Owner d \<Rightarrow> length d = 32 | P_Authority \<Rightarrow> True)"

lemmas seed_defs = SEED_CLEAR_WALLET_def SEED_VAULT_def SEED_INTENT_def SEED_PROPOSAL_def
  SEED_TYPED_PROPOSAL_def SEED_IKA_CONFIG_def SEED_WALLET_POLICY_def SEED_ASSET_POLICY_def
  SEED_AGENT_RISK_def SEED_DWALLET_OWNERSHIP_def SEED_CPI_AUTHORITY_def

lemmas find_defs = findWalletAddress_def findVaultAddress_def findIntentAddress_def findProposalAddress_def
  findTypedProposalAddress_def findIkaConfigAddress_def findWalletPolicyAddress_def findAssetPolicyAddress_def
  findAgentRiskAddress_def findDwalletOwnershipAddress_def findCpiAuthority_def

lemma byte_index_inj: "0 \<le> i \<Longrightarrow> i \<le> 255 \<Longrightarrow> 0 \<le> j \<Longrightarrow> j \<le> 255 \<Longrightarrow> (word_of_int i :: byte) = word_of_int j \<Longrightarrow> i = j"
  using le_bytes_inj [of 1 i j] by simp

lemma u64_index_inj:
  "0 \<le> i \<Longrightarrow> i \<le> 0xffffffffffffffff \<Longrightarrow> 0 \<le> j \<Longrightarrow> j \<le> 0xffffffffffffffff \<Longrightarrow> le_bytes 8 i = le_bytes 8 j \<Longrightarrow> i = j"
  using le_bytes_inj [of 8 i j] by simp

definition pda_tag :: "pda \<Rightarrow> bytes" where
  "pda_tag k =
     (case k of
        P_Wallet _ _ \<Rightarrow> SEED_CLEAR_WALLET | P_Vault _ \<Rightarrow> SEED_VAULT | P_Intent _ _ \<Rightarrow> SEED_INTENT
      | P_Proposal _ _ \<Rightarrow> SEED_PROPOSAL | P_Typed _ _ \<Rightarrow> SEED_TYPED_PROPOSAL | P_Ika _ _ \<Rightarrow> SEED_IKA_CONFIG
      | P_Policy _ \<Rightarrow> SEED_WALLET_POLICY | P_Asset _ _ \<Rightarrow> SEED_ASSET_POLICY | P_Risk _ _ \<Rightarrow> SEED_AGENT_RISK
      | P_Owner _ \<Rightarrow> SEED_DWALLET_OWNERSHIP | P_Authority \<Rightarrow> SEED_CPI_AUTHORITY)"

definition pda_rest :: "(bytes \<Rightarrow> bytes) \<Rightarrow> pda \<Rightarrow> bytes" where
  "pda_rest sha256 k =
     (case k of
        P_Wallet n c \<Rightarrow> c @ sha256 (utf8_encode n) | P_Vault w \<Rightarrow> w | P_Intent w i \<Rightarrow> w @ [word_of_int i]
      | P_Proposal p i \<Rightarrow> p @ le_bytes 8 i | P_Typed p i \<Rightarrow> p @ le_bytes 8 i | P_Ika w c \<Rightarrow> w @ [word_of_int c]
      | P_Policy w \<Rightarrow> w | P_Asset w a \<Rightarrow> w @ a | P_Risk w s \<Rightarrow> w @ s | P_Owner d \<Rightarrow> d | P_Authority \<Rightarrow> [])"

definition pda_index_ok :: "pda \<Rightarrow> bool" where
  "pda_index_ok k \<longleftrightarrow>
     (case k of
        P_Intent _ i \<Rightarrow> 0 \<le> i \<and> i \<le> 255 | P_Ika _ i \<Rightarrow> 0 \<le> i \<and> i \<le> 255
      | P_Proposal _ i \<Rightarrow> 0 \<le> i \<and> i \<le> 0xffffffffffffffff | P_Typed _ i \<Rightarrow> 0 \<le> i \<and> i \<le> 0xffffffffffffffff
      | P_Risk _ s \<Rightarrow> length s = 32 | _ \<Rightarrow> True)"

lemma pda_input_Inr:
  "pda_input sha256 k = Inr b \<longleftrightarrow> pda_index_ok k \<and> b = pda_tag k @ pda_rest sha256 k"
  by (cases k) (auto simp: pda_input_def find_defs joined_def pda_index_ok_def pda_tag_def pda_rest_def Let_def)

lemma tags_no_prefix: "pda_tag k @ x = pda_tag k' @ y \<Longrightarrow> pda_tag k = pda_tag k'"
  by (cases k; cases k') (simp_all add: pda_tag_def seed_defs)

lemma pda_input_inj:
  assumes "pda_input sha256 k = Inr b" "pda_input sha256 k' = Inr b" "pda_ok k" "pda_ok k'"
  shows "k = k' \<or> (\<exists>n n' c. k = P_Wallet n c \<and> k' = P_Wallet n' c \<and> sha256 (utf8_encode n) = sha256 (utf8_encode n'))"
proof -
  have i: "pda_index_ok k" "pda_index_ok k'" and e: "pda_tag k @ pda_rest sha256 k = pda_tag k' @ pda_rest sha256 k'"
    using assms(1,2) by (auto simp: pda_input_Inr)
  have t: "pda_tag k = pda_tag k'" using tags_no_prefix [OF e] .
  have r: "pda_rest sha256 k = pda_rest sha256 k'" using e t by simp
  show ?thesis
    using t r i assms(3,4)
    by (cases k; cases k')
      (auto simp: pda_tag_def seed_defs pda_rest_def pda_index_ok_def pda_ok_def dest: byte_index_inj u64_index_inj)
qed

section \<open>Properties\<close>

text \<open>
  C35: No two accounts share the input of the address derivation.  Whatever the kinds of the
  accounts, equal joined seeds mean the same account, except that two wallets of one creator
  coincide when their names have the same hash.
\<close>

theorem pda_seeds_separate:
  assumes "pda_input sha256 k = Inr b" "pda_input sha256 k' = Inr b" "pda_ok k" "pda_ok k'"
  shows "k = k' \<or> (\<exists>n n' c. k = P_Wallet n c \<and> k' = P_Wallet n' c \<and> sha256 (utf8_encode n) = sha256 (utf8_encode n'))"
  by (rule pda_input_inj [OF assms])

theorem pda_seeds_separate_witness:
  "P_Wallet (js ''a'') (replicate 32 1) = P_Wallet (js ''b'') (replicate 32 1) \<or>
    (\<exists>n n' c. P_Wallet (js ''a'') (replicate 32 1) = P_Wallet n c \<and> P_Wallet (js ''b'') (replicate 32 1) = P_Wallet n' c
       \<and> [0 :: byte] = [0 :: byte])"
proof -
  have "pda_input (\<lambda>_. [0]) (P_Wallet (js ''a'') (replicate 32 1)) = Inr (SEED_CLEAR_WALLET @ replicate 32 1 @ [0])"
    "pda_input (\<lambda>_. [0]) (P_Wallet (js ''b'') (replicate 32 1)) = Inr (SEED_CLEAR_WALLET @ replicate 32 1 @ [0])"
    by (simp_all add: pda_input_Inr pda_index_ok_def pda_tag_def pda_rest_def)
  from pda_seeds_separate [OF this] show ?thesis
    by (simp add: pda_ok_def is_high_def is_low_def)
qed

end
