(* ===== verification/Policy_Onchain.thy ===== *)
theory Policy_Onchain
  imports JS_Utf8 Msig_Hash Decimal_Text
begin

text \<open>
  \<open>lib/policies/onchain.ts\<close>: a wallet policy as the compact CSP1 bytes the program on
  chain enforces.  The plan of \<open>lib/policies/enforce.ts\<close> is the input, the \<open>ByteWriter\<close>
  is the list of the bytes pushed so far.  Base58 keys, SHA-256 and the case mapping of the
  platform are the fields of \<open>platform\<close>.  Numbers of a plan are integers.
\<close>

record platform =
  publicKey :: "jsstr \<Rightarrow> bytes option"
  toBase58 :: "bytes \<Rightarrow> jsstr"
  sha256 :: "bytes \<Rightarrow> bytes"
  toUpperCase :: "jsstr \<Rightarrow> jsstr"

section \<open>The plan\<close>

datatype RuleAction = Deny | Allow | RequireExtraApprovers | RequireCooldown

datatype ListMode = Allowlist | Blocklist

datatype WindowMatch = Inside | Outside

datatype RuleCondition =
    AssetCondition "int option" "jsstr option"
  | RecipientCondition ListMode "jsstr list option"
  | AmountCondition "jsstr option" "jsstr option" "jsstr option"
  | TimeWindowCondition int int "int list" WindowMatch
  | VelocityCondition jsstr jsstr int

record AllowedTimeWindow =
  startHour :: int
  endHour :: int
  daysOfWeek :: "int list"
  utcOffsetMinutes :: int

record MemberAllowanceCap =
  member :: jsstr
  capDisplay :: jsstr
  windowSeconds :: int

record OnchainLimits =
  velocityCapDisplay :: "jsstr option"
  velocityWindowSeconds :: int
  maxSendCount :: int
  countWindowSeconds :: int

record PolicyEnforcementPlan =
  evaluation :: "RuleAction option"
  conditions :: "RuleCondition list"
  extraApprovers :: "jsstr list"
  extraCooldownSeconds :: int
  recipientGuard :: "(ListMode \<times> jsstr list) option"
  allowedTimeWindow :: "AllowedTimeWindow option"
  onchainLimits :: OnchainLimits
  memberAllowances :: "MemberAllowanceCap list"

section \<open>Amounts and recipient lists\<close>

definition parseUnits :: "jsstr \<Rightarrow> int \<Rightarrow> int res" where
  "parseUnits input decimals =
     (let trimmed = trim input; whole = whole_of trimmed; fraction = fraction_of trimmed in
      if decimals < 0 \<or> decimals > 18 \<or> \<not> decimal_text trimmed
      then Inl (Thrown ''Policy  amount is invalid.'')
      else if int (length fraction) > decimals
      then Inl (Thrown ''Policy  amount must use up to  decimal places.'')
      else ebind (toBigInt whole) (\<lambda>w.
           ebind (toBigInt (pad_end (nat decimals) 0x30 fraction)) (\<lambda>f.
           Inr (w * 10 ^ nat decimals + f))))"

definition parseSolLamports :: "jsstr \<Rightarrow> int res" where
  "parseSolLamports input = parseUnits input 9"

definition textCommitment :: "platform \<Rightarrow> jsstr \<Rightarrow> bytes" where
  "textCommitment pf value = sha256 pf (utf8_encode (trim value))"

definition stricterCap :: "int \<Rightarrow> int \<Rightarrow> int" where
  "stricterCap current candidate =
     (if current = 0 then candidate else if candidate = 0 then current
      else if current < candidate then current else candidate)"

definition mergeRecipientPolicy :: "int \<Rightarrow> 'a list \<Rightarrow> int \<Rightarrow> 'a list \<Rightarrow> int \<times> 'a list" where
  "mergeRecipientPolicy currentMode current nextMode next =
     (if currentMode = 0 then (nextMode, dedupe next)
      else if nextMode = 0 then (currentMode, dedupe current)
      else if currentMode = 1 \<and> nextMode = 1 then (1, filter (\<lambda>v. v \<in> set next) current)
      else if currentMode = 2 \<and> nextMode = 2 then (2, dedupe (current @ next))
      else (let allowlist = (if currentMode = 1 then current else next);
                blocklist = (if currentMode = 2 then current else next)
            in (1, filter (\<lambda>v. v \<notin> set blocklist) allowlist)))"

definition assertPolicyKeyCounts :: "nat \<Rightarrow> nat \<Rightarrow> unit res" where
  "assertPolicyKeyCounts recipientCount approverCount =
     ebind (guard (recipientCount \<le> 16) ''Program-enforced recipient policies support up to 16 addresses.'') (\<lambda>_.
     guard (approverCount \<le> 16) ''Program-enforced approval policies support up to 16 approvers.'')"

lemma parseUnits_eq:
  assumes "decimal_text s" "int (length (fraction_of s)) \<le> d" "d \<le> 18"
  shows "parseUnits s d = Inr (int (decimal_units (nat d) s))"
proof -
  have "0 \<le> d" using assms(2) by (rule order_trans [OF of_nat_0_le_iff])
  with assms read_units [OF assms(1), of "nat d"] show ?thesis
    by (simp add: parseUnits_def Let_def)
qed

section \<open>The writer\<close>

type_synonym writes = "bytes \<Rightarrow> bytes res"

definition pushRaw :: "bytes \<Rightarrow> writes" where
  "pushRaw bs w = Inr (w @ bs)"

definition pushU8 :: "int \<Rightarrow> writes" where
  "pushU8 v w = ebind (guard (0 \<le> v \<and> v \<le> 255) ''Policy byte value is out of range.'') (\<lambda>_.
     Inr (w @ [word_of_int v]))"

definition pushU16 :: "int \<Rightarrow> writes" where
  "pushU16 v w = ebind (guard (0 \<le> v \<and> v \<le> 0xFFFF) ''Policy u16 value is out of range.'') (\<lambda>_.
     Inr (w @ [word_of_int (js_and v 0xFF), word_of_int (js_and (js_shr v 8) 0xFF)]))"

definition pushI16 :: "int \<Rightarrow> writes" where
  "pushI16 v w = ebind (guard (- 0x8000 \<le> v \<and> v \<le> 0x7FFF) ''Policy i16 value is out of range.'') (\<lambda>_.
     let u = js_and v 0xFFFF in Inr (w @ [word_of_int (js_and u 0xFF), word_of_int (js_and (js_shr u 8) 0xFF)]))"

definition pushU32 :: "int \<Rightarrow> writes" where
  "pushU32 v w = ebind (guard (0 \<le> v \<and> v \<le> 0xFFFFFFFF) ''Policy u32 value is out of range.'') (\<lambda>_.
     Inr (w @ map (\<lambda>i. word_of_int (js_and (js_shr v (8 * i)) 0xFF)) [0..<4]))"

definition pushU64 :: "int \<Rightarrow> writes" where
  "pushU64 v w = ebind (guard (0 \<le> v \<and> v \<le> 0xFFFFFFFFFFFFFFFF) ''Policy u64 value is out of range.'') (\<lambda>_.
     Inr (w @ map (\<lambda>i. word_of_int (drop_bit (8 * i) v AND 0xFF)) [0..<8]))"

definition pushBytes :: "bytes \<Rightarrow> writes" where
  "pushBytes bs w = ebind (pushU32 (int (length bs)) w) (pushRaw bs)"

definition pubkey :: "platform \<Rightarrow> jsstr \<Rightarrow> bytes res" where
  "pubkey pf s = (case publicKey pf s of None \<Rightarrow> Inl (Thrown ''Invalid public key input'') | Some k \<Rightarrow> Inr k)"

definition pushPubkey :: "platform \<Rightarrow> jsstr \<Rightarrow> writes" where
  "pushPubkey pf s w = ebind (pubkey pf s) (\<lambda>k. pushRaw k w)"

definition pushRaw32 :: "bytes \<Rightarrow> writes" where
  "pushRaw32 bs w = ebind (guard (length bs = 32) ''Policy 32-byte value must be 32 bytes, got .'') (\<lambda>_. pushRaw bs w)"

text \<open>Statements in a row.\<close>

definition pushes :: "writes list \<Rightarrow> writes" where
  "pushes = efold (\<lambda>p. p)"

section \<open>The encoder\<close>

definition MAGIC :: bytes where
  "MAGIC = [0x43, 0x53, 0x50, 0x31]"

definition MEMBER_ALLOWANCE_ENTRY_LEN :: nat where
  "MEMBER_ALLOWANCE_ENTRY_LEN = 32 + 8 + 4"

record EncodedSolPolicy =
  pbytes :: bytes
  hex :: jsstr
  commitmentHex :: jsstr

definition policyCommitmentHex :: "platform \<Rightarrow> bytes \<Rightarrow> jsstr res" where
  "policyCommitmentHex pf bs =
     ebind (pushes
       [pushBytes (utf8_encode (js ''clearsig:policy-engine:v2:policy'')), pushU32 2,
        pushBytes (utf8_encode
          (if length bs \<ge> 4 \<and> bs ! 0 = 0x43 \<and> bs ! 1 = 0x53 \<and> bs ! 2 = 0x50 \<and> bs ! 3 = 0x32
           then js ''typed-asset-send-policy-v2'' else js ''typed-sol-send-policy-v1'')),
        pushBytes bs] [])
     (\<lambda>w. Inr (toHex (sha256 pf w)))"

definition policyCommitmentHexForParts :: "platform \<Rightarrow> jsstr list \<Rightarrow> jsstr res" where
  "policyCommitmentHexForParts pf parts =
     ebind (pushes
       ([pushBytes (utf8_encode (js ''clearsig:policy-engine:v2:policy'')), pushU32 (int (length parts))]
        @ map (\<lambda>p. pushBytes (utf8_encode p)) parts) [])
     (\<lambda>w. Inr (toHex (sha256 pf w)))"

definition encoded_policy :: "platform \<Rightarrow> bytes \<Rightarrow> EncodedSolPolicy res" where
  "encoded_policy pf bs =
     ebind (policyCommitmentHex pf bs) (\<lambda>c. Inr \<lparr>pbytes = bs, hex = toHex bs, commitmentHex = c\<rparr>)"

definition emptyPolicyBytes :: bytes where
  "emptyPolicyBytes = MAGIC @ replicate 15 0"

definition appendPolicyExtension ::
  "platform \<Rightarrow> EncodedSolPolicy option \<Rightarrow> int \<Rightarrow> bytes \<Rightarrow> EncodedSolPolicy res" where
  "appendPolicyExtension pf encoded tag payload =
     ebind (guard (0 \<le> tag \<and> tag \<le> 255) ''Policy extension tag must fit in one byte.'') (\<lambda>_.
     ebind (guard (length payload \<le> 0xFFFF) ''Policy extension is too large.'') (\<lambda>_.
     let base = (case encoded of None \<Rightarrow> emptyPolicyBytes | Some e \<Rightarrow> pbytes e) in
     encoded_policy pf (base @ [word_of_int tag, word_of_int (js_and (int (length payload)) 0xFF),
       word_of_int (js_ushr (int (length payload)) 8)] @ payload)))"

definition day_bits :: "int list \<Rightarrow> int res" where
  "day_bits days = efold (\<lambda>day mask.
     ebind (guard (0 \<le> day \<and> day \<le> 6) ''Policy allowed days must be between Sunday and Saturday.'') (\<lambda>_.
     Inr (js_or mask (js_shl 1 (nat day))))) days 0"

definition writeAllowedTimeExtension :: "AllowedTimeWindow option \<Rightarrow> writes" where
  "writeAllowedTimeExtension window w =
     (case window of None \<Rightarrow> Inr w
      | Some a \<Rightarrow>
         ebind (guard (0 \<le> startHour a \<and> startHour a \<le> 23 \<and> 0 \<le> endHour a \<and> endHour a \<le> 23)
            ''Policy allowed hours must use whole hours from 0 to 23.'') (\<lambda>_.
         ebind (day_bits (daysOfWeek a)) (\<lambda>mask.
         pushes [pushU8 3, pushU16 5, pushU8 (startHour a), pushU8 (endHour a), pushU8 mask,
           pushI16 (utcOffsetMinutes a)] w)))"

definition member_entry :: "platform \<Rightarrow> int \<Rightarrow> MemberAllowanceCap \<Rightarrow> writes" where
  "member_entry pf decimals cap w =
     ebind (pushPubkey pf (member cap) w) (\<lambda>w.
     ebind (parseUnits (capDisplay cap) decimals) (\<lambda>v.
     ebind (pushU64 v w) (\<lambda>w. pushU32 (max 0 (windowSeconds cap)) w)))"

definition writeMemberAllowanceExtension :: "platform \<Rightarrow> MemberAllowanceCap list \<Rightarrow> int \<Rightarrow> writes" where
  "writeMemberAllowanceExtension pf caps decimals w =
     (if caps = [] then Inr w
      else ebind (guard (length caps \<le> 8) ''Program-enforced member allowances support up to 8 members.'') (\<lambda>_.
           ebind (pushes (map (member_entry pf decimals) caps) []) (\<lambda>bs.
           ebind (guard (length bs = length caps * MEMBER_ALLOWANCE_ENTRY_LEN)
             ''Member allowance extension encoding length mismatch.'') (\<lambda>_.
           pushes [pushU8 4, pushU16 (int (length bs)), pushRaw bs] w))))"

text \<open>
  The variables the two encoders compute from the plan: the merged recipients and limits.
  The loop over the conditions has the same text in both; the asset gives the ticker the
  conditions are matched with, its decimals and the form of its recipients.
\<close>

record limits =
  mode :: int
  recipients :: "jsstr list"
  maxAmount :: int
  velocityCap :: int
  velocityWindow :: int

record asset =
  ticker :: jsstr
  decimals :: int
  normalize :: "jsstr \<Rightarrow> jsstr res"

definition is_deny :: "PolicyEnforcementPlan \<Rightarrow> bool" where
  "is_deny plan \<longleftrightarrow> evaluation plan = Some Deny"

definition list_mode :: "ListMode \<Rightarrow> int" where
  "list_mode m = (case m of Allowlist \<Rightarrow> 1 | Blocklist \<Rightarrow> 2)"

definition parse_or_zero :: "jsstr option \<Rightarrow> int \<Rightarrow> int res" where
  "parse_or_zero t d = (if truthy t then parseUnits (or_empty t) d else Inr 0)"

definition ticker_applies :: "platform \<Rightarrow> asset \<Rightarrow> jsstr option \<Rightarrow> bool" where
  "ticker_applies pf a t =
     (let c = map_option (\<lambda>s. toUpperCase pf (trim s)) t in \<not> truthy c \<or> c = Some (ticker a))"

definition apply_condition :: "platform \<Rightarrow> asset \<Rightarrow> RuleCondition \<Rightarrow> limits \<Rightarrow> limits res" where
  "apply_condition pf a c s =
     (case c of
        RecipientCondition m addresses \<Rightarrow>
          ebind (emap (normalize a) (or_empty addresses)) (\<lambda>next.
          let (m, rs) = mergeRecipientPolicy (mode s) (recipients s) (list_mode m) next in
          Inr (s\<lparr>mode := m, recipients := rs\<rparr>))
      | AmountCondition _ maxDisplay t \<Rightarrow>
          (if ticker_applies pf a t
           then ebind (parse_or_zero maxDisplay (decimals a)) (\<lambda>v. Inr (s\<lparr>maxAmount := v\<rparr>))
           else Inr s)
      | VelocityCondition cap t windowDays \<Rightarrow>
          (if ticker_applies pf a (Some t)
           then ebind (parse_or_zero (Some cap) (decimals a)) (\<lambda>v.
                let s = s\<lparr>velocityCap := stricterCap (velocityCap s) v\<rparr> in
                Inr (if v > 0 then s\<lparr>velocityWindow := windowDays * 24 * 60 * 60\<rparr> else s))
           else Inr s)
      | _ \<Rightarrow> Inr s)"

definition start_limits :: "asset \<Rightarrow> PolicyEnforcementPlan \<Rightarrow> limits res" where
  "start_limits a plan =
     (let lim = onchainLimits plan;
          m = (if is_deny plan then 1
               else case recipientGuard plan of None \<Rightarrow> 0 | Some (g, _) \<Rightarrow> list_mode g) in
      ebind (emap (normalize a)
        (if is_deny plan then [] else case recipientGuard plan of None \<Rightarrow> [] | Some (_, xs) \<Rightarrow> xs)) (\<lambda>rs.
      ebind (parse_or_zero (velocityCapDisplay lim) (decimals a)) (\<lambda>cap.
      Inr \<lparr>mode = m, recipients = rs, maxAmount = 0, velocityCap = cap,
           velocityWindow = (if cap > 0 then velocityWindowSeconds lim else 0)\<rparr>)))"

definition plan_limits :: "platform \<Rightarrow> asset \<Rightarrow> PolicyEnforcementPlan \<Rightarrow> limits res" where
  "plan_limits pf a plan =
     ebind (start_limits a plan) (\<lambda>s.
     if is_deny plan then Inr s else efold (apply_condition pf a) (conditions plan) s)"

definition nothing_to_enforce :: "PolicyEnforcementPlan \<Rightarrow> limits \<Rightarrow> bool" where
  "nothing_to_enforce plan s \<longleftrightarrow>
     \<not> is_deny plan \<and> mode s = 0 \<and> maxAmount s = 0 \<and> velocityCap s = 0 \<and> extraApprovers plan = []
     \<and> extraCooldownSeconds plan = 0 \<and> maxSendCount (onchainLimits plan) = 0
     \<and> allowedTimeWindow plan = None \<and> memberAllowances plan = []"

definition header_writes :: "PolicyEnforcementPlan \<Rightarrow> limits \<Rightarrow> nat \<Rightarrow> writes list" where
  "header_writes plan s n =
     [pushRaw MAGIC, pushU8 (mode s), pushU64 (maxAmount s), pushU32 (max 0 (extraCooldownSeconds plan)),
      pushU8 (int n), pushU8 (int (length (extraApprovers plan)))]"

definition count_window :: "PolicyEnforcementPlan \<Rightarrow> int" where
  "count_window plan = (if maxSendCount (onchainLimits plan) > 0 then countWindowSeconds (onchainLimits plan) else 0)"

definition extension_writes :: "platform \<Rightarrow> asset \<Rightarrow> PolicyEnforcementPlan \<Rightarrow> limits \<Rightarrow> writes list" where
  "extension_writes pf a plan s =
     (if velocityCap s > 0 \<and> velocityWindow s > 0
      then [pushU8 1, pushU16 12, pushU64 (velocityCap s), pushU32 (velocityWindow s)] else [])
     @ (if maxSendCount (onchainLimits plan) > 0 \<and> count_window plan > 0
        then [pushU8 2, pushU16 8, pushU32 (maxSendCount (onchainLimits plan)), pushU32 (count_window plan)] else [])
     @ [writeAllowedTimeExtension (allowedTimeWindow plan),
        writeMemberAllowanceExtension pf (memberAllowances plan) (decimals a)]"

definition sol_asset :: asset where
  "sol_asset = \<lparr>ticker = js ''SOL'', decimals = 9, normalize = Inr\<rparr>"

definition encodeTypedSolPolicy :: "platform \<Rightarrow> PolicyEnforcementPlan \<Rightarrow> EncodedSolPolicy option res" where
  "encodeTypedSolPolicy pf plan =
     ebind (plan_limits pf sol_asset plan) (\<lambda>s.
     let rs = dedupe (recipients s) in
     ebind (assertPolicyKeyCounts (length rs) (length (extraApprovers plan))) (\<lambda>_.
     if nothing_to_enforce plan s then Inr None
     else ebind (pushes (header_writes plan s (length rs)
            @ map (pushPubkey pf) rs @ map (pushPubkey pf) (extraApprovers plan)
            @ extension_writes pf sol_asset plan s) []) (\<lambda>bs.
          ebind (encoded_policy pf bs) (\<lambda>e. Inr (Some e)))))"

record remote_options =
  assetTicker :: jsstr
  odecimals :: "int option"
  normalizeRecipient :: "(jsstr \<Rightarrow> jsstr res) option"
  encodeRecipient :: "(jsstr \<Rightarrow> bytes res) option"

definition remote_asset :: "platform \<Rightarrow> remote_options \<Rightarrow> asset" where
  "remote_asset pf opts =
     \<lparr>ticker = toUpperCase pf (trim (assetTicker opts)),
      decimals = (case odecimals opts of None \<Rightarrow> 18 | Some d \<Rightarrow> d),
      normalize = (case normalizeRecipient opts of None \<Rightarrow> \<lambda>v. Inr (trim v) | Some f \<Rightarrow> f)\<rparr>"

definition remote_key :: "platform \<Rightarrow> remote_options \<Rightarrow> jsstr \<Rightarrow> bytes res" where
  "remote_key pf opts = (case encodeRecipient opts of None \<Rightarrow> \<lambda>v. Inr (textCommitment pf v) | Some f \<Rightarrow> f)"

definition encodeTypedRemoteSendPolicy ::
  "platform \<Rightarrow> PolicyEnforcementPlan \<Rightarrow> remote_options \<Rightarrow> EncodedSolPolicy option res" where
  "encodeTypedRemoteSendPolicy pf plan opts =
     (let a = remote_asset pf opts in
      ebind (plan_limits pf a plan) (\<lambda>s.
      let texts = dedupe (recipients s) in
      ebind (assertPolicyKeyCounts (length texts) (length (extraApprovers plan))) (\<lambda>_.
      if nothing_to_enforce plan s then Inr None
      else ebind (emap (remote_key pf opts) (dedupe texts)) (\<lambda>rs.
           ebind (pushes (header_writes plan s (length rs)
             @ map pushRaw32 rs @ map (pushPubkey pf) (extraApprovers plan)
             @ extension_writes pf a plan s) []) (\<lambda>bs.
           ebind (encoded_policy pf bs) (\<lambda>e. Inr (Some e)))))))"

section \<open>Reading the member allowances back\<close>

definition readU32Le :: "bytes \<Rightarrow> nat \<Rightarrow> int res" where
  "readU32Le bs off =
     (if off + 4 > length bs then Inl (Thrown ''Policy u32 is out of bounds.'')
      else Inr (js_ushr (js_or (js_or (js_or (num_at bs off) (js_shl (num_at bs (off + 1)) 8))
        (js_shl (num_at bs (off + 2)) 16)) (js_shl (num_at bs (off + 3)) 24)) 0))"

definition readU64Le :: "bytes \<Rightarrow> nat \<Rightarrow> int res" where
  "readU64Le bs off =
     (if off + 8 > length bs then Inl (Thrown ''Policy u64 is out of bounds.'')
      else Inr (foldl (\<lambda>v i. v OR push_bit (i * 8) (num_at bs (off + i))) 0 [0..<8]))"

record DecodedMemberAllowanceCap =
  dmember :: jsstr
  capRaw :: int
  dwindowSeconds :: int

text \<open>The rows of one extension: \<open>n\<close> of them from \<open>row\<close> on.\<close>

fun member_rows :: "platform \<Rightarrow> bytes \<Rightarrow> nat \<Rightarrow> nat \<Rightarrow> DecodedMemberAllowanceCap list res" where
  "member_rows pf bs 0 row = Inr []"
| "member_rows pf bs (Suc n) row =
     ebind (readU64Le bs (row + 32)) (\<lambda>cap.
     ebind (readU32Le bs (row + 40)) (\<lambda>win.
     ebind (member_rows pf bs n (row + MEMBER_ALLOWANCE_ENTRY_LEN)) (\<lambda>rest.
     Inr (\<lparr>dmember = toBase58 pf (slice row (row + 32) bs), capRaw = cap, dwindowSeconds = win\<rparr> # rest))))"

function decode_extensions :: "platform \<Rightarrow> bytes \<Rightarrow> nat \<Rightarrow> DecodedMemberAllowanceCap list res" where
  "decode_extensions pf bs off =
     (if \<not> off < length bs then Inr []
      else if off + 3 > length bs then Inl (Thrown ''Invalid CSP1 extension header.'')
      else let tag = num_at bs off;
               len = nat (js_or (num_at bs (off + 1)) (js_shl (num_at bs (off + 2)) 8));
               start = off + 3; fin = start + len in
        if fin > length bs then Inl (Thrown ''Invalid CSP1 extension length.'')
        else ebind (if tag = 4
               then if len = 0 \<or> len mod MEMBER_ALLOWANCE_ENTRY_LEN \<noteq> 0
                    then Inl (Thrown ''Invalid member allowance extension.'')
                    else member_rows pf bs (len div MEMBER_ALLOWANCE_ENTRY_LEN) start
               else Inr []) (\<lambda>caps.
             ebind (decode_extensions pf bs fin) (\<lambda>rest. Inr (caps @ rest))))"
  by pat_completeness auto
termination
  by (relation "measure (\<lambda>(_, bs, off). length bs - off)") auto

declare decode_extensions.simps [simp del]

definition decodeMemberAllowanceCaps :: "platform \<Rightarrow> bytes \<Rightarrow> DecodedMemberAllowanceCap list res" where
  "decodeMemberAllowanceCaps pf bs =
     (if length bs < 19 \<or> take 4 bs \<noteq> MAGIC then Inl (Thrown ''Invalid CSP1 policy bytes.'')
      else let off = 19 + nat (num_at bs 17 + num_at bs 18) * 32 in
        if off > length bs then Inl (Thrown ''Invalid CSP1 policy key section.'')
        else decode_extensions pf bs off)"

end
