(* ===== verification/Policy_Program.thy ===== *)
theory Policy_Program
  imports Policy_Onchain Field_Codec
begin

text \<open>
  The other side of a policy: the reader and the checks of the program
  (\<open>programs/clear-wallet/src/utils/policy.rs\<close>), and the theorems that tie the bytes of
  \<open>Policy_Onchain\<close> to what the program enforces.
\<close>

section \<open>The reader of the program\<close>

datatype WalletError = InvalidPolicy | PolicyDenied | PolicyAmountExceeded | PolicyOutsideAllowedHours

type_synonym 'a prog = "WalletError + 'a"

definition require :: "bool \<Rightarrow> WalletError \<Rightarrow> unit prog" where
  "require b e = (if b then Inr () else Inl e)"

record rs_window =
  start_hour :: int
  end_hour :: int
  days_mask :: int
  utc_offset_minutes :: int

record rs_cap =
  cmember :: bytes
  cap_raw :: int
  window_seconds :: int

record rs_extensions_t =
  velocity_cap :: int
  velocity_window_seconds :: int
  max_send_count :: int
  count_window_seconds :: int
  allowed_time :: "rs_window option"
  member_caps :: "rs_cap list"
  advanced_rules :: "bytes option"

record TypedSolPolicy = rs_extensions_t +
  pmode :: int
  max_amount :: int
  extra_cooldown_seconds :: int
  precipients :: "bytes list"
  required_approvers :: "bytes list"

definition no_extensions :: rs_extensions_t where
  "no_extensions = \<lparr>velocity_cap = 0, velocity_window_seconds = 0, max_send_count = 0, count_window_seconds = 0,
     allowed_time = None, member_caps = [], advanced_rules = None\<rparr>"

definition rs_cap_at :: "bytes \<Rightarrow> nat \<Rightarrow> rs_cap" where
  "rs_cap_at p i = (let base = i * 44 in
     \<lparr>cmember = slice base (base + 32) p, cap_raw = le_val (slice (base + 32) (base + 40) p),
      window_seconds = le_val (slice (base + 40) (base + 44) p)\<rparr>)"

definition rs_extension :: "int \<Rightarrow> bytes \<Rightarrow> rs_extensions_t \<Rightarrow> rs_extensions_t prog" where
  "rs_extension tag p x =
     (let len = length p in
      if tag = 1 then ebind (require (len = 12) InvalidPolicy) (\<lambda>_.
        Inr (x\<lparr>velocity_cap := le_val (slice 0 8 p), velocity_window_seconds := le_val (slice 8 12 p)\<rparr>))
      else if tag = 2 then ebind (require (len = 8) InvalidPolicy) (\<lambda>_.
        Inr (x\<lparr>max_send_count := le_val (slice 0 4 p), count_window_seconds := le_val (slice 4 8 p)\<rparr>))
      else if tag = 3 then ebind (require (len = 5) InvalidPolicy) (\<lambda>_.
        let w = \<lparr>start_hour = uint (p ! 0), end_hour = uint (p ! 1), days_mask = uint (p ! 2),
                 utc_offset_minutes = le_sval (slice 3 5 p)\<rparr> in
        ebind (require (start_hour w \<le> 23 \<and> end_hour w \<le> 23) InvalidPolicy) (\<lambda>_.
        ebind (require (days_mask w < 0x80) InvalidPolicy) (\<lambda>_.
        ebind (require (- 840 \<le> utc_offset_minutes w \<and> utc_offset_minutes w \<le> 840) InvalidPolicy) (\<lambda>_.
        Inr (x\<lparr>allowed_time := Some w\<rparr>)))))
      else if tag = 4 then ebind (require (len > 0 \<and> len mod 44 = 0) InvalidPolicy) (\<lambda>_.
        ebind (require (len div 44 \<le> 8) InvalidPolicy) (\<lambda>_.
        Inr (x\<lparr>member_caps := map (rs_cap_at p) [0..<len div 44]\<rparr>)))
      else if tag = 5 then ebind (require (advanced_rules x = None) InvalidPolicy) (\<lambda>_.
        ebind (require (p \<noteq> []) InvalidPolicy) (\<lambda>_. Inr (x\<lparr>advanced_rules := Some p\<rparr>)))
      else Inl InvalidPolicy)"

function rs_parse_extensions :: "bytes \<Rightarrow> rs_extensions_t \<Rightarrow> rs_extensions_t prog" where
  "rs_parse_extensions bs x =
     (if bs = [] then Inr x
      else if length bs < 3 then Inl InvalidPolicy
      else let len = nat (le_val (slice 1 3 bs)); rest = drop 3 bs in
        if length rest < len then Inl InvalidPolicy
        else ebind (rs_extension (uint (bs ! 0)) (take len rest) x) (rs_parse_extensions (drop len rest)))"
  by pat_completeness auto
termination
  by (relation "measure (\<lambda>(bs, x). length bs)") auto

declare rs_parse_extensions.simps [simp del]

definition rs_keys :: "nat \<Rightarrow> bytes \<Rightarrow> bytes list" where
  "rs_keys n bs = map (\<lambda>i. slice (32 * i) (32 * i + 32) bs) [0..<n]"

definition rs_parse :: "bytes \<Rightarrow> TypedSolPolicy prog" where
  "rs_parse bs =
     ebind (require (length bs \<ge> 19) InvalidPolicy) (\<lambda>_.
     ebind (require (slice 0 4 bs = [0x43, 0x53, 0x50, 0x31]) InvalidPolicy) (\<lambda>_.
     let m = uint (bs ! 4); n = unat (bs ! 17); k = unat (bs ! 18); base = 19 + (n + k) * 32 in
     ebind (require (m = 0 \<or> m = 1 \<or> m = 2) InvalidPolicy) (\<lambda>_.
     ebind (require (n \<le> 16 \<and> k \<le> 16) InvalidPolicy) (\<lambda>_.
     ebind (require (length bs \<ge> base) InvalidPolicy) (\<lambda>_.
     ebind (rs_parse_extensions (drop base bs) no_extensions) (\<lambda>x.
     Inr (rs_extensions_t.extend x
       \<lparr>pmode = m, max_amount = le_val (slice 5 13 bs), extra_cooldown_seconds = le_val (slice 13 17 bs),
        precipients = rs_keys n (slice 19 (19 + n * 32) bs),
        required_approvers = rs_keys k (slice (19 + n * 32) base bs)\<rparr>)))))))"

section \<open>The checks of the program\<close>

definition enforce_recipient :: "TypedSolPolicy \<Rightarrow> bytes \<Rightarrow> unit prog" where
  "enforce_recipient p r =
     (let listed = (r \<in> set (precipients p)) in
      if pmode p = 0 then Inr ()
      else if pmode p = 1 then require listed PolicyDenied
      else if pmode p = 2 then require (\<not> listed) PolicyDenied
      else Inl InvalidPolicy)"

definition enforce_amount :: "TypedSolPolicy \<Rightarrow> int \<Rightarrow> unit prog" where
  "enforce_amount p v = (if max_amount p = 0 then Inr () else require (v \<le> max_amount p) PolicyAmountExceeded)"

definition allows_timestamp :: "rs_window \<Rightarrow> int \<Rightarrow> bool" where
  "allows_timestamp w unix =
     (let local = unix - utc_offset_minutes w * 60;
          day = local div 86400; hour = (local mod 86400) div 3600; weekday = (day + 4) mod 7;
          day_allowed = (days_mask w = 0 \<or> days_mask w AND push_bit (nat weekday) 1 \<noteq> 0) in
      if \<not> day_allowed then False
      else if start_hour w < end_hour w then hour \<ge> start_hour w \<and> hour < end_hour w
      else if start_hour w > end_hour w then hour \<ge> start_hour w \<or> hour < end_hour w
      else False)"

definition enforce_allowed_time :: "TypedSolPolicy \<Rightarrow> int \<Rightarrow> unit prog" where
  "enforce_allowed_time p now =
     (case allowed_time p of None \<Rightarrow> Inr () | Some w \<Rightarrow> require (allows_timestamp w now) PolicyOutsideAllowedHours)"

section \<open>What is pushed\<close>

lemma require_Inr [simp]: "require b e = Inr u \<longleftrightarrow> b"
  by (simp add: require_def)

lemma require_True [simp]: "require True e = Inr ()"
  by (simp add: require_def)

lemma pushRaw_iff: "pushRaw bs w = Inr w' \<longleftrightarrow> w' = w @ bs"
  by (auto simp: pushRaw_def)

lemma pushU8_iff: "pushU8 v w = Inr w' \<longleftrightarrow> 0 \<le> v \<and> v < 256 \<and> w' = w @ le_bytes 1 v"
  by (auto simp: pushU8_def err_simps)

lemma pushU16_iff: "pushU16 v w = Inr w' \<longleftrightarrow> 0 \<le> v \<and> v < 65536 \<and> w' = w @ le_bytes 2 v"
proof -
  have "word_of_int (js_and (js_shr v 8) 255) = (word_of_int (v div 256) :: byte)"
    using js_and_shr_byte [of 8 v] by (simp add: word_of_int_mod_byte)
  then show ?thesis
    by (auto simp: pushU16_def err_simps js_and_byte word_of_int_mod_byte numeral_2_eq_2)
qed

lemma pushU32_iff: "pushU32 v w = Inr w' \<longleftrightarrow> 0 \<le> v \<and> v < 2 ^ 32 \<and> w' = w @ le_bytes 4 v"
proof -
  have "map (\<lambda>i. word_of_int (js_and (js_shr v (8 * i)) 255)) [0..<4] = le_bytes 4 v"
    unfolding le_bytes_map by (rule map_cong) (auto simp: js_and_shr_byte word_of_int_mod_byte)
  then show ?thesis by (auto simp: pushU32_def err_simps)
qed

lemma pushU64_iff: "pushU64 v w = Inr w' \<longleftrightarrow> 0 \<le> v \<and> v < 2 ^ 64 \<and> w' = w @ le_bytes 8 v"
proof -
  have "map (\<lambda>i. word_of_int (drop_bit (8 * i) v AND 255)) [0..<8] = le_bytes 8 v"
    unfolding le_bytes_map by (rule map_cong) (auto simp: and_255 drop_bit_eq_div word_of_int_mod_byte)
  then show ?thesis by (auto simp: pushU64_def err_simps)
qed

lemma pushI16_iff: "pushI16 v w = Inr w' \<longleftrightarrow> - 32768 \<le> v \<and> v < 32768 \<and> w' = w @ le_bytes 2 v"
proof -
  define u where "u = v mod 65536"
  have u: "js_and v 65535 = u" using js_and_mask [of 16 v] by (simp add: u_def mask_eq_exp_minus_1)
  have "js_and (js_shr u 8) 255 = (u div 256) mod 256" using js_and_shr_byte [of 8 u] by simp
  moreover have "js_and u 255 = u mod 256" by (rule js_and_byte)
  ultimately have "[word_of_int (js_and u 255), word_of_int (js_and (js_shr u 8) 255)] = le_bytes 2 u"
    by (simp add: word_of_int_mod_byte numeral_2_eq_2)
  also have "\<dots> = le_bytes 2 v" using le_bytes_mod [of 2 v] by (simp add: u_def)
  finally show ?thesis by (auto simp: pushI16_def err_simps u Let_def)
qed

lemma pushPubkey_iff: "pushPubkey pf s w = Inr w' \<longleftrightarrow> (\<exists>k. pubkey pf s = Inr k \<and> w' = w @ k)"
  by (auto simp: pushPubkey_def err_simps pushRaw_def)

lemma pushRaw32_iff: "pushRaw32 bs w = Inr w' \<longleftrightarrow> length bs = 32 \<and> w' = w @ bs"
  by (auto simp: pushRaw32_def err_simps pushRaw_def)

lemma pushes_simps [simp]:
  "pushes [] w = Inr w"
  "pushes (p # ps) w = ebind (p w) (pushes ps)"
  "pushes (ps @ qs) w = ebind (pushes ps w) (pushes qs)"
  by (auto simp: pushes_def efold_append)

lemmas push_iffs = pushRaw_iff pushU8_iff pushU16_iff pushU32_iff pushU64_iff pushI16_iff pushPubkey_iff pushRaw32_iff
  ebind_Inr_iff ebind_guard_Inr_iff

lemma pushes_pubkeys: "pushes (map (pushPubkey pf) ss) w = Inr w' \<longleftrightarrow>
    (\<exists>ks. emap (pubkey pf) ss = Inr ks \<and> w' = w @ concat ks)"
  by (induction ss arbitrary: w) (auto simp: push_iffs)

lemma pushes_raw32: "pushes (map pushRaw32 ks) w = Inr w' \<longleftrightarrow> list_all (\<lambda>k. length k = 32) ks \<and> w' = w @ concat ks"
  by (induction ks arbitrary: w) (auto simp: push_iffs)

section \<open>The extensions read back\<close>

lemma rs_parse_extensions_Nil [simp]: "rs_parse_extensions [] x = Inr x"
  by (simp add: rs_parse_extensions.simps)

lemma rs_parse_extensions_step:
  assumes "0 \<le> t" "t < 256" "length p < 65536"
  shows "rs_parse_extensions (le_bytes 1 t @ le_bytes 2 (int (length p)) @ p @ rest) x
    = ebind (rs_extension t p x) (rs_parse_extensions rest)"
proof -
  have "slice 1 3 (le_bytes 1 t @ le_bytes 2 (int (length p)) @ p @ rest) = le_bytes 2 (int (length p))"
    by (rule slice_middle) simp_all
  moreover have "int (length p) mod 256 ^ 2 = int (length p)" using assms by simp
  moreover have "drop 3 (le_bytes 1 t @ le_bytes 2 (int (length p)) @ p @ rest) = p @ rest" by simp
  moreover have "uint (word_of_int t :: byte) = t" using assms by (simp add: uint_word_of_int_byte)
  ultimately show ?thesis
    by (subst rs_parse_extensions.simps) (simp add: le_val_le_bytes Let_def)
qed

lemma day_bits_eq:
  "day_bits days = Inr m \<Longrightarrow> m = fold (\<lambda>d m. m OR push_bit (nat d) 1) days 0 \<and> 0 \<le> m \<and> m < 128"
proof -
  have shl: "js_shl 1 (nat d) = push_bit (nat d) 1 \<and> take_bit 7 (push_bit (nat d) (1 :: int)) = push_bit (nat d) 1"
    if "0 \<le> d" "d \<le> 6" for d
  proof -
    have "nat d \<in> set [0..<7]" using that by auto
    moreover have "\<forall>n \<in> set [0..<7]. js_shl 1 n = push_bit n 1 \<and> take_bit 7 (push_bit n (1 :: int)) = push_bit n 1"
      by code_simp
    ultimately show ?thesis by blast
  qed
  have small: "0 \<le> a \<and> a < 128" if "take_bit 7 a = a" for a :: int
    using that by (simp add: take_bit_int_eq_self_iff)
  have step: "efold (\<lambda>day mask. ebind (guard (0 \<le> day \<and> day \<le> 6)
      ''Policy allowed days must be between Sunday and Saturday.'') (\<lambda>_. Inr (js_or mask (js_shl 1 (nat day))))) days a = Inr m
     \<Longrightarrow> take_bit 7 a = a \<Longrightarrow> m = fold (\<lambda>d m. m OR push_bit (nat d) 1) days a \<and> take_bit 7 m = m" for a
  proof (induction days arbitrary: a)
    case Nil
    then show ?case by simp
  next
    case (Cons d days)
    then have d: "0 \<le> d" "d \<le> 6" by (auto simp: err_simps)
    have "to_int32 a = a" using small [OF Cons.prems(2)] by (intro to_int32_id) auto
    moreover have "to_int32 (push_bit (nat d) 1) = push_bit (nat d) (1 :: int)"
    proof (rule to_int32_id)
      have r: "0 \<le> push_bit (nat d) (1 :: int)" "push_bit (nat d) (1 :: int) < 128"
        using shl [OF d] small by blast+
      show "- (2 ^ 31) \<le> push_bit (nat d) (1 :: int)" by (rule order_trans [OF _ r(1)]) simp
      show "push_bit (nat d) (1 :: int) < 2 ^ 31" by (rule order.strict_trans [OF r(2)]) simp
    qed
    ultimately have "js_or a (js_shl 1 (nat d)) = a OR push_bit (nat d) 1"
      using shl [OF d] by (simp add: js_or_def)
    moreover have "take_bit 7 (a OR push_bit (nat d) 1) = a OR push_bit (nat d) (1 :: int)"
      using Cons.prems(2) shl [OF d] by simp
    ultimately show ?case using Cons d by (simp add: err_simps)
  qed
  assume "day_bits days = Inr m"
  then show ?thesis using step [of 0] small by (auto simp: day_bits_def)
qed

lemma day_bits_range: "day_bits days = Inr m \<Longrightarrow> 0 \<le> m \<and> m < 256"
  using day_bits_eq [of days m] by auto

lemma le_byte [simp]: "0 \<le> v \<Longrightarrow> v < 256 \<Longrightarrow> uint (word_of_int v :: byte) = v"
  by (simp add: uint_word_of_int_byte)

text \<open>What each piece of the encoder adds to the extensions the program reads.\<close>

lemma read_velocity:
  assumes "0 \<le> c" "c < 2 ^ 64" "0 \<le> t" "t < 2 ^ 32"
  shows "rs_parse_extensions (le_bytes 1 1 @ le_bytes 2 12 @ le_bytes 8 c @ le_bytes 4 t @ rest) x
    = rs_parse_extensions rest (x\<lparr>velocity_cap := c, velocity_window_seconds := t\<rparr>)"
proof -
  have m: "c mod 256 ^ 8 = c" "t mod 256 ^ 4 = t" using assms by simp_all
  have "slice 0 8 (le_bytes 8 c @ le_bytes 4 t) = le_bytes 8 c" "slice 8 12 (le_bytes 8 c @ le_bytes 4 t) = le_bytes 4 t"
    by (simp_all add: slice_def)
  with m have "rs_extension 1 (le_bytes 8 c @ le_bytes 4 t) x = Inr (x\<lparr>velocity_cap := c, velocity_window_seconds := t\<rparr>)"
    by (simp add: rs_extension_def le_val_le_bytes del: le_bytes.simps)
  then show ?thesis
    using rs_parse_extensions_step [of 1 "le_bytes 8 c @ le_bytes 4 t" rest x] by (simp del: le_bytes.simps)
qed

lemma read_count:
  assumes "0 \<le> c" "c < 2 ^ 32" "0 \<le> t" "t < 2 ^ 32"
  shows "rs_parse_extensions (le_bytes 1 2 @ le_bytes 2 8 @ le_bytes 4 c @ le_bytes 4 t @ rest) x
    = rs_parse_extensions rest (x\<lparr>max_send_count := c, count_window_seconds := t\<rparr>)"
proof -
  have m: "c mod 256 ^ 4 = c" "t mod 256 ^ 4 = t" using assms by simp_all
  have "slice 0 4 (le_bytes 4 c @ le_bytes 4 t) = le_bytes 4 c" "slice 4 8 (le_bytes 4 c @ le_bytes 4 t) = le_bytes 4 t"
    by (simp_all add: slice_def)
  with m have "rs_extension 2 (le_bytes 4 c @ le_bytes 4 t) x = Inr (x\<lparr>max_send_count := c, count_window_seconds := t\<rparr>)"
    by (simp add: rs_extension_def le_val_le_bytes del: le_bytes.simps)
  then show ?thesis
    using rs_parse_extensions_step [of 2 "le_bytes 4 c @ le_bytes 4 t" rest x] by (simp del: le_bytes.simps)
qed

definition seen_window :: "AllowedTimeWindow \<Rightarrow> rs_window" where
  "seen_window a = \<lparr>start_hour = startHour a, end_hour = endHour a,
     days_mask = fold (\<lambda>d m. m OR push_bit (nat d) 1) (daysOfWeek a) 0, utc_offset_minutes = utcOffsetMinutes a\<rparr>"

lemma writeAllowedTime_iff:
  "writeAllowedTimeExtension (Some a) w = Inr w' \<longleftrightarrow>
     0 \<le> startHour a \<and> startHour a \<le> 23 \<and> 0 \<le> endHour a \<and> endHour a \<le> 23
     \<and> (\<exists>m. day_bits (daysOfWeek a) = Inr m \<and> - 32768 \<le> utcOffsetMinutes a \<and> utcOffsetMinutes a < 32768
        \<and> w' = w @ le_bytes 1 3 @ le_bytes 2 5 @ le_bytes 1 (startHour a) @ le_bytes 1 (endHour a) @ le_bytes 1 m
            @ le_bytes 2 (utcOffsetMinutes a))"
  by (cases "day_bits (daysOfWeek a)")
    (use day_bits_range in \<open>auto simp: writeAllowedTimeExtension_def push_iffs guard_Inr_iff simp del: le_bytes.simps\<close>)

lemma read_allowed_time:
  assumes w: "writeAllowedTimeExtension (Some a) w = Inr w'"
    and utc: "- 840 \<le> utcOffsetMinutes a" "utcOffsetMinutes a \<le> 840"
  obtains out where "w' = w @ out"
    "\<And>rest x. rs_parse_extensions (out @ rest) x = rs_parse_extensions rest (x\<lparr>allowed_time := Some (seen_window a)\<rparr>)"
proof -
  obtain m where m: "day_bits (daysOfWeek a) = Inr m" and h: "0 \<le> startHour a" "startHour a \<le> 23" "0 \<le> endHour a" "endHour a \<le> 23"
    and w': "w' = w @ le_bytes 1 3 @ le_bytes 2 5 @ le_bytes 1 (startHour a) @ le_bytes 1 (endHour a) @ le_bytes 1 m
            @ le_bytes 2 (utcOffsetMinutes a)"
    using w unfolding writeAllowedTime_iff by blast
  define p where "p = le_bytes 1 (startHour a) @ le_bytes 1 (endHour a) @ le_bytes 1 m @ le_bytes 2 (utcOffsetMinutes a)"
  have mask: "m = days_mask (seen_window a)" "0 \<le> m" "m < 128"
    using day_bits_eq [OF m] by (simp_all add: seen_window_def)
  have s: "le_sval (le_bytes 2 (utcOffsetMinutes a)) = utcOffsetMinutes a"
    using utc by (intro le_sval_le_bytes) auto
  have "slice 3 5 p = le_bytes 2 (utcOffsetMinutes a)" by (simp add: p_def slice_def)
  moreover have "p ! 0 = word_of_int (startHour a)" "p ! 1 = word_of_int (endHour a)" "p ! 2 = word_of_int m" "length p = 5"
    by (simp_all add: p_def)
  ultimately have "rs_extension 3 p x = Inr (x\<lparr>allowed_time := Some (seen_window a)\<rparr>)" for x
    using h utc mask(2,3) by (simp add: rs_extension_def s mask(1) seen_window_def Let_def)
  then have "rs_parse_extensions ((le_bytes 1 3 @ le_bytes 2 5 @ p) @ rest) x
      = rs_parse_extensions rest (x\<lparr>allowed_time := Some (seen_window a)\<rparr>)" for x rest
    using rs_parse_extensions_step [of 3 p rest x] \<open>length p = 5\<close> by (simp del: le_bytes.simps)
  with w' show thesis by (intro that [of "le_bytes 1 3 @ le_bytes 2 5 @ p"]) (simp_all add: p_def)
qed

section \<open>The member allowances\<close>

definition cap_bytes :: "rs_cap \<Rightarrow> bytes" where
  "cap_bytes c = cmember c @ le_bytes 8 (cap_raw c) @ le_bytes 4 (window_seconds c)"

definition cap_ok :: "rs_cap \<Rightarrow> bool" where
  "cap_ok c \<longleftrightarrow> length (cmember c) = 32 \<and> 0 \<le> cap_raw c \<and> cap_raw c < 2 ^ 64 \<and> 0 \<le> window_seconds c \<and> window_seconds c < 2 ^ 32"

definition seen_cap :: "platform \<Rightarrow> int \<Rightarrow> MemberAllowanceCap \<Rightarrow> rs_cap res" where
  "seen_cap pf d c = ebind (pubkey pf (member c)) (\<lambda>k. ebind (parseUnits (capDisplay c) d) (\<lambda>v.
     Inr \<lparr>cmember = k, cap_raw = v, window_seconds = max 0 (windowSeconds c)\<rparr>))"

text \<open>The documented length of a key.\<close>

definition keys_32 :: "platform \<Rightarrow> bool" where
  "keys_32 pf \<longleftrightarrow> (\<forall>s k. publicKey pf s = Some k \<longrightarrow> length k = 32)"

lemma pubkey_length: "keys_32 pf \<Longrightarrow> pubkey pf s = Inr k \<Longrightarrow> length k = 32"
  by (auto simp: keys_32_def pubkey_def split: option.splits)

lemma member_entry_iff:
  "keys_32 pf \<Longrightarrow> member_entry pf d c w = Inr w' \<longleftrightarrow> (\<exists>r. seen_cap pf d c = Inr r \<and> cap_ok r \<and> w' = w @ cap_bytes r)"
  by (auto simp: member_entry_def seen_cap_def push_iffs cap_bytes_def cap_ok_def pubkey_length)

lemma member_entries:
  "keys_32 pf \<Longrightarrow> pushes (map (member_entry pf d) cs) w = Inr w' \<Longrightarrow>
    \<exists>rs. emap (seen_cap pf d) cs = Inr rs \<and> list_all cap_ok rs \<and> w' = w @ concat (map cap_bytes rs)"
proof (induction cs arbitrary: w)
  case Nil
  then show ?case by auto
next
  case (Cons c cs)
  then show ?case by (fastforce simp: push_iffs member_entry_iff)
qed

lemma length_caps: "list_all cap_ok rs \<Longrightarrow> length (concat (map cap_bytes rs)) = 44 * length rs"
  by (induction rs) (auto simp: cap_bytes_def cap_ok_def)

lemma rs_cap_at_shift: "cap_ok c \<Longrightarrow> rs_cap_at (cap_bytes c @ rest) (Suc i) = rs_cap_at rest i"
  by (simp add: rs_cap_at_def slice_def cap_bytes_def cap_ok_def Let_def add.commute)

lemma rs_cap_at_0: "cap_ok c \<Longrightarrow> rs_cap_at (cap_bytes c @ rest) 0 = c"
  by (cases c) (simp add: rs_cap_at_def slice_def cap_bytes_def cap_ok_def Let_def le_val_le_bytes del: le_bytes.simps)

lemma rs_caps_read: "list_all cap_ok rs \<Longrightarrow> map (rs_cap_at (concat (map cap_bytes rs))) [0..<length rs] = rs"
proof (induction rs)
  case Nil
  then show ?case by simp
next
  case (Cons c rs)
  then show ?case
    by (simp add: upt_conv_Cons map_Suc_upt [symmetric] rs_cap_at_shift rs_cap_at_0 comp_def del: upt_Suc)
qed

lemma read_members:
  assumes k: "keys_32 pf" and w: "writeMemberAllowanceExtension pf cs d w = Inr w'"
  obtains rs out where "emap (seen_cap pf d) cs = Inr rs" "list_all cap_ok rs" "w' = w @ out"
    "\<And>rest x. rs_parse_extensions (out @ rest) x = rs_parse_extensions rest (if cs = [] then x else x\<lparr>member_caps := rs\<rparr>)"
    "cs \<noteq> [] \<Longrightarrow> out = le_bytes 1 4 @ le_bytes 2 (int (44 * length rs)) @ concat (map cap_bytes rs)" "length rs = length cs" "length cs \<le> 8"
proof (cases "cs = []")
  case True
  with w that [of "[]" "[]"] show thesis by (simp add: writeMemberAllowanceExtension_def)
next
  case False
  then obtain bs where n: "length cs \<le> 8" and bs: "pushes (map (member_entry pf d) cs) [] = Inr bs"
    and w': "w' = w @ le_bytes 1 4 @ le_bytes 2 (int (length bs)) @ bs"
    using w by (auto simp: writeMemberAllowanceExtension_def push_iffs guard_Inr_iff simp del: le_bytes.simps)
  obtain rs where rs: "emap (seen_cap pf d) cs = Inr rs" "list_all cap_ok rs" "bs = concat (map cap_bytes rs)"
    using member_entries [OF k bs] by auto
  have len: "length rs = length cs" "length bs = 44 * length rs" using rs by (simp_all add: emap_length length_caps)
  have "rs_extension 4 bs x = Inr (x\<lparr>member_caps := rs\<rparr>)" for x
    using len n False rs_caps_read [OF rs(2)] by (simp add: rs_extension_def rs(3))
  then have "rs_parse_extensions ((le_bytes 1 4 @ le_bytes 2 (int (length bs)) @ bs) @ rest) x
      = rs_parse_extensions rest (x\<lparr>member_caps := rs\<rparr>)" for x rest
    using rs_parse_extensions_step [of 4 bs rest x] len n by (simp del: le_bytes.simps)
  with rs w' len n False show thesis
    by (intro that [of rs "le_bytes 1 4 @ le_bytes 2 (int (length bs)) @ bs"]) auto
qed

section \<open>The header\<close>

lemma length_concat_keys: "list_all (\<lambda>k. length k = 32) ks \<Longrightarrow> length (concat ks) = 32 * length ks"
  by (induction ks) auto

lemma rs_keys_concat: "list_all (\<lambda>k. length k = 32) ks \<Longrightarrow> rs_keys (length ks) (concat ks) = ks"
proof (induction ks)
  case Nil
  then show ?case by (simp add: rs_keys_def)
next
  case (Cons k ks)
  have "slice (32 * Suc i) (32 * Suc i + 32) (k @ concat ks) = slice (32 * i) (32 * i + 32) (concat ks)" for i
    using Cons.prems by (simp add: slice_def)
  moreover have "slice 0 32 (k @ concat ks) = k" using Cons.prems by (simp add: slice_def)
  ultimately show ?case using Cons
    by (simp add: rs_keys_def upt_conv_Cons map_Suc_upt [symmetric] comp_def del: upt_Suc mult_Suc_right)
qed

lemma rs_parse_layout:
  assumes m: "m \<in> {0, 1, 2}" and mx: "0 \<le> mx" "mx < 2 ^ 64" and cd: "0 \<le> cd" "cd < 2 ^ 32"
    and ks: "list_all (\<lambda>k. length k = 32) rs" "list_all (\<lambda>k. length k = 32) as" "length rs \<le> 16" "length as \<le> 16"
  shows "rs_parse (MAGIC @ le_bytes 1 m @ le_bytes 8 mx @ le_bytes 4 cd @ le_bytes 1 (int (length rs))
      @ le_bytes 1 (int (length as)) @ concat rs @ concat as @ exts)
    = ebind (rs_parse_extensions exts no_extensions) (\<lambda>x. Inr (rs_extensions_t.extend x
       \<lparr>pmode = m, max_amount = mx, extra_cooldown_seconds = cd, precipients = rs, required_approvers = as\<rparr>))"
proof -
  define pre where "pre = MAGIC @ le_bytes 1 m @ le_bytes 8 mx @ le_bytes 4 cd @ le_bytes 1 (int (length rs)) @ le_bytes 1 (int (length as))"
  define bs where "bs = pre @ concat rs @ concat as @ exts"
  have pl: "length pre = 19" by (simp add: pre_def MAGIC_def)
  have cl: "length (concat rs) = length rs * 32" "length (concat as) = length as * 32"
    using ks(1,2) by (simp_all add: length_concat_keys)
  have u: "uint (bs ! 4) = m" "unat (bs ! 17) = length rs" "unat (bs ! 18) = length as"
    using m ks(3,4) by (auto simp: bs_def pre_def MAGIC_def nth_append unat_of_nat)
  have s: "slice 0 4 bs = [67, 83, 80, 49]" "slice 5 13 bs = le_bytes 8 mx" "slice 13 17 bs = le_bytes 4 cd"
    by (simp_all add: bs_def pre_def MAGIC_def slice_def)
  have v: "le_val (le_bytes 8 mx) = mx" "le_val (le_bytes 4 cd) = cd" using mx cd by (simp_all add: le_val_le_bytes)
  have "slice 19 (19 + length rs * 32) bs = concat rs" "slice (19 + length rs * 32) (19 + (length rs + length as) * 32) bs = concat as"
    "drop (19 + (length rs + length as) * 32) bs = exts" "length bs \<ge> 19 + (length rs + length as) * 32"
    by (simp_all add: bs_def slice_def pl cl)
  then have "rs_parse bs = ebind (rs_parse_extensions exts no_extensions) (\<lambda>x. Inr (rs_extensions_t.extend x
       \<lparr>pmode = m, max_amount = mx, extra_cooldown_seconds = cd, precipients = rs, required_approvers = as\<rparr>))"
    using m ks by (auto simp: rs_parse_def u s v rs_keys_concat Let_def simp del: le_bytes.simps)
  then show ?thesis by (simp add: bs_def pre_def del: le_bytes.simps)
qed

section \<open>What the program reads\<close>

text \<open>The window the program accepts: an offset of at most 14 hours.\<close>

definition offset_ok :: "PolicyEnforcementPlan \<Rightarrow> bool" where
  "offset_ok plan \<longleftrightarrow> (case allowedTimeWindow plan of None \<Rightarrow> True
     | Some a \<Rightarrow> - 840 \<le> utcOffsetMinutes a \<and> utcOffsetMinutes a \<le> 840)"

definition seen_extensions :: "PolicyEnforcementPlan \<Rightarrow> limits \<Rightarrow> rs_cap list \<Rightarrow> rs_extensions_t" where
  "seen_extensions plan s caps =
     (let v = (velocityCap s > 0 \<and> velocityWindow s > 0); n = maxSendCount (onchainLimits plan);
          c = (n > 0 \<and> count_window plan > 0) in
      \<lparr>velocity_cap = (if v then velocityCap s else 0), velocity_window_seconds = (if v then velocityWindow s else 0),
       max_send_count = (if c then n else 0), count_window_seconds = (if c then count_window plan else 0),
       allowed_time = map_option seen_window (allowedTimeWindow plan), member_caps = caps, advanced_rules = None\<rparr>)"

text \<open>The policy a plan stands for, with the keys the recipients are written as.\<close>

definition intended_policy ::
  "platform \<Rightarrow> asset \<Rightarrow> (jsstr \<Rightarrow> bytes res) \<Rightarrow> PolicyEnforcementPlan \<Rightarrow> TypedSolPolicy res" where
  "intended_policy pf a key plan =
     ebind (plan_limits pf a plan) (\<lambda>s.
     ebind (emap key (dedupe (recipients s))) (\<lambda>rs.
     ebind (emap (pubkey pf) (extraApprovers plan)) (\<lambda>as.
     ebind (emap (seen_cap pf (decimals a)) (memberAllowances plan)) (\<lambda>caps.
     Inr (rs_extensions_t.extend (seen_extensions plan s caps)
       \<lparr>pmode = mode s, max_amount = maxAmount s, extra_cooldown_seconds = max 0 (extraCooldownSeconds plan),
        precipients = rs, required_approvers = as\<rparr>)))))"

lemma read_window:
  assumes "writeAllowedTimeExtension wo w = Inr w'"
    and "case wo of None \<Rightarrow> True | Some a \<Rightarrow> - 840 \<le> utcOffsetMinutes a \<and> utcOffsetMinutes a \<le> 840"
  obtains out where "w' = w @ out"
    "\<And>rest x. rs_parse_extensions (out @ rest) x
       = rs_parse_extensions rest (if wo = None then x else x\<lparr>allowed_time := map_option seen_window wo\<rparr>)"
proof (cases wo)
  case None
  with assms that [of "[]"] show thesis by (simp add: writeAllowedTimeExtension_def)
next
  case (Some a)
  with assms show thesis by (auto elim!: read_allowed_time intro: that)
qed

lemma read_velocity_part:
  assumes "pushes (if velocityCap s > 0 \<and> velocityWindow s > 0
      then [pushU8 1, pushU16 12, pushU64 (velocityCap s), pushU32 (velocityWindow s)] else []) w = Inr w'"
  obtains out where "w' = w @ out"
    "\<And>rest x. rs_parse_extensions (out @ rest) x = rs_parse_extensions rest
       (if velocityCap s > 0 \<and> velocityWindow s > 0
        then x\<lparr>velocity_cap := velocityCap s, velocity_window_seconds := velocityWindow s\<rparr> else x)"
proof (cases "velocityCap s > 0 \<and> velocityWindow s > 0")
  case True
  then have "w' = w @ le_bytes 1 1 @ le_bytes 2 12 @ le_bytes 8 (velocityCap s) @ le_bytes 4 (velocityWindow s)"
    and "velocityCap s < 2 ^ 64" "velocityWindow s < 2 ^ 32"
    using assms by (auto simp: push_iffs simp del: le_bytes.simps)
  with True read_velocity [of "velocityCap s" "velocityWindow s"] show thesis
    by (intro that [of "le_bytes 1 1 @ le_bytes 2 12 @ le_bytes 8 (velocityCap s) @ le_bytes 4 (velocityWindow s)"])
      (simp_all del: le_bytes.simps)
next
  case False
  with assms that [of "[]"] show thesis by auto
qed

lemma read_count_part:
  assumes "pushes (if c > 0 \<and> t > 0 then [pushU8 2, pushU16 8, pushU32 c, pushU32 t] else []) w = Inr w'"
  obtains out where "w' = w @ out"
    "\<And>rest x. rs_parse_extensions (out @ rest) x = rs_parse_extensions rest
       (if c > 0 \<and> t > 0 then x\<lparr>max_send_count := c, count_window_seconds := t\<rparr> else x)"
proof (cases "c > 0 \<and> t > 0")
  case True
  then have "w' = w @ le_bytes 1 2 @ le_bytes 2 8 @ le_bytes 4 c @ le_bytes 4 t" and "c < 2 ^ 32" "t < 2 ^ 32"
    using assms by (auto simp: push_iffs simp del: le_bytes.simps)
  with True read_count [of c t] show thesis
    by (intro that [of "le_bytes 1 2 @ le_bytes 2 8 @ le_bytes 4 c @ le_bytes 4 t"]) (simp_all del: le_bytes.simps)
next
  case False
  with assms that [of "[]"] show thesis by auto
qed

lemma read_extensions:
  assumes k: "keys_32 pf" and o: "offset_ok plan" and w: "pushes (extension_writes pf a plan s) w = Inr w'"
  obtains out caps where "w' = w @ out" "emap (seen_cap pf (decimals a)) (memberAllowances plan) = Inr caps"
    "rs_parse_extensions out no_extensions = Inr (seen_extensions plan s caps)"
proof -
  let ?v = "if velocityCap s > 0 \<and> velocityWindow s > 0
      then [pushU8 1, pushU16 12, pushU64 (velocityCap s), pushU32 (velocityWindow s)] else []"
  let ?n = "maxSendCount (onchainLimits plan)" and ?t = "count_window plan"
  obtain w1 w2 w3 where w1: "pushes ?v w = Inr w1"
    and w2: "pushes (if ?n > 0 \<and> ?t > 0 then [pushU8 2, pushU16 8, pushU32 ?n, pushU32 ?t] else []) w1 = Inr w2"
    and w3: "writeAllowedTimeExtension (allowedTimeWindow plan) w2 = Inr w3"
    and w4: "writeMemberAllowanceExtension pf (memberAllowances plan) (decimals a) w3 = Inr w'"
    using w unfolding extension_writes_def by (simp only: pushes_simps ebind_Inr_iff) auto
  obtain o1 where o1: "w1 = w @ o1" "\<And>rest x. rs_parse_extensions (o1 @ rest) x = rs_parse_extensions rest
       (if velocityCap s > 0 \<and> velocityWindow s > 0
        then x\<lparr>velocity_cap := velocityCap s, velocity_window_seconds := velocityWindow s\<rparr> else x)"
    by (rule read_velocity_part [OF w1]) blast
  obtain o2 where o2: "w2 = w1 @ o2" "\<And>rest x. rs_parse_extensions (o2 @ rest) x = rs_parse_extensions rest
       (if ?n > 0 \<and> ?t > 0 then x\<lparr>max_send_count := ?n, count_window_seconds := ?t\<rparr> else x)"
    by (rule read_count_part [OF w2]) blast
  obtain o3 where o3: "w3 = w2 @ o3" "\<And>rest x. rs_parse_extensions (o3 @ rest) x = rs_parse_extensions rest
      (if allowedTimeWindow plan = None then x else x\<lparr>allowed_time := map_option seen_window (allowedTimeWindow plan)\<rparr>)"
    by (rule read_window [OF w3 o [unfolded offset_ok_def]]) blast
  obtain o4 caps where o4: "emap (seen_cap pf (decimals a)) (memberAllowances plan) = Inr caps" "w' = w3 @ o4"
    "\<And>rest x. rs_parse_extensions (o4 @ rest) x = rs_parse_extensions rest
      (if memberAllowances plan = [] then x else x\<lparr>member_caps := caps\<rparr>)"
    by (rule read_members [OF k w4]) blast
  have e: "memberAllowances plan = [] \<longleftrightarrow> caps = []" using emap_length [OF o4(1)] by auto
  have "rs_parse_extensions (o1 @ o2 @ o3 @ o4) no_extensions = Inr (seen_extensions plan s caps)"
    using o4(3) [of "[]"] by (simp add: e o1(2) o2(2) o3(2) seen_extensions_def no_extensions_def Let_def)
  with that [of "o1 @ o2 @ o3 @ o4" caps] o4(1,2) o1(1) o2(1) o3(1) show thesis by simp
qed

lemma policy_bytes_read:
  assumes k: "keys_32 pf" and o: "offset_ok plan"
    and w: "pushes (header_writes plan s (length rs) @ P @ map (pushPubkey pf) (extraApprovers plan)
      @ extension_writes pf a plan s) [] = Inr bs"
    and P: "\<And>w w'. pushes P w = Inr w' \<Longrightarrow> w' = w @ concat rs" and l: "list_all (\<lambda>k. length k = 32) rs"
    and m: "mode s \<in> {0, 1, 2}" and n: "length rs \<le> 16" "length (extraApprovers plan) \<le> 16"
  obtains as caps where "emap (pubkey pf) (extraApprovers plan) = Inr as"
    "emap (seen_cap pf (decimals a)) (memberAllowances plan) = Inr caps"
    "rs_parse bs = Inr (rs_extensions_t.extend (seen_extensions plan s caps)
       \<lparr>pmode = mode s, max_amount = maxAmount s, extra_cooldown_seconds = max 0 (extraCooldownSeconds plan),
        precipients = rs, required_approvers = as\<rparr>)"
proof -
  let ?h = "MAGIC @ le_bytes 1 (mode s) @ le_bytes 8 (maxAmount s) @ le_bytes 4 (max 0 (extraCooldownSeconds plan))
      @ le_bytes 1 (int (length rs)) @ le_bytes 1 (int (length (extraApprovers plan)))"
  obtain as w3 where r: "0 \<le> maxAmount s" "maxAmount s < 2 ^ 64" "max 0 (extraCooldownSeconds plan) < 2 ^ 32"
    and as: "emap (pubkey pf) (extraApprovers plan) = Inr as"
    and w3: "w3 = (?h @ concat rs) @ concat as" "pushes (extension_writes pf a plan s) w3 = Inr bs"
    using w by (auto simp: header_writes_def push_iffs pushes_pubkeys simp del: le_bytes.simps dest!: P)
  obtain out caps where e: "bs = w3 @ out" "emap (seen_cap pf (decimals a)) (memberAllowances plan) = Inr caps"
    "rs_parse_extensions out no_extensions = Inr (seen_extensions plan s caps)"
    by (rule read_extensions [OF k o w3(2)]) blast
  have las: "length as = length (extraApprovers plan)" using as by (rule emap_length)
  have "list_all (\<lambda>k. length k = 32) as"
    using as pubkey_length [OF k] by (auto simp: emap_Inr_iff list_all2_conv_all_nth list_all_length)
  with m r l n las have "rs_parse (MAGIC @ le_bytes 1 (mode s) @ le_bytes 8 (maxAmount s)
      @ le_bytes 4 (max 0 (extraCooldownSeconds plan)) @ le_bytes 1 (int (length rs)) @ le_bytes 1 (int (length as))
      @ concat rs @ concat as @ out)
    = ebind (rs_parse_extensions out no_extensions) (\<lambda>x. Inr (rs_extensions_t.extend x
       \<lparr>pmode = mode s, max_amount = maxAmount s, extra_cooldown_seconds = max 0 (extraCooldownSeconds plan),
        precipients = rs, required_approvers = as\<rparr>))"
    by (intro rs_parse_layout) auto
  with that [OF as e(2)] e(1,3) w3(1) las show thesis by (simp del: le_bytes.simps)
qed

section \<open>Recipients\<close>

definition permits :: "int \<Rightarrow> 'a list \<Rightarrow> 'a \<Rightarrow> bool" where
  "permits m xs x \<longleftrightarrow> (if m = 1 then x \<in> set xs else if m = 2 then x \<notin> set xs else True)"

text \<open>The contract of the recipient lists: merging two lists permits what both permit.\<close>

lemma merge_permits:
  assumes "m \<in> {0, 1, 2}" "n \<in> {0, 1, 2}" "mergeRecipientPolicy m xs n ys = (r, zs)"
  shows "r \<in> {0, 1, 2}" "permits r zs x \<longleftrightarrow> permits m xs x \<and> permits n ys x"
  using assms by (auto simp: mergeRecipientPolicy_def permits_def Let_def)

text \<open>What a condition, a guard and a plan say about a recipient, given as the text they are compared as.\<close>

definition condition_permits :: "asset \<Rightarrow> RuleCondition \<Rightarrow> jsstr \<Rightarrow> bool" where
  "condition_permits a c x = (case c of
       RecipientCondition m addresses \<Rightarrow>
         (case emap (normalize a) (or_empty addresses) of Inl _ \<Rightarrow> False | Inr xs \<Rightarrow> permits (list_mode m) xs x)
     | _ \<Rightarrow> True)"

definition plan_permits :: "asset \<Rightarrow> PolicyEnforcementPlan \<Rightarrow> jsstr \<Rightarrow> bool" where
  "plan_permits a plan x \<longleftrightarrow> \<not> is_deny plan
     \<and> (case recipientGuard plan of None \<Rightarrow> True | Some (g, xs) \<Rightarrow> condition_permits a (RecipientCondition g (Some xs)) x)
     \<and> (\<forall>c \<in> set (conditions plan). condition_permits a c x)"

lemma list_mode_range [simp]: "list_mode m \<in> {0, 1, 2}"
  by (cases m) (simp_all add: list_mode_def)

lemma apply_condition_permits:
  assumes "apply_condition pf a c s = Inr t" "mode s \<in> {0, 1, 2}"
  shows "mode t \<in> {0, 1, 2}"
    "permits (mode t) (recipients t) x \<longleftrightarrow> permits (mode s) (recipients s) x \<and> condition_permits a c x"
proof -
  have *: "mode t \<in> {0, 1, 2} \<and>
    (permits (mode t) (recipients t) x \<longleftrightarrow> permits (mode s) (recipients s) x \<and> condition_permits a c x)"
  proof (cases c)
    case (RecipientCondition m addresses)
    then obtain ns where ns: "emap (normalize a) (or_empty addresses) = Inr ns"
      and t: "t = s\<lparr>mode := fst (mergeRecipientPolicy (mode s) (recipients s) (list_mode m) ns),
        recipients := snd (mergeRecipientPolicy (mode s) (recipients s) (list_mode m) ns)\<rparr>"
      using assms(1) by (auto simp: apply_condition_def err_simps split_beta Let_def)
    have e: "mergeRecipientPolicy (mode s) (recipients s) (list_mode m) ns = (mode t, recipients t)"
      by (simp add: t)
    show ?thesis using merge_permits [OF assms(2) list_mode_range e] ns RecipientCondition
      by (simp add: condition_permits_def)
  qed (use assms in \<open>auto simp: apply_condition_def condition_permits_def err_simps Let_def split: if_splits\<close>)
  then show "mode t \<in> {0, 1, 2}"
    "permits (mode t) (recipients t) x \<longleftrightarrow> permits (mode s) (recipients s) x \<and> condition_permits a c x" by blast+
qed

lemma conditions_permit:
  "efold (apply_condition pf a) cs s = Inr t \<Longrightarrow> mode s \<in> {0, 1, 2} \<Longrightarrow> mode t \<in> {0, 1, 2} \<and>
    (permits (mode t) (recipients t) x \<longleftrightarrow> permits (mode s) (recipients s) x \<and> (\<forall>c \<in> set cs. condition_permits a c x))"
proof (induction cs arbitrary: s)
  case Nil
  then show ?case by simp
next
  case (Cons c cs)
  then obtain u where u: "apply_condition pf a c s = Inr u" "efold (apply_condition pf a) cs u = Inr t"
    by (auto simp: err_simps)
  show ?case
    using Cons.IH [OF u(2) apply_condition_permits(1) [OF u(1) Cons.prems(2)]]
      apply_condition_permits(2) [OF u(1) Cons.prems(2), of x] by auto
qed

lemma plan_limits_permit:
  assumes "plan_limits pf a plan = Inr s"
  shows "mode s \<in> {0, 1, 2} \<and> (permits (mode s) (recipients s) x \<longleftrightarrow> plan_permits a plan x)"
proof -
  obtain u where u: "start_limits a plan = Inr u"
    and s: "if is_deny plan then s = u else efold (apply_condition pf a) (conditions plan) u = Inr s"
    using assms by (auto simp: plan_limits_def err_simps split: if_splits)
  show ?thesis
  proof (cases "is_deny plan")
    case True
    with u s show ?thesis by (auto simp: start_limits_def err_simps Let_def permits_def plan_permits_def)
  next
    case False
    then have g: "mode u \<in> {0, 1, 2} \<and> (permits (mode u) (recipients u) x \<longleftrightarrow> (case recipientGuard plan of None \<Rightarrow> True
        | Some (g, xs) \<Rightarrow> condition_permits a (RecipientCondition g (Some xs)) x))"
      using u list_mode_range by (auto simp: start_limits_def err_simps Let_def permits_def condition_permits_def or_empty_def
          list_mode_def split: option.splits ListMode.splits)
    with s False conditions_permit [of pf a "conditions plan" u s x] show ?thesis
      by (auto simp: plan_permits_def)
  qed
qed

section \<open>The bytes of both encoders\<close>

lemma sol_policy_read:
  assumes k: "keys_32 pf" and o: "offset_ok plan" and e: "encodeTypedSolPolicy pf plan = Inr (Some e)"
  shows "\<exists>p. intended_policy pf sol_asset (pubkey pf) plan = Inr p \<and> rs_parse (pbytes e) = Inr p"
proof -
  obtain s where s: "plan_limits pf sol_asset plan = Inr s"
    and n: "length (dedupe (recipients s)) \<le> 16" "length (extraApprovers plan) \<le> 16"
    and w: "pushes (header_writes plan s (length (dedupe (recipients s))) @ map (pushPubkey pf) (dedupe (recipients s))
      @ map (pushPubkey pf) (extraApprovers plan) @ extension_writes pf sol_asset plan s) [] = Inr (pbytes e)"
    using e by (auto simp: encodeTypedSolPolicy_def assertPolicyKeyCounts_def err_simps Let_def encoded_policy_def
        simp del: pushes_simps split: if_splits)
  obtain rs where rs: "emap (pubkey pf) (dedupe (recipients s)) = Inr rs"
    using w by (auto simp: ebind_Inr_iff pushes_pubkeys)
  have l: "list_all (\<lambda>k. length k = 32) rs" "length rs = length (dedupe (recipients s))"
    using rs pubkey_length [OF k] by (auto simp: emap_Inr_iff list_all2_conv_all_nth list_all_length)
  have P: "w' = w @ concat rs" if "pushes (map (pushPubkey pf) (dedupe (recipients s))) w = Inr w'" for w w'
    using that rs by (auto simp: pushes_pubkeys)
  obtain as caps where "emap (pubkey pf) (extraApprovers plan) = Inr as"
    "emap (seen_cap pf (decimals sol_asset)) (memberAllowances plan) = Inr caps"
    "rs_parse (pbytes e) = Inr (rs_extensions_t.extend (seen_extensions plan s caps)
       \<lparr>pmode = mode s, max_amount = maxAmount s, extra_cooldown_seconds = max 0 (extraCooldownSeconds plan),
        precipients = rs, required_approvers = as\<rparr>)"
    using policy_bytes_read [OF k o w [folded l(2)] P l(1)] plan_limits_permit [OF s] n l(2) by metis
  with s rs show ?thesis by (simp add: intended_policy_def)
qed

lemma remote_policy_read:
  assumes k: "keys_32 pf" and o: "offset_ok plan" and e: "encodeTypedRemoteSendPolicy pf plan opts = Inr (Some e)"
  shows "\<exists>p. intended_policy pf (remote_asset pf opts) (remote_key pf opts) plan = Inr p \<and> rs_parse (pbytes e) = Inr p"
proof -
  let ?a = "remote_asset pf opts"
  obtain s rs where s: "plan_limits pf ?a plan = Inr s" and rs: "emap (remote_key pf opts) (dedupe (recipients s)) = Inr rs"
    and n: "length (dedupe (recipients s)) \<le> 16" "length (extraApprovers plan) \<le> 16"
    and w: "pushes (header_writes plan s (length rs) @ map pushRaw32 rs
      @ map (pushPubkey pf) (extraApprovers plan) @ extension_writes pf ?a plan s) [] = Inr (pbytes e)"
    using e by (auto simp: encodeTypedRemoteSendPolicy_def assertPolicyKeyCounts_def err_simps Let_def encoded_policy_def
        simp del: pushes_simps split: if_splits)
  have l: "length rs = length (dedupe (recipients s))" using rs by (rule emap_length)
  have l32: "list_all (\<lambda>k. length k = 32) rs" using w by (auto simp: ebind_Inr_iff pushes_raw32)
  have P: "w' = w @ concat rs" if "pushes (map pushRaw32 rs) w = Inr w'" for w w'
    using that by (simp add: pushes_raw32)
  obtain as caps where "emap (pubkey pf) (extraApprovers plan) = Inr as"
    "emap (seen_cap pf (decimals ?a)) (memberAllowances plan) = Inr caps"
    "rs_parse (pbytes e) = Inr (rs_extensions_t.extend (seen_extensions plan s caps)
       \<lparr>pmode = mode s, max_amount = maxAmount s, extra_cooldown_seconds = max 0 (extraCooldownSeconds plan),
        precipients = rs, required_approvers = as\<rparr>)"
    using policy_bytes_read [OF k o w P l32] plan_limits_permit [OF s] n l by metis
  with s rs show ?thesis by (simp add: intended_policy_def)
qed

end
