(* ===== verification/Policy_Agreement.thy ===== *)
theory Policy_Agreement
  imports Policy_Program "HOL-Library.Sublist"
begin

text \<open>
  Properties of wallet policies: the bytes of the encoders against the reader and the checks
  of the program, the amounts, and the member allowances a page shows against those the
  program enforces.
\<close>

section \<open>Member allowances\<close>

definition shown :: "platform \<Rightarrow> rs_cap \<Rightarrow> DecodedMemberAllowanceCap" where
  "shown pf c = \<lparr>dmember = toBase58 pf (cmember c), capRaw = cap_raw c, dwindowSeconds = window_seconds c\<rparr>"

lemma num_at_nth: "i < length bs \<Longrightarrow> num_at bs i = uint (bs ! i)"
  by (simp add: num_at_def byte_at_def)

lemma readU64Le_slice:
  assumes "off + 8 \<le> length bs"
  shows "readU64Le bs off = Inr (le_val (slice off (off + 8) bs))"
proof -
  have "foldl (\<lambda>v i. v OR push_bit (i * 8) (num_at bs (off + i))) 0 [0..<8]
      = foldl (\<lambda>v i. v OR push_bit (i * 8) (uint (drop off bs ! i))) 0 [0..<8]"
    using assms by (intro foldl_cong) (auto simp: num_at_nth)
  also have "\<dots> = le_val (take 8 (drop off bs))" using assms by (intro foldl_or_bytes) simp
  finally show ?thesis using assms by (simp add: readU64Le_def slice_def)
qed

lemma take_4: "off + 4 \<le> length bs \<Longrightarrow> take 4 (drop off bs) = [bs ! off, bs ! (off + 1), bs ! (off + 2), bs ! (off + 3)]"
  by (simp add: list_eq_iff_nth_eq less_Suc_eq numeral_eq_Suc)

lemma readU32Le_slice:
  "off + 4 \<le> length bs \<Longrightarrow> readU32Le bs off = Inr (le_val (slice off (off + 4) bs))"
  using js_or_32 [of "bs ! off" "bs ! (off + 1)" "bs ! (off + 2)" "bs ! (off + 3)"]
  by (simp add: readU32Le_def num_at_nth slice_def take_4 del: le_val.simps)

lemma slice_drop: "slice a b (drop n xs) = slice (n + a) (n + b) xs"
  by (simp add: slice_def add.commute)

lemma member_rows_read:
  "off + 44 * n \<le> length bs \<Longrightarrow>
    member_rows pf bs n off = Inr (map (\<lambda>i. shown pf (rs_cap_at (drop off bs) i)) [0..<n])"
proof (induction n arbitrary: off)
  case 0
  then show ?case by simp
next
  case (Suc n)
  have "rs_cap_at (drop off bs) (Suc i) = rs_cap_at (drop (off + 44) bs) i" for i
    by (simp add: rs_cap_at_def slice_drop Let_def algebra_simps)
  moreover have "rs_cap_at (drop off bs) 0 = \<lparr>cmember = slice off (off + 32) bs, cap_raw = le_val (slice (off + 32) (off + 40) bs),
      window_seconds = le_val (slice (off + 40) (off + 44) bs)\<rparr>"
    by (simp add: rs_cap_at_def slice_drop)
  moreover have "readU64Le bs (off + 32) = Inr (le_val (slice (off + 32) (off + 40) bs))"
    using readU64Le_slice [of "off + 32" bs] Suc.prems by (simp add: add.assoc)
  moreover have "readU32Le bs (off + 40) = Inr (le_val (slice (off + 40) (off + 44) bs))"
    using readU32Le_slice [of "off + 40" bs] Suc.prems by (simp add: add.assoc)
  moreover have "member_rows pf bs n (off + 44) = Inr (map (\<lambda>i. shown pf (rs_cap_at (drop (off + 44) bs) i)) [0..<n])"
    using Suc.prems by (intro Suc.IH) simp
  ultimately show ?case
    by (simp add: MEMBER_ALLOWANCE_ENTRY_LEN_def upt_conv_Cons map_Suc_upt [symmetric] shown_def comp_def del: upt_Suc)
qed

lemma rs_cap_at_take: "44 * i + 44 \<le> n \<Longrightarrow> rs_cap_at (take n p) i = rs_cap_at p i"
  by (simp add: rs_cap_at_def slice_def Let_def take_drop min_def)

lemma member_caps_extension:
  assumes "rs_extension t p x = Inr y"
  shows "if t = 4 then length p \<noteq> 0 \<and> length p mod 44 = 0 \<and> member_caps y = map (rs_cap_at p) [0..<length p div 44]
         else member_caps y = member_caps x"
  using assms by (auto simp: rs_extension_def ebind_Inr_iff Let_def split: if_splits)

lemma length_field:
  assumes "off + 3 \<le> length bs"
  shows "nat (js_or (num_at bs (off + 1)) (js_shl (num_at bs (off + 2)) 8)) = nat (le_val (slice 1 3 (drop off bs)))"
proof -
  have "js_or (uint (bs ! (off + 1))) (js_shl (uint (bs ! (off + 2))) 8)
      = uint (bs ! (off + 1)) + 2 ^ 8 * uint (bs ! (off + 2))"
    by (rule js_or_shl_byte) (simp_all add: uint_byte_bound)
  moreover have "slice 1 3 (drop off bs) = [bs ! (off + 1), bs ! (off + 2)]"
    using assms by (simp add: slice_def list_eq_iff_nth_eq less_Suc_eq numeral_eq_Suc)
  ultimately show ?thesis using assms by (simp add: num_at_nth)
qed

lemma decode_step:
  assumes "off + 3 \<le> length bs" "n = nat (le_val (slice 1 3 (drop off bs)))" "off + 3 + n \<le> length bs"
  shows "decode_extensions pf bs off =
    ebind (if num_at bs off = 4
           then if n = 0 \<or> n mod 44 \<noteq> 0 then Inl (Thrown ''Invalid member allowance extension.'')
                else member_rows pf bs (n div 44) (off + 3)
           else Inr []) (\<lambda>caps. ebind (decode_extensions pf bs (off + 3 + n)) (\<lambda>rest. Inr (caps @ rest)))"
  unfolding decode_extensions.simps [of pf bs off] Let_def length_field [OF assms(1)] assms(2) [symmetric] MEMBER_ALLOWANCE_ENTRY_LEN_def
  using assms(1,3) by simp

lemma extensions_shown:
  "rs_parse_extensions rest x = Inr y \<Longrightarrow> drop off bs = rest \<Longrightarrow> off \<le> length bs \<Longrightarrow>
    \<exists>cs. decode_extensions pf bs off = Inr (map (shown pf) cs) \<and> suffix (member_caps y) (member_caps x @ cs)"
proof (induction rest x arbitrary: off rule: rs_parse_extensions.induct)
  case (1 rest x)
  show ?case
  proof (cases "rest = []")
    case True
    with 1 show ?thesis by (subst decode_extensions.simps) (auto intro: exI [of _ "[]"])
  next
    case False
    define n where "n = nat (le_val (slice 1 3 rest))"
    have len: "length rest = length bs - off" using 1 by auto
    from "1.prems"(1) False obtain x' where l: "3 \<le> length rest" "n \<le> length (drop 3 rest)"
      and x': "rs_extension (uint (rest ! 0)) (take n (drop 3 rest)) x = Inr x'"
      and y: "rs_parse_extensions (drop n (drop 3 rest)) x' = Inr y"
      by (subst (asm) rs_parse_extensions.simps) (auto simp: Let_def n_def ebind_Inr_iff not_less split: if_splits)
    have tag: "num_at bs off = uint (rest ! 0)" using len l "1.prems"(2) by (auto simp: num_at_nth)
    have step: "decode_extensions pf bs off =
      ebind (if num_at bs off = 4
           then if n = 0 \<or> n mod 44 \<noteq> 0 then Inl (Thrown ''Invalid member allowance extension.'')
                else member_rows pf bs (n div 44) (off + 3)
           else Inr []) (\<lambda>caps. ebind (decode_extensions pf bs (off + 3 + n)) (\<lambda>rest. Inr (caps @ rest)))"
      using len l "1.prems"(2,3) by (intro decode_step) (auto simp: n_def)
    have d: "drop (off + 3 + n) bs = drop n (drop 3 rest)" "off + 3 + n \<le> length bs"
      using "1.prems"(2) len l by (auto simp: add.commute add.left_commute)
    obtain cs where cs: "decode_extensions pf bs (off + 3 + n) = Inr (map (shown pf) cs)"
      "suffix (member_caps y) (member_caps x' @ cs)"
      using "1.IH" [OF False _ refl refl] l x' y d by (metis n_def not_less)
    show ?thesis
    proof (cases "uint (rest ! 0) = 4")
      case True
      define k where "k = n div 44"
      have n44: "n \<noteq> 0" "n mod 44 = 0" and caps: "member_caps x' = map (rs_cap_at (take n (drop 3 rest))) [0..<k]"
        using member_caps_extension [OF x'] True l by (auto simp: k_def)
      have nk: "n = 44 * k" using n44 by (auto simp: k_def)
      have "member_caps x' = map (rs_cap_at (drop (off + 3) bs)) [0..<k]"
        unfolding caps using nk "1.prems"(2) by (auto simp: rs_cap_at_take add.commute)
      then have "member_rows pf bs k (off + 3) = Inr (map (shown pf) (member_caps x'))"
        using member_rows_read [of "off + 3" k bs pf] d(2) nk by (simp add: comp_def)
      then have "decode_extensions pf bs off = Inr (map (shown pf) (member_caps x' @ cs))"
        unfolding step using n44 cs(1) True k_def by (simp add: tag)
      with cs(2) show ?thesis by (intro exI [of _ "member_caps x' @ cs"]) (auto intro: suffix_appendI)
    next
      case False
      then have "member_caps x' = member_caps x" using member_caps_extension [OF x'] by simp
      moreover have "decode_extensions pf bs off = Inr (map (shown pf) cs)"
        unfolding step using False cs(1) by (simp add: tag)
      ultimately show ?thesis using cs(2) by auto
    qed
  qed
qed

section \<open>Appending an extension\<close>

lemma rs_parse_extensions_append:
  "rs_parse_extensions xs x = Inr y \<Longrightarrow> rs_parse_extensions (xs @ ys) x = rs_parse_extensions ys y"
proof (induction xs x rule: rs_parse_extensions.induct)
  case (1 xs x)
  show ?case
  proof (cases "xs = []")
    case True
    with 1 show ?thesis by simp
  next
    case False
    define n where "n = nat (le_val (slice 1 3 xs))"
    from "1.prems" False obtain x' where l: "3 \<le> length xs" "n \<le> length (drop 3 xs)"
      and x': "rs_extension (uint (xs ! 0)) (take n (drop 3 xs)) x = Inr x'"
      and y: "rs_parse_extensions (drop n (drop 3 xs)) x' = Inr y"
      by (subst (asm) rs_parse_extensions.simps) (auto simp: Let_def n_def ebind_Inr_iff not_less split: if_splits)
    have s: "slice 1 3 (xs @ ys) = slice 1 3 xs" "(xs @ ys) ! 0 = xs ! 0" using l by (auto simp: slice_def nth_append)
    have "rs_parse_extensions (drop n (drop 3 xs) @ ys) x' = rs_parse_extensions ys y"
      using "1.IH" [OF False _ refl refl] l x' y by (metis n_def not_less)
    moreover have "\<not> length (drop 3 (xs @ ys)) < n" using l by simp
    ultimately show ?thesis
      unfolding rs_parse_extensions.simps [of "xs @ ys" x] Let_def s n_def [symmetric] using False l x' by (simp add: not_less)
  qed
qed

definition header_policy :: "bytes \<Rightarrow> nat \<Rightarrow> rs_extensions_t \<Rightarrow> TypedSolPolicy" where
  "header_policy bs base x = rs_extensions_t.extend x
     \<lparr>pmode = uint (bs ! 4), max_amount = le_val (slice 5 13 bs), extra_cooldown_seconds = le_val (slice 13 17 bs),
      precipients = rs_keys (unat (bs ! 17)) (slice 19 (19 + unat (bs ! 17) * 32) bs),
      required_approvers = rs_keys (unat (bs ! 18)) (slice (19 + unat (bs ! 17) * 32) base bs)\<rparr>"

lemma rs_parse_iff:
  "rs_parse bs = Inr p \<longleftrightarrow> (\<exists>base x. base = 19 + (unat (bs ! 17) + unat (bs ! 18)) * 32 \<and> base \<le> length bs
     \<and> slice 0 4 bs = [0x43, 0x53, 0x50, 0x31] \<and> uint (bs ! 4) \<in> {0, 1, 2} \<and> unat (bs ! 17) \<le> 16 \<and> unat (bs ! 18) \<le> 16
     \<and> rs_parse_extensions (drop base bs) no_extensions = Inr x \<and> p = header_policy bs base x)"
  by (auto simp: rs_parse_def err_simps Let_def header_policy_def)

lemma rs_parse_append:
  assumes p: "rs_parse bs = Inr p" and a: "advanced_rules p = None"
    and q: "q \<noteq> []" "length q < 65536"
  shows "rs_parse (bs @ le_bytes 1 5 @ le_bytes 2 (int (length q)) @ q) = Inr (p\<lparr>advanced_rules := Some q\<rparr>)"
proof -
  define E where "E = le_bytes 1 5 @ le_bytes 2 (int (length q)) @ q"
  obtain base x where b: "base = 19 + (unat (bs ! 17) + unat (bs ! 18)) * 32" "base \<le> length bs"
    and h: "slice 0 4 bs = [0x43, 0x53, 0x50, 0x31]" "uint (bs ! 4) \<in> {0, 1, 2}" "unat (bs ! 17) \<le> 16" "unat (bs ! 18) \<le> 16"
    and x: "rs_parse_extensions (drop base bs) no_extensions = Inr x" and px: "p = header_policy bs base x"
    using p unfolding rs_parse_iff by blast
  have "advanced_rules x = None" using a by (simp add: px header_policy_def rs_extensions_t.defs)
  then have "rs_extension 5 q x = Inr (x\<lparr>advanced_rules := Some q\<rparr>)" using q by (simp add: rs_extension_def)
  then have "rs_parse_extensions E x = Inr (x\<lparr>advanced_rules := Some q\<rparr>)"
    using rs_parse_extensions_step [of 5 q "[]" x] q by (simp add: E_def del: le_bytes.simps)
  then have e: "rs_parse_extensions (drop base (bs @ E)) no_extensions = Inr (x\<lparr>advanced_rules := Some q\<rparr>)"
    using rs_parse_extensions_append [OF x] b by simp
  have sl: "slice i j (bs @ E) = slice i j bs" if "j \<le> base" for i j using that b(2) by (simp add: slice_def)
  have nt: "(bs @ E) ! i = bs ! i" if "i < 19" for i using that b by (simp add: nth_append)
  have "header_policy (bs @ E) base (x\<lparr>advanced_rules := Some q\<rparr>) = p\<lparr>advanced_rules := Some q\<rparr>"
    using b(1) by (simp add: px header_policy_def nt sl rs_extensions_t.defs)
  then have "rs_parse (bs @ E) = Inr (p\<lparr>advanced_rules := Some q\<rparr>)"
    unfolding rs_parse_iff using b h e by (intro exI [of _ base] exI [of _ "x\<lparr>advanced_rules := Some q\<rparr>"]) (simp add: nt sl)
  then show ?thesis by (simp only: E_def)
qed

section \<open>Amount limits\<close>

definition limits_amount :: "platform \<Rightarrow> asset \<Rightarrow> RuleCondition \<Rightarrow> bool" where
  "limits_amount pf a c = (case c of AmountCondition _ _ t \<Rightarrow> ticker_applies pf a t | _ \<Rightarrow> False)"

lemma other_conditions_keep_amount:
  "efold (apply_condition pf a) cs s = Inr t \<Longrightarrow> list_all (\<lambda>c. \<not> limits_amount pf a c) cs \<Longrightarrow> maxAmount t = maxAmount s"
proof (induction cs arbitrary: s)
  case Nil
  then show ?case by simp
next
  case (Cons c cs)
  then obtain u where u: "apply_condition pf a c s = Inr u" "efold (apply_condition pf a) cs u = Inr t"
    by (auto simp: err_simps)
  have "maxAmount u = maxAmount s"
    using u(1) Cons.prems(2)
    by (cases c) (auto simp: apply_condition_def limits_amount_def err_simps split_beta Let_def split: if_splits)
  with Cons.IH [OF u(2)] Cons.prems(2) show ?case by simp
qed

lemma last_amount:
  assumes "plan_limits pf a plan = Inr s" "\<not> is_deny plan"
    and "conditions plan = cs @ AmountCondition mn mx t # ds" "ticker_applies pf a t" "list_all (\<lambda>c. \<not> limits_amount pf a c) ds"
  shows "parse_or_zero mx (decimals a) = Inr (maxAmount s)"
proof -
  obtain u v w where "apply_condition pf a (AmountCondition mn mx t) u = Inr v" "efold (apply_condition pf a) ds v = Inr s"
    using assms(1-3) by (auto simp: plan_limits_def efold_append err_simps)
  with other_conditions_keep_amount [OF _ assms(5)] assms(4) show ?thesis
    by (auto simp: apply_condition_def err_simps)
qed

section \<open>What a plan asks for\<close>

text \<open>
  The limits of a plan without the loop of the encoder: the maxima its amount conditions state for the
  asset, and the spending caps of its budget and of its velocity conditions, each with its window.
  An amount is its exact value in the smallest unit; an empty text is no limit.
\<close>

definition text_units :: "int \<Rightarrow> jsstr option \<Rightarrow> int" where
  "text_units d t = (if truthy t then int (decimal_units (nat d) (trim (or_empty t))) else 0)"

definition asked_conditions :: "PolicyEnforcementPlan \<Rightarrow> RuleCondition list" where
  "asked_conditions plan = (if is_deny plan then [] else conditions plan)"

definition stated_maximum :: "asset \<Rightarrow> RuleCondition \<Rightarrow> int" where
  "stated_maximum a c = (case c of AmountCondition _ mx _ \<Rightarrow> text_units (decimals a) mx | _ \<Rightarrow> 0)"

definition stated_maxima :: "platform \<Rightarrow> asset \<Rightarrow> PolicyEnforcementPlan \<Rightarrow> int list" where
  "stated_maxima pf a plan = map (stated_maximum a) (filter (limits_amount pf a) (asked_conditions plan))"

definition velocity_cap_of :: "platform \<Rightarrow> asset \<Rightarrow> RuleCondition \<Rightarrow> (int \<times> int) list" where
  "velocity_cap_of pf a c = (case c of
       VelocityCondition cap t days \<Rightarrow>
         if ticker_applies pf a (Some t) then [(text_units (decimals a) (Some cap), days * 24 * 60 * 60)] else []
     | _ \<Rightarrow> [])"

definition positive_caps :: "(int \<times> int) list \<Rightarrow> (int \<times> int) list" where
  "positive_caps cs = filter (\<lambda>(c, w). 0 < c) cs"

definition spending_caps :: "platform \<Rightarrow> asset \<Rightarrow> PolicyEnforcementPlan \<Rightarrow> (int \<times> int) list" where
  "spending_caps pf a plan = positive_caps
     ((text_units (decimals a) (velocityCapDisplay (onchainLimits plan)), velocityWindowSeconds (onchainLimits plan))
      # concat (map (velocity_cap_of pf a) (asked_conditions plan)))"

definition least :: "int list \<Rightarrow> int" where
  "least cs = (if cs = [] then 0 else Min (set cs))"

definition cap_agrees :: "platform \<Rightarrow> int \<Rightarrow> MemberAllowanceCap \<Rightarrow> rs_cap \<Rightarrow> bool" where
  "cap_agrees pf d c r \<longleftrightarrow> publicKey pf (member c) = Some (cmember r)
     \<and> cap_raw r = int (decimal_units (nat d) (trim (capDisplay c))) \<and> window_seconds r = max 0 (windowSeconds c)"

text \<open>
  A policy of the program is what a plan asks for.  The recipients are the keys of a list that
  permits exactly what the plan permits.  The maximum is that of the one amount condition, the
  spending cap the smallest of all, with its own window when there is one; several amount
  conditions, and the window of several caps, are not ruled here.
\<close>

definition stands_for :: "platform \<Rightarrow> asset \<Rightarrow> (jsstr \<Rightarrow> bytes res) \<Rightarrow> PolicyEnforcementPlan \<Rightarrow> TypedSolPolicy \<Rightarrow> bool" where
  "stands_for pf a key plan p \<longleftrightarrow>
     (\<exists>rs. emap key rs = Inr (precipients p) \<and> (\<forall>x. permits (pmode p) rs x \<longleftrightarrow> plan_permits a plan x))
     \<and> (length (stated_maxima pf a plan) \<le> 1 \<longrightarrow> max_amount p = (case stated_maxima pf a plan of [] \<Rightarrow> 0 | v # _ \<Rightarrow> v))
     \<and> (list_all (\<lambda>(c, w). 0 < w) (spending_caps pf a plan) \<longrightarrow> velocity_cap p = least (map fst (spending_caps pf a plan)))
     \<and> (length (spending_caps pf a plan) \<le> 1 \<longrightarrow> list_all (\<lambda>(c, w). 0 < w) (spending_caps pf a plan) \<longrightarrow>
          velocity_window_seconds p = (case spending_caps pf a plan of [] \<Rightarrow> 0 | (c, w) # _ \<Rightarrow> w))
     \<and> extra_cooldown_seconds p = max 0 (extraCooldownSeconds plan)
     \<and> list_all2 (\<lambda>x k. publicKey pf x = Some k) (extraApprovers plan) (required_approvers p)
     \<and> (let n = maxSendCount (onchainLimits plan); w = countWindowSeconds (onchainLimits plan) in
          if 0 < n \<and> 0 < w then max_send_count p = n \<and> count_window_seconds p = w
          else max_send_count p = 0 \<and> count_window_seconds p = 0)
     \<and> allowed_time p = map_option seen_window (allowedTimeWindow plan)
     \<and> list_all2 (cap_agrees pf (decimals a)) (memberAllowances plan) (member_caps p)
     \<and> advanced_rules p = None"

lemma parseUnits_value: "parseUnits s d = Inr v \<Longrightarrow> v = int (decimal_units (nat d) (trim s))"
proof -
  assume p: "parseUnits s d = Inr v"
  then have h: "decimal_text (trim s)" "int (length (fraction_of (trim s))) \<le> d" "d \<le> 18"
    by (auto simp: parseUnits_def Let_def split: if_splits)
  from p parseUnits_eq [OF h] show ?thesis by (simp add: parseUnits_def Let_def split: if_splits)
qed

lemma parse_or_zero_value: "parse_or_zero t d = Inr v \<Longrightarrow> v = text_units d t"
  using parseUnits_value by (auto simp: parse_or_zero_def text_units_def split: if_splits)

lemma text_units_nonneg: "0 \<le> text_units d t"
  by (simp add: text_units_def)

lemma conditions_maximum:
  "efold (apply_condition pf a) cs s = Inr t \<Longrightarrow>
     maxAmount t = (case rev (filter (limits_amount pf a) cs) of [] \<Rightarrow> maxAmount s | c # _ \<Rightarrow> stated_maximum a c)"
proof (induction cs arbitrary: t rule: rev_induct)
  case (snoc c cs)
  then obtain u where u: "efold (apply_condition pf a) cs s = Inr u" "apply_condition pf a c u = Inr t"
    by (auto simp: efold_append err_simps)
  show ?case
  proof (cases "limits_amount pf a c")
    case True
    with u(2) show ?thesis
      by (cases c) (auto simp: apply_condition_def limits_amount_def stated_maximum_def err_simps dest: parse_or_zero_value)
  next
    case False
    with other_conditions_keep_amount [of pf a "[c]" u t] u(2) snoc.IH [OF u(1)] show ?thesis by simp
  qed
qed simp

lemma least_snoc: "0 < v \<Longrightarrow> \<forall>c \<in> set cs. 0 < c \<Longrightarrow> least (cs @ [v]) = stricterCap (least cs) v"
proof (cases "cs = []")
  case False
  assume "0 < v" "\<forall>c \<in> set cs. 0 < c"
  with False have "Min (set cs) \<in> set cs" by simp
  with \<open>\<forall>c \<in> set cs. 0 < c\<close> have m: "0 < Min (set cs)" by blast
  have "Min (set (cs @ [v])) = min v (Min (set cs))" using False by (simp add: Min_insert [symmetric] del: Min_insert)
  moreover have "least (cs @ [v]) = Min (set (cs @ [v]))" "least cs = Min (set cs)" using False by (simp_all add: least_def)
  moreover have "min v m = stricterCap m v" if "0 < m" for m using \<open>0 < v\<close> that by (auto simp: stricterCap_def)
  ultimately show ?thesis using m by (simp only:)
qed (simp add: least_def stricterCap_def)

lemma positive_caps_pos: "\<forall>c \<in> set (map fst (positive_caps cs)). 0 < c"
  by (auto simp: positive_caps_def)

lemma positive_caps_append: "positive_caps (as @ bs) = positive_caps as @ positive_caps bs"
  by (simp add: positive_caps_def)

text \<open>The cap of the encoder is the least so far, its window that of the last cap.\<close>

definition tracks :: "(int \<times> int) list \<Rightarrow> limits \<Rightarrow> bool" where
  "tracks cs s \<longleftrightarrow> velocityCap s = least (map fst cs) \<and> (cs \<noteq> [] \<longrightarrow> velocityWindow s = snd (last cs))"

lemma apply_condition_tracks:
  assumes "apply_condition pf a c s = Inr t" "tracks (positive_caps cs) s"
  shows "tracks (positive_caps (cs @ velocity_cap_of pf a c)) t"
proof (cases "velocity_cap_of pf a c = []")
  case True
  then have "velocityCap t = velocityCap s" "velocityWindow t = velocityWindow s"
    using assms(1)
    by (cases c; auto simp: apply_condition_def velocity_cap_of_def err_simps split_beta Let_def split: if_splits)+
  with True assms(2) show ?thesis by (simp add: tracks_def)
next
  case False
  then obtain cap tk days where c: "c = VelocityCondition cap tk days" "ticker_applies pf a (Some tk)"
    by (cases c) (auto simp: velocity_cap_of_def split: if_splits)
  let ?v = "text_units (decimals a) (Some cap)"
  from assms(1) c have t: "velocityCap t = stricterCap (velocityCap s) ?v"
      "velocityWindow t = (if 0 < ?v then days * 24 * 60 * 60 else velocityWindow s)"
    by (auto simp: apply_condition_def err_simps Let_def dest!: parse_or_zero_value)
  have o: "velocity_cap_of pf a c = [(?v, days * 24 * 60 * 60)]" using c by (simp add: velocity_cap_of_def)
  show ?thesis
  proof (cases "0 < ?v")
    case True
    then have "positive_caps (cs @ velocity_cap_of pf a c) = positive_caps cs @ [(?v, days * 24 * 60 * 60)]"
      unfolding o positive_caps_append by (simp add: positive_caps_def)
    with True t assms(2) least_snoc [OF True positive_caps_pos] show ?thesis by (simp add: tracks_def)
  next
    case False
    with text_units_nonneg [of "decimals a" "Some cap"] have z: "?v = 0" by simp
    then have "positive_caps (cs @ velocity_cap_of pf a c) = positive_caps cs"
      unfolding o positive_caps_append by (simp add: positive_caps_def)
    with z t assms(2) show ?thesis by (simp add: tracks_def stricterCap_def)
  qed
qed

lemma conditions_track:
  "efold (apply_condition pf a) ds s = Inr t \<Longrightarrow> tracks (positive_caps cs) s \<Longrightarrow>
     tracks (positive_caps (cs @ concat (map (velocity_cap_of pf a) ds))) t"
proof (induction ds arbitrary: cs s)
  case (Cons d ds)
  then obtain u where u: "apply_condition pf a d s = Inr u" "efold (apply_condition pf a) ds u = Inr t"
    by (auto simp: err_simps)
  from Cons.IH [OF u(2) apply_condition_tracks [OF u(1) Cons.prems(2)]] show ?case by simp
qed simp

lemma limits_stand:
  assumes "plan_limits pf a plan = Inr s"
  shows "maxAmount s = (case rev (stated_maxima pf a plan) of [] \<Rightarrow> 0 | v # _ \<Rightarrow> v)" "tracks (spending_caps pf a plan) s"
proof -
  obtain u where u: "start_limits a plan = Inr u" and s: "efold (apply_condition pf a) (asked_conditions plan) u = Inr s"
    using assms by (auto simp: plan_limits_def asked_conditions_def err_simps split: if_splits)
  from u have m: "maxAmount u = 0" by (auto simp: start_limits_def err_simps Let_def)
  from conditions_maximum [OF s] show "maxAmount s = (case rev (stated_maxima pf a plan) of [] \<Rightarrow> 0 | v # _ \<Rightarrow> v)"
    unfolding m stated_maxima_def rev_map by (auto split: list.splits)
  let ?c = "(text_units (decimals a) (velocityCapDisplay (onchainLimits plan)), velocityWindowSeconds (onchainLimits plan))"
  from u have "velocityCap u = fst ?c" "velocityWindow u = (if 0 < fst ?c then snd ?c else 0)"
    by (auto simp: start_limits_def err_simps Let_def dest!: parse_or_zero_value)
  with text_units_nonneg [of "decimals a" "velocityCapDisplay (onchainLimits plan)"] have "tracks (positive_caps [?c]) u"
    by (auto simp: tracks_def positive_caps_def least_def)
  from conditions_track [OF s this] show "tracks (spending_caps pf a plan) s" by (simp add: spending_caps_def)
qed

lemma seen_caps_agree: "emap (seen_cap pf d) cs = Inr rs \<Longrightarrow> list_all2 (cap_agrees pf d) cs rs"
  by (induction cs arbitrary: rs)
    (auto simp: ebind_Inr_iff seen_cap_def cap_agrees_def pubkey_def dest!: parseUnits_value split: option.splits)

lemma approvers_agree: "emap (pubkey pf) xs = Inr ks \<Longrightarrow> list_all2 (\<lambda>x k. publicKey pf x = Some k) xs ks"
  by (induction xs arbitrary: ks) (auto simp: ebind_Inr_iff pubkey_def split: option.splits)

lemma intended_stands:
  assumes "intended_policy pf a key plan = Inr p"
  shows "stands_for pf a key plan p"
proof -
  obtain s rs as caps where s: "plan_limits pf a plan = Inr s" and rs: "emap key (dedupe (recipients s)) = Inr rs"
    and as: "emap (pubkey pf) (extraApprovers plan) = Inr as" and caps: "emap (seen_cap pf (decimals a)) (memberAllowances plan) = Inr caps"
    and p: "p = rs_extensions_t.extend (seen_extensions plan s caps)
       \<lparr>pmode = mode s, max_amount = maxAmount s, extra_cooldown_seconds = max 0 (extraCooldownSeconds plan),
        precipients = rs, required_approvers = as\<rparr>"
    using assms by (auto simp: intended_policy_def err_simps)
  note l = limits_stand [OF s]
  have r: "\<exists>xs. emap key xs = Inr (precipients p) \<and> (\<forall>x. permits (pmode p) xs x \<longleftrightarrow> plan_permits a plan x)"
  proof (intro exI conjI allI)
    show "emap key (dedupe (recipients s)) = Inr (precipients p)" using rs by (simp add: p rs_extensions_t.defs)
    have "permits (mode s) (dedupe (recipients s)) x = permits (mode s) (recipients s) x" for x by (simp add: permits_def)
    with plan_limits_permit [OF s] show "permits (pmode p) (dedupe (recipients s)) x \<longleftrightarrow> plan_permits a plan x" for x
      by (simp add: p rs_extensions_t.defs)
  qed
  have m: "length (stated_maxima pf a plan) \<le> 1 \<longrightarrow> max_amount p = (case stated_maxima pf a plan of [] \<Rightarrow> 0 | v # _ \<Rightarrow> v)"
    using l(1) by (cases "stated_maxima pf a plan") (auto simp: p rs_extensions_t.defs)
  have pos: "velocityCap s = least (map fst (spending_caps pf a plan))"
      "spending_caps pf a plan \<noteq> [] \<longrightarrow> 0 < velocityCap s \<and> velocityWindow s = snd (last (spending_caps pf a plan))"
  proof -
    show c: "velocityCap s = least (map fst (spending_caps pf a plan))" using l(2) by (simp add: tracks_def)
    have "0 < least (map fst (spending_caps pf a plan))" if "spending_caps pf a plan \<noteq> []"
      using that positive_caps_pos [of "(text_units (decimals a) (velocityCapDisplay (onchainLimits plan)), velocityWindowSeconds (onchainLimits plan))
        # concat (map (velocity_cap_of pf a) (asked_conditions plan))"] by (simp add: least_def spending_caps_def)
    with c l(2) show "spending_caps pf a plan \<noteq> [] \<longrightarrow> 0 < velocityCap s \<and> velocityWindow s = snd (last (spending_caps pf a plan))"
      by (simp add: tracks_def)
  qed
  have v: "velocity_cap p = least (map fst (spending_caps pf a plan))
      \<and> (length (spending_caps pf a plan) \<le> 1 \<longrightarrow> velocity_window_seconds p = (case spending_caps pf a plan of [] \<Rightarrow> 0 | (c, w) # _ \<Rightarrow> w))"
    if w: "list_all (\<lambda>(c, w). 0 < w) (spending_caps pf a plan)"
  proof (cases "spending_caps pf a plan = []")
    case True
    with pos(1) show ?thesis by (simp add: p rs_extensions_t.defs seen_extensions_def least_def Let_def)
  next
    case False
    then have "last (spending_caps pf a plan) \<in> set (spending_caps pf a plan)" by simp
    with w have "0 < snd (last (spending_caps pf a plan))" by (auto simp: list_all_iff)
    with pos False show ?thesis
      by (cases "spending_caps pf a plan") (auto simp: p rs_extensions_t.defs seen_extensions_def Let_def)
  qed
  show ?thesis
    unfolding stands_for_def using r m v seen_caps_agree [OF caps] approvers_agree [OF as]
    by (simp add: p rs_extensions_t.defs seen_extensions_def count_window_def Let_def)
qed

section \<open>Allowed hours\<close>

lemma fold_day_bits:
  "list_all (\<lambda>d. 0 \<le> d \<and> d \<le> 6) days \<Longrightarrow>
    bit (fold (\<lambda>d m. m OR push_bit (nat d) 1) days (m :: int)) k \<longleftrightarrow> bit m k \<or> int k \<in> set days"
proof (induction days arbitrary: m)
  case Nil
  then show ?case by simp
next
  case (Cons d days)
  have "bit (push_bit (nat d) (1 :: int)) k \<longleftrightarrow> nat d \<le> k \<and> k - nat d = 0"
    unfolding bit_push_bit_iff bit_1_iff by simp
  also have "\<dots> \<longleftrightarrow> int k = d" using Cons.prems by auto
  finally show ?case using Cons by (auto simp: bit_or_iff)
qed

lemma day_bits_days: "day_bits days = Inr m \<Longrightarrow> list_all (\<lambda>d. 0 \<le> d \<and> d \<le> 6) days"
proof -
  have "efold (\<lambda>day mask. ebind (guard (0 \<le> day \<and> day \<le> 6)
      ''Policy allowed days must be between Sunday and Saturday.'') (\<lambda>_. Inr (js_or mask (js_shl 1 (nat day))))) days a = Inr m
     \<Longrightarrow> list_all (\<lambda>d. 0 \<le> d \<and> d \<le> 6) days" for a
    by (induction days arbitrary: a) (auto simp: err_simps)
  then show "day_bits days = Inr m \<Longrightarrow> ?thesis" by (auto simp: day_bits_def)
qed

lemma days_mask_zero: "list_all (\<lambda>d. 0 \<le> d \<and> d \<le> 6) days \<Longrightarrow>
    fold (\<lambda>d m. m OR push_bit (nat d) 1) days (0 :: int) = 0 \<longleftrightarrow> days = []"
proof
  assume d: "list_all (\<lambda>d. 0 \<le> d \<and> d \<le> 6) days" and "fold (\<lambda>d m. m OR push_bit (nat d) 1) days (0 :: int) = 0"
  then have "int k \<notin> set days" for k using fold_day_bits [OF d, of 0 k] by simp
  moreover have "0 \<le> x" if "x \<in> set days" for x using d that by (auto simp: list_all_iff)
  ultimately have "x \<notin> set days" for x by (metis nonneg_int_cases)
  then show "days = []" by (cases days) auto
qed simp

lemma and_push_bit_1: "(m :: int) AND push_bit k 1 \<noteq> 0 \<longleftrightarrow> bit m k"
  by (rule bit_iff_and_push_bit_not_eq_0 [symmetric])

text \<open>\<open>matchTimeWindow\<close> of \<open>lib/policies/evaluate.ts\<close>, on \<open>getHours\<close> and \<open>getDay\<close> of the time.\<close>

definition matchTimeWindow :: "int \<Rightarrow> int \<Rightarrow> int list \<Rightarrow> WindowMatch \<Rightarrow> int \<Rightarrow> int \<Rightarrow> bool" where
  "matchTimeWindow start fin days match hour day =
     (if \<not> (days = [] \<or> day \<in> set days) then match = Outside
      else let inside = (if start \<le> fin then hour \<ge> start \<and> hour < fin else hour \<ge> start \<or> hour < fin)
           in if match = Inside then inside else \<not> inside)"

text \<open>\<open>getHours\<close> and \<open>getDay\<close> of a time in seconds, at the offset \<open>getTimezoneOffset\<close> gives.\<close>

definition local_hour :: "int \<Rightarrow> int \<Rightarrow> int" where
  "local_hour off t = ((t - off * 60) mod 86400) div 3600"

definition local_day :: "int \<Rightarrow> int \<Rightarrow> int" where
  "local_day off t = ((t - off * 60) div 86400 + 4) mod 7"

lemma allows_timestamp_match:
  assumes "list_all (\<lambda>d. 0 \<le> d \<and> d \<le> 6) (daysOfWeek a)"
  shows "allows_timestamp (seen_window a) t \<longleftrightarrow>
    matchTimeWindow (startHour a) (endHour a) (daysOfWeek a) Inside (local_hour (utcOffsetMinutes a) t) (local_day (utcOffsetMinutes a) t)"
proof -
  let ?m = "days_mask (seen_window a)" and ?d = "local_day (utcOffsetMinutes a) t"
  have "0 \<le> ?d" by (simp add: local_day_def)
  then have "?m AND push_bit (nat ?d) 1 \<noteq> 0 \<longleftrightarrow> ?d \<in> set (daysOfWeek a)"
    unfolding and_push_bit_1 using fold_day_bits [OF assms, of 0 "nat ?d"] by (simp add: seen_window_def)
  moreover have "?m = 0 \<longleftrightarrow> daysOfWeek a = []"
    using days_mask_zero [OF assms] by (simp add: seen_window_def)
  ultimately show ?thesis
    unfolding allows_timestamp_def matchTimeWindow_def Let_def local_hour_def [symmetric]
    by (auto simp: seen_window_def local_day_def [symmetric] local_hour_def [symmetric])
qed

section \<open>Examples\<close>

text \<open>A plan with every kind of field, on a platform that knows the keys A and B.\<close>

definition example_pf :: platform where
  "example_pf = \<lparr>publicKey = (\<lambda>s. if s = [65] then Some (replicate 32 1) else if s = [66] then Some (replicate 32 2) else None),
     toBase58 = (\<lambda>_. []), sha256 = (\<lambda>_. []), toUpperCase = (\<lambda>s. s)\<rparr>"

definition example_plan :: PolicyEnforcementPlan where
  "example_plan = \<lparr>evaluation = None,
     conditions = [RecipientCondition Blocklist (Some [js ''B'']), AmountCondition None (Some (js ''1.5'')) None,
       AmountCondition (Some (js ''0.1'')) None None],
     extraApprovers = [js ''B''], extraCooldownSeconds = 60, recipientGuard = Some (Allowlist, [js ''A'', js ''B'']),
     allowedTimeWindow = Some \<lparr>startHour = 9, endHour = 17, daysOfWeek = [1, 5], utcOffsetMinutes = - 60\<rparr>,
     onchainLimits = \<lparr>velocityCapDisplay = Some (js ''2''), velocityWindowSeconds = 604800, maxSendCount = 3, countWindowSeconds = 86400\<rparr>,
     memberAllowances = [\<lparr>member = js ''A'', capDisplay = js ''0.5'', windowSeconds = 604800\<rparr>]\<rparr>"

lemma parse_examples: "parseUnits [49, 46, 53] 9 = Inr 1500000000" "parseUnits [50] 9 = Inr 2000000000"
  "parseUnits [48, 46, 53] 9 = Inr 500000000"
proof -
  note eval = decimal_text_def fraction_of_def decimal_units_def is_digit_def digits_val_Cons digit_val_def
  show "parseUnits [49, 46, 53] 9 = Inr 1500000000"
    by (subst parseUnits_eq) (simp_all add: eval)
  show "parseUnits [50] 9 = Inr 2000000000"
    by (subst parseUnits_eq) (simp_all add: eval)
  show "parseUnits [48, 46, 53] 9 = Inr 500000000"
    by (subst parseUnits_eq) (simp_all add: eval)
qed

lemma example_limits: "plan_limits example_pf sol_asset example_plan =
  Inr \<lparr>mode = 1, recipients = [[65]], maxAmount = 0, velocityCap = 2000000000, velocityWindow = 604800\<rparr>"
  using parse_examples
  by (simp add: plan_limits_def start_limits_def example_plan_def is_deny_def sol_asset_def list_mode_def parse_or_zero_def
     truthy_def or_empty_def apply_condition_def mergeRecipientPolicy_def ticker_applies_def Let_def)

lemma push_forward:
  "0 \<le> v \<Longrightarrow> v < 256 \<Longrightarrow> pushU8 v w = Inr (w @ le_bytes 1 v)"
  "0 \<le> v \<Longrightarrow> v < 65536 \<Longrightarrow> pushU16 v w = Inr (w @ le_bytes 2 v)"
  "- 32768 \<le> v \<Longrightarrow> v < 32768 \<Longrightarrow> pushI16 v w = Inr (w @ le_bytes 2 v)"
  "0 \<le> v \<Longrightarrow> v < 2 ^ 32 \<Longrightarrow> pushU32 v w = Inr (w @ le_bytes 4 v)"
  "0 \<le> v \<Longrightarrow> v < 2 ^ 64 \<Longrightarrow> pushU64 v w = Inr (w @ le_bytes 8 v)"
  "pushRaw bs w = Inr (w @ bs)"
  by (simp_all only: push_iffs)

lemma encoded_policy_total:
  assumes "length bs < 2 ^ 32"
  shows "\<exists>e. encoded_policy pf bs = Inr e \<and> pbytes e = bs"
  using assms by (simp add: encoded_policy_def policyCommitmentHex_def pushBytes_def push_forward map_ucast_utf8 del: le_bytes.simps)

lemma example_plan_encodes: "\<exists>e. encodeTypedSolPolicy example_pf example_plan = Inr (Some e)"
proof -
  have d: "day_bits [1, 5] = Inr 34" by code_simp
  have "\<exists>bs. pushes (header_writes example_plan
      \<lparr>mode = 1, recipients = [[65]], maxAmount = 0, velocityCap = 2000000000, velocityWindow = 604800\<rparr> 1
     @ map (pushPubkey example_pf) [[65]] @ map (pushPubkey example_pf) (extraApprovers example_plan)
     @ extension_writes example_pf sol_asset example_plan
      \<lparr>mode = 1, recipients = [[65]], maxAmount = 0, velocityCap = 2000000000, velocityWindow = 604800\<rparr>) [] = Inr bs
     \<and> length bs < 2 ^ 32"
    using parse_examples d
    by (simp add: header_writes_def extension_writes_def example_plan_def example_pf_def count_window_def sol_asset_def
        push_forward pushPubkey_def pubkey_def writeAllowedTimeExtension_def writeMemberAllowanceExtension_def member_entry_def
        MEMBER_ALLOWANCE_ENTRY_LEN_def MAGIC_def del: le_bytes.simps)
  then obtain bs where "pushes (header_writes example_plan
      \<lparr>mode = 1, recipients = [[65]], maxAmount = 0, velocityCap = 2000000000, velocityWindow = 604800\<rparr> 1
     @ map (pushPubkey example_pf) [[65]] @ map (pushPubkey example_pf) (extraApprovers example_plan)
     @ extension_writes example_pf sol_asset example_plan
      \<lparr>mode = 1, recipients = [[65]], maxAmount = 0, velocityCap = 2000000000, velocityWindow = 604800\<rparr>) [] = Inr bs"
    "length bs < 2 ^ 32" by blast
  moreover have "length (extraApprovers example_plan) = 1" "\<not> nothing_to_enforce example_plan s" for s
    by (simp_all add: example_plan_def nothing_to_enforce_def)
  ultimately show ?thesis using encoded_policy_total [of bs example_pf]
    by (auto simp: encodeTypedSolPolicy_def example_limits assertPolicyKeyCounts_def Let_def simp del: pushes_simps)
qed

lemma example_platform: "keys_32 example_pf"
  by (auto simp: keys_32_def example_pf_def split: if_splits)

lemma example_offset: "offset_ok example_plan"
  by (simp add: offset_ok_def example_plan_def)

lemma empty_policy_read: "rs_parse emptyPolicyBytes = Inr (rs_extensions_t.extend no_extensions
    \<lparr>pmode = 0, max_amount = 0, extra_cooldown_seconds = 0, precipients = [], required_approvers = []\<rparr>)"
proof -
  have "le_bytes 1 0 @ le_bytes 8 0 @ le_bytes 4 0 @ le_bytes 1 0 @ le_bytes 1 0 = replicate 15 (0 :: byte)"
    by (simp add: numeral_eq_Suc)
  then show ?thesis using rs_parse_layout [of 0 0 0 "[]" "[]" "[]"] by (simp add: emptyPolicyBytes_def del: le_bytes.simps)
qed

text \<open>The bytes of a policy with the rules behind them.\<close>

lemma append_rules_read:
  assumes "rs_parse (pbytes e) = Inr p" "advanced_rules p = None"
    and "rules \<noteq> []" "appendPolicyExtension pf (Some e) 5 rules = Inr f"
  shows "rs_parse (pbytes f) = Inr (p\<lparr>advanced_rules := Some rules\<rparr>)"
proof -
  have l: "length rules \<le> 65535" using assms(4) by (auto simp: appendPolicyExtension_def err_simps)
  have "int (length rules) div 256 mod 256 = js_ushr (int (length rules)) 8"
    using l by (simp add: js_ushr_def drop_bit_eq_div take_bit_eq_mod)
  then have "word_of_int (js_ushr (int (length rules)) 8) = (word_of_int (int (length rules) div 256) :: byte)"
    by (metis word_of_int_mod_byte)
  then have "pbytes f = pbytes e @ le_bytes 1 5 @ le_bytes 2 (int (length rules)) @ rules"
    using assms(4) by (auto simp: appendPolicyExtension_def err_simps Let_def encoded_policy_def js_and_byte
        word_of_int_mod_byte numeral_2_eq_2)
  with rs_parse_append [OF assms(1-3)] l show ?thesis by simp
qed

section \<open>Properties\<close>



text \<open>Base58 gives a key one text: the alphabet has one digit per value.\<close>

definition inj_keys :: "platform \<Rightarrow> bool" where
  "inj_keys pf \<longleftrightarrow> (\<forall>s t k. publicKey pf s = Some k \<longrightarrow> publicKey pf t = Some k \<longrightarrow> s = t)"

text \<open>
  C15: The program lets a SOL policy pay a recipient exactly when the plan does: when it does
  not deny, the saved guard lists the address and every recipient condition agrees.
\<close>

theorem recipients_enforced:
  assumes "keys_32 pf" "offset_ok plan" "encodeTypedSolPolicy pf plan = Inr (Some e)"
    and inj: "inj_keys pf"
    and x: "publicKey pf x = Some k"
  shows "\<exists>p. rs_parse (pbytes e) = Inr p \<and> (enforce_recipient p k = Inr () \<longleftrightarrow> plan_permits sol_asset plan x)"
proof -
  obtain p s rs where p: "rs_parse (pbytes e) = Inr p" and s: "plan_limits pf sol_asset plan = Inr s"
    and rs: "emap (pubkey pf) (dedupe (recipients s)) = Inr rs" and m: "pmode p = mode s" "precipients p = rs"
    using sol_policy_read [OF assms(1-3)] by (auto simp: intended_policy_def err_simps rs_extensions_t.defs)
  have "k \<in> set rs \<longleftrightarrow> (\<exists>t \<in> set (recipients s). pubkey pf t = Inr k)"
    using emap_Inr_map [OF rs] by (metis (no_types, lifting) image_iff list.set_map set_dedupe sum.inject(2))
  also have "\<dots> \<longleftrightarrow> x \<in> set (recipients s)"
    using x inj by (auto simp: pubkey_def inj_keys_def split: option.splits)
  finally have "k \<in> set rs \<longleftrightarrow> x \<in> set (recipients s)" .
  then have "enforce_recipient p k = Inr () \<longleftrightarrow> permits (mode s) (recipients s) x"
    using plan_limits_permit [OF s, of x] m by (auto simp: enforce_recipient_def permits_def)
  with p plan_limits_permit [OF s, of x] show ?thesis by blast
qed

theorem recipients_enforced_witness:
  "\<exists>e p. encodeTypedSolPolicy example_pf example_plan = Inr (Some e) \<and> rs_parse (pbytes e) = Inr p
     \<and> enforce_recipient p (replicate 32 1) = Inr () \<and> enforce_recipient p (replicate 32 2) \<noteq> Inr ()"
proof -
  obtain e where e: "encodeTypedSolPolicy example_pf example_plan = Inr (Some e)" using example_plan_encodes by blast
  have "inj_keys example_pf" by (auto simp: inj_keys_def example_pf_def split: if_splits)
  note r = recipients_enforced [OF example_platform example_offset e this]
  have "plan_permits sol_asset example_plan [65]" "\<not> plan_permits sol_asset example_plan [66]"
    by (simp_all add: plan_permits_def condition_permits_def example_plan_def is_deny_def sol_asset_def or_empty_def permits_def list_mode_def)
  moreover have "publicKey example_pf [65] = Some (replicate 32 1)" "publicKey example_pf [66] = Some (replicate 32 2)"
    by (simp_all add: example_pf_def)
  ultimately show ?thesis using r [where x = "[65]"] r [where x = "[66]"] e by auto
qed

text \<open>C31: A plan that denies is never encoded as the absence of a policy, and the program then refuses every recipient.\<close>

theorem deny_enforced:
  assumes "keys_32 pf" "offset_ok plan" "is_deny plan"
  shows "encodeTypedSolPolicy pf plan \<noteq> Inr None \<and> encodeTypedRemoteSendPolicy pf plan opts \<noteq> Inr None
    \<and> (\<forall>e. encodeTypedSolPolicy pf plan = Inr (Some e) \<or> encodeTypedRemoteSendPolicy pf plan opts = Inr (Some e) \<longrightarrow>
       (\<exists>p. rs_parse (pbytes e) = Inr p \<and> (\<forall>k. enforce_recipient p k = Inl PolicyDenied)))"
proof -
  have refuses: "enforce_recipient p k = Inl PolicyDenied" if "intended_policy pf a key plan = Inr p" for a key p k
  proof -
    from that assms(3) have "pmode p = 1" "precipients p = []"
      by (auto simp: intended_policy_def err_simps plan_limits_def start_limits_def Let_def rs_extensions_t.defs)
    then show ?thesis by (simp add: enforce_recipient_def require_def)
  qed
  have "encodeTypedSolPolicy pf plan \<noteq> Inr None" "encodeTypedRemoteSendPolicy pf plan opts \<noteq> Inr None"
    using assms(3) by (auto simp: encodeTypedSolPolicy_def encodeTypedRemoteSendPolicy_def nothing_to_enforce_def
        err_simps Let_def)
  with refuses sol_policy_read [OF assms(1,2)] remote_policy_read [OF assms(1,2)] show ?thesis by metis
qed

theorem deny_enforced_witness:
  "encodeTypedSolPolicy example_pf (example_plan\<lparr>evaluation := Some Deny\<rparr>) \<noteq> Inr None"
  using deny_enforced [OF example_platform, of "example_plan\<lparr>evaluation := Some Deny\<rparr>"] example_offset
  by (simp add: is_deny_def offset_ok_def)

text \<open>
  C32: Allowed hours.  At every time the program accepts exactly what the page's own matcher
  accepts for the window of the plan, at the offset that was signed.
\<close>

theorem allowed_hours_agree:
  assumes "keys_32 pf" "offset_ok plan" "encodeTypedSolPolicy pf plan = Inr (Some e)" "allowedTimeWindow plan = Some a"
  shows "\<exists>p. rs_parse (pbytes e) = Inr p \<and> (\<forall>t. enforce_allowed_time p t = Inr () \<longleftrightarrow>
     matchTimeWindow (startHour a) (endHour a) (daysOfWeek a) Inside
       (local_hour (utcOffsetMinutes a) t) (local_day (utcOffsetMinutes a) t))"
proof -
  obtain p where p: "rs_parse (pbytes e) = Inr p" "allowed_time p = Some (seen_window a)"
    using sol_policy_read [OF assms(1-3)] assms(4)
    by (auto simp: intended_policy_def err_simps rs_extensions_t.defs seen_extensions_def Let_def)
  obtain m where "day_bits (daysOfWeek a) = Inr m"
    using assms(3,4) by (auto simp: encodeTypedSolPolicy_def extension_writes_def err_simps Let_def
        writeAllowedTimeExtension_def split: if_splits)
  then have "list_all (\<lambda>d. 0 \<le> d \<and> d \<le> 6) (daysOfWeek a)" by (rule day_bits_days)
  with p show ?thesis by (auto simp: enforce_allowed_time_def allows_timestamp_match)
qed

theorem allowed_hours_agree_witness:
  "\<exists>e p. encodeTypedSolPolicy example_pf example_plan = Inr (Some e) \<and> rs_parse (pbytes e) = Inr p
     \<and> enforce_allowed_time p 378000 = Inr () \<and> enforce_allowed_time p 0 \<noteq> Inr ()"
proof -
  obtain e where e: "encodeTypedSolPolicy example_pf example_plan = Inr (Some e)" using example_plan_encodes by blast
  have "allowedTimeWindow example_plan = Some \<lparr>startHour = 9, endHour = 17, daysOfWeek = [1, 5], utcOffsetMinutes = - 60\<rparr>"
    by (simp add: example_plan_def)
  with allowed_hours_agree [OF example_platform example_offset e] e show ?thesis
    by (auto simp: matchTimeWindow_def local_hour_def local_day_def)
qed

text \<open>
  The limit on one transfer is the limit of the last amount condition for the asset.
  A later condition that has only a minimum replaces the maximum of an earlier one by no limit.
\<close>

theorem last_amount_condition_wins:
  assumes "keys_32 pf" "offset_ok plan" "encodeTypedSolPolicy pf plan = Inr (Some e)" "\<not> is_deny plan"
    and "conditions plan = cs @ AmountCondition mn mx t # ds" "ticker_applies pf sol_asset t"
    and "list_all (\<lambda>c. \<not> limits_amount pf sol_asset c) ds"
  shows "\<exists>p. rs_parse (pbytes e) = Inr p \<and> parse_or_zero mx 9 = Inr (max_amount p)
    \<and> (\<not> truthy mx \<longrightarrow> (\<forall>v. enforce_amount p v = Inr ()))"
proof -
  obtain p s where p: "rs_parse (pbytes e) = Inr p" and s: "plan_limits pf sol_asset plan = Inr s" "max_amount p = maxAmount s"
    using sol_policy_read [OF assms(1-3)] by (auto simp: intended_policy_def err_simps rs_extensions_t.defs)
  have "parse_or_zero mx 9 = Inr (max_amount p)"
    using last_amount [OF s(1) assms(4-7)] s(2) by (simp add: sol_asset_def)
  with p show ?thesis by (auto simp: enforce_amount_def parse_or_zero_def)
qed

theorem last_amount_condition_wins_witness:
  "\<exists>e p. encodeTypedSolPolicy example_pf example_plan = Inr (Some e) \<and> rs_parse (pbytes e) = Inr p
     \<and> enforce_amount p 1000000000000 = Inr ()"
proof -
  obtain e where e: "encodeTypedSolPolicy example_pf example_plan = Inr (Some e)" using example_plan_encodes by blast
  have c: "conditions example_plan = [RecipientCondition Blocklist (Some [js ''B'']), AmountCondition None (Some (js ''1.5'')) None]
      @ AmountCondition (Some (js ''0.1'')) None None # []" "\<not> is_deny example_plan"
    by (simp_all add: example_plan_def is_deny_def)
  have "ticker_applies example_pf sol_asset None" "list_all (\<lambda>c. \<not> limits_amount example_pf sol_asset c) []" "\<not> truthy None"
    by (simp_all add: ticker_applies_def truthy_def)
  with last_amount_condition_wins [OF example_platform example_offset e c(2,1)] e show ?thesis by blast
qed

text \<open>
  The page shows at least the member allowances the program enforces: of the rows it
  decodes, the last are those of the program, whatever the bytes are.
\<close>

theorem member_allowances_shown:
  assumes "rs_parse bs = Inr p"
  shows "\<exists>cs. decodeMemberAllowanceCaps pf bs = Inr (map (shown pf) cs) \<and> suffix (member_caps p) cs"
proof -
  obtain base x where b: "base = 19 + (unat (bs ! 17) + unat (bs ! 18)) * 32" "base \<le> length bs"
    and h: "slice 0 4 bs = [0x43, 0x53, 0x50, 0x31]"
    and x: "rs_parse_extensions (drop base bs) no_extensions = Inr x" and px: "p = header_policy bs base x"
    using assms unfolding rs_parse_iff by blast
  have "nat (num_at bs 17 + num_at bs 18) = unat (bs ! 17) + unat (bs ! 18)"
    using b by (simp add: num_at_nth nat_add_distrib)
  moreover obtain cs where "decode_extensions pf bs base = Inr (map (shown pf) cs)" "suffix (member_caps x) cs"
    using extensions_shown [OF x refl b(2), of pf] by (auto simp: no_extensions_def)
  moreover have "member_caps p = member_caps x" by (simp add: px header_policy_def rs_extensions_t.defs)
  ultimately show ?thesis
    using b h by (intro exI [of _ cs]) (simp add: decodeMemberAllowanceCaps_def MAGIC_def slice_def)
qed

theorem member_allowances_shown_witness:
  "\<exists>e cs. encodeTypedSolPolicy example_pf example_plan = Inr (Some e)
     \<and> decodeMemberAllowanceCaps example_pf (pbytes e) = Inr (map (shown example_pf) cs)"
  using example_plan_encodes sol_policy_read [OF example_platform example_offset] member_allowances_shown by blast

text \<open>
  Appending the rules extension adds the rules and changes nothing else the program reads.
\<close>

theorem rules_extension_appended:
  assumes "rs_parse (pbytes e) = Inr p" "advanced_rules p = None"
    and "rules \<noteq> []" "appendPolicyExtension pf (Some e) 5 rules = Inr f"
  shows "rs_parse (pbytes f) = Inr (p\<lparr>advanced_rules := Some rules\<rparr>)"
  by (rule append_rules_read [OF assms])

theorem rules_extension_appended_witness:
  "\<exists>f p. appendPolicyExtension example_pf (Some \<lparr>pbytes = emptyPolicyBytes, hex = [], commitmentHex = []\<rparr>) 5 [1] = Inr f
     \<and> rs_parse (pbytes f) = Inr p \<and> advanced_rules p = Some [1]"
proof -
  have "js_and 1 255 = 1" "js_ushr 1 8 = 0" by code_simp+
  then have "appendPolicyExtension example_pf (Some \<lparr>pbytes = emptyPolicyBytes, hex = [], commitmentHex = []\<rparr>) 5 [1]
      = encoded_policy example_pf (emptyPolicyBytes @ [5, 1, 0, 1])"
    by (simp add: appendPolicyExtension_def Let_def)
  moreover have "length (emptyPolicyBytes @ [5, 1, 0, 1]) < 2 ^ 32" by (simp add: emptyPolicyBytes_def MAGIC_def)
  ultimately obtain f where f: "appendPolicyExtension example_pf
      (Some \<lparr>pbytes = emptyPolicyBytes, hex = [], commitmentHex = []\<rparr>) 5 [1] = Inr f"
    using encoded_policy_total by metis
  with rules_extension_appended [OF _ _ _ f] empty_policy_read show ?thesis
    by (simp add: rs_extensions_t.defs no_extensions_def)
qed

end
