(* ===== verification/Clear_Envelope.thy ===== *)
theory Clear_Envelope
  imports JS_Utf8 Msig_Hash Field_Codec
begin

text \<open>
  \<open>lib/clearsign/envelopeCodec.ts\<close> and \<open>generatedEnvelope.ts\<close>: the hash a signer's approval
  is bound to, against the Rust original it is generated from
  (\<open>crates/clear-msig-signing/src/hashing.rs\<close>).  SHA-256 is an argument.
\<close>

section \<open>The codec\<close>

text \<open>A value is a \<open>bigint\<close> or a \<open>number\<close>; a number has to be a safe integer.\<close>

datatype numeric = Number int | BigInt int

primrec num_val :: "numeric \<Rightarrow> int" where
  "num_val (Number v) = v"
| "num_val (BigInt v) = v"

definition safe_integer :: "int \<Rightarrow> bool" where
  "safe_integer v \<longleftrightarrow> - (2 ^ 53 - 1) \<le> v \<and> v \<le> 2 ^ 53 - 1"

definition integer :: "numeric \<Rightarrow> nat \<Rightarrow> bool \<Rightarrow> bytes res" where
  "integer v width two =
     (let n = num_val v; bits = 8 * width in
      if (case v of Number k \<Rightarrow> \<not> safe_integer k | BigInt _ \<Rightarrow> False) then Inl (Thrown ''Invalid canonical integer.'')
      else if n < (if two then - (2 ^ (bits - 1)) else 0) \<or> n \<ge> 2 ^ (if two then bits - 1 else bits)
      then Inl (Thrown ''Canonical integer out of range.'')
      else let encoded = take_bit bits n in
        Inr (map (\<lambda>i. word_of_int (drop_bit (i * 8) encoded AND 255)) [0..<width]))"

definition length_bytes :: "bytes \<Rightarrow> bytes res" where
  "length_bytes value = ebind (integer (Number (int (length value))) 4 False) (\<lambda>n. Inr (n @ value))"

definition digest :: "(bytes \<Rightarrow> bytes) \<Rightarrow> bytes list \<Rightarrow> jsstr" where
  "digest sha256 rows = toHex (sha256 (concat rows))"

section \<open>The envelope\<close>

record CanonicalEnvelopeFields =
  kind :: int
  network :: int
  proposal_index :: int
  wallet_name :: bytes
  wallet_id :: bytes
  actor :: bytes
  action_id :: bytes
  nonce :: bytes
  expires_at :: int
  approval_required :: int
  policy_commitment :: bytes
  payload_hash :: bytes
  clear_text_hash :: bytes

definition envelope_context_ok :: "CanonicalEnvelopeFields \<Rightarrow> bool" where
  "envelope_context_ok f \<longleftrightarrow>
     wallet_name f \<noteq> [] \<and> length (wallet_name f) \<le> 64 \<and> list_all (\<lambda>b. \<not> (b < 32 \<or> b > 126)) (wallet_name f)
     \<and> 1 \<le> approval_required f \<and> approval_required f \<le> 16
     \<and> kind f \<in> set [1, 2, 3, 4, 5, 6, 7, 8, 9, 10, 11, 12, 13, 14, 15, 16] \<and> network f \<in> set [1, 2, 3, 4, 5, 6, 7, 8]"

definition need_32 :: "string \<Rightarrow> bytes \<Rightarrow> unit res" where
  "need_32 name bs = guard (length bs = 32) (''Invalid '' @ name @ '' bytes.'')"

definition envelope_rows :: "CanonicalEnvelopeFields \<Rightarrow> bytes list res" where
  "envelope_rows f = emap (\<lambda>r. r)
     [length_bytes (utf8_encode (js ''clearsig:policy-engine:v4'')), integer (Number 4) 1 False,
      integer (Number (kind f)) 1 False, integer (Number (network f)) 1 False,
      integer (BigInt (proposal_index f)) 8 False, length_bytes (wallet_name f), length_bytes (wallet_id f),
      length_bytes (actor f), length_bytes (action_id f), length_bytes (nonce f),
      integer (BigInt (expires_at f)) 8 True, integer (Number (approval_required f)) 1 False,
      Inr (policy_commitment f), Inr (payload_hash f), Inr (clear_text_hash f)]"

definition canonicalEnvelopeHash :: "(bytes \<Rightarrow> bytes) \<Rightarrow> CanonicalEnvelopeFields \<Rightarrow> jsstr res" where
  "canonicalEnvelopeHash sha256 f =
     ebind (guard (envelope_context_ok f) ''Invalid canonical envelope context.'') (\<lambda>_.
     ebind (emap (\<lambda>(n, bs). need_32 n bs)
       [(''wallet_id'', wallet_id f), (''actor'', actor f), (''action_id'', action_id f), (''nonce'', nonce f),
        (''policy_commitment'', policy_commitment f), (''payload_hash'', payload_hash f),
        (''clear_text_hash'', clear_text_hash f)]) (\<lambda>_.
     ebind (envelope_rows f) (\<lambda>rows. Inr (digest sha256 rows))))"

section \<open>The original in Rust\<close>

definition rs_update_bytes :: "bytes \<Rightarrow> bytes" where
  "rs_update_bytes v = le_bytes 4 (int (length v)) @ v"

text \<open>What \<open>envelope_hash\<close> feeds to the hasher.\<close>

definition rs_envelope_preimage :: "CanonicalEnvelopeFields \<Rightarrow> bytes" where
  "rs_envelope_preimage f =
     rs_update_bytes (ascii ''clearsig:policy-engine:v4'') @ [4, word_of_int (kind f), word_of_int (network f)]
     @ le_bytes 8 (proposal_index f) @ rs_update_bytes (wallet_name f) @ rs_update_bytes (wallet_id f)
     @ rs_update_bytes (actor f) @ rs_update_bytes (action_id f) @ rs_update_bytes (nonce f)
     @ le_bytes 8 (expires_at f) @ [word_of_int (approval_required f)]
     @ policy_commitment f @ payload_hash f @ clear_text_hash f"

section \<open>Lemmas\<close>

lemma integer_iff:
  "integer v w s = Inr bs \<longleftrightarrow> (case v of Number k \<Rightarrow> safe_integer k | BigInt _ \<Rightarrow> True)
     \<and> (if s then - (2 ^ (8 * w - 1)) else 0) \<le> num_val v \<and> num_val v < 2 ^ (if s then 8 * w - 1 else 8 * w)
     \<and> bs = le_bytes w (num_val v)"
proof -
  have "map (\<lambda>i. word_of_int (drop_bit (i * 8) (take_bit (8 * w) n) AND 255)) [0..<w] = le_bytes w (take_bit (8 * w) n)" for n :: int
    unfolding le_bytes_map by (rule map_cong) (auto simp: and_255 drop_bit_eq_div word_of_int_mod_byte mult.commute)
  also have "le_bytes w (take_bit (8 * w) n) = le_bytes w n" for n :: int
    using le_bytes_mod [of w n] by (simp add: take_bit_eq_mod power_mult)
  finally show ?thesis by (auto simp: integer_def Let_def split: numeric.splits if_splits)
qed

lemma integer_out:
  "v < (if s then - (2 ^ (8 * w - 1)) else 0) \<or> v \<ge> 2 ^ (if s then 8 * w - 1 else 8 * w) \<Longrightarrow>
    integer (BigInt v) w s = Inl (Thrown ''Canonical integer out of range.'')"
  unfolding integer_def Let_def num_val.simps numeric.case by (simp only: if_True if_False simp_thms)

lemma length_bytes_iff: "length_bytes v = Inr bs \<longleftrightarrow> length v < 2 ^ 32 \<and> bs = rs_update_bytes v"
  by (auto simp: length_bytes_def ebind_Inr_iff integer_iff safe_integer_def rs_update_bytes_def)

lemma rs_update_bytes_inj:
  assumes "rs_update_bytes a @ x = rs_update_bytes b @ y" "length a < 2 ^ 32" "length b < 2 ^ 32"
  shows "a = b \<and> x = y"
proof -
  have "le_bytes 4 (int (length a)) = le_bytes 4 (int (length b))" "a @ x = b @ y"
    using assms(1) by (simp_all add: rs_update_bytes_def append_eq_append_conv)
  moreover then have "int (length a) = int (length b)" using assms(2,3) by (intro le_bytes_inj [of 4]) auto
  ultimately show ?thesis by simp
qed

definition keys_ok :: "CanonicalEnvelopeFields \<Rightarrow> bool" where
  "keys_ok f \<longleftrightarrow> length (wallet_id f) = 32 \<and> length (actor f) = 32 \<and> length (action_id f) = 32 \<and> length (nonce f) = 32
     \<and> length (policy_commitment f) = 32 \<and> length (payload_hash f) = 32 \<and> length (clear_text_hash f) = 32"

definition envelope_ok :: "CanonicalEnvelopeFields \<Rightarrow> bool" where
  "envelope_ok f \<longleftrightarrow> envelope_context_ok f \<and> keys_ok f \<and> 0 \<le> proposal_index f \<and> proposal_index f < 2 ^ 64
     \<and> - (2 ^ 63) \<le> expires_at f \<and> expires_at f < 2 ^ 63"

lemma byte_field: "0 \<le> v \<Longrightarrow> v < 256 \<Longrightarrow> integer (Number v) 1 False = Inr [word_of_int v]"
  by (simp add: integer_iff safe_integer_def)

lemma context_ranges:
  "envelope_context_ok f \<Longrightarrow> 0 \<le> kind f \<and> kind f < 256 \<and> 0 \<le> network f \<and> network f < 256
     \<and> 0 \<le> approval_required f \<and> approval_required f < 256 \<and> length (wallet_name f) < 2 ^ 32"
proof -
  assume c: "envelope_context_ok f"
  have "list_all (\<lambda>v. 0 \<le> v \<and> v < (256 :: int)) [1, 2, 3, 4, 5, 6, 7, 8, 9, 10, 11, 12, 13, 14, 15, 16]" by simp
  then have "0 \<le> kind f \<and> kind f < 256" using c unfolding envelope_context_ok_def list_all_iff by blast
  moreover have "list_all (\<lambda>v. 0 \<le> v \<and> v < (256 :: int)) [1, 2, 3, 4, 5, 6, 7, 8]" by simp
  then have "0 \<le> network f \<and> network f < 256" using c unfolding envelope_context_ok_def list_all_iff by blast
  moreover have "1 \<le> approval_required f" "approval_required f \<le> 16" "length (wallet_name f) \<le> 64"
    using c unfolding envelope_context_ok_def by blast+
  ultimately show ?thesis by simp
qed

lemma envelope_rows_iff:
  assumes "envelope_context_ok f" "keys_ok f"
  shows "ebind (envelope_rows f) (\<lambda>rows. Inr (concat rows)) =
    (if 0 \<le> proposal_index f \<and> proposal_index f < 2 ^ 64 \<and> - (2 ^ 63) \<le> expires_at f \<and> expires_at f < 2 ^ 63
     then Inr (rs_envelope_preimage f) else Inl (Thrown ''Canonical integer out of range.''))"
proof -
  note r = context_ranges [OF assms(1)]
  have b: "integer (Number (kind f)) 1 False = Inr [word_of_int (kind f)]"
    "integer (Number (network f)) 1 False = Inr [word_of_int (network f)]"
    "integer (Number (approval_required f)) 1 False = Inr [word_of_int (approval_required f)]"
    "integer (Number 4) 1 False = Inr [4]"
    using r by (simp_all add: byte_field del: One_nat_def)
  have l: "length_bytes v = Inr (rs_update_bytes v)" if "length v < 2 ^ 32" for v using that by (simp add: length_bytes_iff)
  have d: "length_bytes (utf8_encode (js ''clearsig:policy-engine:v4'')) = Inr (rs_update_bytes (ascii ''clearsig:policy-engine:v4''))"
  proof -
    have "utf8_encode (js ''clearsig:policy-engine:v4'') = ascii ''clearsig:policy-engine:v4''"
      by (simp add: map_ucast_utf8)
    moreover have "length (ascii ''clearsig:policy-engine:v4'') < 2 ^ 32" by simp
    ultimately show ?thesis by (simp only: l)
  qed
  have p: "integer (BigInt (proposal_index f)) 8 False = (if 0 \<le> proposal_index f \<and> proposal_index f < 2 ^ 64
      then Inr (le_bytes 8 (proposal_index f)) else Inl (Thrown ''Canonical integer out of range.''))"
    using integer_out [of "proposal_index f" False 8] by (auto simp: integer_iff not_le not_less simp del: le_bytes.simps)
  have e: "integer (BigInt (expires_at f)) 8 True = (if - (2 ^ 63) \<le> expires_at f \<and> expires_at f < 2 ^ 63
      then Inr (le_bytes 8 (expires_at f)) else Inl (Thrown ''Canonical integer out of range.''))"
    using integer_out [of "expires_at f" True 8] by (auto simp: integer_iff not_le not_less simp del: le_bytes.simps)
  show ?thesis
    using r assms(2) by (simp add: envelope_rows_def b d p e l keys_ok_def rs_envelope_preimage_def
        del: le_bytes.simps One_nat_def js_simps ascii_simps)
qed

lemma canonical_hash_eq:
  "canonicalEnvelopeHash sha256 f = Inr h \<longleftrightarrow> envelope_ok f \<and> h = toHex (sha256 (rs_envelope_preimage f))"
proof (cases "envelope_context_ok f \<and> keys_ok f")
  case True
  then have "canonicalEnvelopeHash sha256 f = ebind (ebind (envelope_rows f) (\<lambda>rows. Inr (concat rows))) (\<lambda>p. Inr (toHex (sha256 p)))"
    by (cases "envelope_rows f") (simp_all add: canonicalEnvelopeHash_def need_32_def keys_ok_def digest_def)
  with True envelope_rows_iff [of f] show ?thesis by (auto simp: envelope_ok_def)
next
  case False
  then show ?thesis
    by (auto simp: canonicalEnvelopeHash_def need_32_def envelope_ok_def keys_ok_def err_simps guard_Inr_iff)
qed

lemma preimage_inj:
  assumes f: "envelope_ok f" and g: "envelope_ok g" and eq: "rs_envelope_preimage f = rs_envelope_preimage g"
  shows "f = g"
proof -
  define tail where "tail h = le_bytes 8 (expires_at h) @ [word_of_int (approval_required h)]
     @ policy_commitment h @ payload_hash h @ clear_text_hash h" for h :: CanonicalEnvelopeFields
  have kf: "envelope_context_ok f" "keys_ok f" and kg: "envelope_context_ok g" "keys_ok g" using f g by (auto simp: envelope_ok_def)
  note rf = context_ranges [OF kf(1)] and rg = context_ranges [OF kg(1)]
  have byte: "v = w" if "(word_of_int v :: byte) = word_of_int w" "0 \<le> v" "v < 256" "0 \<le> w" "w < 256" for v w
    using that by (metis uint_word_of_int_byte mod_pos_pos_trivial)
  have u: "a = b \<and> x = y" if "rs_update_bytes a @ x = rs_update_bytes b @ y" "length a = 32" "length b = 32" for a b x y
    using rs_update_bytes_inj [OF that(1)] that(2,3) by simp
  have "[word_of_int (kind f), word_of_int (network f)] @ le_bytes 8 (proposal_index f) @ rs_update_bytes (wallet_name f)
      @ rs_update_bytes (wallet_id f) @ rs_update_bytes (actor f) @ rs_update_bytes (action_id f) @ rs_update_bytes (nonce f) @ tail f
    = [word_of_int (kind g), word_of_int (network g)] @ le_bytes 8 (proposal_index g) @ rs_update_bytes (wallet_name g)
      @ rs_update_bytes (wallet_id g) @ rs_update_bytes (actor g) @ rs_update_bytes (action_id g) @ rs_update_bytes (nonce g) @ tail g"
    using eq by (simp add: rs_envelope_preimage_def tail_def del: le_bytes.simps)
  then have w: "word_of_int (kind f) = (word_of_int (kind g) :: byte)" "word_of_int (network f) = (word_of_int (network g) :: byte)"
    and p: "le_bytes 8 (proposal_index f) = le_bytes 8 (proposal_index g)"
    and n: "rs_update_bytes (wallet_name f) @ rs_update_bytes (wallet_id f) @ rs_update_bytes (actor f)
      @ rs_update_bytes (action_id f) @ rs_update_bytes (nonce f) @ tail f
    = rs_update_bytes (wallet_name g) @ rs_update_bytes (wallet_id g) @ rs_update_bytes (actor g)
      @ rs_update_bytes (action_id g) @ rs_update_bytes (nonce g) @ tail g"
    by (simp_all add: append_eq_append_conv del: le_bytes.simps)
  note n1 = rs_update_bytes_inj [OF n] 
  have "wallet_name f = wallet_name g \<and> rs_update_bytes (wallet_id f) @ rs_update_bytes (actor f)
      @ rs_update_bytes (action_id f) @ rs_update_bytes (nonce f) @ tail f
    = rs_update_bytes (wallet_id g) @ rs_update_bytes (actor g) @ rs_update_bytes (action_id g) @ rs_update_bytes (nonce g) @ tail g"
    using rf rg by (intro n1) simp_all
  then have names: "wallet_name f = wallet_name g \<and> wallet_id f = wallet_id g \<and> actor f = actor g \<and> action_id f = action_id g
      \<and> nonce f = nonce g \<and> tail f = tail g"
    using kf(2) kg(2) u unfolding keys_ok_def by (metis (no_types, lifting))
  then have t: "le_bytes 8 (expires_at f) = le_bytes 8 (expires_at g)"
      "word_of_int (approval_required f) = (word_of_int (approval_required g) :: byte)"
      "policy_commitment f @ payload_hash f @ clear_text_hash f = policy_commitment g @ payload_hash g @ clear_text_hash g"
    by (simp_all add: tail_def append_eq_append_conv del: le_bytes.simps)
  have "policy_commitment f = policy_commitment g" "payload_hash f = payload_hash g" "clear_text_hash f = clear_text_hash g"
    using t(3) kf(2) kg(2) by (simp_all add: keys_ok_def append_eq_append_conv)
  moreover have "proposal_index f = proposal_index g"
    using p f g by (intro le_bytes_inj [of 8]) (auto simp: envelope_ok_def)
  moreover have "expires_at f = expires_at g"
    using arg_cong [OF t(1), of le_sval] f g by (simp add: envelope_ok_def le_sval_le_bytes del: le_bytes.simps)
  moreover have "kind f = kind g" "network f = network g" "approval_required f = approval_required g"
    using byte [OF w(1)] byte [OF w(2)] byte [OF t(2)] rf rg by blast+
  ultimately show ?thesis using names by (simp add: CanonicalEnvelopeFields.equality)
qed

section \<open>Properties\<close>

text \<open>
  C28: The envelope hash.  The client hashes exactly the bytes the Rust original feeds to its
  hasher, for the envelopes with a valid context and values in range; every other one is refused.
\<close>

theorem envelope_hash_agrees:
  "(\<exists>h. canonicalEnvelopeHash sha256 f = Inr h) = envelope_ok f
   \<and> (envelope_ok f \<longrightarrow> canonicalEnvelopeHash sha256 f = Inr (toHex (sha256 (rs_envelope_preimage f))))"
  using canonical_hash_eq [of sha256 f] by blast

theorem envelope_hash_agrees_witness:
  "\<exists>f. envelope_ok f \<and> canonicalEnvelopeHash (\<lambda>_. [171]) f = Inr (js ''ab'')"
proof -
  let ?k = "replicate 32 0"
  let ?f = "\<lparr>kind = 1, network = 1, proposal_index = 7, wallet_name = [65], wallet_id = ?k, actor = ?k, action_id = ?k, nonce = ?k,
     expires_at = - 1, approval_required = 2, policy_commitment = ?k, payload_hash = ?k, clear_text_hash = ?k\<rparr>"
  have "envelope_ok ?f" by (simp add: envelope_ok_def envelope_context_ok_def keys_ok_def)
  moreover have "toHex [171] = js ''ab''" by code_simp
  ultimately show ?thesis using envelope_hash_agrees [of "\<lambda>_. [171]" ?f] by auto
qed

text \<open>
  C36: An approval is bound to every field of its envelope: two accepted envelopes with the same
  hash are equal in all fields, or a collision of SHA-256 is at hand.
\<close>

theorem envelope_hash_binds:
  assumes "canonicalEnvelopeHash sha256 f = Inr h" "canonicalEnvelopeHash sha256 g = Inr h"
  shows "f = g \<or> (rs_envelope_preimage f \<noteq> rs_envelope_preimage g
    \<and> sha256 (rs_envelope_preimage f) = sha256 (rs_envelope_preimage g))"
  using assms preimage_inj [of f g] by (auto simp: canonical_hash_eq toHex_inj)

theorem envelope_hash_binds_witness:
  "\<exists>f g h. canonicalEnvelopeHash id f = Inr h \<and> canonicalEnvelopeHash id g = Inr h \<and> f = g"
proof -
  let ?k = "replicate 32 0"
  let ?f = "\<lparr>kind = 1, network = 1, proposal_index = 7, wallet_name = [65], wallet_id = ?k, actor = ?k, action_id = ?k, nonce = ?k,
     expires_at = - 1, approval_required = 2, policy_commitment = ?k, payload_hash = ?k, clear_text_hash = ?k\<rparr>"
  have "envelope_ok ?f" by (simp add: envelope_ok_def envelope_context_ok_def keys_ok_def)
  then have h: "canonicalEnvelopeHash id ?f = Inr (toHex (rs_envelope_preimage ?f))" by (simp add: canonical_hash_eq)
  from envelope_hash_binds [OF h h] h show ?thesis by blast
qed

end
