(* ===== verification/Request_Recovery.thy ===== *)
theory Request_Recovery
  imports JS_Utf8 Msig_Hash
begin

text \<open>
  \<open>lib/clearsign/requestRecovery.ts\<close>: the store that remembers requests whose outcome is
  not known, so that a change is not submitted twice.  The class is a record, its methods are
  functions on it, and a browser tab is a sequence of method calls (\<open>step\<close>, \<open>reach\<close>).

  The key parser, base58 and SHA-256 are arguments.  A stored value is the list of the objects
  \<open>JSON.parse\<close> gives, with the fields that are strings; \<open>None\<close> is a text that is not
  the JSON of an array.  The listeners only draw the page again and are left out.
\<close>

record oracles =
  publicKey :: "jsstr \<Rightarrow> bytes option"
  toBase58 :: "bytes \<Rightarrow> jsstr"
  sha256 :: "bytes \<Rightarrow> bytes"

section \<open>The store\<close>

datatype phase = Execution | Vote

datatype outcome = Unknown | Submitted

record SavedRequest =
  key :: jsstr
  accountKey :: jsstr
  walletName :: jsstr
  endpoint :: jsstr
  label :: jsstr
  proposal :: jsstr
  outcome :: outcome
  phase :: "phase option"
  actor :: "jsstr option"
  vote :: "jsstr option"
  voteContext :: "jsstr option"
  txid :: "jsstr option"

record stored_object =
  s_key :: "jsstr option"
  s_accountKey :: "jsstr option"
  s_walletName :: "jsstr option"
  s_endpoint :: "jsstr option"
  s_label :: "jsstr option"
  s_proposal :: "jsstr option"
  s_outcome :: "jsstr option"
  s_phase :: "jsstr option"
  s_actor :: "jsstr option"
  s_vote :: "jsstr option"
  s_voteContext :: "jsstr option"
  s_txid :: "jsstr option"

text \<open>The argument of \<open>begin\<close>; \<open>identityJson\<close> is the JSON text the key is the hash of.\<close>

record request_input =
  i_walletName :: jsstr
  i_endpoint :: jsstr
  i_accountKey :: jsstr
  i_label :: jsstr
  identityJson :: jsstr
  i_phase :: "phase option"
  i_actor :: "jsstr option"
  i_vote :: "jsstr option"
  i_voteContext :: "jsstr option"

text \<open>The closure \<open>begin\<close> returns: its variables.\<close>

record attempt =
  a_key :: jsstr
  a_input :: request_input
  finished :: bool

record store =
  entries :: "SavedRequest list"
  loaded :: bool
  running :: "jsstr set"
  attempts :: "attempt list"
  stored :: "stored_object list option"
  writable :: bool

datatype recovery_error =
    SavedProposal jsstr bool
  | AlreadyPrepared
  | WaitForCurrent
  | MayBeSubmitted
  | AttemptEnded
  | InvalidKey

section \<open>Reading and writing the storage\<close>

definition hex64 :: "jsstr \<Rightarrow> bool" where
  "hex64 s \<longleftrightarrow> length s = 64 \<and> list_all is_hex s"

definition base58_char :: "16 word \<Rightarrow> bool" where
  "base58_char c \<longleftrightarrow> c \<in> set (js ''123456789ABCDEFGHJKLMNPQRSTUVWXYZabcdefghijkmnopqrstuvwxyz'')"

definition txid_ok :: "jsstr \<Rightarrow> bool" where
  "txid_ok s \<longleftrightarrow> 64 \<le> length s \<and> length s \<le> 88 \<and> list_all base58_char s"

definition phase_text :: "phase \<Rightarrow> jsstr" where
  "phase_text p = (case p of Execution \<Rightarrow> js ''execution'' | Vote \<Rightarrow> js ''vote'')"

definition outcome_text :: "outcome \<Rightarrow> jsstr" where
  "outcome_text p = (case p of Unknown \<Rightarrow> js ''unknown'' | Submitted \<Rightarrow> js ''submitted'')"

definition matches :: "(jsstr \<Rightarrow> bool) \<Rightarrow> jsstr option \<Rightarrow> bool" where
  "matches p s = (case s of None \<Rightarrow> False | Some x \<Rightarrow> p x)"

text \<open>The filter of \<open>snapshot\<close>.\<close>

definition object_ok :: "oracles \<Rightarrow> stored_object \<Rightarrow> bool" where
  "object_ok orc v \<longleftrightarrow>
     matches hex64 (s_key v) \<and> matches hex64 (s_accountKey v)
     \<and> s_walletName v \<noteq> None \<and> s_endpoint v \<noteq> None \<and> s_label v \<noteq> None
     \<and> matches (\<lambda>x. x = js ''unknown'' \<or> x = js ''submitted'') (s_outcome v)
     \<and> (s_phase v = None \<or> s_phase v = Some (js ''execution'') \<or> s_phase v = Some (js ''vote''))
     \<and> (s_phase v = Some (js ''vote'') \<longrightarrow> s_actor v \<noteq> None
          \<and> matches (\<lambda>x. x = js ''approve'' \<or> x = js ''cancel'') (s_vote v) \<and> matches hex64 (s_voteContext v))
     \<and> matches (\<lambda>p. map_option (toBase58 orc) (publicKey orc p) = Some p) (s_proposal v)"

definition object_entry :: "stored_object \<Rightarrow> SavedRequest" where
  "object_entry v =
     \<lparr>key = the (s_key v), accountKey = the (s_accountKey v), walletName = the (s_walletName v),
      endpoint = the (s_endpoint v), label = the (s_label v), proposal = the (s_proposal v),
      outcome = (if s_outcome v = Some (js ''submitted'') then Submitted else Unknown),
      phase = (if s_phase v = Some (js ''execution'') then Some Execution
               else if s_phase v = Some (js ''vote'') then Some Vote else None),
      actor = s_actor v, vote = s_vote v, voteContext = s_voteContext v,
      txid = (if matches txid_ok (s_txid v) then s_txid v else None)\<rparr>"

definition load_entries :: "oracles \<Rightarrow> stored_object list option \<Rightarrow> SavedRequest list" where
  "load_entries orc vs = (case vs of None \<Rightarrow> []
     | Some xs \<Rightarrow> map object_entry (filter (object_ok orc) (take 100 xs)))"

text \<open>\<open>JSON.stringify\<close> of an entry: a field that is \<open>undefined\<close> is left out.\<close>

definition entry_object :: "SavedRequest \<Rightarrow> stored_object" where
  "entry_object e =
     \<lparr>s_key = Some (key e), s_accountKey = Some (accountKey e), s_walletName = Some (walletName e),
      s_endpoint = Some (endpoint e), s_label = Some (label e), s_proposal = Some (proposal e),
      s_outcome = Some (outcome_text (outcome e)), s_phase = map_option phase_text (phase e),
      s_actor = actor e, s_vote = vote e, s_voteContext = voteContext e, s_txid = txid e\<rparr>"

definition snapshot :: "oracles \<Rightarrow> store \<Rightarrow> store" where
  "snapshot orc s = (if loaded s then s else s\<lparr>loaded := True, entries := load_entries orc (stored s)\<rparr>)"

definition update_entries :: "(SavedRequest list \<Rightarrow> SavedRequest list) \<Rightarrow> oracles \<Rightarrow> store \<Rightarrow> store" where
  "update_entries f orc s =
     (let s = snapshot orc s; es = f (entries s); s = s\<lparr>entries := es\<rparr> in
      if writable s then s\<lparr>stored := Some (map entry_object es)\<rparr> else s)"

section \<open>The methods\<close>

definition acknowledgeSeparateRequest :: "oracles \<Rightarrow> jsstr \<Rightarrow> store \<Rightarrow> recovery_error + store" where
  "acknowledgeSeparateRequest orc k s =
     (if k \<in> running s then Inl WaitForCurrent
      else if \<exists>e \<in> set (entries (snapshot orc s)). key e = k \<and> (phase e = Some Execution \<or> phase e = Some Vote)
      then Inl MayBeSubmitted
      else Inr (update_entries (filter (\<lambda>e. key e \<noteq> k)) orc s))"

definition votesFor :: "oracles \<Rightarrow> jsstr \<Rightarrow> jsstr \<Rightarrow> store \<Rightarrow> SavedRequest list" where
  "votesFor orc ep p s =
     filter (\<lambda>e. phase e = Some Vote \<and> endpoint e = ep \<and> proposal e = p) (entries (snapshot orc s))"

definition voteFor :: "oracles \<Rightarrow> jsstr \<Rightarrow> jsstr \<Rightarrow> jsstr \<Rightarrow> store \<Rightarrow> SavedRequest option" where
  "voteFor orc ep p who s = List.find (\<lambda>e. actor e = Some who) (votesFor orc ep p s)"

definition resolveVote :: "oracles \<Rightarrow> jsstr \<Rightarrow> store \<Rightarrow> store" where
  "resolveVote orc k = update_entries (filter (\<lambda>e. \<not> (phase e = Some Vote \<and> key e = k))) orc"

definition executionFor :: "oracles \<Rightarrow> jsstr \<Rightarrow> jsstr \<Rightarrow> store \<Rightarrow> SavedRequest option" where
  "executionFor orc ep p s =
     List.find (\<lambda>e. phase e = Some Execution \<and> endpoint e = ep \<and> proposal e = p) (entries (snapshot orc s))"

definition resolveExecution :: "oracles \<Rightarrow> jsstr \<Rightarrow> jsstr \<Rightarrow> store \<Rightarrow> store" where
  "resolveExecution orc ep p =
     update_entries (filter (\<lambda>e. \<not> (phase e = Some Execution \<and> endpoint e = ep \<and> proposal e = p))) orc"

definition request_key :: "oracles \<Rightarrow> request_input \<Rightarrow> jsstr" where
  "request_key orc i = toHex (sha256 orc (utf8_encode (identityJson i)))"

text \<open>\<open>begin\<close> hands out the attempt behind those handed out before.\<close>

definition begin_request :: "oracles \<Rightarrow> request_input \<Rightarrow> store \<Rightarrow> recovery_error + store" where
  "begin_request orc i s =
     (let k = request_key orc i; s = snapshot orc s in
      case List.find (\<lambda>e. key e = k) (entries s) of
        Some saved \<Rightarrow> Inl (SavedProposal (proposal saved) (outcome saved = Submitted))
      | None \<Rightarrow>
          if k \<in> running s then Inl AlreadyPrepared
          else Inr (s\<lparr>running := insert k (running s),
                      attempts := attempts s @ [\<lparr>a_key = k, a_input = i, finished = False\<rparr>]\<rparr>))"

definition saved_entry :: "attempt \<Rightarrow> jsstr \<Rightarrow> outcome \<Rightarrow> jsstr option \<Rightarrow> SavedRequest" where
  "saved_entry a p r tx =
     (let i = a_input a; is_vote = (i_phase i = Some Vote) in
      \<lparr>key = a_key a, accountKey = i_accountKey i, walletName = i_walletName i, endpoint = i_endpoint i,
       label = i_label i, proposal = p, outcome = r, phase = i_phase i,
       actor = (if is_vote then i_actor i else None), vote = (if is_vote then i_vote i else None),
       voteContext = (if is_vote then i_voteContext i else None),
       txid = (if truthy tx then tx else None)\<rparr>)"

definition save :: "oracles \<Rightarrow> attempt \<Rightarrow> jsstr \<Rightarrow> outcome \<Rightarrow> jsstr option \<Rightarrow> store \<Rightarrow> recovery_error + store" where
  "save orc a p r tx s =
     (if finished a then Inl AttemptEnded
      else if publicKey orc p = None then Inl InvalidKey
      else Inr (update_entries (\<lambda>es. filter (\<lambda>e. key e \<noteq> a_key a) es @ [saved_entry a p r tx]) orc s))"

definition complete_attempt :: "oracles \<Rightarrow> attempt \<Rightarrow> store \<Rightarrow> store" where
  "complete_attempt orc a = update_entries (filter (\<lambda>e. key e \<noteq> a_key a)) orc"

definition finish_attempt :: "nat \<Rightarrow> store \<Rightarrow> store" where
  "finish_attempt n s =
     (let a = attempts s ! n in
      s\<lparr>attempts := (attempts s)[n := a\<lparr>finished := True\<rparr>], running := running s - {a_key a}\<rparr>)"

section \<open>A tab as a state machine\<close>

text \<open>A call of a method; an attempt is named by its position.\<close>

datatype event =
    Snapshot
  | Acknowledge jsstr
  | ResolveVote jsstr
  | ResolveExecution jsstr jsstr
  | Begin request_input
  | Submitting nat jsstr
  | Accepted nat jsstr "jsstr option"
  | Complete nat
  | Finish nat

text \<open>
  A call that throws changes nothing but the loading of the store.  The pages finish an
  attempt once, in a \<open>finally\<close>; the step relation asks for it.
\<close>

definition or_same :: "oracles \<Rightarrow> store \<Rightarrow> recovery_error + store \<Rightarrow> store" where
  "or_same orc s r = (case r of Inl AttemptEnded \<Rightarrow> s | Inl InvalidKey \<Rightarrow> s | Inl WaitForCurrent \<Rightarrow> s
     | Inl _ \<Rightarrow> snapshot orc s | Inr t \<Rightarrow> t)"

inductive step :: "oracles \<Rightarrow> store \<Rightarrow> event \<Rightarrow> store \<Rightarrow> bool" for orc where
  snapshot: "step orc s Snapshot (snapshot orc s)"
| acknowledge: "step orc s (Acknowledge k) (or_same orc s (acknowledgeSeparateRequest orc k s))"
| resolve_vote: "step orc s (ResolveVote k) (resolveVote orc k s)"
| resolve_execution: "step orc s (ResolveExecution ep p) (resolveExecution orc ep p s)"
| start: "step orc s (Begin i) (or_same orc s (begin_request orc i s))"
| submitting: "n < length (attempts s) \<Longrightarrow>
    step orc s (Submitting n p) (or_same orc s (save orc (attempts s ! n) p Unknown None s))"
| accepted: "n < length (attempts s) \<Longrightarrow>
    step orc s (Accepted n p tx) (or_same orc s (save orc (attempts s ! n) p Submitted tx s))"
| complete: "n < length (attempts s) \<Longrightarrow> step orc s (Complete n) (complete_attempt orc (attempts s ! n) s)"
| finish: "n < length (attempts s) \<Longrightarrow> \<not> finished (attempts s ! n) \<Longrightarrow> step orc s (Finish n) (finish_attempt n s)"

inductive_cases step_cases: "step orc s ev t"

inductive steps :: "oracles \<Rightarrow> store \<Rightarrow> event list \<Rightarrow> store \<Rightarrow> bool" for orc where
  none: "steps orc s [] s"
| more: "steps orc s evs t \<Longrightarrow> step orc t ev u \<Longrightarrow> steps orc s (evs @ [ev]) u"

definition fresh :: "stored_object list option \<Rightarrow> bool \<Rightarrow> store" where
  "fresh vs w = \<lparr>entries = [], loaded = False, running = {}, attempts = [], stored = vs, writable = w\<rparr>"

section \<open>Basic facts\<close>

lemma snapshot_simps [simp]:
  "loaded (snapshot orc s)" "running (snapshot orc s) = running s" "attempts (snapshot orc s) = attempts s"
  "stored (snapshot orc s) = stored s" "writable (snapshot orc s) = writable s"
  "loaded s \<Longrightarrow> snapshot orc s = s" "snapshot orc (snapshot orc s) = snapshot orc s"
  by (simp_all add: snapshot_def)

lemma update_simps [simp]:
  "loaded (update_entries f orc s)" "running (update_entries f orc s) = running s"
  "attempts (update_entries f orc s) = attempts s" "writable (update_entries f orc s) = writable s"
  "entries (update_entries f orc s) = f (entries (snapshot orc s))"
  by (simp_all add: update_entries_def Let_def)

lemma find_key_None: "List.find (\<lambda>e. key e = k) es = None \<longleftrightarrow> k \<notin> key ` set es"
  by (auto simp: find_None_iff)

lemma begin_cases:
  obtains (refused) err where "begin_request orc i s = Inl err" "or_same orc s (begin_request orc i s) = snapshot orc s"
  | (begun) "begin_request orc i s = Inr ((snapshot orc s)\<lparr>running := insert (request_key orc i) (running s),
        attempts := attempts s @ [\<lparr>a_key = request_key orc i, a_input = i, finished = False\<rparr>]\<rparr>)"
      "request_key orc i \<notin> running s" "request_key orc i \<notin> key ` set (entries (snapshot orc s))"
proof (cases "List.find (\<lambda>e. key e = request_key orc i) (entries (snapshot orc s))")
  case None
  then have no: "request_key orc i \<notin> key ` set (entries (snapshot orc s))" by (simp only: find_key_None simp_thms)
  show thesis
  proof (cases "request_key orc i \<in> running s")
    case True
    with None refused show thesis by (auto simp: begin_request_def or_same_def Let_def)
  next
    case False
    show thesis by (rule begun [OF _ False no]) (simp add: begin_request_def Let_def None False)
  qed
next
  case (Some e)
  with refused show thesis by (auto simp: begin_request_def or_same_def Let_def)
qed

lemma save_cases:
  obtains (refused) err where "save orc a p r tx s = Inl err" "or_same orc s (save orc a p r tx s) = s"
  | (saved) "\<not> finished a" "publicKey orc p \<noteq> None" "or_same orc s (save orc a p r tx s) =
       update_entries (\<lambda>es. filter (\<lambda>e. key e \<noteq> a_key a) es @ [saved_entry a p r tx]) orc s"
  by (cases "finished a"; cases "publicKey orc p") (auto simp: save_def or_same_def)

lemma acknowledge_cases:
  obtains (refused) err where "acknowledgeSeparateRequest orc k s = Inl err"
      "or_same orc s (acknowledgeSeparateRequest orc k s) \<in> {s, snapshot orc s}"
  | (dropped) "k \<notin> running s" "\<forall>e \<in> set (entries (snapshot orc s)). key e = k \<longrightarrow> phase e = None"
      "or_same orc s (acknowledgeSeparateRequest orc k s) = update_entries (filter (\<lambda>e. key e \<noteq> k)) orc s"
proof -
  have ph: "phase e = Some Execution \<or> phase e = Some Vote \<longleftrightarrow> phase e \<noteq> None" for e
    by (metis (full_types) option.exhaust option.distinct(1) phase.exhaust)
  consider "k \<in> running s" | "k \<notin> running s" "\<exists>e \<in> set (entries (snapshot orc s)). key e = k \<and> phase e \<noteq> None"
    | "k \<notin> running s" "\<forall>e \<in> set (entries (snapshot orc s)). key e = k \<longrightarrow> phase e = None" by blast
  then show thesis
  proof cases
    case 1
    then show thesis by (intro refused [of WaitForCurrent]) (simp_all add: acknowledgeSeparateRequest_def or_same_def)
  next
    case 2
    then show thesis by (intro refused [of MayBeSubmitted]) (simp_all add: acknowledgeSeparateRequest_def or_same_def ph)
  next
    case 3
    then show thesis by (intro dropped) (auto simp: acknowledgeSeparateRequest_def or_same_def ph)
  qed
qed

lemma saved_entry_simps [simp]: "key (saved_entry a p r tx) = a_key a" "phase (saved_entry a p r tx) = i_phase (a_input a)"
  by (simp_all add: saved_entry_def Let_def)

section \<open>Attempts\<close>

text \<open>The live attempts have different keys, and their keys are those the store has as running.\<close>

definition live :: "store \<Rightarrow> nat \<Rightarrow> bool" where
  "live s n \<longleftrightarrow> n < length (attempts s) \<and> \<not> finished (attempts s ! n)"

definition attempts_ok :: "store \<Rightarrow> bool" where
  "attempts_ok s \<longleftrightarrow> running s = {k. \<exists>n. live s n \<and> a_key (attempts s ! n) = k}
     \<and> (\<forall>m n. live s m \<longrightarrow> live s n \<longrightarrow> a_key (attempts s ! m) = a_key (attempts s ! n) \<longrightarrow> m = n)"

lemma attempts_ok_cong: "running s = running t \<Longrightarrow> attempts s = attempts t \<Longrightarrow> attempts_ok s \<longleftrightarrow> attempts_ok t"
  by (simp add: attempts_ok_def live_def)

lemma live_append: "live (s\<lparr>running := r, attempts := attempts s @ [a]\<rparr>) n \<longleftrightarrow> live s n \<or> (n = length (attempts s) \<and> \<not> finished a)"
  by (auto simp: live_def nth_append less_Suc_eq)

lemma attempts_ok_begin:
  assumes "attempts_ok s" "k \<notin> running s"
  shows "attempts_ok (s\<lparr>running := insert k (running s), attempts := attempts s @ [\<lparr>a_key = k, a_input = i, finished = False\<rparr>]\<rparr>)"
proof -
  have "live s n \<Longrightarrow> n < length (attempts s)" for n by (simp add: live_def)
  with assms show ?thesis
    unfolding attempts_ok_def live_append by (auto simp: nth_append)
qed

lemma attempts_ok_finish:
  assumes "attempts_ok s" "live s n"
  shows "attempts_ok (finish_attempt n s)"
proof -
  have n: "n < length (attempts s)" using assms(2) by (simp add: live_def)
  have "live (finish_attempt n s) m \<longleftrightarrow> live s m \<and> m \<noteq> n" for m
    using n by (auto simp: live_def finish_attempt_def Let_def nth_list_update)
  moreover have "a_key (attempts (finish_attempt n s) ! m) = a_key (attempts s ! m)" for m
    using n by (auto simp: finish_attempt_def Let_def nth_list_update)
  moreover have "running (finish_attempt n s) = running s - {a_key (attempts s ! n)}"
    by (simp add: finish_attempt_def Let_def)
  ultimately show ?thesis using assms unfolding attempts_ok_def by auto
qed

lemma step_attempts_ok: "step orc s ev t \<Longrightarrow> attempts_ok s \<Longrightarrow> attempts_ok t"
proof (induction rule: step.induct)
  case (start s i)
  show ?case
  proof (cases rule: begin_cases [of orc i s])
    case refused
    with start show ?thesis by (simp add: attempts_ok_cong [of "snapshot orc s" s])
  next
    case begun
    have "attempts_ok (snapshot orc s)" using start by (simp add: attempts_ok_cong [of "snapshot orc s" s])
    from attempts_ok_begin [OF this, of "request_key orc i" i] begun show ?thesis by (simp add: or_same_def)
  qed
next
  case (acknowledge s k)
  then show ?case
    by (cases rule: acknowledge_cases [of orc k s]) (auto simp: attempts_ok_cong [of "snapshot orc s" s] attempts_ok_cong [of "update_entries f orc s" s for f])
next
  case (submitting n s p)
  then show ?case
    by (cases rule: save_cases [of orc "attempts s ! n" p Unknown None s]) (auto simp: attempts_ok_cong [of "update_entries f orc s" s for f])
next
  case (accepted n s p tx)
  then show ?case
    by (cases rule: save_cases [of orc "attempts s ! n" p Submitted tx s]) (auto simp: attempts_ok_cong [of "update_entries f orc s" s for f])
next
  case (finish n s)
  then show ?case by (intro attempts_ok_finish) (simp_all add: live_def)
qed (simp_all add: resolveVote_def resolveExecution_def complete_attempt_def attempts_ok_cong [of "snapshot orc s" s for s]
    attempts_ok_cong [of "update_entries f orc s" s for f s])

section \<open>Keys of the entries\<close>

lemma distinct_filter_key: "distinct (map key es) \<Longrightarrow> distinct (map key (filter P es))"
  by (induction es) auto

lemma distinct_load:
  assumes "distinct (map s_key vs)"
  shows "distinct (map key (load_entries orc (Some vs)))"
proof -
  have "key (object_entry v) = the (s_key v) \<and> s_key v \<noteq> None" if "object_ok orc v" for v
    using that by (auto simp: object_entry_def object_ok_def matches_def split: option.splits)
  then have "map Some (map key (map object_entry (filter (object_ok orc) ws))) = map s_key (filter (object_ok orc) ws)" for ws
    by (induction ws) auto
  moreover have "distinct (map s_key (filter (object_ok orc) (take 100 vs)))"
    using assms distinct_take [of "map s_key vs" 100] by (simp add: take_map distinct_map_filter)
  ultimately show ?thesis by (metis distinct_map load_entries_def option.simps(5))
qed

definition keys_distinct :: "oracles \<Rightarrow> store \<Rightarrow> bool" where
  "keys_distinct orc s \<longleftrightarrow> distinct (map key (entries (snapshot orc s)))"

lemma keys_distinct_update:
  "keys_distinct orc s \<Longrightarrow> keys_distinct orc (update_entries (filter P) orc s)"
  by (simp add: keys_distinct_def distinct_filter_key)

lemma keys_distinct_save:
  "keys_distinct orc s \<Longrightarrow> keys_distinct orc (update_entries (\<lambda>es. filter (\<lambda>e. key e \<noteq> a_key a) es @ [saved_entry a p r tx]) orc s)"
  by (auto simp: keys_distinct_def distinct_filter_key)

lemma snapshot_update [simp]: "entries (snapshot orc (s\<lparr>running := r, attempts := as\<rparr>)) = entries (snapshot orc s)"
  by (simp add: snapshot_def)

lemma step_keys_distinct: "step orc s ev t \<Longrightarrow> keys_distinct orc s \<Longrightarrow> keys_distinct orc t"
proof (induction rule: step.induct)
  case (start s i)
  then show ?case
    by (cases rule: begin_cases [of orc i s]) (auto simp: keys_distinct_def or_same_def snapshot_def)
next
  case (acknowledge s k)
  then show ?case
    by (cases rule: acknowledge_cases [of orc k s]) (auto simp: keys_distinct_def distinct_filter_key)
next
  case (submitting n s p)
  then show ?case
    by (cases rule: save_cases [of orc "attempts s ! n" p Unknown None s]) (auto simp: keys_distinct_save)
next
  case (accepted n s p tx)
  then show ?case
    by (cases rule: save_cases [of orc "attempts s ! n" p Submitted tx s]) (auto simp: keys_distinct_save)
next
  case (finish n s)
  then show ?case by (auto simp: keys_distinct_def finish_attempt_def snapshot_def Let_def split: if_splits)
qed (auto simp: resolveVote_def resolveExecution_def complete_attempt_def keys_distinct_update keys_distinct_def
    distinct_filter_key)

section \<open>An entry with a phase blocks its change\<close>

definition guarded :: "jsstr \<Rightarrow> store \<Rightarrow> bool" where
  "guarded k s \<longleftrightarrow> loaded s \<and> (\<exists>e \<in> set (entries s). key e = k \<and> phase e \<noteq> None)
     \<and> (\<forall>n. live s n \<longrightarrow> a_key (attempts s ! n) = k \<longrightarrow> i_phase (a_input (attempts s ! n)) \<noteq> None)"

text \<open>The calls that say that the outcome of the change is known.\<close>

definition releases :: "store \<Rightarrow> jsstr \<Rightarrow> event \<Rightarrow> bool" where
  "releases s k ev = (case ev of ResolveVote k' \<Rightarrow> k' = k | ResolveExecution ep p \<Rightarrow>
        (\<exists>e \<in> set (entries (s :: store)). key e = k \<and> endpoint e = ep \<and> proposal e = p)
     | Complete n \<Rightarrow> a_key (attempts s ! n) = k | _ \<Rightarrow> False)"

lemma guarded_save:
  assumes g: "guarded k s" and a: "live s n"
  shows "guarded k (update_entries (\<lambda>es. filter (\<lambda>e. key e \<noteq> a_key (attempts s ! n)) es @ [saved_entry (attempts s ! n) p r tx]) orc s)"
proof -
  have "live (update_entries f orc s) m \<longleftrightarrow> live s m" for f m by (simp add: live_def)
  with g a show ?thesis by (auto simp: guarded_def)
qed

lemma guarded_filter:
  assumes "guarded k s" "\<And>e. e \<in> set (entries s) \<Longrightarrow> key e = k \<Longrightarrow> phase e \<noteq> None \<Longrightarrow> P e"
  shows "guarded k (update_entries (filter P) orc s)"
proof -
  have "live (update_entries (filter P) orc s) m \<longleftrightarrow> live s m" for m by (simp add: live_def)
  with assms show ?thesis by (auto simp: guarded_def)
qed

lemma step_guarded: "step orc s ev t \<Longrightarrow> guarded k s \<Longrightarrow> \<not> releases s k ev \<Longrightarrow> guarded k t"
proof (induction rule: step.induct)
  case (snapshot s)
  then show ?case by (simp add: guarded_def)
next
  case (acknowledge s k')
  have [simp]: "snapshot orc s = s" using acknowledge by (simp add: guarded_def)
  show ?case
  proof (cases rule: acknowledge_cases [of orc k' s])
    case refused
    with acknowledge show ?thesis by auto
  next
    case dropped
    then have "k' \<noteq> k" using acknowledge by (auto simp: guarded_def)
    with dropped acknowledge show ?thesis by (auto intro!: guarded_filter)
  qed
next
  case (resolve_vote s k')
  then show ?case by (auto simp: resolveVote_def releases_def intro!: guarded_filter)
next
  case (resolve_execution s ep p)
  then show ?case by (auto simp: resolveExecution_def releases_def intro!: guarded_filter)
next
  case (start s i)
  have [simp]: "snapshot orc s = s" using start by (simp add: guarded_def)
  show ?case
  proof (cases rule: begin_cases [of orc i s])
    case refused
    with start show ?thesis by simp
  next
    case begun
    then have "request_key orc i \<noteq> k" using start by (auto simp: guarded_def)
    moreover have "live s n \<Longrightarrow> n < length (attempts s)" for n by (simp add: live_def)
    ultimately show ?thesis using start begun
      by (auto simp: or_same_def guarded_def live_append nth_append)
  qed
next
  case (submitting n s p)
  then show ?case
    by (cases rule: save_cases [of orc "attempts s ! n" p Unknown None s]) (auto simp: live_def intro!: guarded_save)
next
  case (accepted n s p tx)
  then show ?case
    by (cases rule: save_cases [of orc "attempts s ! n" p Submitted tx s]) (auto simp: live_def intro!: guarded_save)
next
  case (complete n s)
  then show ?case by (auto simp: complete_attempt_def releases_def intro!: guarded_filter)
next
  case (finish n s)
  then have "live (finish_attempt n s) m \<Longrightarrow> live s m \<and> attempts (finish_attempt n s) ! m = attempts s ! m" for m
    by (auto simp: live_def finish_attempt_def Let_def nth_list_update split: if_splits)
  with finish show ?case by (auto simp: guarded_def finish_attempt_def Let_def) 
qed

inductive unreleased :: "oracles \<Rightarrow> jsstr \<Rightarrow> store \<Rightarrow> store \<Rightarrow> bool" for orc k where
  stay: "unreleased orc k s s"
| continue: "unreleased orc k s t \<Longrightarrow> step orc t ev u \<Longrightarrow> \<not> releases t k ev \<Longrightarrow> unreleased orc k s u"

lemma unreleased_guarded: "unreleased orc k s t \<Longrightarrow> guarded k s \<Longrightarrow> guarded k t"
  by (induction rule: unreleased.induct) (auto intro: step_guarded)

lemma guarded_refuses:
  assumes "guarded k t" "request_key orc i = k"
  shows "(\<exists>p b. begin_request orc i t = Inl (SavedProposal p b)) \<and> is_ok (acknowledgeSeparateRequest orc k t) = False"
proof -
  have [simp]: "snapshot orc t = t" using assms by (simp add: guarded_def)
  have "List.find (\<lambda>e. key e = k) (entries t) \<noteq> None"
    using assms(1) by (auto simp: guarded_def find_key_None image_iff simp del: not_None_eq)
  then obtain e where "List.find (\<lambda>e. key e = k) (entries t) = Some e" by auto
  then have "begin_request orc i t = Inl (SavedProposal (proposal e) (outcome e = Submitted))"
    using assms(2) by (simp add: begin_request_def Let_def)
  moreover have "is_ok (acknowledgeSeparateRequest orc k t) = False"
    using assms(1) by (cases rule: acknowledge_cases [of orc k t])
      (auto simp: guarded_def acknowledgeSeparateRequest_def is_ok_def)
  ultimately show ?thesis by blast
qed

section \<open>Reachable states\<close>

lemma fresh_ok [simp]: "attempts_ok (fresh vs w)"
  by (simp add: attempts_ok_def live_def fresh_def)

lemma steps_attempts_ok: "steps orc s evs t \<Longrightarrow> attempts_ok s \<Longrightarrow> attempts_ok t"
  by (induction rule: steps.induct) (auto intro: step_attempts_ok)

lemma steps_keys_distinct: "steps orc s evs t \<Longrightarrow> keys_distinct orc s \<Longrightarrow> keys_distinct orc t"
  by (induction rule: steps.induct) (auto intro: step_keys_distinct)

lemma fresh_keys_distinct: "distinct (map s_key vs) \<Longrightarrow> keys_distinct orc (fresh (Some vs) w)"
  by (simp add: keys_distinct_def snapshot_def fresh_def distinct_load)

lemma submitting_guards:
  assumes ok: "attempts_ok s" and n: "live s n" and ph: "i_phase (a_input (attempts s ! n)) \<noteq> None"
    and st: "step orc s (Submitting n p) s'" and p: "publicKey orc p \<noteq> None"
  shows "guarded (a_key (attempts s ! n)) s'"
proof -
  have t: "s' = update_entries (\<lambda>es. filter (\<lambda>e. key e \<noteq> a_key (attempts s ! n)) es @ [saved_entry (attempts s ! n) p Unknown None]) orc s"
    using st n p by (auto elim!: step_cases simp: live_def save_def or_same_def)
  have "live s' m \<longleftrightarrow> live s m" for m by (simp add: t live_def)
  with ok n ph show ?thesis by (auto simp: t guarded_def attempts_ok_def)
qed

section \<open>Properties\<close>

text \<open>
  C8: A tab never works on the same change twice at once.  In every state a tab can reach the live
  attempts have different keys, the running set is exactly their keys, and no key is saved twice.
\<close>

theorem one_attempt_per_change:
  assumes "steps orc (fresh (Some vs) w) evs s" "distinct (map s_key vs)"
  shows "running s = {k. \<exists>n. live s n \<and> a_key (attempts s ! n) = k}
    \<and> (\<forall>m n. live s m \<longrightarrow> live s n \<longrightarrow> a_key (attempts s ! m) = a_key (attempts s ! n) \<longrightarrow> m = n)
    \<and> distinct (map key (entries (snapshot orc s)))"
  using steps_attempts_ok [OF assms(1) fresh_ok] steps_keys_distinct [OF assms(1) fresh_keys_distinct [OF assms(2)]]
  by (simp add: attempts_ok_def keys_distinct_def)

definition example_oracles :: oracles where
  "example_oracles = \<lparr>publicKey = (\<lambda>s. Some []), toBase58 = (\<lambda>_. []), sha256 = (\<lambda>bs. bs)\<rparr>"

definition example_input :: request_input where
  "example_input = \<lparr>i_walletName = [], i_endpoint = [], i_accountKey = [], i_label = [], identityJson = [65],
     i_phase = Some Vote, i_actor = Some [], i_vote = Some [], i_voteContext = Some []\<rparr>"

definition example_store :: store where
  "example_store = \<lparr>entries = [], loaded = True, running = {request_key example_oracles example_input},
     attempts = [\<lparr>a_key = request_key example_oracles example_input, a_input = example_input, finished = False\<rparr>],
     stored = Some [], writable = True\<rparr>"

lemma example_steps: "steps example_oracles (fresh (Some []) True) [Begin example_input] example_store"
proof -
  have "or_same example_oracles (fresh (Some []) True) (begin_request example_oracles example_input (fresh (Some []) True)) = example_store"
    by (simp add: begin_request_def fresh_def snapshot_def load_entries_def or_same_def example_store_def Let_def)
  then show ?thesis
    using steps.more [OF steps.none step.start, of example_oracles "fresh (Some []) True" example_input] by simp
qed

theorem one_attempt_per_change_witness:
  "running example_store = {request_key example_oracles example_input}
   \<and> distinct (map key (entries (snapshot example_oracles example_store)))"
  using one_attempt_per_change [OF example_steps] by (simp add: example_store_def)

text \<open>
  No blind resubmission.  Once an execution or a vote has been submitted, beginning the same
  change again is refused with the saved proposal, and the entry cannot be acknowledged
  away, through any sequence of calls until the outcome is resolved or the attempt completes.
\<close>

theorem submitted_request_blocks:
  assumes "steps orc (fresh vs w) evs s" "live s n" "i_phase (a_input (attempts s ! n)) \<noteq> None"
    and "step orc s (Submitting n p) s'" "publicKey orc p \<noteq> None"
    and "unreleased orc (a_key (attempts s ! n)) s' t" "request_key orc i = a_key (attempts s ! n)"
  shows "(\<exists>p b. begin_request orc i t = Inl (SavedProposal p b))
    \<and> is_ok (acknowledgeSeparateRequest orc (a_key (attempts s ! n)) t) = False"
  using guarded_refuses [OF unreleased_guarded [OF assms(6) submitting_guards [OF _ assms(2-5)]] assms(7)]
    steps_attempts_ok [OF assms(1)] by simp

theorem submitted_request_blocks_witness:
  "\<exists>t. step example_oracles example_store (Submitting 0 [66]) t
    \<and> (\<exists>p b. begin_request example_oracles example_input t = Inl (SavedProposal p b))"
proof -
  have l: "live example_store 0" by (simp add: live_def example_store_def)
  obtain t where t: "step example_oracles example_store (Submitting 0 [66]) t"
    using step.submitting [of 0 example_store] l by (auto simp: live_def)
  have "i_phase (a_input (attempts example_store ! 0)) \<noteq> None" "publicKey example_oracles [66] \<noteq> None"
    "request_key example_oracles example_input = a_key (attempts example_store ! 0)"
    by (simp_all add: example_store_def example_input_def example_oracles_def)
  with submitted_request_blocks [OF example_steps l _ t _ unreleased.stay] t show ?thesis by blast
qed

text \<open>
  Reloading the page.  A store that wrote its valid entries reads back the first hundred of
  them, field by field: all of them up to that number, and not those added last beyond it.
\<close>

theorem reload_remembers_first_hundred:
  assumes "list_all (\<lambda>e. object_ok orc (entry_object e) \<and> (txid e = None \<or> matches txid_ok (txid e))) es"
  shows "load_entries orc (Some (map entry_object es)) = take 100 es"
proof -
  have "object_entry (entry_object e) = e" if "txid e = None \<or> matches txid_ok (txid e)" for e
  proof -
    have ph: "(if map_option phase_text p = Some (js ''execution'') then Some Execution
        else if map_option phase_text p = Some (js ''vote'') then Some Vote else None) = p" for p
      by (cases p rule: option.exhaust; cases "the p") (simp_all add: phase_text_def)
    have oc: "(if Some (outcome_text q) = Some (js ''submitted'') then Submitted else Unknown) = q" for q
      by (cases q) (simp_all add: outcome_text_def)
    show ?thesis using that
      unfolding object_entry_def entry_object_def stored_object.simps ph oc option.sel
      by (cases e) (auto simp: matches_def split: option.splits)
  qed
  then have "map object_entry (filter (object_ok orc) (map entry_object xs)) = xs"
    if "list_all (\<lambda>e. object_ok orc (entry_object e) \<and> (txid e = None \<or> matches txid_ok (txid e))) xs" for xs
    using that by (induction xs) auto
  moreover have "list_all (\<lambda>e. object_ok orc (entry_object e) \<and> (txid e = None \<or> matches txid_ok (txid e))) (take 100 es)"
    using assms by (auto simp: list_all_iff dest: in_set_takeD)
  ultimately show ?thesis by (simp add: load_entries_def take_map)
qed

theorem reload_remembers_first_hundred_witness:
  "load_entries \<lparr>publicKey = (\<lambda>s. Some []), toBase58 = (\<lambda>_. [65]), sha256 = id\<rparr> (Some (map entry_object (replicate 101
     \<lparr>key = replicate 64 48, accountKey = replicate 64 48, walletName = [], endpoint = [], label = [], proposal = [65],
      outcome = Unknown, phase = Some Execution, actor = None, vote = None, voteContext = None, txid = None\<rparr>)))
   = replicate 100
     \<lparr>key = replicate 64 48, accountKey = replicate 64 48, walletName = [], endpoint = [], label = [], proposal = [65],
      outcome = Unknown, phase = Some Execution, actor = None, vote = None, voteContext = None, txid = None\<rparr>"
proof -
  let ?e = "\<lparr>key = replicate 64 48, accountKey = replicate 64 48, walletName = [], endpoint = [], label = [], proposal = [65],
      outcome = Unknown, phase = Some Execution, actor = None, vote = None, voteContext = None, txid = None\<rparr>"
  let ?o = "\<lparr>publicKey = (\<lambda>s. Some []), toBase58 = (\<lambda>_. [65]), sha256 = id\<rparr>"
  have "hex64 (replicate 64 48)" by (simp add: hex64_def list_all_iff is_hex_def)
  then have "object_ok ?o (entry_object ?e)"
    by (simp add: object_ok_def entry_object_def matches_def phase_text_def outcome_text_def)
  then have "list_all (\<lambda>e. object_ok ?o (entry_object e) \<and> (txid e = None \<or> matches txid_ok (txid e))) (replicate 101 ?e)"
    by (auto simp: list_all_iff)
  from reload_remembers_first_hundred [OF this] show ?thesis by simp
qed

end
