(* ===== verification/Typed_Message.thy ===== *)
theory Typed_Message
  imports JS_Utf8 Msig_Hash Msig_Datetime
begin

text \<open>
  \<open>lib/clearsign/typedMessage.ts\<close>: what the page checks of a text before it lets the
  device sign it.  The descriptor is the server's answer; a text is accepted only in one of the
  known forms, with the approval block that the descriptor stands for.  The case mapping of the
  platform is the argument \<open>lower\<close>.
\<close>

section \<open>The descriptor\<close>

datatype message_flavor = Clearsign_v4_document | Clearsign_v3_document | Clearsign_v2_text | Other_flavor

datatype approval_kind = Approvals | Cancellations

text \<open>What the table of verbs holds: one of the three, or a property it inherits, with its text.\<close>

datatype VoteVerb = Propose | Approve | Cancel | Inherited jsstr

record TypedDryRunDescriptor =
  action :: jsstr
  wallet_name :: jsstr
  proposal_index :: int
  signer_pubkey :: jsstr
  approval_requirement :: int
  approval_count_after :: int
  approval_kind :: approval_kind
  policy_commitment_hex :: jsstr
  payload_hash_hex :: jsstr
  envelope_hash_hex :: jsstr
  canonical_intent_hex :: "jsstr option"
  message_hex :: jsstr
  message_flavor :: message_flavor
  expiry :: int

record ExpectedTypedClearSignMessage =
  envelopeHash :: jsstr
  payloadHash :: jsstr
  signableText :: jsstr

section \<open>Strings\<close>

text \<open>\<open>new TextDecoder("utf-8", { fatal: true }).decode(bytes)\<close>: bytes that are not UTF-8 throw.\<close>

definition decode_fatal :: "bytes \<Rightarrow> jsstr res" where
  "decode_fatal bs =
     (if concat (map utf8_cp (utf8_points bs)) = bs then Inr (utf8_decode bs) else Inl TypeError)"

text \<open>\<open>s.split(sep)\<close> for a separator that is not empty; the first argument bounds the pieces.\<close>

fun split_str_fuel :: "nat \<Rightarrow> 'a list \<Rightarrow> 'a list \<Rightarrow> 'a list list" where
  "split_str_fuel 0 sep s = [s]"
| "split_str_fuel (Suc n) sep s =
     (case index_of_str sep s of None \<Rightarrow> [s]
      | Some i \<Rightarrow> take i s # split_str_fuel n sep (drop (i + length sep) s))"

definition split_str :: "'a list \<Rightarrow> 'a list \<Rightarrow> 'a list list" where
  "split_str sep s = split_str_fuel (length s) sep s"

definition str_includes :: "'a list \<Rightarrow> 'a list \<Rightarrow> bool" where
  "str_includes s p \<longleftrightarrow> index_of_str p s \<noteq> None"

text \<open>\<open>lines.join("\n")\<close>.\<close>

fun join_lines :: "jsstr list \<Rightarrow> jsstr" where
  "join_lines [] = []"
| "join_lines [l] = l"
| "join_lines (l # ls) = l @ 10 # join_lines ls"

definition hex_char :: "16 word \<Rightarrow> bool" where
  "hex_char c \<longleftrightarrow> hex_digit c \<noteq> None"

definition normalizeHex :: "(jsstr \<Rightarrow> jsstr) \<Rightarrow> jsstr \<Rightarrow> jsstr" where
  "normalizeHex lower value =
     (let t = trim value in
      lower (if take 2 t = js ''0x'' \<or> take 2 t = js ''0X'' then drop 2 t else t))"

definition hasUnsafeControlCharacters :: "jsstr \<Rightarrow> bool" where
  "hasUnsafeControlCharacters value =
     list_ex (\<lambda>code. (code < 0x20 \<and> code \<noteq> 0x0A) \<or> (0x7F \<le> code \<and> code \<le> 0x9F)) (code_points value)"

definition ends_with :: "'a list \<Rightarrow> 'a list \<Rightarrow> bool" where
  "ends_with s p \<longleftrightarrow> length p \<le> length s \<and> drop (length s - length p) s = p"

text \<open>
  The replacement of \<open>/(^|\n)Envelope: (?:0x)?([0-9a-fA-F]{64})$/\<close>: the last 64 units, when they
  are hexadecimal and stand behind the label at the start of a line, in lower case and without prefix.
\<close>

definition normalizeEnvelopeProof :: "(jsstr \<Rightarrow> jsstr) \<Rightarrow> jsstr \<Rightarrow> jsstr" where
  "normalizeEnvelopeProof lower value =
     (let n = length value - 64; hash = drop n value; before = take n value;
          label = js ''Envelope: '';
          at_label = (\<lambda>b. ends_with b label \<and> (length b = length label \<or> ends_with b (10 # label)))
      in if length value < 64 \<or> \<not> list_all hex_char hash then value
         else if ends_with before (js ''0x'') \<and> at_label (take (length before - 2) before)
         then take (length before - 2) before @ lower hash
         else if at_label before then before @ lower hash
         else value)"

section \<open>The checks\<close>

definition fails :: "string \<Rightarrow> 'a res" where
  "fails l = Inl (Thrown l)"

text \<open>
  \<open>ACTION_TO_VOTE_VERB[action]\<close> finds what the table inherits, too: for a key like
  \<open>constructor\<close> the value is a function, which is truthy.  Its text is up to the engine and is the
  argument \<open>inh\<close>, which gives None for every key that is not inherited.
\<close>

definition expectedVoteVerb :: "(jsstr \<Rightarrow> jsstr option) \<Rightarrow> jsstr \<Rightarrow> VoteVerb res" where
  "expectedVoteVerb inh a =
     (if a = js ''proposal_typed_create'' \<or> a = js ''propose'' then Inr Propose
      else if a = js ''proposal_typed_approve'' \<or> a = js ''approve'' then Inr Approve
      else if a = js ''proposal_typed_cancel'' \<or> a = js ''cancel'' then Inr Cancel
      else case inh a of
          Some t \<Rightarrow> Inr (Inherited t)
        | None \<Rightarrow> fails ''Typed ClearSign action  is not supported.'')"

definition verb_text :: "VoteVerb \<Rightarrow> jsstr" where
  "verb_text v = (case v of Propose \<Rightarrow> js ''propose'' | Approve \<Rightarrow> js ''approve'' | Cancel \<Rightarrow> js ''cancel'' | Inherited t \<Rightarrow> t)"

text \<open>\<open>voteVerb.toUpperCase()\<close>, which neither a function nor an object has.\<close>

definition verb_upper :: "VoteVerb \<Rightarrow> jsstr" where
  "verb_upper v = (case v of Propose \<Rightarrow> js ''PROPOSE'' | Approve \<Rightarrow> js ''APPROVE'' | Cancel \<Rightarrow> js ''CANCEL'' | Inherited _ \<Rightarrow> [])"

definition has_toUpperCase :: "VoteVerb \<Rightarrow> bool" where
  "has_toUpperCase v = (case v of Inherited _ \<Rightarrow> False | _ \<Rightarrow> True)"

definition approvalRequirementLabel :: "TypedDryRunDescriptor \<Rightarrow> jsstr" where
  "approvalRequirementLabel d =
     (let singular = (approval_requirement d = 1) in
      case approval_kind d of
        Cancellations \<Rightarrow> if singular then js ''cancellation'' else js ''cancellations''
      | Approvals \<Rightarrow> if singular then js ''approval'' else js ''approvals'')"

definition verifyApprovalContext :: "TypedDryRunDescriptor \<Rightarrow> VoteVerb \<Rightarrow> unit res" where
  "verifyApprovalContext d verb =
     (let requirement = approval_requirement d; after = approval_count_after d;
          expectedKind = (if verb = Cancel then Cancellations else Approvals) in
      if requirement < 1 \<or> requirement > 16 \<or> after < 0 \<or> after > requirement \<or> approval_kind d \<noteq> expectedKind
      then fails ''Typed ClearSign request has invalid approval requirements.'' else Inr ())"

definition legacy_prefix :: "(jsstr \<Rightarrow> jsstr) \<Rightarrow> TypedDryRunDescriptor \<Rightarrow> VoteVerb \<Rightarrow> jsstr" where
  "legacy_prefix lower d verb =
     join_lines [js ''ClearSign v2 '' @ verb_text verb, js ''Wallet '' @ wallet_name d,
       js ''Proposal '' @ show_int (proposal_index d), js ''Envelope '' @ normalizeHex lower (envelope_hash_hex d)]
     @ [10, 10]"

definition verifyLegacyV2Approval ::
  "(jsstr \<Rightarrow> jsstr option) \<Rightarrow> (jsstr \<Rightarrow> jsstr) \<Rightarrow> TypedDryRunDescriptor \<Rightarrow> jsstr \<Rightarrow> ExpectedTypedClearSignMessage option \<Rightarrow> unit res" where
  "verifyLegacyV2Approval inh lower d t expected =
     ebind (expectedVoteVerb inh (action d)) (\<lambda>verb.
     if verb = Propose \<or> expected \<noteq> None
     then fails ''Legacy ClearSign v2 is restricted to existing proposal approvals and cancellations.''
     else let pre = legacy_prefix lower d verb in
       if \<not> starts_with t pre then fails ''Legacy ClearSign approval does not match the stored proposal.''
       else let clearText = drop (length pre) t in
         if clearText = [] \<or> length (utf8_encode clearText) > 2048
         then fails ''Legacy ClearSign approval has invalid readable text.'' else Inr ())"

definition verifyExpectedTypedClearSignMessage ::
  "(jsstr \<Rightarrow> jsstr) \<Rightarrow> TypedDryRunDescriptor \<Rightarrow> jsstr \<Rightarrow> ExpectedTypedClearSignMessage \<Rightarrow> unit res" where
  "verifyExpectedTypedClearSignMessage lower d t e =
     (let body = (case index_of_str (10 # 10 # js ''APPROVAL'' @ [10]) t of None \<Rightarrow> [] | Some i \<Rightarrow> take i t) in
      if normalizeHex lower (envelope_hash_hex d) \<noteq> normalizeHex lower (envelopeHash e)
         \<or> normalizeHex lower (payload_hash_hex d) \<noteq> normalizeHex lower (payloadHash e)
         \<or> body \<noteq> signableText e
      then fails ''Typed ClearSign request does not match the transaction reviewed in this browser.'' else Inr ())"

text \<open>The lines of the approval block that the descriptor stands for.\<close>

definition approval_lines :: "(jsstr \<Rightarrow> jsstr) \<Rightarrow> TypedDryRunDescriptor \<Rightarrow> VoteVerb \<Rightarrow> jsstr list" where
  "approval_lines lower d verb =
     [js ''APPROVAL'',
      js ''Decision: '' @ verb_upper verb,
      js ''Proposal: #'' @ show_int (proposal_index d),
      js ''Wallet: '' @ wallet_name d,
      js ''Requested by: '' @ signer_pubkey d,
      js ''Requirement: '' @ show_int (approval_requirement d) @ js '' '' @ approvalRequirementLabel d,
      js ''Status if accepted: '' @ show_int (approval_count_after d) @ js '' of '' @ show_int (approval_requirement d)
        @ js '' '' @ approvalRequirementLabel d,
      [],
      js ''EXPIRY'',
      formatTimestamp (expiry d) @ js '' UTC'',
      [],
      js ''PROOF'',
      js ''ClearSign: v'' @ (if message_flavor d = Clearsign_v4_document then js ''4'' else js ''3''),
      js ''Envelope: '' @ normalizeHex lower (envelope_hash_hex d)]"

definition verifyCompactV4Document :: "(jsstr \<Rightarrow> jsstr) \<Rightarrow> TypedDryRunDescriptor \<Rightarrow> jsstr \<Rightarrow> unit res" where
  "verifyCompactV4Document lower d body =
     (let ls = split_on 10 body; protocol = js ''Protocol: clearsig-intent-v4@1'';
          profile = js ''PROFILE clearsig-ledger-solana-v2@1'';
          at = length ls - 8;
          validFooter = (length ls > 8 \<and> starts_with (ls ! at) (js ''NET '') \<and> ls ! at \<noteq> js ''NET ''
            \<and> ls ! (at + 1) = js ''FROM '' @ wallet_name d
            \<and> ls ! (at + 2) \<in> set (map (\<lambda>n. js ''APPROVAL '' @ show_nat n) [1..<17])
            \<and> ls ! (at + 3) = js ''PROPOSAL '' @ show_int (proposal_index d)
            \<and> ls ! (at + 4) = js ''EXPIRES '' @ show_int (expiry d)
            \<and> ls ! (at + 5) = js ''POLICY '' @ normalizeHex lower (policy_commitment_hex d)
            \<and> ls ! (at + 6) = profile \<and> ls ! (at + 7) = protocol) in
      if \<not> validFooter \<or> list_ex (\<lambda>l. l = []) ls \<or> length (utf8_encode body) > 1024
         \<or> length (split_str profile body) - 1 \<noteq> 1 \<or> length (split_str protocol body) - 1 \<noteq> 1
      then fails ''Typed ClearSign request has an invalid compact device document.'' else Inr ())"

definition section_names :: "bool \<Rightarrow> jsstr list" where
  "section_names isV4 =
     [if isV4 then js ''ClearSig Approval'' else js ''ClearSig Proposal'',
      js ''ACTION'', js ''DETAILS'', js ''POLICY'', js ''RISK'', js ''PURPOSE'']"

text \<open>The loop over the sections: the first is its title, the others have a title line and a text.\<close>

definition section_ok :: "nat \<Rightarrow> jsstr \<Rightarrow> jsstr \<Rightarrow> bool" where
  "section_ok index sec expected \<longleftrightarrow>
     \<not> ((index = 0 \<and> sec \<noteq> expected) \<or> (index > 0 \<and> \<not> starts_with sec (expected @ [10]))
        \<or> (index > 0 \<and> length sec = length expected + 1))"

definition sections_ok :: "bool \<Rightarrow> jsstr list \<Rightarrow> unit res" where
  "sections_ok isV4 secs =
     (if list_all (\<lambda>i. section_ok i (secs ! i) (section_names isV4 ! i)) [0..<length secs] then Inr ()
      else fails ''Typed ClearSign request has an invalid  section.'')"

definition display_profiles :: "bool \<Rightarrow> jsstr list" where
  "display_profiles isV4 =
     (if isV4 then [js ''Display profile: clearsig-full-v2@1'']
      else [js ''Display profile: clearsig-full-v1@1'', js ''Display profile: clearsig-ledger-solana-v1@1''])"

definition verifyTypedClearSignMessageText ::
  "(jsstr \<Rightarrow> jsstr option) \<Rightarrow> (jsstr \<Rightarrow> jsstr) \<Rightarrow> TypedDryRunDescriptor \<Rightarrow> jsstr \<Rightarrow> unit res" where
  "verifyTypedClearSignMessageText inh lower d t =
     (case index_of_str (10 # 10 # js ''APPROVAL'' @ [10]) t of
        None \<Rightarrow> fails ''Typed ClearSign request is missing readable action details.''
      | Some split \<Rightarrow>
         let body = take split t; approval = drop (split + 2) t; isV4 = (message_flavor d = Clearsign_v4_document) in
         ebind (expectedVoteVerb inh (action d)) (\<lambda>verb.
         ebind (guard (\<not> (isV4 \<and> verb = Propose \<and>
             \<not> (or_empty (canonical_intent_hex d) \<noteq> [] \<and> list_all hex_char (or_empty (canonical_intent_hex d)))))
           ''ClearSign v4 proposal is missing its canonical intent bytes.'') (\<lambda>_.
         ebind (verifyApprovalContext d verb) (\<lambda>_.
         ebind (if has_toUpperCase verb then Inr () else Inl TypeError) (\<lambda>_.
         ebind (guard (normalizeEnvelopeProof lower approval = join_lines (approval_lines lower d verb))
           ''Typed ClearSign approval or proof does not match the prepared request.'') (\<lambda>_.
         if isV4 \<and> str_includes body (10 # js ''PROFILE clearsig-ledger-solana-v2@1'' @ [10])
         then verifyCompactV4Document lower d body
         else let secs = split_str [10, 10] body in
           ebind (guard (length secs = length (section_names isV4))
             ''Typed ClearSign request has duplicate or unexpected document sections.'') (\<lambda>_.
           ebind (sections_ok isV4 secs) (\<lambda>_.
           let policyLines = tl (split_on 10 (secs ! 3));
               profileCount = sum_list (map (\<lambda>p. length (split_str p t) - 1) (display_profiles isV4)) in
           ebind (guard (profileCount = 1 \<and> list_ex (\<lambda>p. p \<in> set policyLines) (display_profiles isV4))
             ''Typed ClearSign request does not use a registered display profile.'') (\<lambda>_.
           guard (\<not> (isV4 \<and> length (split_str (js ''Protocol: clearsig-intent-v4@1'') t) - 1 \<noteq> 1))
             ''ClearSign v4 request is missing its canonical protocol marker.''))))))))
     )"

definition verifiedTypedClearSignMessageBytes ::
  "(jsstr \<Rightarrow> jsstr option) \<Rightarrow> (jsstr \<Rightarrow> jsstr) \<Rightarrow> TypedDryRunDescriptor \<Rightarrow> ExpectedTypedClearSignMessage option \<Rightarrow> bytes res" where
  "verifiedTypedClearSignMessageBytes inh lower d expected =
     (if message_flavor d = Other_flavor then fails ''Typed ClearSign request has the wrong message flavor.''
      else ebind (fromHex (message_hex d)) (\<lambda>bs.
        if bs = [] then fails ''Typed ClearSign request is missing signable text.''
        else case decode_fatal bs of
            Inl _ \<Rightarrow> fails ''Typed ClearSign request is not readable UTF-8 text.''
          | Inr t \<Rightarrow>
              if hasUnsafeControlCharacters t
              then fails ''Typed ClearSign request contains unsafe control characters.''
              else if message_flavor d = Clearsign_v2_text
              then ebind (verifyLegacyV2Approval inh lower d t expected) (\<lambda>_. Inr bs)
              else ebind (verifyTypedClearSignMessageText inh lower d t) (\<lambda>_.
                ebind (case expected of None \<Rightarrow> Inr () | Some e \<Rightarrow> verifyExpectedTypedClearSignMessage lower d t e) (\<lambda>_.
                Inr bs))))"

section \<open>Lines\<close>

lemma index_of_str_split: "index_of_str p s = Some i \<Longrightarrow> s = take i s @ p @ drop (i + length p) s"
proof (induction s arbitrary: i)
  case Nil
  then show ?case by (auto split: if_splits)
next
  case (Cons x s)
  show ?case
  proof (cases "starts_with (x # s) p")
    case True
    then have "take (length p) (x # s) = p" by (simp add: starts_with_def)
    with True Cons.prems show ?thesis by (metis append_take_drop_id index_of_str.simps(2) option.inject append_Nil take0 plus_nat.add_0)
  next
    case False
    with Cons show ?thesis by auto
  qed
qed

lemma join_lines_Cons: "ls \<noteq> [] \<Longrightarrow> join_lines (l # ls) = l @ 10 # join_lines ls"
  by (cases ls) simp_all

lemma split_join_lines: "ls \<noteq> [] \<Longrightarrow> list_all (\<lambda>l. 10 \<notin> set l) ls \<Longrightarrow> split_on 10 (join_lines ls) = ls"
proof (induction ls)
  case Nil
  then show ?case by simp
next
  case (Cons l ls)
  then show ?case by (cases "ls = []") (simp_all add: split_on_no_sep join_lines_Cons split_on_one)
qed

lemma join_lines_inj:
  "join_lines ls = join_lines ms \<Longrightarrow> ls \<noteq> [] \<Longrightarrow> ms \<noteq> [] \<Longrightarrow> list_all (\<lambda>l. 10 \<notin> set l) ls \<Longrightarrow>
    list_all (\<lambda>l. 10 \<notin> set l) ms \<Longrightarrow> ls = ms"
  by (metis split_join_lines)

lemma digit_not: "c \<in> set (show_nat n) \<Longrightarrow> is_digit c"
  using show_nat_digits [of n] by (simp add: list_all_iff)

lemma show_int_chars: "c \<in> set (show_int i) \<Longrightarrow> is_digit c \<or> c = 45"
  by (auto simp: show_int_def digit_not split: if_splits)

lemma show_int_no [simp]: "10 \<notin> set (show_int i)" "32 \<notin> set (show_int i)"
  by (auto dest!: show_int_chars simp: is_digit_def)

lemma formatTimestamp_no [simp]: "10 \<notin> set (formatTimestamp e)"
  by (simp add: formatTimestamp_def writeDecimal4_def writeDecimal2_def Let_def)

lemma before_space: "a @ 32 # x = b @ 32 # y \<Longrightarrow> (32 :: 16 word) \<notin> set a \<Longrightarrow> 32 \<notin> set b \<Longrightarrow> a = b \<and> x = y"
proof -
  assume e: "a @ 32 # x = b @ 32 # y" and n: "(32 :: 16 word) \<notin> set a" "32 \<notin> set b"
  have "split_on 32 (a @ 32 # x) = a # split_on 32 x" "split_on 32 (b @ 32 # y) = b # split_on 32 y"
    using n by (simp_all add: split_on_one)
  with e have "a = b" by simp
  with e show ?thesis by simp
qed

text \<open>A descriptor whose names are single lines.\<close>

definition single_lines :: "(jsstr \<Rightarrow> jsstr) \<Rightarrow> TypedDryRunDescriptor \<Rightarrow> bool" where
  "single_lines lower d \<longleftrightarrow> 10 \<notin> set (wallet_name d) \<and> 10 \<notin> set (signer_pubkey d)
     \<and> 10 \<notin> set (normalizeHex lower (envelope_hash_hex d))"

lemma approval_lines_single: "single_lines lower d \<Longrightarrow> list_all (\<lambda>l. 10 \<notin> set l) (approval_lines lower d verb)"
  by (auto simp: approval_lines_def single_lines_def verb_upper_def approvalRequirementLabel_def Let_def
      split: VoteVerb.splits approval_kind.splits)

text \<open>What the approval block says about a request.\<close>

definition same_decision ::
  "(jsstr \<Rightarrow> jsstr) \<Rightarrow> TypedDryRunDescriptor \<Rightarrow> VoteVerb \<Rightarrow> TypedDryRunDescriptor \<Rightarrow> VoteVerb \<Rightarrow> bool" where
  "same_decision lower d v e w \<longleftrightarrow> v = w \<and> proposal_index d = proposal_index e \<and> wallet_name d = wallet_name e
     \<and> signer_pubkey d = signer_pubkey e \<and> approval_requirement d = approval_requirement e
     \<and> approval_count_after d = approval_count_after e \<and> formatTimestamp (expiry d) = formatTimestamp (expiry e)
     \<and> (message_flavor d = Clearsign_v4_document \<longleftrightarrow> message_flavor e = Clearsign_v4_document)
     \<and> normalizeHex lower (envelope_hash_hex d) = normalizeHex lower (envelope_hash_hex e)"

lemma approval_lines_inj:
  assumes "approval_lines lower d v = approval_lines lower e w" "has_toUpperCase v" "has_toUpperCase w"
  shows "same_decision lower d v e w"
proof -
  have l: "js ''Decision: '' @ verb_upper v = js ''Decision: '' @ verb_upper w"
    "js ''Proposal: #'' @ show_int (proposal_index d) = js ''Proposal: #'' @ show_int (proposal_index e)"
    "js ''Wallet: '' @ wallet_name d = js ''Wallet: '' @ wallet_name e"
    "js ''Requested by: '' @ signer_pubkey d = js ''Requested by: '' @ signer_pubkey e"
    "js ''Requirement: '' @ show_int (approval_requirement d) @ js '' '' @ approvalRequirementLabel d
     = js ''Requirement: '' @ show_int (approval_requirement e) @ js '' '' @ approvalRequirementLabel e"
    "js ''Status if accepted: '' @ show_int (approval_count_after d) @ js '' of '' @ show_int (approval_requirement d)
        @ js '' '' @ approvalRequirementLabel d
     = js ''Status if accepted: '' @ show_int (approval_count_after e) @ js '' of '' @ show_int (approval_requirement e)
        @ js '' '' @ approvalRequirementLabel e"
    "formatTimestamp (expiry d) @ js '' UTC'' = formatTimestamp (expiry e) @ js '' UTC''"
    "js ''ClearSign: v'' @ (if message_flavor d = Clearsign_v4_document then js ''4'' else js ''3'')
     = js ''ClearSign: v'' @ (if message_flavor e = Clearsign_v4_document then js ''4'' else js ''3'')"
    "js ''Envelope: '' @ normalizeHex lower (envelope_hash_hex d) = js ''Envelope: '' @ normalizeHex lower (envelope_hash_hex e)"
    using assms(1) unfolding approval_lines_def by (simp_all only: list.inject)
  have "verb_upper v = verb_upper w \<Longrightarrow> v = w" using assms(2,3) by (cases v; cases w) (simp_all add: verb_upper_def has_toUpperCase_def)
  moreover have "show_int (approval_requirement d) @ 32 # approvalRequirementLabel d
      = show_int (approval_requirement e) @ 32 # approvalRequirementLabel e" using l(5) by simp
  then have "approval_requirement d = approval_requirement e" using before_space show_int_inj by (metis show_int_no(2))
  moreover have "show_int (approval_count_after d) @ 32 # js ''of '' @ show_int (approval_requirement d)
        @ js '' '' @ approvalRequirementLabel d
      = show_int (approval_count_after e) @ 32 # js ''of '' @ show_int (approval_requirement e)
        @ js '' '' @ approvalRequirementLabel e" using l(6) by simp
  then have "approval_count_after d = approval_count_after e" using before_space show_int_inj by (metis show_int_no(2))
  moreover have "message_flavor d = Clearsign_v4_document \<longleftrightarrow> message_flavor e = Clearsign_v4_document"
    using l(8) by (simp split: if_splits)
  ultimately show ?thesis using l(1-4,7,9) show_int_inj by (simp add: same_decision_def)
qed

section \<open>What an accepted text is made of\<close>

lemma fails_Inr [simp]: "fails l \<noteq> Inr x"
  by (simp add: fails_def)

lemma typed_text_parts:
  assumes "verifyTypedClearSignMessageText inh lower d t = Inr ()"
  obtains i verb where "index_of_str (10 # 10 # js ''APPROVAL'' @ [10]) t = Some i" "expectedVoteVerb inh (action d) = Inr verb"
    "verifyApprovalContext d verb = Inr ()" "has_toUpperCase verb"
    "normalizeEnvelopeProof lower (drop (i + 2) t) = join_lines (approval_lines lower d verb)"
    "message_flavor d = Clearsign_v4_document \<and> str_includes (take i t) (10 # js ''PROFILE clearsig-ledger-solana-v2@1'' @ [10])
       \<Longrightarrow> verifyCompactV4Document lower d (take i t) = Inr ()"
  using assms unfolding verifyTypedClearSignMessageText_def
  by (auto simp: err_simps Let_def simp del: js_simps split: option.splits if_splits)

lemma verified_parts:
  assumes "verifiedTypedClearSignMessageBytes inh lower d expected = Inr bs"
  obtains t where "fromHex (message_hex d) = Inr bs" "decode_fatal bs = Inr t" "\<not> hasUnsafeControlCharacters t"
    "message_flavor d = Clearsign_v2_text \<Longrightarrow> verifyLegacyV2Approval inh lower d t expected = Inr ()"
    "message_flavor d \<noteq> Clearsign_v2_text \<Longrightarrow> verifyTypedClearSignMessageText inh lower d t = Inr ()"
    "\<And>e. message_flavor d \<noteq> Clearsign_v2_text \<Longrightarrow> expected = Some e \<Longrightarrow> verifyExpectedTypedClearSignMessage lower d t e = Inr ()"
  using assms unfolding verifiedTypedClearSignMessageBytes_def
  by (cases expected) (auto simp: err_simps split: if_splits sum.splits)

section \<open>The three forms\<close>

text \<open>The first lines of an approval in the form of version 2.\<close>

definition legacy_lines :: "(jsstr \<Rightarrow> jsstr) \<Rightarrow> TypedDryRunDescriptor \<Rightarrow> VoteVerb \<Rightarrow> jsstr list" where
  "legacy_lines lower d verb =
     [js ''ClearSign v2 '' @ verb_text verb, js ''Wallet '' @ wallet_name d,
       js ''Proposal '' @ show_int (proposal_index d), js ''Envelope '' @ normalizeHex lower (envelope_hash_hex d)]"

text \<open>Each inherited property has a text of one line that is none of the verbs.\<close>

definition inherited_ok :: "(jsstr \<Rightarrow> jsstr option) \<Rightarrow> bool" where
  "inherited_ok inh \<longleftrightarrow> (\<forall>a s. inh a = Some s \<longrightarrow> 10 \<notin> set s \<and> s \<notin> {js ''propose'', js ''approve'', js ''cancel''})"

lemma verb_text_line: "inherited_ok inh \<Longrightarrow> expectedVoteVerb inh a = Inr v \<Longrightarrow> 10 \<notin> set (verb_text v)"
  by (auto simp: expectedVoteVerb_def verb_text_def inherited_ok_def fails_def simp del: js_simps split: if_splits option.splits)
    (simp_all)

lemma verb_text_inj:
  assumes "inherited_ok inh" "expectedVoteVerb inh a = Inr v" "expectedVoteVerb inh b = Inr w" "verb_text v = verb_text w"
  shows "v = w"
proof -
  have i: "inh k = Some s \<Longrightarrow> s \<noteq> js ''propose'' \<and> s \<noteq> js ''approve'' \<and> s \<noteq> js ''cancel''" for k s
    using assms(1) by (auto simp: inherited_ok_def simp del: js_simps)
  have "v \<in> {Propose, Approve, Cancel} \<or> (\<exists>s. v = Inherited s \<and> inh a = Some s)"
      "w \<in> {Propose, Approve, Cancel} \<or> (\<exists>s. w = Inherited s \<and> inh b = Some s)"
    using assms(2,3) by (auto simp: expectedVoteVerb_def fails_def simp del: js_simps split: if_splits option.splits)
  then show ?thesis using assms(4) i [of a] i [of b] by (auto simp: verb_text_def simp del: js_simps) simp_all
qed

lemma split_on_append: "split_on c (a @ c # b) = split_on c a @ split_on c b"
  by (induction a) (auto split: list.splits)

lemma split_lines_behind:
  "list_all (\<lambda>l. 10 \<notin> set l) ls \<Longrightarrow> ls \<noteq> [] \<Longrightarrow> split_on 10 (join_lines ls @ 10 # x) = ls @ split_on 10 x"
  by (simp add: split_on_append split_join_lines)

lemma legacy_accepted:
  assumes "verifyLegacyV2Approval inh lower d t expected = Inr ()" "inherited_ok inh" "single_lines lower d"
  obtains v x where "expectedVoteVerb inh (action d) = Inr v" "split_on 10 t = legacy_lines lower d v @ [] # x"
proof -
  obtain v where v: "expectedVoteVerb inh (action d) = Inr v" and t: "starts_with t (legacy_prefix lower d v)"
    using assms(1) by (auto simp: verifyLegacyV2Approval_def err_simps Let_def split: if_splits)
  then obtain x where "t = legacy_prefix lower d v @ x" by (metis starts_with_def append_take_drop_id)
  then have "t = join_lines (legacy_lines lower d v) @ 10 # (10 # x)" by (simp add: legacy_prefix_def legacy_lines_def)
  moreover have "list_all (\<lambda>l. 10 \<notin> set l) (legacy_lines lower d v)"
    using assms(3) verb_text_line [OF assms(2) v] by (simp add: legacy_lines_def single_lines_def)
  ultimately have "split_on 10 t = legacy_lines lower d v @ split_on 10 (10 # x)"
    using split_lines_behind [of "legacy_lines lower d v"] by (simp add: legacy_lines_def del: js_simps join_lines.simps)
  with v that show thesis by simp
qed

lemma split_str_head: "\<exists>r. s = hd (split_str p s) @ r"
proof (cases "length s")
  case (Suc n)
  show ?thesis by (cases "index_of_str p s") (auto simp: split_str_def Suc, metis append_take_drop_id)
qed (simp add: split_str_def)

lemma join_split_lines: "join_lines (split_on 10 t) = t"
proof (induction t)
  case (Cons x t)
  obtain w ws where w: "split_on 10 t = w # ws" by (cases "split_on 10 t") simp_all
  have "join_lines ((x # w) # ws) = x # join_lines (w # ws)" by (cases ws) simp_all
  with Cons w show ?case by (auto simp: join_lines_Cons)
qed simp

text \<open>The first five lines of a typed text are not those of an approval in the form of version 2.\<close>

lemma typed_not_legacy:
  assumes "verifyTypedClearSignMessageText inh lower d t = Inr ()"
  shows "split_on 10 t \<noteq> [js ''ClearSign v2 '' @ a, l, m, n] @ [] # x"
proof
  assume e: "split_on 10 t = [js ''ClearSign v2 '' @ a, l, m, n] @ [] # x"
  obtain i where i: "index_of_str (10 # 10 # js ''APPROVAL'' @ [10]) t = Some i"
      and f: "verifyCompactV4Document lower d (take i t) = Inr ()
        \<or> length (split_str [10, 10] (take i t)) = 6 \<and> (\<exists>b. sections_ok b (split_str [10, 10] (take i t)) = Inr ())"
    using assms unfolding verifyTypedClearSignMessageText_def Let_def
    by (auto simp: err_simps section_names_def simp del: js_simps split: option.splits if_splits)
  obtain r where t: "t = take i t @ 10 # 10 # r" using index_of_str_split [OF i] by (metis append_Cons)
  from f show False
  proof
    assume "verifyCompactV4Document lower d (take i t) = Inr ()"
    then have c: "8 < length (split_on 10 (take i t))" "[] \<notin> set (split_on 10 (take i t))"
      by (auto simp: verifyCompactV4Document_def Let_def list_ex_iff split: if_splits)
    have "split_on 10 t = split_on 10 (take i t) @ split_on 10 (10 # r)" by (subst t) (rule split_on_append)
    then have "split_on 10 t ! 4 = split_on 10 (take i t) ! 4" using c(1) by (simp add: nth_append)
    also have "\<dots> \<noteq> []" using c nth_mem [of 4 "split_on 10 (take i t)"] by fastforce
    finally show False using e by simp
  next
    assume s: "length (split_str [10, 10] (take i t)) = 6 \<and> (\<exists>b. sections_ok b (split_str [10, 10] (take i t)) = Inr ())"
    then obtain b where "sections_ok b (split_str [10, 10] (take i t)) = Inr ()" by blast
    then have "section_ok 0 (split_str [10, 10] (take i t) ! 0) (section_names b ! 0)"
      using s by (simp add: sections_ok_def fails_def list_all_iff split: if_splits)
    then have h: "hd (split_str [10, 10] (take i t)) = section_names b ! 0"
      using s by (cases "split_str [10, 10] (take i t)") (simp_all add: section_ok_def)
    then obtain q where q: "t = section_names b ! 0 @ q"
      using split_str_head [of "take i t" "[10, 10]"] t by (metis append_assoc)
    have "t ! 8 = 0x6E" by (subst join_split_lines [symmetric]) (simp add: e)
    moreover have "t ! 8 = 0x20" by (simp add: q section_names_def)
    ultimately show False by simp
  qed
qed

text \<open>Two requests accepted for the same text of version 3 or 4 have the same block.\<close>

lemma same_block:
  assumes "verifyTypedClearSignMessageText inh lower d t = Inr ()" "verifyTypedClearSignMessageText inh lower e t = Inr ()"
    and "single_lines lower d" "single_lines lower e"
  shows "\<exists>v w. expectedVoteVerb inh (action d) = Inr v \<and> expectedVoteVerb inh (action e) = Inr w \<and> same_decision lower d v e w"
proof -
  obtain i v where v: "index_of_str (10 # 10 # js ''APPROVAL'' @ [10]) t = Some i" "expectedVoteVerb inh (action d) = Inr v"
    "has_toUpperCase v" "normalizeEnvelopeProof lower (drop (i + 2) t) = join_lines (approval_lines lower d v)"
    using assms(1) by (elim typed_text_parts) blast
  obtain j w where w: "index_of_str (10 # 10 # js ''APPROVAL'' @ [10]) t = Some j" "expectedVoteVerb inh (action e) = Inr w"
    "has_toUpperCase w" "normalizeEnvelopeProof lower (drop (j + 2) t) = join_lines (approval_lines lower e w)"
    using assms(2) by (elim typed_text_parts) blast
  have "join_lines (approval_lines lower d v) = join_lines (approval_lines lower e w)" using v w by simp
  then have "approval_lines lower d v = approval_lines lower e w"
    by (rule join_lines_inj) (use assms(3,4) in \<open>simp_all add: approval_lines_single\<close>, simp_all add: approval_lines_def)
  from approval_lines_inj [OF this] v(2,3) w(2,3) show ?thesis by blast
qed

section \<open>Properties\<close>

lemma drop_behind:
  assumes "t = take i t @ (a # b # p) @ r"
  shows "t = take i t @ [a, b] @ drop (i + 2) t"
proof -
  have "drop i t = (a # b # p) @ r"
    using arg_cong [OF assms, of "drop i"] by (cases "i \<le> length t") (use assms in auto)
  then have "drop 2 (drop i t) = p @ r" by simp
  then have "drop (i + 2) t = p @ r" by (simp add: add.commute)
  with assms show ?thesis by simp
qed

lemma drop_eight:
  assumes "length ls = at + 8"
  shows "drop at ls = [ls ! at, ls ! (at + 1), ls ! (at + 2), ls ! (at + 3), ls ! (at + 4), ls ! (at + 5), ls ! (at + 6), ls ! (at + 7)]"
proof -
  have l: "length (drop at ls) = 8" using assms by simp
  then have "drop at ls = map (\<lambda>i. drop at ls ! i) [0..<8]" using map_nth [of "drop at ls"] by simp
  also have "\<dots> = map (\<lambda>i. ls ! (at + i)) [0..<8]" using assms by (intro map_cong) simp_all
  finally show ?thesis by (simp add: upt_rec numeral_eq_Suc)
qed

text \<open>
  A text that is accepted for signing is readable UTF-8 without control characters and ends in
  exactly the approval block of the descriptor; when the page knows what it asked for,
  everything before the block is the reviewed text and both hashes are the reviewed ones.
\<close>

theorem signed_text_shape:
  assumes "verifiedTypedClearSignMessageBytes inh lower d expected = Inr bs" "message_flavor d \<noteq> Clearsign_v2_text"
  shows "\<exists>t body approval verb. fromHex (message_hex d) = Inr bs \<and> decode_fatal bs = Inr t
    \<and> \<not> hasUnsafeControlCharacters t \<and> t = body @ [10, 10] @ approval \<and> expectedVoteVerb inh (action d) = Inr verb
    \<and> normalizeEnvelopeProof lower approval = join_lines (approval_lines lower d verb)
    \<and> (\<forall>e. expected = Some e \<longrightarrow> body = signableText e
         \<and> normalizeHex lower (envelope_hash_hex d) = normalizeHex lower (envelopeHash e)
         \<and> normalizeHex lower (payload_hash_hex d) = normalizeHex lower (payloadHash e))"
proof -
  obtain t where t: "fromHex (message_hex d) = Inr bs" "decode_fatal bs = Inr t" "\<not> hasUnsafeControlCharacters t"
    and v: "verifyTypedClearSignMessageText inh lower d t = Inr ()"
    and e: "\<And>e. expected = Some e \<Longrightarrow> verifyExpectedTypedClearSignMessage lower d t e = Inr ()"
    using assms by (elim verified_parts) blast
  obtain i verb where i: "index_of_str (10 # 10 # js ''APPROVAL'' @ [10]) t = Some i" and verb: "expectedVoteVerb inh (action d) = Inr verb"
    and a: "normalizeEnvelopeProof lower (drop (i + 2) t) = join_lines (approval_lines lower d verb)"
    using v by (elim typed_text_parts) blast
  have "t = take i t @ (10 # 10 # js ''APPROVAL'' @ [10]) @ drop (i + length (10 # 10 # js ''APPROVAL'' @ [10])) t"
    by (rule index_of_str_split [OF i])
  then have "t = take i t @ [10, 10] @ drop (i + 2) t" by (rule drop_behind)
  moreover have "take i t = signableText x \<and> normalizeHex lower (envelope_hash_hex d) = normalizeHex lower (envelopeHash x)
         \<and> normalizeHex lower (payload_hash_hex d) = normalizeHex lower (payloadHash x)" if "expected = Some x" for x
    using e [OF that] i by (simp add: verifyExpectedTypedClearSignMessage_def Let_def fails_def split: if_splits del: js_simps)
  ultimately show ?thesis using t verb a by blast
qed

text \<open>
  C30: The signed bytes fix the decision, in each of the three forms.  When two descriptors whose
  wallet name, signer and envelope hash are single lines (which the code does not check: see
  \<open>line_breaks_move_text\<close>) are accepted for the same bytes, they have the same verb, proposal, wallet and
  envelope and are both or neither of version 2; in the forms of versions 3 and 4 they also agree in
  signer, requirement, counts, expiry text and version.
\<close>

theorem signed_text_binds:
  assumes "verifiedTypedClearSignMessageBytes inh lower d expected = Inr bs"
    and "verifiedTypedClearSignMessageBytes inh lower e expected' = Inr bs"
    and "single_lines lower d" "single_lines lower e" "inherited_ok inh"
  shows "\<exists>v. expectedVoteVerb inh (action d) = Inr v \<and> expectedVoteVerb inh (action e) = Inr v
    \<and> proposal_index d = proposal_index e \<and> wallet_name d = wallet_name e
    \<and> normalizeHex lower (envelope_hash_hex d) = normalizeHex lower (envelope_hash_hex e)
    \<and> (message_flavor d = Clearsign_v2_text \<longleftrightarrow> message_flavor e = Clearsign_v2_text)
    \<and> (message_flavor d \<noteq> Clearsign_v2_text \<longrightarrow> same_decision lower d v e v)"
proof -
  obtain t where t: "decode_fatal bs = Inr t"
      "if message_flavor d = Clearsign_v2_text then verifyLegacyV2Approval inh lower d t expected = Inr ()
       else verifyTypedClearSignMessageText inh lower d t = Inr ()"
    using assms(1) by (elim verified_parts) fastforce
  have u: "if message_flavor e = Clearsign_v2_text then verifyLegacyV2Approval inh lower e t expected' = Inr ()
       else verifyTypedClearSignMessageText inh lower e t = Inr ()"
    using assms(2) t(1) by (elim verified_parts) fastforce
  have mixed: "\<not> (verifyLegacyV2Approval inh lower x t o' = Inr () \<and> verifyTypedClearSignMessageText inh lower y t = Inr ())"
    if "single_lines lower x" for x y o'
    using typed_not_legacy [of inh lower y t] legacy_accepted [OF _ assms(5) that, of t o'] by (auto simp: legacy_lines_def)
  show ?thesis
  proof (cases "message_flavor d = Clearsign_v2_text")
    case True
    then have e2: "message_flavor e = Clearsign_v2_text" using t(2) u mixed [OF assms(3)] by (auto split: if_splits)
    obtain v x where v: "expectedVoteVerb inh (action d) = Inr v" "split_on 10 t = legacy_lines lower d v @ [] # x"
      using t(2) True by (auto elim: legacy_accepted [OF _ assms(5,3)])
    obtain w y where w: "expectedVoteVerb inh (action e) = Inr w" "split_on 10 t = legacy_lines lower e w @ [] # y"
      using u e2 by (auto elim: legacy_accepted [OF _ assms(5,4)])
    have "legacy_lines lower d v = legacy_lines lower e w" using v(2) w(2) by (simp add: legacy_lines_def)
    then have "verb_text v = verb_text w" "wallet_name d = wallet_name e" "show_int (proposal_index d) = show_int (proposal_index e)"
        "normalizeHex lower (envelope_hash_hex d) = normalizeHex lower (envelope_hash_hex e)" by (simp_all add: legacy_lines_def)
    then show ?thesis using True e2 verb_text_inj [OF assms(5) v(1) w(1)] v(1) w(1) show_int_inj by auto
  next
    case False
    then have e2: "message_flavor e \<noteq> Clearsign_v2_text" using t(2) u mixed [OF assms(4)] by (auto split: if_splits)
    from t(2) False u e2 same_block [OF _ _ assms(3,4)] obtain v w where
      "expectedVoteVerb inh (action d) = Inr v" "expectedVoteVerb inh (action e) = Inr w" "same_decision lower d v e w" by metis
    then show ?thesis using False e2 by (auto simp: same_decision_def)
  qed
qed

text \<open>With a line break in a name the text between wallet and signer can move without changing the block.\<close>

lemma line_breaks_move_text:
  "join_lines (approval_lines lower (d\<lparr>wallet_name := a @ 10 # js ''Requested by: '' @ b, signer_pubkey := c\<rparr>) v)
    = join_lines (approval_lines lower (d\<lparr>wallet_name := a, signer_pubkey := b @ 10 # js ''Requested by: '' @ c\<rparr>) v)"
  by (simp add: approval_lines_def approvalRequirementLabel_def Let_def)

text \<open>
  The compact device document ends in eight lines that name the network, the wallet, a
  threshold, the proposal, the expiry, the policy commitment, the profile and the protocol, behind
  at least one line of content, and has at most 1024 bytes.
\<close>

theorem compact_document_footer:
  assumes "verifyCompactV4Document lower d body = Inr ()"
  shows "\<exists>content net n. split_on 10 body = content @ [js ''NET '' @ net, js ''FROM '' @ wallet_name d,
      js ''APPROVAL '' @ show_nat n, js ''PROPOSAL '' @ show_int (proposal_index d), js ''EXPIRES '' @ show_int (expiry d),
      js ''POLICY '' @ normalizeHex lower (policy_commitment_hex d), js ''PROFILE clearsig-ledger-solana-v2@1'',
      js ''Protocol: clearsig-intent-v4@1'']
    \<and> content \<noteq> [] \<and> [] \<notin> set content \<and> net \<noteq> [] \<and> 1 \<le> n \<and> n \<le> 16 \<and> length (utf8_encode body) \<le> 1024"
proof -
  define ls where "ls = split_on 10 body"
  define at where "at = length ls - 8"
  have f: "length ls > 8" "starts_with (ls ! at) (js ''NET '')" "ls ! at \<noteq> js ''NET ''" "ls ! (at + 1) = js ''FROM '' @ wallet_name d"
    "ls ! (at + 2) \<in> set (map (\<lambda>n. js ''APPROVAL '' @ show_nat n) [1..<17])"
    "ls ! (at + 3) = js ''PROPOSAL '' @ show_int (proposal_index d)" "ls ! (at + 4) = js ''EXPIRES '' @ show_int (expiry d)"
    "ls ! (at + 5) = js ''POLICY '' @ normalizeHex lower (policy_commitment_hex d)"
    "ls ! (at + 6) = js ''PROFILE clearsig-ledger-solana-v2@1''" "ls ! (at + 7) = js ''Protocol: clearsig-intent-v4@1''"
    "\<not> list_ex (\<lambda>l. l = []) ls" "length (utf8_encode body) \<le> 1024"
    using assms unfolding verifyCompactV4Document_def Let_def fails_def ls_def [symmetric] at_def [symmetric]
    by (simp_all only: split: if_splits) (simp_all only: not_less simp_thms de_Morgan_disj sum.simps)
  obtain net where net: "ls ! at = js ''NET '' @ net" using f(2) by (metis append_take_drop_id starts_with_def)
  obtain n where n: "ls ! (at + 2) = js ''APPROVAL '' @ show_nat n" "1 \<le> n" "n < 17" using f(5) by auto
  have "drop at ls = [ls ! at, ls ! (at + 1), ls ! (at + 2), ls ! (at + 3), ls ! (at + 4), ls ! (at + 5), ls ! (at + 6), ls ! (at + 7)]"
    using f(1) by (intro drop_eight) (simp add: at_def)
  then have "ls = take at ls @ [js ''NET '' @ net, js ''FROM '' @ wallet_name d,
      js ''APPROVAL '' @ show_nat n, js ''PROPOSAL '' @ show_int (proposal_index d), js ''EXPIRES '' @ show_int (expiry d),
      js ''POLICY '' @ normalizeHex lower (policy_commitment_hex d), js ''PROFILE clearsig-ledger-solana-v2@1'',
      js ''Protocol: clearsig-intent-v4@1'']"
    unfolding net n(1) f(4,6-10) by (metis append_take_drop_id)
  moreover have "take at ls \<noteq> []" using f(1) by (auto simp: at_def)
  moreover have "[] \<notin> set (take at ls)" using f(11) by (auto simp: list_ex_iff dest: in_set_takeD)
  moreover have "net \<noteq> []" using f(3) net by auto
  moreover have "1 \<le> n" "n \<le> 16" using n by simp_all
  ultimately show ?thesis using f(12) unfolding ls_def [symmetric] by blast
qed

section \<open>A sample request\<close>

text \<open>Two short documents that are accepted, at which the properties are applied.\<close>

lemma starts_with_rec:
  "starts_with s [] = True"
  "starts_with [] (y # ys) = False"
  "starts_with (x # xs) (y # ys) = (if x = y then starts_with xs ys else False)"
  by (simp_all add: starts_with_def)

lemma decode_fatal_ascii:
  assumes "list_all (\<lambda>u. unat u < 128) t"
  shows "decode_fatal (utf8_encode t) = Inr t"
proof -
  have "utf8_points (utf8_encode t) = code_points t" using utf8_points_encode [OF code_points_scalar [of t]] by (simp add: utf8_encode_def)
  moreover have "well_formed t" using assms by (induction t rule: well_formed.induct) (auto simp: is_high_def is_low_def)
  moreover have "t = [] \<or> hd t \<noteq> 0xFEFF" using assms by (cases t) auto
  ultimately show ?thesis using utf8_decode_encode by (simp add: decode_fatal_def utf8_encode_def)
qed

lemma verified_ascii:
  assumes "list_all (\<lambda>u. unat u < 128) t" "t \<noteq> []" "\<not> hasUnsafeControlCharacters t"
    "message_hex d = toHex (utf8_encode t)" "message_flavor d = Clearsign_v3_document \<or> message_flavor d = Clearsign_v4_document"
    "verifyTypedClearSignMessageText inh lower d t = Inr ()"
    "\<And>e. expected = Some e \<Longrightarrow> verifyExpectedTypedClearSignMessage lower d t e = Inr ()"
  shows "verifiedTypedClearSignMessageBytes inh lower d expected = Inr (utf8_encode t)"
proof -
  have "utf8_encode t \<noteq> []" using assms(1,2) by (simp add: map_ucast_utf8)
  then show ?thesis using assms
    by (cases expected) (auto simp: verifiedTypedClearSignMessageBytes_def fromHex_toHex decode_fatal_ascii)
qed

definition sample_body :: jsstr where
  "sample_body = join_lines [js ''ClearSig Proposal'', [], js ''ACTION'', js ''x'', [], js ''DETAILS'', js ''x'', [], js ''POLICY'',
     js ''Display profile: clearsig-full-v1@1'', [], js ''RISK'', js ''x'', [], js ''PURPOSE'', js ''x'']"

definition sample_descriptor :: TypedDryRunDescriptor where
  "sample_descriptor = \<lparr>action = js ''approve'', wallet_name = js ''A'', proposal_index = 7, signer_pubkey = js ''B'',
     approval_requirement = 1, approval_count_after = 1, approval_kind = Approvals, policy_commitment_hex = [],
     payload_hash_hex = js ''cd'', envelope_hash_hex = js ''ab'', canonical_intent_hex = None, message_hex = [],
     message_flavor = Clearsign_v3_document, expiry = 0\<rparr>"

definition sample_text :: jsstr where
  "sample_text = sample_body @ [10, 10] @ join_lines (approval_lines id sample_descriptor Approve)"

lemma ts0: "formatTimestamp 0 = js ''1970-01-01 00:00:00''"
  by code_simp


definition sample_literal :: jsstr where
  "sample_literal = js ''ClearSig Proposal'' @ [10,10] @ js ''ACTION'' @ [10] @ js ''x'' @ [10,10] @ js ''DETAILS'' @ [10] @ js ''x'' @ [10,10] @ js ''POLICY'' @ [10] @
     js ''Display profile: clearsig-full-v1@1'' @ [10,10] @ js ''RISK'' @ [10] @ js ''x'' @ [10,10] @ js ''PURPOSE'' @ [10] @ js ''x''"

lemma sb: "sample_body = sample_literal"
  by (simp add: sample_body_def sample_literal_def)

lemma s1: "split_str [10,10] sample_literal = [js ''ClearSig Proposal'', js ''ACTION'' @ [10] @ js ''x'', js ''DETAILS'' @ [10] @ js ''x'',
   js ''POLICY'' @ [10] @ js ''Display profile: clearsig-full-v1@1'', js ''RISK'' @ [10] @ js ''x'', js ''PURPOSE'' @ [10] @ js ''x'']"
  unfolding sample_literal_def by (simp add: split_str_def starts_with_rec)

lemma sample_approval: "approval_lines id sample_descriptor Approve = [js ''APPROVAL'', js ''Decision: APPROVE'', js ''Proposal: #7'', js ''Wallet: A'',
   js ''Requested by: B'', js ''Requirement: 1 approval'', js ''Status if accepted: 1 of 1 approval'', [], js ''EXPIRY'',
   js ''1970-01-01 00:00:00 UTC'', [], js ''PROOF'', js ''ClearSign: v3'', js ''Envelope: ab'']"
  by (simp add: approval_lines_def sample_descriptor_def ts0 normalizeHex_def trim_id js_space_def show_int_def show_nat.simps digit_char_def
    approvalRequirementLabel_def verb_upper_def)

definition sample_end :: jsstr where
  "sample_end = join_lines (approval_lines id sample_descriptor Approve)"

lemma se: "normalizeEnvelopeProof id sample_end = sample_end"
  unfolding sample_end_def sample_approval by (simp add: normalizeEnvelopeProof_def Let_def hex_char_def hex_digit_def word_le_nat_alt)

lemma si: "index_of_str (10 # 10 # js ''APPROVAL'' @ [10]) (sample_body @ [10, 10] @ sample_end) = Some (length sample_body)"
  unfolding sample_end_def sample_approval sb sample_literal_def by (simp add: starts_with_rec)

lemma split_str_none: "index_of_str p s = None \<Longrightarrow> split_str p s = [s]"
  by (cases s) (simp_all add: split_str_def)

lemma split_str_one:
  assumes "index_of_str p s = Some i" "p \<noteq> []" "index_of_str p (drop (i + length p) s) = None"
  shows "split_str p s = [take i s, drop (i + length p) s]"
proof -
  have "s \<noteq> []" using assms(1,2) by auto
  then obtain n where n: "length s = Suc n" by (cases s) auto
  show ?thesis by (cases n) (simp_all add: split_str_def n assms)
qed

lemma sp1: "index_of_str (js ''Display profile: clearsig-full-v1@1'') (sample_body @ [10, 10] @ sample_end) = Some 47"
  unfolding sample_end_def sample_approval sb sample_literal_def by (simp add: starts_with_rec)

lemma sp2: "index_of_str (js ''Display profile: clearsig-full-v1@1'') (drop (47 + length (js ''Display profile: clearsig-full-v1@1'')) (sample_body @ [10, 10] @ sample_end)) = None"
  unfolding sample_end_def sample_approval sb sample_literal_def by (simp add: starts_with_rec)

lemma sp3: "index_of_str (js ''Display profile: clearsig-ledger-solana-v1@1'') (sample_body @ [10, 10] @ sample_end) = None"
  unfolding sample_end_def sample_approval sb sample_literal_def by (simp add: starts_with_rec)

lemma accepted_v3:
  assumes "index_of_str (10 # 10 # js ''APPROVAL'' @ [10]) t = Some i" "message_flavor d = Clearsign_v3_document"
    "expectedVoteVerb inh (action d) = Inr v" "verifyApprovalContext d v = Inr ()" "has_toUpperCase v"
    "normalizeEnvelopeProof lower (drop (i + 2) t) = join_lines (approval_lines lower d v)"
    "split_str [10, 10] (take i t) = secs" "length secs = 6" "sections_ok False secs = Inr ()"
    "sum_list (map (\<lambda>p. length (split_str p t) - 1) (display_profiles False)) = 1"
    "list_ex (\<lambda>p. p \<in> set (tl (split_on 10 (secs ! 3)))) (display_profiles False)"
  shows "verifyTypedClearSignMessageText inh lower d t = Inr ()"
proof -
  have l: "length (section_names False) = 6" by (simp add: section_names_def)
  show ?thesis
    unfolding verifyTypedClearSignMessageText_def Let_def assms(1) option.case assms(2,3,6,7) using assms(4,5,8-11) l
    by (simp add: guard_def del: js_simps)
qed

lemma sample_text_ok: "verifyTypedClearSignMessageText (\<lambda>_. None) id sample_descriptor (sample_body @ [10, 10] @ sample_end) = Inr ()"
proof (rule accepted_v3 [OF si])
  let ?t = "sample_body @ [10, 10] @ sample_end"
  show "message_flavor sample_descriptor = Clearsign_v3_document" "expectedVoteVerb (\<lambda>_. None) (action sample_descriptor) = Inr Approve"
    by (simp_all add: sample_descriptor_def expectedVoteVerb_def)
  show "verifyApprovalContext sample_descriptor Approve = Inr ()" "has_toUpperCase Approve"
    by (simp_all add: sample_descriptor_def verifyApprovalContext_def has_toUpperCase_def)
  show "normalizeEnvelopeProof id (drop (length sample_body + 2) ?t) = join_lines (approval_lines id sample_descriptor Approve)"
    using se by (simp add: sample_end_def)
  show "split_str [10, 10] (take (length sample_body) ?t) = split_str [10,10] sample_literal" by (simp add: sb)
  show "length (split_str [10,10] sample_literal) = 6" unfolding s1 by simp
  show "sections_ok False (split_str [10,10] sample_literal) = Inr ()"
    unfolding s1 by (simp add: sections_ok_def section_names_def section_ok_def starts_with_def upt_rec)
  show "list_ex (\<lambda>p. p \<in> set (tl (split_on 10 (split_str [10,10] sample_literal ! 3)))) (display_profiles False)"
    unfolding s1 by (simp add: display_profiles_def)
  have "js ''Display profile: clearsig-full-v1@1'' \<noteq> []" by simp
  from arg_cong [OF split_str_one [OF sp1 this sp2], of length] arg_cong [OF split_str_none [OF sp3], of length]
  show "sum_list (map (\<lambda>p. length (split_str p ?t) - 1) (display_profiles False)) = 1"
    unfolding display_profiles_def if_False list.map sum_list.Cons sum_list.Nil by (simp only: list.size)
qed

lemma sn: "list_all (\<lambda>u. unat u < 128) (sample_body @ [10, 10] @ sample_end)"
  "\<not> hasUnsafeControlCharacters (sample_body @ [10, 10] @ sample_end)"
proof -
  show a: "list_all (\<lambda>u. unat u < 128) (sample_body @ [10, 10] @ sample_end)"
    unfolding sample_end_def sample_approval sb sample_literal_def by simp
  show "\<not> hasUnsafeControlCharacters (sample_body @ [10, 10] @ sample_end)"
    unfolding hasUnsafeControlCharacters_def code_points_ascii [OF a]
    unfolding sample_end_def sample_approval sb sample_literal_def by simp
qed

lemma verify_text_fields:
  "verifyTypedClearSignMessageText inh lower (d\<lparr>payload_hash_hex := h\<rparr>) t = verifyTypedClearSignMessageText inh lower d t"
  "verifyTypedClearSignMessageText inh lower (d\<lparr>message_hex := m\<rparr>) t = verifyTypedClearSignMessageText inh lower d t"
  by (simp_all add: verifyTypedClearSignMessageText_def approval_lines_def verifyApprovalContext_def approvalRequirementLabel_def
    verifyCompactV4Document_def Let_def del: js_simps cong: option.case_cong if_cong)

definition sample_request :: TypedDryRunDescriptor where
  "sample_request = sample_descriptor\<lparr>message_hex := toHex (utf8_encode (sample_body @ [10, 10] @ sample_end))\<rparr>"

lemma sample_verify:
  "verifyTypedClearSignMessageText (\<lambda>_. None) id (sample_request\<lparr>payload_hash_hex := h\<rparr>) (sample_body @ [10, 10] @ sample_end) = Inr ()"
  using sample_text_ok by (simp add: verify_text_fields sample_request_def)

definition sample_expected :: ExpectedTypedClearSignMessage where
  "sample_expected = \<lparr>envelopeHash = js ''0xab'', payloadHash = js '' cd'', signableText = sample_body\<rparr>"

lemma sample_accepted:
  "verifiedTypedClearSignMessageBytes (\<lambda>_. None) id sample_request (Some sample_expected) = Inr (utf8_encode (sample_body @ [10, 10] @ sample_end))"
  "verifiedTypedClearSignMessageBytes (\<lambda>_. None) id (sample_request\<lparr>payload_hash_hex := []\<rparr>) None = Inr (utf8_encode (sample_body @ [10, 10] @ sample_end))"
proof -
  have n: "normalizeHex id (js ''0xab'') = js ''ab''" "normalizeHex id (js ''ab'') = js ''ab''"
    "normalizeHex id (js '' cd'') = js ''cd''" "normalizeHex id (js ''cd'') = js ''cd''"
    by (simp_all add: normalizeHex_def trim_def rstrip_def js_space_def)
  have "verifyExpectedTypedClearSignMessage id sample_request (sample_body @ [10, 10] @ sample_end) sample_expected = Inr ()"
    using n unfolding verifyExpectedTypedClearSignMessage_def si
    by (simp add: sample_request_def sample_expected_def sample_descriptor_def del: js_simps)
  moreover have "sample_request\<lparr>payload_hash_hex := js ''cd''\<rparr> = sample_request" by (simp add: sample_request_def sample_descriptor_def)
  then have "verifyTypedClearSignMessageText (\<lambda>_. None) id sample_request (sample_body @ [10, 10] @ sample_end) = Inr ()"
    using sample_verify [of "js ''cd''"] by (simp del: js_simps)
  ultimately show "verifiedTypedClearSignMessageBytes (\<lambda>_. None) id sample_request (Some sample_expected) = Inr (utf8_encode (sample_body @ [10, 10] @ sample_end))"
    by (intro verified_ascii sn) (auto simp: sample_request_def sample_descriptor_def simp del: js_simps)
  show "verifiedTypedClearSignMessageBytes (\<lambda>_. None) id (sample_request\<lparr>payload_hash_hex := []\<rparr>) None = Inr (utf8_encode (sample_body @ [10, 10] @ sample_end))"
    by (intro verified_ascii sn sample_verify) (auto simp: sample_request_def sample_descriptor_def simp del: js_simps)
qed

theorem signed_text_shape_witness:
  "\<exists>t body approval verb. fromHex (message_hex sample_request) = Inr (utf8_encode (sample_body @ [10, 10] @ sample_end))
    \<and> decode_fatal (utf8_encode (sample_body @ [10, 10] @ sample_end)) = Inr t
    \<and> \<not> hasUnsafeControlCharacters t \<and> t = body @ [10, 10] @ approval \<and> expectedVoteVerb (\<lambda>_. None) (action sample_request) = Inr verb
    \<and> normalizeEnvelopeProof id approval = join_lines (approval_lines id sample_request verb)
    \<and> (\<forall>e. Some sample_expected = Some e \<longrightarrow> body = signableText e
         \<and> normalizeHex id (envelope_hash_hex sample_request) = normalizeHex id (envelopeHash e)
         \<and> normalizeHex id (payload_hash_hex sample_request) = normalizeHex id (payloadHash e))"
  by (rule signed_text_shape [OF sample_accepted(1)]) (simp add: sample_request_def sample_descriptor_def)

theorem signed_text_binds_witness:
  "\<exists>v. expectedVoteVerb (\<lambda>_. None) (action sample_request) = Inr v
    \<and> same_decision id sample_request v (sample_request\<lparr>payload_hash_hex := []\<rparr>) v"
  using signed_text_binds [OF sample_accepted(1) sample_accepted(2)]
  by (force simp: sample_request_def sample_descriptor_def single_lines_def normalizeHex_def trim_id js_space_def inherited_ok_def)

definition sample_compact :: jsstr where
  "sample_compact = join_lines [js ''SEND'', js ''NET S'', js ''FROM A'', js ''APPROVAL 2'', js ''PROPOSAL 7'', js ''EXPIRES 0'',
     js ''POLICY ef'', js ''PROFILE clearsig-ledger-solana-v2@1'', js ''Protocol: clearsig-intent-v4@1'']"

theorem compact_document_footer_witness:
  "\<exists>content net n. split_on 10 sample_compact = content @ [js ''NET '' @ net, js ''FROM '' @ js ''A'',
      js ''APPROVAL '' @ show_nat n, js ''PROPOSAL '' @ show_int 7, js ''EXPIRES '' @ show_int 0,
      js ''POLICY '' @ normalizeHex id (js ''ef''), js ''PROFILE clearsig-ledger-solana-v2@1'',
      js ''Protocol: clearsig-intent-v4@1'']
    \<and> content \<noteq> [] \<and> [] \<notin> set content \<and> net \<noteq> [] \<and> 1 \<le> n \<and> n \<le> 16 \<and> length (utf8_encode sample_compact) \<le> 1024"
proof -
  let ?d = "sample_descriptor\<lparr>policy_commitment_hex := js ''ef''\<rparr>"
  have n: "normalizeHex id (js ''ef'') = js ''ef''" by (simp add: normalizeHex_def trim_def rstrip_def js_space_def)
  have l: "split_on 10 sample_compact = [js ''SEND'', js ''NET S'', js ''FROM A'', js ''APPROVAL 2'', js ''PROPOSAL 7'', js ''EXPIRES 0'',
     js ''POLICY ef'', js ''PROFILE clearsig-ledger-solana-v2@1'', js ''Protocol: clearsig-intent-v4@1'']"
    unfolding sample_compact_def by (rule split_join_lines) simp_all
  have u: "length (utf8_encode sample_compact) \<le> 1024"
    by (subst utf8_encode_ascii) (simp_all add: sample_compact_def)
  have i: "index_of_str (js ''PROFILE clearsig-ledger-solana-v2@1'') sample_compact = Some 60"
    "index_of_str (js ''PROFILE clearsig-ledger-solana-v2@1'') (drop (60 + length (js ''PROFILE clearsig-ledger-solana-v2@1'')) sample_compact) = None"
    "index_of_str (js ''Protocol: clearsig-intent-v4@1'') sample_compact = Some 96"
    "index_of_str (js ''Protocol: clearsig-intent-v4@1'') (drop (96 + length (js ''Protocol: clearsig-intent-v4@1'')) sample_compact) = None"
    unfolding sample_compact_def by (simp_all add: starts_with_rec)
  have s: "length (split_str (js ''PROFILE clearsig-ledger-solana-v2@1'') sample_compact) - 1 = 1"
    "length (split_str (js ''Protocol: clearsig-intent-v4@1'') sample_compact) - 1 = 1"
    using arg_cong [OF split_str_one [OF i(1) _ i(2)], of length] arg_cong [OF split_str_one [OF i(3) _ i(4)], of length] by simp_all
  have "verifyCompactV4Document id ?d sample_compact = Inr ()"
    unfolding verifyCompactV4Document_def Let_def l s using u n
    by (simp add: sample_descriptor_def starts_with_def show_int_def show_nat.simps digit_char_def upt_rec)
  from compact_document_footer [OF this] show ?thesis by (simp add: sample_descriptor_def)
qed

end
