(* ===== verification/Keyed_Store.thy ===== *)
theory Keyed_Store
  imports JS_Prelude
begin

text \<open>
  The contract of a store: what a look-up finds after every operation.  The application keeps
  its rules and its settings in the storage of the browser, as lists of records that carry
  their key; \<open>put_row\<close> and \<open>drop_rows\<close> are the two steps all of them share.
\<close>

section \<open>The contract\<close>

datatype ('k, 'v) operation = Put 'v | Remove 'k

locale keyed_store =
  fixes lookup :: "'k \<Rightarrow> 's \<Rightarrow> 'v option"
    and put :: "'v \<Rightarrow> 's \<Rightarrow> 's"
    and remove :: "'k \<Rightarrow> 's \<Rightarrow> 's"
    and key :: "'v \<Rightarrow> 'k"
    and inv :: "'s \<Rightarrow> bool"
  assumes lookup_put: "inv s \<Longrightarrow> lookup k (put v s) = (if k = key v then Some v else lookup k s)"
    and lookup_remove: "inv s \<Longrightarrow> lookup k (remove j s) = (if k = j then None else lookup k s)"
    and inv_put: "inv s \<Longrightarrow> inv (put v s)"
    and inv_remove: "inv s \<Longrightarrow> inv (remove j s)"
begin

definition apply_op :: "('k, 'v) operation \<Rightarrow> 's \<Rightarrow> 's" where
  "apply_op a s = (case a of Put v \<Rightarrow> put v s | Remove k \<Rightarrow> remove k s)"

definition map_op :: "('k, 'v) operation \<Rightarrow> ('k \<Rightarrow> 'v option) \<Rightarrow> ('k \<Rightarrow> 'v option)" where
  "map_op a m = (case a of Put v \<Rightarrow> m(key v \<mapsto> v) | Remove k \<Rightarrow> m(k := None))"

lemma inv_op: "inv s \<Longrightarrow> inv (apply_op a s)"
  by (cases a) (simp_all add: apply_op_def inv_put inv_remove)

lemma lookup_op: "inv s \<Longrightarrow> (\<lambda>k. lookup k (apply_op a s)) = map_op a (\<lambda>k. lookup k s)"
  by (cases a) (auto simp: apply_op_def map_op_def lookup_put lookup_remove fun_eq_iff)

lemma lookup_run: "inv s \<Longrightarrow> (\<lambda>k. lookup k (fold apply_op as s)) = fold map_op as (\<lambda>k. lookup k s)"
  by (induction as arbitrary: s) (simp_all add: inv_op lookup_op)

lemma inv_run: "inv s \<Longrightarrow> inv (fold apply_op as s)"
  by (induction as arbitrary: s) (simp_all add: inv_op)

lemma put_put: "inv s \<Longrightarrow> key v = key w \<Longrightarrow> lookup k (put w (put v s)) = lookup k (put w s)"
  by (simp add: lookup_put inv_put)

end

section \<open>Lists of records\<close>

text \<open>\<open>rows.find(r => key(r) === k)\<close>; \<open>rows.filter(r => key(r) !== k)\<close>, then \<open>push\<close>.\<close>

definition get_row :: "('v \<Rightarrow> 'k) \<Rightarrow> 'k \<Rightarrow> 'v list \<Rightarrow> 'v option" where
  "get_row key k rows = find (\<lambda>r. key r = k) rows"

definition drop_rows :: "('v \<Rightarrow> 'k) \<Rightarrow> 'k \<Rightarrow> 'v list \<Rightarrow> 'v list" where
  "drop_rows key k rows = filter (\<lambda>r. key r \<noteq> k) rows"

definition put_row :: "('v \<Rightarrow> 'k) \<Rightarrow> 'v \<Rightarrow> 'v list \<Rightarrow> 'v list" where
  "put_row key v rows = drop_rows key (key v) rows @ [v]"

lemma find_append: "find p (xs @ ys) = (case find p xs of None \<Rightarrow> find p ys | Some x \<Rightarrow> Some x)"
  by (induction xs) auto

lemma find_filter: "(\<And>x. p x \<Longrightarrow> q x) \<Longrightarrow> find p (filter q xs) = find p xs"
  by (induction xs) auto

lemma get_drop: "get_row key k (drop_rows key j rows) = (if k = j then None else get_row key k rows)"
  by (auto simp: get_row_def drop_rows_def find_None_iff intro: find_filter)

lemma get_put: "get_row key k (put_row key v rows) = (if k = key v then Some v else get_row key k rows)"
  using get_drop [of key k "key v" rows]
  by (auto simp: put_row_def get_row_def find_append split: option.splits)

lemma row_store: "keyed_store (get_row key) (put_row key) (drop_rows key) key (\<lambda>_. True)"
  by unfold_locales (simp_all add: get_put get_drop)

lemma put_row_keys: "distinct (map key rows) \<Longrightarrow> distinct (map key (put_row key v rows))"
  by (auto simp: put_row_def drop_rows_def distinct_map inj_on_def)

section \<open>Positions\<close>

text \<open>\<open>findIndex\<close>: \<open>None\<close> is -1.\<close>

fun find_index :: "('a \<Rightarrow> bool) \<Rightarrow> 'a list \<Rightarrow> nat option" where
  "find_index p [] = None"
| "find_index p (x # xs) = (if p x then Some 0 else map_option Suc (find_index p xs))"

lemma find_index_Some: "find_index p xs = Some i \<Longrightarrow> i < length xs \<and> p (xs ! i)"
  by (induction xs arbitrary: i) (auto split: if_splits)

lemma find_index_None: "find_index p xs = None \<longleftrightarrow> (\<forall>x \<in> set xs. \<not> p x)"
  by (induction xs) auto

end
