(* ===== verification/Wallet_Settings.thy ===== *)
theory Wallet_Settings
  imports Complex_Main Keyed_Store Decimal_Text
begin

text \<open>
  The protection settings of a wallet: recipients and hours (\<open>lib/retail/policy.ts\<close>), the
  allowances of members (\<open>lib/retail/allowances.ts\<close>), the budget
  (\<open>lib/retail/spendingBudget.ts\<close>), and the check of a send against them before it is signed
  (\<open>lib/retail/policyEvaluation.ts\<close>).  The state is the four lists of records the browser
  stores.  A finite JavaScript number is a \<open>rat\<close>; where a check tells it from \<open>NaN\<close> and the infinities,
  it is an option and these are \<open>None\<close>.  Where numbers are added or multiplied, the rounded operation is
  a parameter.  \<open>now\<close> is \<open>Date.now()\<close>.
\<close>

type_synonym number = rat

text \<open>\<open>Number.isInteger\<close>, with the integer.\<close>

definition js_integer :: "number option \<Rightarrow> int option" where
  "js_integer v = (case v of Some x \<Rightarrow> if x = of_int \<lfloor>x\<rfloor> then Some \<lfloor>x\<rfloor> else None | None \<Rightarrow> None)"

section \<open>Recipients\<close>

record Allowlist =
  allow_wallet :: jsstr
  allow_chain :: int
  allow_on :: bool
  allow_addresses :: "jsstr list"
  allow_updated :: int

definition allow_key :: "Allowlist \<Rightarrow> jsstr \<times> int" where
  "allow_key r = (allow_wallet r, allow_chain r)"

definition normalizeChainKind :: "number option \<Rightarrow> int" where
  "normalizeChainKind v = (case js_integer v of Some k \<Rightarrow> if k \<ge> 0 then k else 0 | None \<Rightarrow> 0)"

definition getAllowlist :: "jsstr \<Rightarrow> int \<Rightarrow> Allowlist list \<Rightarrow> Allowlist" where
  "getAllowlist w k rows = (case get_row allow_key (w, k) rows of
       Some r \<Rightarrow> r
     | None \<Rightarrow> \<lparr>allow_wallet = w, allow_chain = k, allow_on = False, allow_addresses = [], allow_updated = 0\<rparr>)"

definition allowlist_record :: "jsstr \<Rightarrow> number option \<Rightarrow> bool \<Rightarrow> jsstr list \<Rightarrow> int \<Rightarrow> Allowlist" where
  "allowlist_record w chain on addresses now = \<lparr>allow_wallet = w, allow_chain = normalizeChainKind chain, allow_on = on,
     allow_addresses = take 16 (dedupe addresses), allow_updated = now\<rparr>"

definition saveAllowlist :: "jsstr \<Rightarrow> number option \<Rightarrow> bool \<Rightarrow> jsstr list \<Rightarrow> int \<Rightarrow> Allowlist list \<Rightarrow> Allowlist list" where
  "saveAllowlist w chain on addresses now rows = put_row allow_key (allowlist_record w chain on addresses now) rows"

section \<open>Hours\<close>

record TimeWindow =
  tw_wallet :: jsstr
  tw_enabled :: bool
  tw_start :: int
  tw_end :: int
  tw_days :: "int list"
  tw_updated :: int

definition getTimeWindow :: "jsstr \<Rightarrow> TimeWindow list \<Rightarrow> TimeWindow" where
  "getTimeWindow w rows = (case get_row tw_wallet w rows of
       Some r \<Rightarrow> r
     | None \<Rightarrow> \<lparr>tw_wallet = w, tw_enabled = False, tw_start = 9, tw_end = 18, tw_days = [0, 1, 2, 3, 4, 5, 6], tw_updated = 0\<rparr>)"

definition clampHour :: "number option \<Rightarrow> int" where
  "clampHour h = (case h of
       None \<Rightarrow> 0
     | Some x \<Rightarrow> (let v = \<lfloor>x\<rfloor> in if v < 0 then 0 else if v > 23 then 23 else v))"

text \<open>The days that pass \<open>Number.isInteger(d) && d >= 0 && d <= 6\<close>.\<close>

definition week_day :: "number option \<Rightarrow> int option" where
  "week_day d = (case js_integer d of Some v \<Rightarrow> if 0 \<le> v \<and> v \<le> 6 then Some v else None | None \<Rightarrow> None)"

text \<open>\<open>sort()\<close> without a comparison sorts by the text of the numbers: on single digits, by the numbers.\<close>

definition window_record :: "jsstr \<Rightarrow> bool \<Rightarrow> number option \<Rightarrow> number option \<Rightarrow> number option list \<Rightarrow> int \<Rightarrow> TimeWindow" where
  "window_record w on s f days now = \<lparr>tw_wallet = w, tw_enabled = on, tw_start = clampHour s, tw_end = clampHour f,
     tw_days = sort (List.map_filter week_day (dedupe days)), tw_updated = now\<rparr>"

definition saveTimeWindow ::
  "jsstr \<Rightarrow> bool \<Rightarrow> number option \<Rightarrow> number option \<Rightarrow> number option list \<Rightarrow> int \<Rightarrow> TimeWindow list \<Rightarrow> TimeWindow list" where
  "saveTimeWindow w on s f days now rows = put_row tw_wallet (window_record w on s f days now) rows"

text \<open>On \<open>getHours\<close> and \<open>getDay\<close> of the time.\<close>

definition isInsideTimeWindow :: "TimeWindow \<Rightarrow> int \<Rightarrow> int \<Rightarrow> bool" where
  "isInsideTimeWindow w hour day =
     (if \<not> tw_enabled w then True
      else if tw_days w = [] then False
      else if day \<notin> set (tw_days w) then False
      else if tw_start w = tw_end w then False
      else if tw_start w < tw_end w then hour \<ge> tw_start w \<and> hour < tw_end w
      else hour \<ge> tw_start w \<or> hour < tw_end w)"

section \<open>Allowances\<close>

datatype AllowancePeriod = Weekly | Monthly | Unlimited

record FriendAllowance =
  fa_wallet :: jsstr
  fa_friend :: jsstr
  amountSol :: number
  period :: AllowancePeriod
  fa_updated :: int

definition fa_key :: "FriendAllowance \<Rightarrow> jsstr \<times> jsstr" where
  "fa_key r = (fa_wallet r, fa_friend r)"

definition listAllowances :: "jsstr option \<Rightarrow> FriendAllowance list \<Rightarrow> FriendAllowance list" where
  "listAllowances w rows = (if truthy w then filter (\<lambda>r. fa_wallet r = or_empty w) rows else rows)"

definition getAllowance :: "jsstr \<Rightarrow> jsstr \<Rightarrow> FriendAllowance list \<Rightarrow> FriendAllowance option" where
  "getAllowance w f rows = get_row fa_key (w, f) rows"

definition saveAllowance :: "jsstr \<Rightarrow> jsstr \<Rightarrow> number \<Rightarrow> AllowancePeriod \<Rightarrow> int \<Rightarrow> FriendAllowance list \<Rightarrow> FriendAllowance list" where
  "saveAllowance w f amount p now rows =
     put_row fa_key \<lparr>fa_wallet = w, fa_friend = f, amountSol = amount, period = p, fa_updated = now\<rparr> rows"

definition removeAllowance :: "jsstr \<Rightarrow> jsstr \<Rightarrow> FriendAllowance list \<Rightarrow> FriendAllowance list" where
  "removeAllowance w f rows = drop_rows fa_key (w, f) rows"

section \<open>The budget\<close>

definition BUDGET_WINDOW_MS :: int where
  "BUDGET_WINDOW_MS = 7 * 24 * 60 * 60 * 1000"

definition VELOCITY_WINDOW_MS :: int where
  "VELOCITY_WINDOW_MS = 24 * 60 * 60 * 1000"

datatype PolicyChainTicker = T_SOL | T_USDC | T_ETH | T_BTC | T_ZEC | T_HYPE

definition POLICY_CHAIN_TICKERS :: "PolicyChainTicker list" where
  "POLICY_CHAIN_TICKERS = [T_SOL, T_USDC, T_ETH, T_BTC, T_ZEC, T_HYPE]"

text \<open>\<open>Partial<Record<PolicyChainTicker, A | null>> | undefined\<close>: a missing key is \<open>None\<close>, \<open>null\<close> is \<open>Some None\<close>.\<close>

type_synonym 'a caps = "(PolicyChainTicker \<Rightarrow> 'a option option) option"

record WalletBudget =
  b_wallet :: jsstr
  weeklyUsd :: "number option"
  perChainUsd :: "number caps"
  onchainWeeklyNative :: "jsstr caps"
  velocityPerDay :: "number option"
  b_updated :: int

text \<open>A field of the input that may be left out: \<open>None\<close> is \<open>undefined\<close>.\<close>

record SaveBudgetInput =
  in_wallet :: jsstr
  in_weeklyUsd :: "number option option"
  in_perChainUsd :: "number caps"
  in_onchainWeeklyNative :: "jsstr caps"
  in_velocityPerDay :: "number option option"

definition legacy_budget :: "jsstr \<Rightarrow> number option \<Rightarrow> SaveBudgetInput" where
  "legacy_budget w usd = \<lparr>in_wallet = w, in_weeklyUsd = Some usd, in_perChainUsd = None, in_onchainWeeklyNative = None,
     in_velocityPerDay = None\<rparr>"

definition getBudget :: "jsstr \<Rightarrow> WalletBudget list \<Rightarrow> WalletBudget option" where
  "getBudget w rows = get_row b_wallet w rows"

text \<open>\<open>mergeChainCaps\<close> and \<open>mergeNativeCaps\<close> have the same text: the loop over the tickers with \<open>in\<close>.\<close>

definition merge_caps :: "'a caps \<Rightarrow> 'a caps \<Rightarrow> 'a caps" where
  "merge_caps existing patch = (case patch of
       None \<Rightarrow> existing
     | Some p \<Rightarrow> Some (fold (\<lambda>t out. if p t \<noteq> None then out(t := p t) else out) POLICY_CHAIN_TICKERS
         (case existing of None \<Rightarrow> \<lambda>_. None | Some e \<Rightarrow> e)))"

definition budget_record :: "SaveBudgetInput \<Rightarrow> int \<Rightarrow> WalletBudget option \<Rightarrow> WalletBudget" where
  "budget_record i now old = \<lparr>b_wallet = in_wallet i,
     weeklyUsd = (case in_weeklyUsd i of Some v \<Rightarrow> v | None \<Rightarrow> Option.bind old weeklyUsd),
     perChainUsd = merge_caps (Option.bind old perChainUsd) (in_perChainUsd i),
     onchainWeeklyNative = merge_caps (Option.bind old onchainWeeklyNative) (in_onchainWeeklyNative i),
     velocityPerDay = (case in_velocityPerDay i of Some v \<Rightarrow> v | None \<Rightarrow> Option.bind old velocityPerDay),
     b_updated = now\<rparr>"

definition saveBudget :: "SaveBudgetInput \<Rightarrow> int \<Rightarrow> WalletBudget list \<Rightarrow> WalletBudget list" where
  "saveBudget i now rows = put_row b_wallet (budget_record i now (getBudget (in_wallet i) rows)) rows"

record PriceableSpend =
  executedAtMs :: int
  usd :: number
  s_ticker :: jsstr

definition computeWindowStart :: "int \<Rightarrow> int" where
  "computeWindowStart now = now - BUDGET_WINDOW_MS"

definition computeVelocityWindowStart :: "int \<Rightarrow> int" where
  "computeVelocityWindowStart now = now - VELOCITY_WINDOW_MS"

definition counted :: "int \<Rightarrow> PriceableSpend \<Rightarrow> bool" where
  "counted now r \<longleftrightarrow> \<not> executedAtMs r < computeWindowStart now \<and> \<not> usd r \<le> 0"

record BudgetUsageWindow =
  spentUsd :: number
  proposalCount :: nat
  windowStartMs :: int

definition sumWindowUsd :: "(number \<Rightarrow> number \<Rightarrow> number) \<Rightarrow> PriceableSpend list \<Rightarrow> int \<Rightarrow> BudgetUsageWindow" where
  "sumWindowUsd fadd rows now = fold (\<lambda>r u. if counted now r
       then u\<lparr>spentUsd := fadd (spentUsd u) (usd r), proposalCount := proposalCount u + 1\<rparr> else u)
     rows \<lparr>spentUsd = 0, proposalCount = 0, windowStartMs = computeWindowStart now\<rparr>"

definition sumWindowUsdByChain :: "(number \<Rightarrow> number \<Rightarrow> number) \<Rightarrow> PriceableSpend list \<Rightarrow> int \<Rightarrow> jsstr \<Rightarrow> number option" where
  "sumWindowUsdByChain fadd rows now = fold (\<lambda>r out. if counted now r
       then out(s_ticker r \<mapsto> fadd (case out (s_ticker r) of None \<Rightarrow> 0 | Some v \<Rightarrow> v) (usd r)) else out)
     rows (\<lambda>_. None)"

definition countWindowSends :: "int list \<Rightarrow> int \<Rightarrow> nat" where
  "countWindowSends stamps now = fold (\<lambda>t n. if t < computeVelocityWindowStart now then n else n + 1) stamps 0"

section \<open>The check before signing\<close>

record settings =
  allowlists :: "Allowlist list"
  time_windows :: "TimeWindow list"
  allowances :: "FriendAllowance list"
  budgets :: "WalletBudget list"

record PolicyCheckInput =
  pc_wallet :: jsstr
  pc_recipient :: jsstr
  pc_amount :: "number option"
  pc_ticker :: "jsstr option"
  pc_spent :: "number option"
  pc_spent_by :: "jsstr \<Rightarrow> number option"

datatype PolicyViolationCode =
  RecipientNotAllowed | OutsideTimeWindow | ExceedsFriendAllowance | ExceedsWeeklyBudget | ExceedsChainBudget

record PolicyEvaluation =
  eval_ok :: bool
  violations :: "PolicyViolationCode list"
  hasActiveRules :: bool

definition ticker_name :: "PolicyChainTicker \<Rightarrow> jsstr" where
  "ticker_name t = (case t of T_SOL \<Rightarrow> js ''SOL'' | T_USDC \<Rightarrow> js ''USDC'' | T_ETH \<Rightarrow> js ''ETH'' | T_BTC \<Rightarrow> js ''BTC''
     | T_ZEC \<Rightarrow> js ''ZEC'' | T_HYPE \<Rightarrow> js ''HYPE'')"

text \<open>\<open>caps?.[ticker]\<close> for any text.\<close>

definition cap_for :: "'a caps \<Rightarrow> jsstr \<Rightarrow> 'a option option" where
  "cap_for caps t = (case caps of None \<Rightarrow> None
     | Some m \<Rightarrow> (case find (\<lambda>k. ticker_name k = t) POLICY_CHAIN_TICKERS of None \<Rightarrow> None | Some k \<Rightarrow> m k))"

definition over_cap :: "(number \<Rightarrow> number \<Rightarrow> number) \<Rightarrow> number option \<Rightarrow> number option \<Rightarrow> number \<Rightarrow> bool" where
  "over_cap fadd cap spent v =
     (case cap of None \<Rightarrow> False | Some c \<Rightarrow> c > 0 \<and> fadd (case spent of None \<Rightarrow> 0 | Some s \<Rightarrow> s) v > c)"

definition allowlist_violation :: "settings \<Rightarrow> PolicyCheckInput \<Rightarrow> bool" where
  "allowlist_violation st i =
     (let a = getAllowlist (pc_wallet i) 0 (allowlists st)
      in allow_on a \<and> pc_recipient i \<notin> set (allow_addresses a))"

definition hours_violation :: "settings \<Rightarrow> PolicyCheckInput \<Rightarrow> int \<Rightarrow> int \<Rightarrow> bool" where
  "hours_violation st i hour day =
     (let w = getTimeWindow (pc_wallet i) (time_windows st) in tw_enabled w \<and> \<not> isInsideTimeWindow w hour day)"

definition positive_amount :: "PolicyCheckInput \<Rightarrow> number option" where
  "positive_amount i = (case pc_amount i of Some v \<Rightarrow> if v > 0 then Some v else None | None \<Rightarrow> None)"

definition allowance_violation :: "settings \<Rightarrow> PolicyCheckInput \<Rightarrow> bool" where
  "allowance_violation st i = (case positive_amount i of
       None \<Rightarrow> False
     | Some v \<Rightarrow> (case getAllowance (pc_wallet i) (pc_recipient i) (allowances st) of
          None \<Rightarrow> False | Some a \<Rightarrow> period a \<noteq> Unlimited \<and> v > amountSol a))"

text \<open>The send in dollars, when the wallet has a budget and the asset a price.\<close>

definition priced_send ::
  "(jsstr \<Rightarrow> jsstr) \<Rightarrow> (jsstr \<Rightarrow> number option) \<Rightarrow> (number \<Rightarrow> number \<Rightarrow> number) \<Rightarrow> settings \<Rightarrow> PolicyCheckInput
     \<Rightarrow> (WalletBudget \<times> jsstr \<times> number) option" where
  "priced_send upper price fmul st i =
     (let t = upper (case pc_ticker i of None \<Rightarrow> js ''SOL'' | Some t \<Rightarrow> t) in
      case (getBudget (pc_wallet i) (budgets st), positive_amount i, price t) of
        (Some b, Some v, Some q) \<Rightarrow> Some (b, t, fmul v q) | _ \<Rightarrow> None)"

definition hasAnyActiveRule :: "settings \<Rightarrow> jsstr \<Rightarrow> WalletBudget option \<Rightarrow> bool" where
  "hasAnyActiveRule st w b \<longleftrightarrow>
     allow_on (getAllowlist w 0 (allowlists st)) \<or> tw_enabled (getTimeWindow w (time_windows st))
     \<or> (case b of None \<Rightarrow> False | Some b \<Rightarrow> (case weeklyUsd b of None \<Rightarrow> 0 | Some v \<Rightarrow> v) > 0)"

definition evaluatePolicy ::
  "(jsstr \<Rightarrow> jsstr) \<Rightarrow> (jsstr \<Rightarrow> number option) \<Rightarrow> (number \<Rightarrow> number \<Rightarrow> number) \<Rightarrow> (number \<Rightarrow> number \<Rightarrow> number)
     \<Rightarrow> settings \<Rightarrow> PolicyCheckInput \<Rightarrow> int \<Rightarrow> int \<Rightarrow> PolicyEvaluation" where
  "evaluatePolicy upper price fadd fmul st i hour day =
     (let send = priced_send upper price fmul st i;
          vs = (if allowlist_violation st i then [RecipientNotAllowed] else [])
             @ (if hours_violation st i hour day then [OutsideTimeWindow] else [])
             @ (if allowance_violation st i then [ExceedsFriendAllowance] else [])
             @ (case send of None \<Rightarrow> []
                | Some (b, t, v) \<Rightarrow>
                    (if over_cap fadd (weeklyUsd b) (pc_spent i) v then [ExceedsWeeklyBudget] else [])
                  @ (if over_cap fadd (Option.bind (cap_for (perChainUsd b) t) id) (pc_spent_by i t) v then [ExceedsChainBudget] else []))
      in \<lparr>eval_ok = (vs = []), violations = vs, hasActiveRules = hasAnyActiveRule st (pc_wallet i) (getBudget (pc_wallet i) (budgets st))\<rparr>)"

section \<open>The stores\<close>

interpretation allowlist_store: keyed_store "get_row allow_key" "put_row allow_key" "drop_rows allow_key" allow_key "\<lambda>_. True"
  by (rule row_store)

interpretation hours_store: keyed_store "get_row tw_wallet" "put_row tw_wallet" "drop_rows tw_wallet" tw_wallet "\<lambda>_. True"
  by (rule row_store)

interpretation allowance_store: keyed_store "get_row fa_key" "put_row fa_key" "drop_rows fa_key" fa_key "\<lambda>_. True"
  by (rule row_store)

interpretation budget_store: keyed_store "get_row b_wallet" "put_row b_wallet" "drop_rows b_wallet" b_wallet "\<lambda>_. True"
  by (rule row_store)

lemma getAllowlist_save:
  "getAllowlist w k (saveAllowlist v chain on addresses now rows) =
     (if w = v \<and> k = normalizeChainKind chain then allowlist_record v chain on addresses now else getAllowlist w k rows)"
  unfolding getAllowlist_def saveAllowlist_def
  by (simp add: allowlist_store.lookup_put) (auto simp: allow_key_def allowlist_record_def)

lemma getTimeWindow_save:
  "getTimeWindow w (saveTimeWindow v on s f days now rows) =
     (if w = v then window_record v on s f days now else getTimeWindow w rows)"
  unfolding getTimeWindow_def saveTimeWindow_def
  by (simp add: hours_store.lookup_put) (auto simp: window_record_def)

lemma getAllowance_save:
  "getAllowance w f (saveAllowance v g amount p now rows) =
     (if w = v \<and> f = g then Some \<lparr>fa_wallet = v, fa_friend = g, amountSol = amount, period = p, fa_updated = now\<rparr>
      else getAllowance w f rows)"
  "getAllowance w f (removeAllowance v g rows) = (if w = v \<and> f = g then None else getAllowance w f rows)"
  unfolding getAllowance_def saveAllowance_def removeAllowance_def
  by (simp_all add: allowance_store.lookup_put allowance_store.lookup_remove fa_key_def)

lemma getBudget_save:
  "getBudget w (saveBudget i now rows) =
     (if w = in_wallet i then Some (budget_record i now (getBudget w rows)) else getBudget w rows)"
  by (simp add: getBudget_def saveBudget_def budget_store.lookup_put budget_record_def)

text \<open>The loop over the tickers is one update of the whole record.\<close>

lemma merge_caps_eq: "merge_caps existing (Some p) = Some (\<lambda>t. case p t of Some v \<Rightarrow> Some v
    | None \<Rightarrow> (case existing of None \<Rightarrow> None | Some e \<Rightarrow> e t))"
proof -
  have "fold (\<lambda>t out. if p t \<noteq> None then out(t := p t) else out) ts e u =
      (if u \<in> set ts \<and> p u \<noteq> None then p u else e u)" for ts u and e :: "PolicyChainTicker \<Rightarrow> 'a option option"
    by (induction ts arbitrary: e) auto
  moreover have "t \<in> set POLICY_CHAIN_TICKERS" for t by (cases t) (simp_all add: POLICY_CHAIN_TICKERS_def)
  ultimately show ?thesis by (auto simp: merge_caps_def fun_eq_iff split: option.splits)
qed

section \<open>Runs\<close>

text \<open>The operations of the settings pages, in any order.\<close>

inductive settings_step :: "settings \<Rightarrow> settings \<Rightarrow> bool" where
  allowlist: "settings_step st (st\<lparr>allowlists := saveAllowlist w chain on addresses now (allowlists st)\<rparr>)"
| hours: "settings_step st (st\<lparr>time_windows := saveTimeWindow w on s f days now (time_windows st)\<rparr>)"
| allowance: "settings_step st (st\<lparr>allowances := saveAllowance w friend amount p now (allowances st)\<rparr>)"
| no_allowance: "settings_step st (st\<lparr>allowances := removeAllowance w friend (allowances st)\<rparr>)"
| budget: "settings_step st (st\<lparr>budgets := saveBudget i now (budgets st)\<rparr>)"

inductive_cases settings_stepE: "settings_step st st'"

definition no_settings :: settings where
  "no_settings = \<lparr>allowlists = [], time_windows = [], allowances = [], budgets = []\<rparr>"

definition settings_reachable :: "settings \<Rightarrow> bool" where
  "settings_reachable st \<longleftrightarrow> settings_step\<^sup>*\<^sup>* no_settings st"

definition allowlist_ok :: "Allowlist \<Rightarrow> bool" where
  "allowlist_ok a \<longleftrightarrow> allow_chain a \<ge> 0 \<and> length (allow_addresses a) \<le> 16 \<and> distinct (allow_addresses a)"

definition hours_ok :: "TimeWindow \<Rightarrow> bool" where
  "hours_ok w \<longleftrightarrow> tw_start w \<in> {0..23} \<and> tw_end w \<in> {0..23} \<and> list_all (\<lambda>d. 0 \<le> d \<and> d \<le> 6) (tw_days w)
     \<and> distinct (tw_days w) \<and> sorted (tw_days w)"

definition settings_ok :: "settings \<Rightarrow> bool" where
  "settings_ok st \<longleftrightarrow>
     distinct (map allow_key (allowlists st)) \<and> list_all allowlist_ok (allowlists st)
     \<and> distinct (map tw_wallet (time_windows st)) \<and> list_all hours_ok (time_windows st)
     \<and> distinct (map fa_key (allowances st)) \<and> distinct (map b_wallet (budgets st))"

lemma put_row_all: "list_all p rows \<Longrightarrow> p v \<Longrightarrow> list_all p (put_row key v rows)"
  by (auto simp: put_row_def drop_rows_def list_all_iff)

lemma drop_rows_keys: "distinct (map key rows) \<Longrightarrow> distinct (map key (drop_rows key k rows))"
  by (auto simp: drop_rows_def distinct_map inj_on_def)

lemma allowlist_record_ok: "allowlist_ok (allowlist_record w chain on addresses now)"
  by (auto simp: allowlist_ok_def allowlist_record_def normalizeChainKind_def distinct_take split: option.splits)

lemma clampHour_range: "0 \<le> clampHour h \<and> clampHour h \<le> 23"
  by (simp add: clampHour_def Let_def split: option.splits)

lemma week_day_range: "week_day d = Some v \<Longrightarrow> 0 \<le> v \<and> v \<le> 6 \<and> d = Some (of_int v)"
  by (auto simp: week_day_def js_integer_def split: option.splits if_splits)

lemma map_filter_distinct:
  "distinct xs \<Longrightarrow> (\<And>x y v. f x = Some v \<Longrightarrow> f y = Some v \<Longrightarrow> x = y) \<Longrightarrow> distinct (List.map_filter f xs)"
  by (induction xs) (auto simp: List.map_filter_def split: option.splits, metis)

lemma map_filter_member: "v \<in> set (List.map_filter f xs) \<longleftrightarrow> (\<exists>x \<in> set xs. f x = Some v)"
  by (force simp: List.map_filter_def)

lemma window_record_ok: "hours_ok (window_record w on s f days now)"
proof -
  have "distinct (List.map_filter week_day (dedupe days))"
    by (rule map_filter_distinct) (auto dest: week_day_range)
  then show ?thesis
    using clampHour_range by (auto simp: hours_ok_def window_record_def list_all_iff map_filter_member dest: week_day_range)
qed

lemma settings_ok_step: "settings_step st st' \<Longrightarrow> settings_ok st \<Longrightarrow> settings_ok st'"
  by (induction rule: settings_step.induct)
    (simp_all add: settings_ok_def saveAllowlist_def saveTimeWindow_def saveAllowance_def removeAllowance_def saveBudget_def
      put_row_keys put_row_all drop_rows_keys allowlist_record_ok window_record_ok)

lemma getTimeWindow_ok: "settings_ok st \<Longrightarrow> hours_ok (getTimeWindow w (time_windows st))"
  by (auto simp: settings_ok_def getTimeWindow_def get_row_def list_all_iff find_Some_iff hours_ok_def split: option.splits)

lemma getAllowlist_ok: "settings_ok st \<Longrightarrow> 0 \<le> k \<Longrightarrow> allowlist_ok (getAllowlist w k (allowlists st))"
  by (auto simp: settings_ok_def getAllowlist_def get_row_def list_all_iff find_Some_iff allowlist_ok_def split: option.splits)

lemma reachable_ok:
  assumes "settings_reachable st"
  shows "settings_ok st"
proof -
  have "settings_step\<^sup>*\<^sup>* no_settings st" using assms by (simp add: settings_reachable_def)
  then show ?thesis
  proof (induction rule: rtranclp_induct)
    case base
    then show ?case by (simp add: settings_ok_def no_settings_def)
  next
    case (step st st')
    then show ?case by (blast intro: settings_ok_step)
  qed
qed

text \<open>The hour stored for an entered one.\<close>

definition hour_entered :: "number option \<Rightarrow> int \<Rightarrow> bool" where
  "hour_entered h k \<longleftrightarrow> 0 \<le> k \<and> k \<le> 23 \<and> (case h of
       None \<Rightarrow> k = 0
     | Some x \<Rightarrow> if x < 0 then k = 0 else if 24 \<le> x then k = 23 else of_int k \<le> x \<and> x < of_int k + 1)"

lemma hour_entered_clamp: "hour_entered h (clampHour h)"
proof (cases h)
  case (Some x)
  have "of_int \<lfloor>x\<rfloor> \<le> x \<and> x < of_int \<lfloor>x\<rfloor> + 1" using floor_correct [of x] by simp
  moreover have "x < 0 \<longleftrightarrow> \<lfloor>x\<rfloor> < 0" "24 \<le> x \<longleftrightarrow> 23 < \<lfloor>x\<rfloor>" using le_floor_iff [of 24 x] by (simp_all add: floor_less_iff)
  ultimately show ?thesis using Some by (simp add: hour_entered_def clampHour_def Let_def)
qed (simp add: hour_entered_def clampHour_def)

lemma week_day_entered: "(\<exists>x \<in> set (dedupe days). week_day x = Some d) \<longleftrightarrow> Some (of_int d) \<in> set days \<and> 0 \<le> d \<and> d \<le> 6"
proof -
  have "week_day (Some (of_int d)) = Some d" if "0 \<le> d" "d \<le> 6" using that by (simp add: week_day_def js_integer_def)
  then show ?thesis by (auto dest: week_day_range)
qed

section \<open>Properties\<close>

text \<open>
  C27: Whatever is entered on the settings pages, in any order, the stored settings stay well
  formed: one record per wallet, asset or member, at most sixteen different recipients of a whole
  chain number, hours from 0 to 23 and different days of the week in order.  What is entered
  may be a fraction, \<open>NaN\<close> or infinite: an hour is then stored as the whole hour it lies in, as 0
  when it is negative or not finite and as 23 from 24 on, and of the days exactly the whole
  ones of the week are stored.
\<close>

theorem settings_stay_ok:
  assumes "settings_reachable st"
  shows "settings_ok st \<and> (let r = getTimeWindow w (saveTimeWindow w on s f days now (time_windows st)) in
      hour_entered s (tw_start r) \<and> hour_entered f (tw_end r)
      \<and> (\<forall>d. d \<in> set (tw_days r) \<longleftrightarrow> Some (of_int d) \<in> set days \<and> 0 \<le> d \<and> d \<le> 6))"
  using reachable_ok [OF assms] hour_entered_clamp week_day_entered
  by (simp add: getTimeWindow_save window_record_def map_filter_member Let_def)

lemma example_settings_reachable:
  "settings_reachable (no_settings\<lparr>time_windows := saveTimeWindow (js ''v'') True (Some 30) None [Some 6] 7 []\<rparr>)"
proof -
  have "settings_step no_settings (no_settings\<lparr>time_windows := saveTimeWindow (js ''v'') True (Some 30) None [Some 6] 7 (time_windows no_settings)\<rparr>)"
    by (rule settings_step.hours)
  then show ?thesis by (simp add: settings_reachable_def no_settings_def)
qed

theorem settings_stay_ok_witness:
  "\<exists>r. getTimeWindow (js ''w'') (saveTimeWindow (js ''w'') True (Some (17 / 2)) None [Some 6, Some 1, Some (1 / 2), Some 1, None, Some 9] 7
       (saveTimeWindow (js ''v'') True (Some 30) None [Some 6] 7 [])) = r \<and> tw_start r = 8 \<and> tw_end r = 0
     \<and> 1 \<in> set (tw_days r) \<and> 0 \<notin> set (tw_days r) \<and> 9 \<notin> set (tw_days r)"
proof -
  have u: "k = 8" if "of_int k \<le> (17 / 2 :: number)" "17 / 2 < (of_int k + 1 :: number)" for k
  proof -
    have "\<lfloor>17 / 2 :: number\<rfloor> = k" using that by (simp add: floor_eq_iff)
    moreover have "\<lfloor>17 / 2 :: number\<rfloor> = 8" by (simp add: floor_eq_iff)
    ultimately show ?thesis by simp
  qed
  let ?r = "getTimeWindow (js ''w'') (saveTimeWindow (js ''w'') True (Some (17 / 2)) None [Some 6, Some 1, Some (1 / 2), Some 1, None, Some 9] 7
       (saveTimeWindow (js ''v'') True (Some 30) None [Some 6] 7 []))"
  have h: "hour_entered (Some (17 / 2)) (tw_start ?r)" "hour_entered None (tw_end ?r)"
    and d: "d \<in> set (tw_days ?r) \<longleftrightarrow> Some (of_int d) \<in> set [Some 6, Some 1, Some (1 / 2 :: number), Some 1, None, Some 9] \<and> 0 \<le> d \<and> d \<le> 6" for d
    using settings_stay_ok [OF example_settings_reachable, of "js ''w''" True "Some (17 / 2)" None "[Some 6, Some 1, Some (1 / 2), Some 1, None, Some 9]" 7]
    unfolding Let_def by (simp_all del: set_simps)
  show ?thesis using h u d [of 1] d [of 0] d [of 9] by (auto simp: hour_entered_def)
qed

text \<open>
  Saving a budget changes the caps that are given and keeps the others, asset by asset.
\<close>

lemma saved_caps:
  assumes "getBudget (in_wallet i) rows = Some old" "in_onchainWeeklyNative i = Some patch"
  shows "\<exists>b. getBudget (in_wallet i) (saveBudget i now rows) = Some b \<and> onchainWeeklyNative b = Some (\<lambda>t. case patch t of
      Some v \<Rightarrow> Some v | None \<Rightarrow> (case onchainWeeklyNative old of None \<Rightarrow> None | Some e \<Rightarrow> e t))"
  using assms by (simp add: getBudget_save budget_record_def merge_caps_eq)

end
