(* ===== verification/Policy_Encryption.thy ===== *)
theory Policy_Encryption
  imports Policy_Onchain
begin

text \<open>
  \<open>lib/policies/encryption.ts\<close> and the part of \<open>lib/encrypt/client.ts\<close> it uses: the values
  of a rule's conditions are kept as payloads, the shape of the rule stays readable.  The
  network that hands out the identifiers is the argument \<open>createInput\<close>; what \<open>JSON.parse\<close>
  makes of a text that is not an array of integers is the argument \<open>other_json\<close>.
\<close>

section \<open>Payloads\<close>

datatype EncryptScheme = Passthrough_v1 | Encrypt_fhe_v1

datatype FheType = Euint8 | Euint32 | Ebytes

text \<open>
  A ciphertext as it is stored: hexadecimal text, bytes that were not written to storage yet, or what
  older versions left there, an object with an entry per index (None for what \<open>Number\<close> does not make
  an integer of); anything else is not read.
\<close>

datatype stored_ciphertext = HexText jsstr | RawBytes bytes | ByteObject "(nat \<times> int option) list" | OtherForm

record EncryptedPayload =
  ciphertext :: stored_ciphertext
  scheme :: EncryptScheme
  ciphertextIdentifier :: jsstr
  fheType :: FheType

definition bytesToHex :: "bytes \<Rightarrow> jsstr" where
  "bytesToHex bs = concat (map (\<lambda>b. [hexc (unat b div 16), hexc (unat b mod 16)]) bs)"

text \<open>\<open>Number.parseInt(text, radix)\<close>: the longest prefix of digits behind blanks and a sign.\<close>

definition digit_of :: "nat \<Rightarrow> 16 word \<Rightarrow> nat option" where
  "digit_of radix c = (case hex_digit c of Some d \<Rightarrow> if d < radix then Some d else None | None \<Rightarrow> None)"

definition radix_prefix :: "nat \<Rightarrow> jsstr \<Rightarrow> jsstr" where
  "radix_prefix radix s = takeWhile (\<lambda>c. digit_of radix c \<noteq> None) s"

definition radix_value :: "nat \<Rightarrow> jsstr \<Rightarrow> nat" where
  "radix_value radix s = foldl (\<lambda>n c. radix * n + the (digit_of radix c)) 0 s"

definition parse_int :: "nat \<Rightarrow> jsstr \<Rightarrow> int option" where
  "parse_int radix s =
     (let t = dropWhile js_space s; negative = (t \<noteq> [] \<and> hd t = 45);
          u = (if t \<noteq> [] \<and> (hd t = 45 \<or> hd t = 43) then tl t else t);
          u = (if radix = 16 \<and> (starts_with u (js ''0x'') \<or> starts_with u (js ''0X'')) then drop 2 u else u);
          ds = radix_prefix radix u; v = radix_value radix ds
      in if ds = [] then None else Some (if negative then - int v else int v))"

fun hexToBytes_pairs :: "jsstr \<Rightarrow> bytes res" where
  "hexToBytes_pairs (a # b # s) =
     (case parse_int 16 [a, b] of
        None \<Rightarrow> Inl (Thrown ''invalid ciphertext hex'')
      | Some v \<Rightarrow> ebind (hexToBytes_pairs s) (\<lambda>r. Inr (word_of_int v # r)))"
| "hexToBytes_pairs _ = Inr []"

definition hexToBytes :: "jsstr \<Rightarrow> bytes res" where
  "hexToBytes h =
     (let normalized = trim h in
      if length normalized mod 2 \<noteq> 0 then Inl (Thrown ''invalid ciphertext hex length'')
      else hexToBytes_pairs normalized)"

definition ciphertextToBytes :: "stored_ciphertext \<Rightarrow> bytes res" where
  "ciphertextToBytes c = (case c of
       RawBytes bs \<Rightarrow> Inr bs
     | HexText h \<Rightarrow> hexToBytes h
     | ByteObject entries \<Rightarrow>
         let values = map snd (sort_key fst entries) in
         if list_all (\<lambda>v. case v of None \<Rightarrow> False | Some n \<Rightarrow> 0 \<le> n \<and> n \<le> 255) values
         then Inr (map (word_of_int \<circ> the) values) else Inl (Thrown ''unsupported ciphertext payload encoding'')
     | OtherForm \<Rightarrow> Inl (Thrown ''unsupported ciphertext payload encoding''))"

definition decryptPolicy :: "EncryptedPayload \<Rightarrow> bytes res" where
  "decryptPolicy p = (case scheme p of
       Passthrough_v1 \<Rightarrow> ciphertextToBytes (ciphertext p)
     | Encrypt_fhe_v1 \<Rightarrow> Inl (Thrown ''encrypt-fhe-v1 decrypt not implemented''))"

text \<open>One request for all inputs; the identifiers come back in the order of the inputs.\<close>

definition encryptPolicyBatch :: "((bytes \<times> FheType) list \<Rightarrow> nat \<Rightarrow> jsstr) \<Rightarrow> (bytes \<times> FheType) list \<Rightarrow> EncryptedPayload list" where
  "encryptPolicyBatch createInput inputs =
     map (\<lambda>(i, (plaintext, t)). \<lparr>ciphertext = HexText (bytesToHex plaintext), scheme = Passthrough_v1,
       ciphertextIdentifier = createInput inputs i, fheType = t\<rparr>) (List.enumerate 0 inputs)"

section \<open>Values as text\<close>

definition textBytes :: "jsstr \<Rightarrow> bytes" where
  "textBytes t = utf8_encode t"

definition numText :: "int option \<Rightarrow> jsstr" where
  "numText v = (case v of None \<Rightarrow> [] | Some n \<Rightarrow> show_int n)"

text \<open>\<open>JSON.stringify\<close> of an array of integers, and its reading.\<close>

fun json_rest :: "int list \<Rightarrow> jsstr" where
  "json_rest [] = js '']''"
| "json_rest (d # ds) = 44 # show_int d @ json_rest ds"

definition json_ints :: "int list \<Rightarrow> jsstr" where
  "json_ints ds = (case ds of [] \<Rightarrow> js ''[]'' | d # ds \<Rightarrow> 91 # show_int d @ json_rest ds)"

definition plain_int :: "jsstr \<Rightarrow> int option" where
  "plain_int s = (case s of
       [] \<Rightarrow> None
     | c # r \<Rightarrow> if c = 45 then map_option uminus (dec_opt r) else dec_opt s)"

definition read_json_ints :: "jsstr \<Rightarrow> int list option" where
  "read_json_ints s =
     (if s = js ''[]'' then Some []
      else if length s < 2 \<or> hd s \<noteq> 91 \<or> last s \<noteq> 93 then None
      else let items = map plain_int (split_on 44 (butlast (tl s))) in
        if None \<in> set items \<or> json_ints (map the items) \<noteq> s then None else Some (map the items))"

definition decryptText :: "EncryptedPayload option \<Rightarrow> jsstr option res" where
  "decryptText p = (case p of None \<Rightarrow> Inr None | Some p \<Rightarrow> ebind (decryptPolicy p) (\<lambda>bs. Inr (Some (utf8_decode bs))))"

definition decryptJson :: "(jsstr \<Rightarrow> int list option res) \<Rightarrow> EncryptedPayload option \<Rightarrow> int list option res" where
  "decryptJson other_json p =
     ebind (decryptText p) (\<lambda>text.
     if \<not> truthy text then Inr None
     else case read_json_ints (or_empty text) of Some ds \<Rightarrow> Inr (Some ds) | None \<Rightarrow> other_json (or_empty text))"

definition parseNullableNumber :: "jsstr \<Rightarrow> int option" where
  "parseNullableNumber text = (if text = [] then None else parse_int 10 text)"

definition parseHour :: "jsstr option \<Rightarrow> int \<Rightarrow> int" where
  "parseHour text fallback =
     (if \<not> truthy text then fallback
      else case parse_int 10 (or_empty text) of None \<Rightarrow> fallback | Some v \<Rightarrow> min 23 (max 0 v))"

definition parseWindowDays :: "jsstr option \<Rightarrow> int \<Rightarrow> int" where
  "parseWindowDays text fallback =
     (if text = Some (js ''7'') then 7 else if text = Some (js ''30'') then 30
      else if text = Some (js ''1'') then 1 else fallback)"

definition match_text :: "WindowMatch \<Rightarrow> jsstr" where
  "match_text m = (case m of Inside \<Rightarrow> js ''inside'' | Outside \<Rightarrow> js ''outside'')"

definition text_match :: "jsstr option \<Rightarrow> WindowMatch \<Rightarrow> WindowMatch" where
  "text_match t fallback = (if t = Some (js ''inside'') then Inside else if t = Some (js ''outside'') then Outside else fallback)"

section \<open>Conditions\<close>

text \<open>A condition as it is stored: the readable fields, each with the payload beside it.\<close>

datatype StoredCondition =
    StoredAsset "int option" "EncryptedPayload option" "jsstr option" "EncryptedPayload option"
  | StoredRecipient ListMode "jsstr list option" "EncryptedPayload list option"
  | StoredAmount "jsstr option" "EncryptedPayload option" "jsstr option" "EncryptedPayload option" "jsstr option" "EncryptedPayload option"
  | StoredTimeWindow int "EncryptedPayload option" int "EncryptedPayload option" "int list" "EncryptedPayload option" WindowMatch "EncryptedPayload option"
  | StoredVelocity jsstr "EncryptedPayload option" jsstr "EncryptedPayload option" int "EncryptedPayload option"

definition trimmed_entries :: "jsstr list \<Rightarrow> jsstr list" where
  "trimmed_entries xs = filter (\<lambda>a. a \<noteq> []) (map trim xs)"

definition encryptRecipientAddresses :: "((bytes \<times> FheType) list \<Rightarrow> nat \<Rightarrow> jsstr) \<Rightarrow> jsstr list \<Rightarrow> EncryptedPayload list" where
  "encryptRecipientAddresses ci addresses =
     (let trimmed = trimmed_entries addresses in
      if trimmed = [] then [] else encryptPolicyBatch ci (map (\<lambda>a. (utf8_encode a, Ebytes)) trimmed))"

definition encryptApprovers :: "((bytes \<times> FheType) list \<Rightarrow> nat \<Rightarrow> jsstr) \<Rightarrow> jsstr list \<Rightarrow> EncryptedPayload list" where
  "encryptApprovers ci approvers =
     (let trimmed = trimmed_entries approvers in
      if trimmed = [] then [] else encryptPolicyBatch ci (map (\<lambda>a. (utf8_encode a, Ebytes)) trimmed))"

definition encryptCondition :: "((bytes \<times> FheType) list \<Rightarrow> nat \<Rightarrow> jsstr) \<Rightarrow> RuleCondition \<Rightarrow> StoredCondition" where
  "encryptCondition ci c = (case c of
       AssetCondition chainKind tokenContract \<Rightarrow>
         (let e = encryptPolicyBatch ci [(textBytes (numText chainKind), Euint8), (textBytes (or_empty tokenContract), Ebytes)]
          in StoredAsset None (Some (e ! 0)) None (Some (e ! 1)))
     | RecipientCondition m addresses \<Rightarrow>
         StoredRecipient m None (Some (encryptRecipientAddresses ci (or_empty addresses)))
     | AmountCondition mn mx t \<Rightarrow>
         (let e = encryptPolicyBatch ci [(textBytes (or_empty mn), Ebytes), (textBytes (or_empty mx), Ebytes), (textBytes (or_empty t), Ebytes)]
          in StoredAmount None (Some (e ! 0)) None (Some (e ! 1)) None (Some (e ! 2)))
     | TimeWindowCondition s f days m \<Rightarrow>
         (let e = encryptPolicyBatch ci [(textBytes (numText (Some s)), Euint8), (textBytes (numText (Some f)), Euint8),
                (utf8_encode (json_ints days), Ebytes), (textBytes (match_text m), Ebytes)]
          in StoredTimeWindow 0 (Some (e ! 0)) 0 (Some (e ! 1)) [] (Some (e ! 2)) Inside (Some (e ! 3)))
     | VelocityCondition cap t days \<Rightarrow>
         (let e = encryptPolicyBatch ci [(textBytes cap, Ebytes), (textBytes t, Ebytes), (textBytes (numText (Some days)), Euint8)]
          in StoredVelocity [] (Some (e ! 0)) [] (Some (e ! 1)) 1 (Some (e ! 2))))"

definition encryptConditions :: "((bytes \<times> FheType) list \<Rightarrow> nat \<Rightarrow> jsstr) \<Rightarrow> RuleCondition list \<Rightarrow> StoredCondition list" where
  "encryptConditions ci raw = map (encryptCondition ci) raw"

text \<open>A text that is missing or empty leaves the stored value.\<close>

definition text_or :: "jsstr option \<Rightarrow> 'a \<Rightarrow> (jsstr \<Rightarrow> 'a) \<Rightarrow> 'a" where
  "text_or text fallback f = (if truthy text then f (or_empty text) else fallback)"

text \<open>Entries that cannot be read are skipped.\<close>

definition readable_entries :: "EncryptedPayload list \<Rightarrow> jsstr list" where
  "readable_entries ps = concat (map (\<lambda>p. case decryptPolicy p of Inl _ \<Rightarrow> [] | Inr bs \<Rightarrow> [utf8_decode bs]) ps)"

definition decryptCondition :: "(jsstr \<Rightarrow> int list option res) \<Rightarrow> StoredCondition \<Rightarrow> RuleCondition res" where
  "decryptCondition other_json c = (case c of
       StoredAsset ck eck tc etc \<Rightarrow>
         ebind (decryptText eck) (\<lambda>chainText.
         ebind (decryptText etc) (\<lambda>tokenText.
         Inr (AssetCondition (text_or chainText ck parseNullableNumber) (text_or tokenText tc Some))))
     | StoredRecipient m addresses encrypted \<Rightarrow>
         (let plaintext = readable_entries (or_empty encrypted)
          in Inr (RecipientCondition m (if length plaintext > 0 then Some plaintext else addresses)))
     | StoredAmount mn emn mx emx t et \<Rightarrow>
         ebind (decryptText emn) (\<lambda>mnt.
         ebind (decryptText emx) (\<lambda>mxt.
         ebind (decryptText et) (\<lambda>tt.
         Inr (AmountCondition (text_or mnt mn Some) (text_or mxt mx Some) (text_or tt t Some)))))
     | StoredTimeWindow s es f ef days edays m em \<Rightarrow>
         ebind (decryptText es) (\<lambda>st.
         ebind (decryptText ef) (\<lambda>ft.
         ebind (decryptJson other_json edays) (\<lambda>ds.
         ebind (decryptText em) (\<lambda>mt.
         Inr (TimeWindowCondition (parseHour st s) (parseHour ft f) (case ds of None \<Rightarrow> days | Some d \<Rightarrow> d) (text_match mt m))))))
     | StoredVelocity cap ecap t et days edays \<Rightarrow>
         ebind (decryptText ecap) (\<lambda>ct.
         ebind (decryptText et) (\<lambda>tt.
         ebind (decryptText edays) (\<lambda>dt.
         Inr (VelocityCondition (text_or ct cap id) (text_or tt t id) (parseWindowDays dt days))))))"

definition decryptConditions :: "(jsstr \<Rightarrow> int list option res) \<Rightarrow> StoredCondition list \<Rightarrow> RuleCondition list res" where
  "decryptConditions other_json saved = emap (decryptCondition other_json) saved"

definition decryptCooldownSeconds :: "EncryptedPayload option \<Rightarrow> int option \<Rightarrow> int option res" where
  "decryptCooldownSeconds p fallback =
     ebind (decryptText p) (\<lambda>text.
     if \<not> truthy text then Inr fallback
     else Inr (case parse_int 10 (or_empty text) of None \<Rightarrow> fallback | Some v \<Rightarrow> Some (max 0 v)))"

definition encryptCooldownSeconds :: "((bytes \<times> FheType) list \<Rightarrow> nat \<Rightarrow> jsstr) \<Rightarrow> int \<Rightarrow> EncryptedPayload" where
  "encryptCooldownSeconds ci seconds = hd (encryptPolicyBatch ci [(textBytes (numText (Some (max 0 seconds))), Euint32)])"

definition decryptApprovers :: "EncryptedPayload list option \<Rightarrow> jsstr list res" where
  "decryptApprovers payloads =
     ebind (emap (\<lambda>p. decryptText (Some p)) (or_empty payloads)) (\<lambda>texts.
     Inr (filter (\<lambda>v. v \<noteq> []) (map (\<lambda>t. trim (or_empty t)) texts)))"

section \<open>Reading payloads back\<close>

lemma bytesToHex_eq: "bytesToHex bs = toHex bs"
  by (induction bs) (simp_all add: bytesToHex_def)

lemma hexc_digits: "\<forall>n \<in> set [0..<16]. digit_of 16 (hexc n) = Some n"
  by code_simp

lemma hexc_chars: "n < 16 \<Longrightarrow> digit_of 16 (hexc n) = Some n \<and> \<not> js_space (hexc n) \<and> hexc n \<noteq> 45 \<and> hexc n \<noteq> 43
    \<and> hexc n \<noteq> 120 \<and> hexc n \<noteq> 88"
  using hexc_digits HEX_digit(2) [of n] is_hex_not_space [of "hexc n"] by (auto simp: is_hex_def)

lemma parse_int_pair: "a < 16 \<Longrightarrow> b < 16 \<Longrightarrow> parse_int 16 [hexc a, hexc b] = Some (int (16 * a + b))"
  using hexc_chars [of a] hexc_chars [of b]
  by (auto simp: parse_int_def starts_with_def radix_prefix_def radix_value_def Let_def)

lemma hexToBytes_toHex: "hexToBytes (toHex bs) = Inr bs"
proof -
  have "hexToBytes_pairs (toHex bs) = Inr bs"
  proof (induction bs)
    case Nil
    then show ?case by simp
  next
    case (Cons b bs)
    have "unat b div 16 < 16" using unat_byte_bound [of b] by simp
    then have "parse_int 16 [hexc (unat b div 16), hexc (unat b mod 16)] = Some (int (unat b))"
      using parse_int_pair [of "unat b div 16" "unat b mod 16"] by simp
    moreover have "word_of_int (int (unat b)) = b" by simp
    ultimately show ?case using Cons by simp
  qed
  then show ?thesis by (simp add: hexToBytes_def trim_hex toHex_is_hex)
qed

lemma length_encryptPolicyBatch [simp]: "length (encryptPolicyBatch ci xs) = length xs"
  by (simp add: encryptPolicyBatch_def)

lemma decryptPolicy_batch: "i < length xs \<Longrightarrow> decryptPolicy (encryptPolicyBatch ci xs ! i) = Inr (fst (xs ! i))"
  by (simp add: encryptPolicyBatch_def nth_enumerate_eq decryptPolicy_def ciphertextToBytes_def bytesToHex_eq hexToBytes_toHex split: prod.splits)

text \<open>Texts that survive UTF-8: no lone surrogate and no byte order mark in front.\<close>

definition text_ok :: "jsstr \<Rightarrow> bool" where
  "text_ok s \<longleftrightarrow> well_formed s \<and> (s = [] \<or> hd s \<noteq> 0xFEFF)"

lemma decryptText_batch:
  "i < length xs \<Longrightarrow> fst (xs ! i) = utf8_encode s \<Longrightarrow> text_ok s \<Longrightarrow> decryptText (Some (encryptPolicyBatch ci xs ! i)) = Inr (Some s)"
  by (simp add: decryptText_def decryptPolicy_batch text_ok_def utf8_decode_encode)

lemma text_ok_ascii: "list_all (\<lambda>u. unat u < 128) s \<Longrightarrow> text_ok s"
proof -
  assume a: "list_all (\<lambda>u. unat u < 128) s"
  then have "well_formed s" by (induction s rule: well_formed.induct) (auto simp: is_high_def is_low_def)
  moreover have "s = [] \<or> hd s \<noteq> 0xFEFF" using a by (cases s) auto
  ultimately show ?thesis by (simp add: text_ok_def)
qed

section \<open>Numbers\<close>

lemma digit_of_10: "d < 10 \<Longrightarrow> digit_of 10 (digit_char d) = Some d \<and> \<not> js_space (digit_char d) \<and> digit_char d \<noteq> 45 \<and> digit_char d \<noteq> 43"
proof -
  have "\<forall>d \<in> set [0..<10]. digit_of 10 (digit_char d) = Some d" by code_simp
  then show "d < 10 \<Longrightarrow> ?thesis" using digit_not_special [of "digit_char d"] by simp
qed

lemma digit_of_is_digit: "is_digit c \<Longrightarrow> digit_of 10 c = Some (digit_val c) \<and> \<not> js_space c \<and> c \<noteq> 45 \<and> c \<noteq> 43"
  using digit_of_10 [of "digit_val c"] by simp

lemma radix_digits:
  assumes "list_all is_digit s"
  shows "radix_prefix 10 s = s" "radix_value 10 s = digits_val s"
proof -
  show "radix_prefix 10 s = s"
    unfolding radix_prefix_def using assms by (auto simp: takeWhile_eq_all_conv list_all_iff digit_of_is_digit)
  have "foldl (\<lambda>n c. 10 * n + the (digit_of 10 c)) n s = foldl (\<lambda>n c. 10 * n + digit_val c) n s" for n
    using assms by (induction s arbitrary: n) (simp_all add: digit_of_is_digit)
  then show "radix_value 10 s = digits_val s" by (simp add: radix_value_def digits_val_def)
qed

lemma parse_int_show: "parse_int 10 (show_int v) = Some v"
proof (cases "v < 0")
  case True
  have "\<not> js_space 45" by code_simp
  then show ?thesis using True radix_digits [of "show_nat (nat (- v))"]
    by (simp add: show_int_def parse_int_def Let_def)
next
  case False
  obtain c r where c: "show_nat (nat v) = c # r" "is_digit c" using show_nat_digits [of "nat v"] by (cases "show_nat (nat v)") auto
  have "radix_prefix 10 (c # r) = c # r" "radix_value 10 (c # r) = nat v"
    using radix_digits [of "show_nat (nat v)"] by (simp_all flip: c(1))
  then show ?thesis using False digit_of_is_digit [OF c(2)]
    by (simp add: show_int_def parse_int_def Let_def c(1))
qed

lemma shown_int_ascii: "list_all (\<lambda>u. unat u < 128) (show_int v)"
proof -
  have "list_all (\<lambda>u. unat u < 128) (show_nat n)" for n
    using show_nat_digits [of n] by (auto simp: list_all_iff is_digit_unat)
  then show ?thesis by (simp add: show_int_def)
qed

lemma show_int_nonempty [simp]: "show_int v \<noteq> []"
  by (simp add: show_int_def)

lemma plain_int_show: "plain_int (show_int v) = Some v"
proof (cases "v < 0")
  case True
  then show ?thesis by (simp add: show_int_def plain_int_def dec_opt_def)
next
  case False
  obtain c r where c: "show_nat (nat v) = c # r" "is_digit c" using show_nat_digits [of "nat v"] by (cases "show_nat (nat v)") auto
  have "dec_opt (c # r) = Some v" using False show_nat_digits [of "nat v"] digits_val_show_nat [of "nat v"] by (simp add: dec_opt_def flip: c(1))
  with c False digit_of_is_digit [OF c(2)] show ?thesis by (simp add: show_int_def plain_int_def)
qed

lemma show_int_no_comma [simp]: "44 \<notin> set (show_int v)"
proof -
  have "44 \<notin> set (show_nat n)" for n using show_nat_digits [of n] by (auto simp: list_all_iff is_digit_unat)
  then show ?thesis by (simp add: show_int_def)
qed

lemma json_rest_eq: "json_rest ds = concat (map (\<lambda>d. 44 # show_int d) ds) @ [93]"
  by (induction ds) simp_all

lemma split_ints: "split_on 44 (show_int d @ concat (map (\<lambda>d. 44 # show_int d) ds)) = map show_int (d # ds)"
proof (induction ds arbitrary: d)
  case Nil
  then show ?case by (simp add: split_on_no_sep)
next
  case (Cons e es)
  then show ?case by (simp add: split_on_one)
qed

lemma read_json_ints: "read_json_ints (json_ints ds) = Some ds"
proof (cases ds)
  case Nil
  then show ?thesis by (simp add: json_ints_def read_json_ints_def)
next
  case (Cons d es)
  let ?t = "show_int d @ concat (map (\<lambda>d. 44 # show_int d) es)"
  have j: "json_ints ds = 91 # ?t @ [93]" by (simp add: Cons json_ints_def json_rest_eq)
  have "?t \<noteq> []" by simp
  then have "json_ints ds \<noteq> js ''[]''" unfolding j by (cases ?t) auto
  moreover have "map plain_int (split_on 44 (butlast (tl (json_ints ds)))) = map Some ds"
    unfolding j by (simp add: butlast_append split_ints plain_int_show Cons del: append_assoc)
  moreover have "None \<notin> set (map Some ds)" "map the (map Some ds) = ds" by (auto simp: comp_def)
  moreover have "\<not> length (json_ints ds) < 2" "hd (json_ints ds) = 91" "last (json_ints ds) = 93" unfolding j by simp_all
  ultimately show ?thesis unfolding read_json_ints_def Let_def by (simp only: if_False simp_thms)
qed

section \<open>Round trips\<close>

text \<open>Conditions the forms produce: readable texts, whole hours and one of the three periods.\<close>

definition storable :: "RuleCondition \<Rightarrow> bool" where
  "storable c = (case c of
       AssetCondition _ t \<Rightarrow> text_ok (or_empty t)
     | RecipientCondition _ xs \<Rightarrow> list_all text_ok (map trim (or_empty xs))
     | AmountCondition mn mx t \<Rightarrow> text_ok (or_empty mn) \<and> text_ok (or_empty mx) \<and> text_ok (or_empty t)
     | TimeWindowCondition s f _ _ \<Rightarrow> 0 \<le> s \<and> s \<le> 23 \<and> 0 \<le> f \<and> f \<le> 23
     | VelocityCondition cap t days \<Rightarrow> text_ok cap \<and> text_ok t \<and> days \<in> {1, 7, 30})"

text \<open>What is kept of a condition: empty texts are missing, recipients are trimmed and not empty.\<close>

definition non_empty :: "'a list option \<Rightarrow> 'a list option" where
  "non_empty t = (if truthy t then t else None)"

definition kept :: "RuleCondition \<Rightarrow> RuleCondition" where
  "kept c = (case c of
       AssetCondition ck t \<Rightarrow> AssetCondition ck (non_empty t)
     | RecipientCondition m xs \<Rightarrow> RecipientCondition m (non_empty (Some (trimmed_entries (or_empty xs))))
     | AmountCondition mn mx t \<Rightarrow> AmountCondition (non_empty mn) (non_empty mx) (non_empty t)
     | _ \<Rightarrow> c)"

lemma text_or_empty: "text_or (Some (or_empty t)) None Some = non_empty t"
  by (cases t) (auto simp: text_or_def non_empty_def truthy_def or_empty_def)

lemma numText_ok [simp]: "text_ok (numText v)"
  by (cases v) (auto simp: numText_def text_ok_ascii shown_int_ascii intro!: text_ok_ascii)

lemma chain_kind_read: "text_or (Some (numText ck)) None parseNullableNumber = ck"
  by (cases ck) (simp_all add: text_or_def numText_def truthy_def or_empty_def parseNullableNumber_def parse_int_show)

lemma hour_read: "0 \<le> h \<Longrightarrow> h \<le> 23 \<Longrightarrow> parseHour (Some (numText (Some h))) 0 = h"
  by (simp add: parseHour_def numText_def truthy_def or_empty_def parse_int_show)

lemma window_days_read: "d \<in> {1, 7, 30} \<Longrightarrow> parseWindowDays (Some (numText (Some d))) 1 = d"
  by (auto simp: parseWindowDays_def numText_def show_int_def show_nat.simps digit_char_def)

lemma match_read: "text_ok (match_text m)" "text_match (Some (match_text m)) Inside = m"
  by (cases m; auto intro!: text_ok_ascii simp: match_text_def text_match_def)+

lemma json_ok: "text_ok (json_ints ds)" "json_ints ds \<noteq> []"
proof -
  have "list_all (\<lambda>u. unat u < 128) (json_rest ds)" for ds by (induction ds) (simp_all add: shown_int_ascii)
  then show "text_ok (json_ints ds)" by (auto intro!: text_ok_ascii simp: json_ints_def shown_int_ascii split: list.splits)
  show "json_ints ds \<noteq> []" by (simp add: json_ints_def split: list.splits)
qed

lemma readable_batch:
  assumes "list_all text_ok xs"
  shows "readable_entries (encryptPolicyBatch ci (map (\<lambda>a. (utf8_encode a, Ebytes)) xs)) = xs"
proof -
  let ?b = "encryptPolicyBatch ci (map (\<lambda>a. (utf8_encode a, Ebytes)) xs)"
  have "map (\<lambda>p. case decryptPolicy p of Inl _ \<Rightarrow> [] | Inr bs \<Rightarrow> [utf8_decode bs]) ?b = map (\<lambda>a. [a]) xs"
    using assms by (intro nth_equalityI) (auto simp: decryptPolicy_batch list_all_length text_ok_def utf8_decode_encode)
  then show ?thesis by (simp add: readable_entries_def)
qed

lemma decrypt_encrypt_condition:
  assumes "storable c"
  shows "decryptCondition oj (encryptCondition ci c) = Inr (kept c)"
proof (cases c)
  case (AssetCondition ck t)
  then show ?thesis using assms
    by (simp add: decryptCondition_def encryptCondition_def kept_def storable_def Let_def decryptText_batch textBytes_def
        decryptText_batch [where s = "numText ck"] decryptText_batch [where s = "or_empty t"] chain_kind_read text_or_empty)
next
  case (RecipientCondition m xs)
  have "list_all text_ok (trimmed_entries (or_empty xs))"
    using assms RecipientCondition by (auto simp: storable_def trimmed_entries_def list_all_iff)
  then have "readable_entries (encryptRecipientAddresses ci (or_empty xs)) = trimmed_entries (or_empty xs)"
    using readable_batch by (simp add: encryptRecipientAddresses_def Let_def) (simp add: readable_entries_def)
  then show ?thesis
    by (simp add: RecipientCondition decryptCondition_def encryptCondition_def kept_def Let_def non_empty_def truthy_def or_empty_def)
next
  case (AmountCondition mn mx t)
  then show ?thesis using assms
    by (simp add: decryptCondition_def encryptCondition_def kept_def storable_def Let_def textBytes_def
        decryptText_batch [where s = "or_empty mn"] decryptText_batch [where s = "or_empty mx"] decryptText_batch [where s = "or_empty t"]
        text_or_empty)
next
  case (TimeWindowCondition s f ds m)
  let ?e = "encryptPolicyBatch ci [(textBytes (numText (Some s)), Euint8), (textBytes (numText (Some f)), Euint8),
                (utf8_encode (json_ints ds), Ebytes), (textBytes (match_text m), Ebytes)]"
  have "decryptText (Some (?e ! 0)) = Inr (Some (numText (Some s)))" "decryptText (Some (?e ! 1)) = Inr (Some (numText (Some f)))"
    "decryptText (Some (?e ! 2)) = Inr (Some (json_ints ds))" "decryptText (Some (?e ! 3)) = Inr (Some (match_text m))"
    by (intro decryptText_batch; simp add: textBytes_def json_ok match_read)+
  moreover have "0 \<le> s" "s \<le> 23" "0 \<le> f" "f \<le> 23" using assms TimeWindowCondition by (simp_all add: storable_def)
  ultimately show ?thesis
    by (simp add: TimeWindowCondition decryptCondition_def encryptCondition_def kept_def Let_def decryptJson_def truthy_def
        or_empty_def json_ok read_json_ints hour_read match_read)
next
  case (VelocityCondition cap t d)
  let ?e = "encryptPolicyBatch ci [(textBytes cap, Ebytes), (textBytes t, Ebytes), (textBytes (numText (Some d)), Euint8)]"
  have o: "text_ok cap" "text_ok t" "d \<in> {1, 7, 30}" using assms VelocityCondition by (simp_all add: storable_def)
  then have "decryptText (Some (?e ! 0)) = Inr (Some cap)" "decryptText (Some (?e ! 1)) = Inr (Some t)"
    "decryptText (Some (?e ! 2)) = Inr (Some (numText (Some d)))"
    by (intro decryptText_batch; simp add: textBytes_def)+
  moreover have "text_or (Some x) [] id = x" for x by (simp add: text_or_def truthy_def or_empty_def)
  ultimately show ?thesis using o(3)
    by (simp add: VelocityCondition decryptCondition_def encryptCondition_def kept_def Let_def window_days_read del: insert_iff)
qed

section \<open>Properties\<close>

text \<open>
  C24: The conditions of a rule survive their storage: decrypting what was encrypted gives the
  conditions back, with empty texts missing and the recipients trimmed, in their order.
\<close>

theorem conditions_roundtrip:
  assumes "list_all storable cs"
  shows "decryptConditions oj (encryptConditions ci cs) = Inr (map kept cs)"
  using assms by (induction cs) (simp_all add: decryptConditions_def encryptConditions_def decrypt_encrypt_condition)

theorem conditions_roundtrip_witness:
  "decryptConditions (\<lambda>_. Inl SyntaxError) (encryptConditions (\<lambda>_ _. []) [RecipientCondition Allowlist (Some [js '' A'', []]),
      TimeWindowCondition 9 17 [1, 5] Outside, AmountCondition (Some []) (Some (js ''1.5'')) None, VelocityCondition (js ''2'') (js ''SOL'') 7])
    = Inr [RecipientCondition Allowlist (Some [js ''A'']), TimeWindowCondition 9 17 [1, 5] Outside,
        AmountCondition None (Some (js ''1.5'')) None, VelocityCondition (js ''2'') (js ''SOL'') 7]"
proof -
  have t: "trim (js '' A'') = js ''A''" "trim [] = []" by (simp_all add: trim_def rstrip_def js_space_def)
  have "list_all storable [RecipientCondition Allowlist (Some [js '' A'', []]), TimeWindowCondition 9 17 [1, 5] Outside,
      AmountCondition (Some []) (Some (js ''1.5'')) None, VelocityCondition (js ''2'') (js ''SOL'') 7]"
    using t by (simp add: storable_def or_empty_def text_ok_ascii del: js_simps) (simp add: text_ok_ascii)
  from conditions_roundtrip [OF this] t show ?thesis
    by (simp add: kept_def non_empty_def truthy_def or_empty_def trimmed_entries_def)
qed

end
