(* ===== verification/Policy_Storage.thy ===== *)
theory Policy_Storage
  imports Policy_Encryption Keyed_Store "HOL-Library.Product_Lexorder"
begin

text \<open>
  \<open>lib/policies/storage.ts\<close>: the rules of every wallet, kept in the storage of the browser.
  The state is what \<open>readAll\<close> gives; \<open>ok\<close> says whether the browser takes the write (a full
  storage refuses it silently).  The store is an instance of a map with keys inside its values
  (\<open>keyed_store\<close>), which gives the contract of the component.
\<close>

section \<open>Rules and their storage\<close>

record PolicyRule =
  rule_id :: jsstr
  rule_wallet :: jsstr
  rule_name :: jsstr
  priority :: int
  enabled :: bool
  rule_conditions :: "StoredCondition list"
  rule_action :: RuleAction
  extraApproversEncrypted :: "EncryptedPayload list option"
  rule_cooldown :: "int option"
  extraCooldownEncrypted :: "EncryptedPayload option"
  createdAt :: int

type_synonym shape = "jsstr \<Rightarrow> PolicyRule list option"

definition wallet_rules :: "shape \<Rightarrow> jsstr \<Rightarrow> PolicyRule list" where
  "wallet_rules shape w = or_empty (shape w)"

definition writeAll :: "bool \<Rightarrow> shape \<Rightarrow> shape \<Rightarrow> shape" where
  "writeAll ok shape old = (if ok then shape else old)"

text \<open>\<open>sort\<close> with this comparison is stable: descending priority, then ascending creation.\<close>

definition listPolicies :: "jsstr \<Rightarrow> shape \<Rightarrow> PolicyRule list" where
  "listPolicies w shape = sort_key (\<lambda>r. (- priority r, createdAt r)) (wallet_rules shape w)"

definition findPolicy :: "jsstr \<Rightarrow> jsstr \<Rightarrow> shape \<Rightarrow> PolicyRule option" where
  "findPolicy w i shape = find (\<lambda>r. rule_id r = i) (listPolicies w shape)"

definition put_rule :: "PolicyRule \<Rightarrow> PolicyRule list \<Rightarrow> PolicyRule list" where
  "put_rule rule rs = (case find_index (\<lambda>r. rule_id r = rule_id rule) rs of
       Some i \<Rightarrow> rs[i := rule] | None \<Rightarrow> rs @ [rule])"

definition savePolicy :: "bool \<Rightarrow> PolicyRule \<Rightarrow> shape \<Rightarrow> shape" where
  "savePolicy ok rule shape =
     (let w = rule_wallet rule in writeAll ok (shape(w \<mapsto> put_rule rule (wallet_rules shape w))) shape)"

definition removePolicy :: "bool \<Rightarrow> jsstr \<Rightarrow> jsstr \<Rightarrow> shape \<Rightarrow> shape" where
  "removePolicy ok w i shape =
     writeAll ok (shape(w \<mapsto> filter (\<lambda>r. rule_id r \<noteq> i) (wallet_rules shape w))) shape"

section \<open>The rules of a wallet\<close>

definition ids_distinct :: "shape \<Rightarrow> bool" where
  "ids_distinct shape \<longleftrightarrow> (\<forall>w. distinct (map rule_id (wallet_rules shape w))
     \<and> (\<forall>r \<in> set (wallet_rules shape w). rule_wallet r = w))"

lemma put_rule_ids:
  assumes "distinct (map rule_id rs)"
  shows "distinct (map rule_id (put_rule rule rs))"
    and "set (put_rule rule rs) = insert rule {r \<in> set rs. rule_id r \<noteq> rule_id rule}"
proof -
  show "distinct (map rule_id (put_rule rule rs))"
  proof (cases "find_index (\<lambda>r. rule_id r = rule_id rule) rs")
    case None
    then have "\<forall>r \<in> set rs. rule_id r \<noteq> rule_id rule" by (simp add: find_index_None)
    with assms None show ?thesis by (auto simp: put_rule_def)
  next
    case (Some i)
    then have "i < length rs" "rule_id (rs ! i) = rule_id rule" by (auto dest: find_index_Some)
    then have "map rule_id (rs[i := rule]) = map rule_id rs" by (simp add: map_update list_update_same_conv)
    with assms Some show ?thesis by (simp add: put_rule_def)
  qed
  show "set (put_rule rule rs) = insert rule {r \<in> set rs. rule_id r \<noteq> rule_id rule}"
  proof (cases "find_index (\<lambda>r. rule_id r = rule_id rule) rs")
    case None
    then have "\<forall>r \<in> set rs. rule_id r \<noteq> rule_id rule" by (simp add: find_index_None)
    with None show ?thesis by (auto simp: put_rule_def)
  next
    case (Some i)
    then have i: "i < length rs" "rule_id (rs ! i) = rule_id rule" by (auto dest: find_index_Some)
    have "set (rs[i := rule]) = insert rule (set rs - {rs ! i})"
      using i(1) assms by (simp add: set_update_distinct distinct_map)
    moreover have "set rs - {rs ! i} = {r \<in> set rs. rule_id r \<noteq> rule_id rule}"
      using i assms by (auto simp: distinct_map inj_on_def)
    ultimately show ?thesis using Some by (simp add: put_rule_def)
  qed
qed

text \<open>With distinct ids a rule is found exactly when it is stored.\<close>

lemma find_distinct:
  "distinct (map f xs) \<Longrightarrow> find (\<lambda>x. f x = k) xs = Some v \<longleftrightarrow> v \<in> set xs \<and> f v = k"
  by (induction xs) auto

lemma findPolicy_iff:
  assumes "ids_distinct shape"
  shows "findPolicy w i shape = Some r \<longleftrightarrow> r \<in> set (wallet_rules shape w) \<and> rule_id r = i"
proof -
  have "distinct (map rule_id (listPolicies w shape))"
    using assms by (auto simp: ids_distinct_def listPolicies_def distinct_map)
  then show ?thesis by (auto simp: findPolicy_def find_distinct listPolicies_def)
qed

lemma wallet_rules_upd: "wallet_rules (shape(w \<mapsto> rs)) v = (if v = w then rs else wallet_rules shape v)"
  by (simp add: wallet_rules_def or_empty_def)

lemma option_eqI: "(\<And>r. a = Some r \<longleftrightarrow> b = Some r) \<Longrightarrow> a = b"
  by (cases a; cases b) auto

lemma ids_distinct_save: "ids_distinct shape \<Longrightarrow> ids_distinct (savePolicy True rule shape)"
  using put_rule_ids by (fastforce simp: ids_distinct_def savePolicy_def writeAll_def wallet_rules_upd Let_def)

lemma ids_distinct_remove: "ids_distinct shape \<Longrightarrow> ids_distinct (removePolicy True w i shape)"
  by (auto simp: ids_distinct_def removePolicy_def writeAll_def wallet_rules_upd distinct_map inj_on_def)

lemma findPolicy_save:
  assumes "ids_distinct shape"
  shows "findPolicy w i (savePolicy True rule shape) = (if (w, i) = (rule_wallet rule, rule_id rule) then Some rule else findPolicy w i shape)"
proof (rule option_eqI)
  fix r
  have "distinct (map rule_id (wallet_rules shape (rule_wallet rule)))" using assms by (simp add: ids_distinct_def)
  then show "findPolicy w i (savePolicy True rule shape) = Some r \<longleftrightarrow>
      (if (w, i) = (rule_wallet rule, rule_id rule) then Some rule else findPolicy w i shape) = Some r"
    using assms findPolicy_iff [OF ids_distinct_save [OF assms], of w i rule r]
    by (auto simp: findPolicy_iff savePolicy_def writeAll_def wallet_rules_upd put_rule_ids Let_def)
qed

lemma findPolicy_remove:
  assumes "ids_distinct shape"
  shows "findPolicy w i (removePolicy True v j shape) = (if (w, i) = (v, j) then None else findPolicy w i shape)"
proof (rule option_eqI)
  fix r
  show "findPolicy w i (removePolicy True v j shape) = Some r \<longleftrightarrow> (if (w, i) = (v, j) then None else findPolicy w i shape) = Some r"
    using assms findPolicy_iff [OF ids_distinct_remove [OF assms], of w i v j r]
    by (auto simp: findPolicy_iff removePolicy_def writeAll_def wallet_rules_upd)
qed

interpretation rule_store: keyed_store "\<lambda>(w, i). findPolicy w i" "savePolicy True" "\<lambda>(w, i). removePolicy True w i"
  "\<lambda>r. (rule_wallet r, rule_id r)" ids_distinct
  by unfold_locales (auto simp: findPolicy_save findPolicy_remove ids_distinct_save ids_distinct_remove
    split: if_splits prod.splits)

text \<open>The operations of the store in a row, and what they mean for a finite map.\<close>

definition run_store :: "(jsstr \<times> jsstr, PolicyRule) operation list \<Rightarrow> shape \<Rightarrow> shape" where
  "run_store as shape = fold (\<lambda>a s. case a of Put r \<Rightarrow> savePolicy True r s | Remove (w, i) \<Rightarrow> removePolicy True w i s) as shape"

definition run_map :: "(jsstr \<times> jsstr, PolicyRule) operation list \<Rightarrow> (jsstr \<times> jsstr \<Rightarrow> PolicyRule option) \<Rightarrow> jsstr \<times> jsstr \<Rightarrow> PolicyRule option" where
  "run_map as m = fold (\<lambda>a m. case a of Put r \<Rightarrow> m((rule_wallet r, rule_id r) \<mapsto> r) | Remove k \<Rightarrow> m(k := None)) as m"

lemma run_store_eq: "run_store as = fold rule_store.apply_op as"
proof -
  have "(\<lambda>a s. case a of Put r \<Rightarrow> savePolicy True r s | Remove (w, i) \<Rightarrow> removePolicy True w i s) = rule_store.apply_op"
    by (intro ext) (simp add: rule_store.apply_op_def split: operation.split)
  then show ?thesis by (intro ext) (simp only: run_store_def)
qed

lemma run_map_eq: "run_map as = fold rule_store.map_op as"
proof -
  have "(\<lambda>a m. case a of Put r \<Rightarrow> m((rule_wallet r, rule_id r) \<mapsto> r) | Remove k \<Rightarrow> m(k := None)) = rule_store.map_op"
    by (intro ext) (simp add: rule_store.map_op_def split: operation.split)
  then show ?thesis by (intro ext) (simp only: run_map_def)
qed

section \<open>Properties\<close>

text \<open>
  C29: The store is a map from wallet and id to rule: after any sequence of saved and removed rules
  a look-up finds what the last operation on that rule left, and the rules of a wallet are
  listed without repeated ids, by descending priority and, in the same priority, by age.
\<close>

theorem policy_store_refines_map:
  "findPolicy w i (run_store as (\<lambda>_. None)) = run_map as (\<lambda>_. None) (w, i)
    \<and> distinct (map rule_id (listPolicies w (run_store as (\<lambda>_. None))))
    \<and> sorted (map (\<lambda>r. (- priority r, createdAt r)) (listPolicies w (run_store as (\<lambda>_. None))))"
proof -
  have e: "ids_distinct (\<lambda>_. None)" by (simp add: ids_distinct_def wallet_rules_def or_empty_def)
  have "(\<lambda>(w, i). findPolicy w i (\<lambda>_. None)) = (\<lambda>_. None)"
    by (simp add: fun_eq_iff findPolicy_def listPolicies_def wallet_rules_def or_empty_def)
  then have "findPolicy w i (run_store as (\<lambda>_. None)) = run_map as (\<lambda>_. None) (w, i)"
    using fun_cong [OF rule_store.lookup_run [OF e, of as], of "(w, i)"]
    by (simp add: run_store_eq run_map_eq case_prod_beta')
  moreover have "ids_distinct (run_store as (\<lambda>_. None))"
    unfolding run_store_eq by (rule rule_store.inv_run [OF e])
  ultimately show ?thesis by (simp add: ids_distinct_def listPolicies_def distinct_map)
qed

end
