(* ===== verification/Chain_Btc.thy ===== *)
theory Chain_Btc
  imports JS_Utf8 Msig_Hash Decimal_Text
begin

text \<open>
  \<open>lib/chain/btc.ts\<close> without its network reads: segwit addresses (BIP173 and BIP350), the
  check of a destination, the choice of the output to spend, amounts and the order of the bytes
  of a transaction id.  The case mappings of the platform are the arguments \<open>lower\<close> and
  \<open>upper\<close>.  Bit operations are those of 32-bit numbers.
\<close>

section \<open>Bech32\<close>

definition BECH32_CHARSET :: jsstr where
  "BECH32_CHARSET = js ''qpzry9x8gf2tvdw0s3jn54khce6mua7l''"

definition BECH32_GENERATOR :: "int list" where
  "BECH32_GENERATOR = [0x3b6a57b2, 0x26508e6d, 0x1ea119fa, 0x3d4233dd, 0x2a1462b3]"

text \<open>The body of the loop of \<open>bech32Polymod\<close>.\<close>

definition polymod_step :: "int \<Rightarrow> int \<Rightarrow> int" where
  "polymod_step chk v =
     (let top = js_shr chk 25; chk = js_xor (js_shl (js_and chk 0x1ffffff) 5) v
      in foldl (\<lambda>chk i. if js_and (js_shr top i) 1 \<noteq> 0 then js_xor chk (BECH32_GENERATOR ! i) else chk) chk [0..<5])"

definition bech32Polymod :: "int list \<Rightarrow> int" where
  "bech32Polymod values = foldl polymod_step 1 values"

definition bech32HrpExpand :: "jsstr \<Rightarrow> int list" where
  "bech32HrpExpand hrp = map (\<lambda>c. js_shr (uint c) 5) hrp @ [0] @ map (\<lambda>c. js_and (uint c) 31) hrp"

datatype bech32_spec = Bech32 | Bech32m

definition verifyBech32Checksum :: "jsstr \<Rightarrow> int list \<Rightarrow> bech32_spec \<Rightarrow> bool" where
  "verifyBech32Checksum hrp data spec =
     (let target = (if spec = Bech32 then 1 else 0x2bc830a3) in bech32Polymod (bech32HrpExpand hrp @ data) = target)"

text \<open>
  The inner loop of \<open>convertBits\<close>, which ends because \<open>toBits\<close> is positive (the code calls it
  with 5 and 8).
\<close>

function drain_bits :: "nat \<Rightarrow> int \<Rightarrow> nat \<Rightarrow> int list \<Rightarrow> nat \<times> int list" where
  "drain_bits toBits acc bits out =
     (if toBits \<le> bits \<and> 0 < toBits
      then drain_bits toBits acc (bits - toBits) (out @ [js_and (js_shr acc (bits - toBits)) (js_shl 1 toBits - 1)])
      else (bits, out))"
  by pat_completeness auto
termination
  by (relation "measure (\<lambda>(t, a, b, out). b)") auto

declare drain_bits.simps [simp del]

fun convert_loop :: "nat \<Rightarrow> nat \<Rightarrow> int list \<Rightarrow> int \<Rightarrow> nat \<Rightarrow> int list \<Rightarrow> (int \<times> nat \<times> int list) option" where
  "convert_loop fromBits toBits [] acc bits out = Some (acc, bits, out)"
| "convert_loop fromBits toBits (v # vs) acc bits out =
     (if v < 0 \<or> js_shr v fromBits \<noteq> 0 then None
      else let acc = js_or (js_shl acc fromBits) v; (bits, out) = drain_bits toBits acc (bits + fromBits) out
           in convert_loop fromBits toBits vs acc bits out)"

definition convertBits :: "int list \<Rightarrow> nat \<Rightarrow> nat \<Rightarrow> bool \<Rightarrow> bytes option" where
  "convertBits data fromBits toBits pad =
     (case convert_loop fromBits toBits data 0 0 [] of
        None \<Rightarrow> None
      | Some (acc, bits, out) \<Rightarrow>
          let maxv = js_shl 1 toBits - 1; rest = js_and (js_shl acc (toBits - bits)) maxv in
          if pad then Some (map word_of_int (if bits \<noteq> 0 then out @ [rest] else out))
          else if bits \<ge> fromBits \<or> rest \<noteq> 0 then None
          else Some (map word_of_int out))"

record DecodedSegwit =
  hrp :: jsstr
  version :: int
  program :: bytes

definition last_index_of :: "'a \<Rightarrow> 'a list \<Rightarrow> nat option" where
  "last_index_of c s = map_option (\<lambda>i. length s - 1 - i) (index_of c (rev s))"

definition charset_index :: "16 word \<Rightarrow> int option" where
  "charset_index c = map_option int (index_of c BECH32_CHARSET)"

fun charset_data :: "jsstr \<Rightarrow> int list option" where
  "charset_data [] = Some []"
| "charset_data (c # s) = (case charset_index c of None \<Rightarrow> None | Some v \<Rightarrow> map_option ((#) v) (charset_data s))"

definition decodeSegwitAddress :: "(jsstr \<Rightarrow> jsstr) \<Rightarrow> (jsstr \<Rightarrow> jsstr) \<Rightarrow> jsstr \<Rightarrow> DecodedSegwit option" where
  "decodeSegwitAddress lower upper addr =
     (if length addr < 8 \<or> length addr > 90 then None
      else if addr \<noteq> lower addr \<and> addr \<noteq> upper addr then None
      else let low = lower addr in
        case last_index_of 0x31 low of
          None \<Rightarrow> None
        | Some sep \<Rightarrow>
            if sep < 1 \<or> sep + 7 > length low then None
            else let h = take sep low; dataPart = drop (sep + 1) low in
              if list_ex (\<lambda>c. c < 33 \<or> c > 126) h then None
              else case charset_data dataPart of
                None \<Rightarrow> None
              | Some data \<Rightarrow>
                  if length data < 7 then None
                  else let v = data ! 0; isV0 = (v = 0) in
                    if \<not> ((isV0 \<and> verifyBech32Checksum h data Bech32) \<or> (\<not> isV0 \<and> verifyBech32Checksum h data Bech32m))
                    then None
                    else case convertBits (slice 1 (length data - 6) data) 5 8 False of
                      None \<Rightarrow> None
                    | Some p \<Rightarrow> if length p < 2 \<or> length p > 40 then None
                                else Some \<lparr>hrp = h, version = v, program = p\<rparr>)"

section \<open>Networks and destinations\<close>

datatype BitcoinNetwork = Mainnet | Testnet | Signet | Regtest

definition DEFAULT_BITCOIN_NETWORK :: BitcoinNetwork where
  "DEFAULT_BITCOIN_NETWORK = Testnet"

definition networkForHrp :: "(jsstr \<Rightarrow> jsstr) \<Rightarrow> jsstr \<Rightarrow> BitcoinNetwork option" where
  "networkForHrp lower h =
     (let l = lower h in
      if l = js ''bc'' then Some Mainnet else if l = js ''tb'' then Some Testnet
      else if l = js ''bcrt'' then Some Regtest else None)"

datatype ValidateBtcResult = BtcOk bytes BitcoinNetwork | BtcRefused string

definition same_network :: "BitcoinNetwork \<Rightarrow> BitcoinNetwork \<Rightarrow> bool" where
  "same_network detected expected \<longleftrightarrow> detected = expected \<or> (detected = Signet \<and> expected = Testnet)
     \<or> (detected = Testnet \<and> expected = Signet)"

definition validateBtcDestination ::
  "(jsstr \<Rightarrow> jsstr) \<Rightarrow> (jsstr \<Rightarrow> jsstr) \<Rightarrow> jsstr \<Rightarrow> BitcoinNetwork \<Rightarrow> ValidateBtcResult" where
  "validateBtcDestination lower upper address expected =
     (let trimmed = trim address in
      if trimmed = [] then BtcRefused ''Enter a Bitcoin address.''
      else case decodeSegwitAddress lower upper trimmed of
        None \<Rightarrow> BtcRefused ''Invalid bech32 address. Check for typos or copy-paste errors.''
      | Some d \<Rightarrow>
          if version d \<noteq> 0 then BtcRefused ''Only segwit v0 (P2WPKH) destinations are supported.''
          else if length (program d) \<noteq> 20 then BtcRefused ''Expected a 20-byte P2WPKH address.''
          else case networkForHrp lower (hrp d) of
            None \<Rightarrow> BtcRefused ''Unrecognised bech32 prefix.''
          | Some detected \<Rightarrow>
              if \<not> same_network detected expected then BtcRefused ''Address is for another network.''
              else BtcOk (program d) detected)"

definition isLikelyBitcoinTestnetAddress :: "(jsstr \<Rightarrow> jsstr) \<Rightarrow> jsstr \<Rightarrow> bool" where
  "isLikelyBitcoinTestnetAddress lower addr =
     (let s = lower addr in
      if starts_with s (js ''tb1'') \<or> starts_with s (js ''tb1q'') \<or> starts_with s (js ''tb1p'') then True
      else if starts_with s (js ''m'') \<or> starts_with s (js ''n'') \<or> starts_with s (js ''2'') then True
      else False)"

definition esploraBaseUrl :: "BitcoinNetwork \<Rightarrow> jsstr" where
  "esploraBaseUrl network = (case network of
       Mainnet \<Rightarrow> js ''https://mempool.space/api''
     | Testnet \<Rightarrow> js ''https://mempool.space/testnet/api''
     | Signet \<Rightarrow> js ''https://mempool.space/signet/api''
     | Regtest \<Rightarrow> js ''http://localhost:3002'')"

section \<open>Outputs\<close>

record EsploraUtxo =
  utxid :: jsstr
  uvout :: int
  uvalue :: int

definition BTC_SEND_FEE_RESERVE_SATS :: int where
  "BTC_SEND_FEE_RESERVE_SATS = 300"

record BitcoinSendSelection =
  sel_utxo :: EsploraUtxo
  feeSats :: int
  changeSats :: int

text \<open>\<open>sort\<close> is stable, so the sort by a key is \<open>sort_key\<close>.\<close>

definition selectBitcoinSendUtxo :: "EsploraUtxo list \<Rightarrow> int \<Rightarrow> int \<Rightarrow> BitcoinSendSelection option" where
  "selectBitcoinSendUtxo utxos amountSats fee =
     (if amountSats \<le> 0 \<or> fee < 0 then None
      else let needed = amountSats + fee in
        case find (\<lambda>c. uvalue c \<ge> needed) (sort_key uvalue utxos) of
          None \<Rightarrow> None
        | Some u \<Rightarrow> Some \<lparr>sel_utxo = u, feeSats = fee, changeSats = uvalue u - needed\<rparr>)"

section \<open>Amounts and transaction ids\<close>

definition SATS_PER_BTC :: int where
  "SATS_PER_BTC = 100000000"

definition formatSats :: "int \<Rightarrow> jsstr" where
  "formatSats sats =
     (if sats = 0 then js ''0''
      else let whole = sats sdiv SATS_PER_BTC; frac = sats smod SATS_PER_BTC in
        if frac = 0 then show_int whole
        else show_int whole @ 0x2E # strip_zeros (pad_start 8 0x30 (show_int frac)))"

text \<open>The test \<open>/^\d+(\.\d{0,8})?$/\<close>.\<close>

definition btc_text :: "jsstr \<Rightarrow> bool" where
  "btc_text s = (case split_on 0x2E s of
       [w] \<Rightarrow> w \<noteq> [] \<and> list_all is_digit w
     | [w, f] \<Rightarrow> w \<noteq> [] \<and> list_all is_digit w \<and> list_all is_digit f \<and> length f \<le> 8
     | _ \<Rightarrow> False)"

definition parseBtcAmount :: "jsstr \<Rightarrow> int option" where
  "parseBtcAmount input =
     (let trimmed = trim input in
      if trimmed = [] \<or> \<not> btc_text trimmed then None
      else let fracPadded = take 8 (fraction_of trimmed @ replicate 8 0x30) in
        case (big_int (whole_of trimmed), big_int (if fracPadded = [] then js ''0'' else fracPadded)) of
          (Some w, Some f) \<Rightarrow> let v = w * SATS_PER_BTC + f in if v \<le> 0 then None else Some v
        | _ \<Rightarrow> None)"

fun pieces2 :: "jsstr \<Rightarrow> jsstr list" where
  "pieces2 (a # b # s) = [a, b] # pieces2 s"
| "pieces2 _ = []"

definition reverseHex :: "jsstr \<Rightarrow> jsstr res" where
  "reverseHex h = (if length h mod 2 \<noteq> 0 then Inl (Thrown ''reverseHex: odd-length hex'')
     else Inr (concat (rev (pieces2 h))))"


section \<open>The checksum\<close>

text \<open>What a step does on a state of 30 bits, without the bounds of 32-bit numbers.\<close>

definition generator_mix :: "int \<Rightarrow> int" where
  "generator_mix t = foldl (\<lambda>g i. if bit t i then g XOR BECH32_GENERATOR ! i else g) 0 [0..<5]"

lemma xor_range: "0 \<le> (a :: int) \<Longrightarrow> a < 2 ^ n \<Longrightarrow> 0 \<le> b \<Longrightarrow> b < 2 ^ n \<Longrightarrow> 0 \<le> a XOR b \<and> a XOR b < 2 ^ n"
  by (metis take_bit_int_eq_self_iff take_bit_xor)

lemma js_xor_small: "0 \<le> a \<Longrightarrow> a < 2 ^ 30 \<Longrightarrow> 0 \<le> b \<Longrightarrow> b < 2 ^ 30 \<Longrightarrow> js_xor a b = a XOR b"
  by (simp add: js_xor_def to_int32_id)

lemma generator_values: "\<forall>t \<in> set [0..<32]. 0 \<le> generator_mix (int t) \<and> generator_mix (int t) < 2 ^ 30"
  by code_simp

lemma generator_low_distinct: "distinct (map (\<lambda>t. generator_mix (int t) mod 32) [0..<32])"
  by code_simp

lemma generator_range: "0 \<le> t \<Longrightarrow> t < 32 \<Longrightarrow> 0 \<le> generator_mix t \<and> generator_mix t < 2 ^ 30"
  using generator_values by (auto dest!: bspec [of _ _ "nat t"])

lemma generator_low_inj:
  assumes "0 \<le> s" "s < 32" "0 \<le> t" "t < 32" "generator_mix s mod 32 = generator_mix t mod 32"
  shows "s = t"
proof -
  have "nat s = nat t"
    using generator_low_distinct [unfolded distinct_map, THEN conjunct2, THEN inj_onD, of "nat s" "nat t"] assms by simp
  with assms show ?thesis by simp
qed

text \<open>The loop over the five generator bits adds \<open>generator_mix\<close>.\<close>

lemma generator_loop:
  assumes "0 \<le> c" "c < 2 ^ 30" "0 \<le> t" "t < 32" "k \<le> 5"
  shows "foldl (\<lambda>chk i. if js_and (js_shr t i) 1 \<noteq> 0 then js_xor chk (BECH32_GENERATOR ! i) else chk) c [0..<k]
      = c XOR foldl (\<lambda>g i. if bit t i then g XOR BECH32_GENERATOR ! i else g) 0 [0..<k]
    \<and> 0 \<le> foldl (\<lambda>g i. if bit t i then g XOR BECH32_GENERATOR ! i else g) 0 [0..<k]
    \<and> foldl (\<lambda>g i. if bit t i then g XOR BECH32_GENERATOR ! i else g) 0 [0..<k] < 2 ^ 30"
  using assms(5)
proof (induction k)
  case 0
  then show ?case by simp
next
  case (Suc k)
  let ?g = "foldl (\<lambda>g i. if bit t i then g XOR BECH32_GENERATOR ! i else g) 0 [0..<k]"
  have IH: "foldl (\<lambda>chk i. if js_and (js_shr t i) 1 \<noteq> 0 then js_xor chk (BECH32_GENERATOR ! i) else chk) c [0..<k] = c XOR ?g"
    "0 \<le> ?g" "?g < 2 ^ 30" using Suc by simp_all
  have t: "to_int32 t = t" using assms by (simp add: to_int32_id)
  have "js_and (js_shr t k) 1 = (drop_bit k t) mod 2"
    using js_and_mask [of 1 "js_shr t k"] Suc.prems t by (simp add: js_shr_def mask_eq_exp_minus_1)
  then have b: "js_and (js_shr t k) 1 \<noteq> 0 \<longleftrightarrow> bit t k" by (simp add: bit_iff_odd_drop_bit odd_iff_mod_2_eq_one)
  have gen: "0 \<le> BECH32_GENERATOR ! k" "BECH32_GENERATOR ! k < 2 ^ 30"
    using Suc.prems by (auto simp: BECH32_GENERATOR_def less_Suc_eq_le le_Suc_eq numeral_eq_Suc)
  have cg: "0 \<le> c XOR ?g \<and> c XOR ?g < 2 ^ 30" using xor_range [OF assms(1,2) IH(2,3)] .
  have "js_xor (c XOR ?g) (BECH32_GENERATOR ! k) = c XOR (?g XOR BECH32_GENERATOR ! k)"
    using js_xor_small cg gen by (simp add: xor.assoc)
  with IH b xor_range [OF IH(2,3) gen] show ?case by simp
qed

definition chk_ok :: "int \<Rightarrow> bool" where
  "chk_ok c \<longleftrightarrow> 0 \<le> c \<and> c < 2 ^ 30"

lemma polymod_step_eq:
  assumes "chk_ok c" "0 \<le> v" "v < 32"
  shows "polymod_step c v = (push_bit 5 (take_bit 25 c) XOR v) XOR generator_mix (drop_bit 25 c)"
    and "chk_ok (polymod_step c v)"
proof -
  have c: "0 \<le> c" "c < 2 ^ 30" using assms by (simp_all add: chk_ok_def)
  have t: "js_shr c 25 = drop_bit 25 c" using c by (simp add: js_shr_def to_int32_id)
  have tr: "0 \<le> drop_bit 25 c" "drop_bit 25 c < 32" using c by (simp_all add: drop_bit_eq_div)
  have "js_and c 0x1ffffff = take_bit 25 c"
    using js_and_mask [of 25 c] by (simp add: mask_eq_exp_minus_1 take_bit_eq_mod)
  moreover have r: "0 \<le> push_bit 5 (take_bit 25 c)" "push_bit 5 (take_bit 25 c) < 2 ^ 30"
    using take_bit_int_less_exp [of 25 c] by (simp_all add: push_bit_eq_mult)
  moreover have "- (2 ^ 31) \<le> take_bit 25 c" by (rule order_trans [OF _ take_bit_nonnegative]) simp
  then have "to_int32 (take_bit 25 c) = take_bit 25 c"
    using take_bit_int_less_exp [of 25 c] by (intro to_int32_id) simp_all
  moreover have "to_int32 (push_bit 5 (take_bit 25 c)) = push_bit 5 (take_bit 25 c)"
    using r by (intro to_int32_id) (rule order_trans [of _ 0], simp_all)
  moreover from calculation have "js_shl (take_bit 25 c) 5 = push_bit 5 (take_bit 25 c)"
    by (simp add: js_shl_def)
  moreover have "js_xor (push_bit 5 (take_bit 25 c)) v = push_bit 5 (take_bit 25 c) XOR v"
    using r assms by (intro js_xor_small) simp_all
  moreover have x: "0 \<le> push_bit 5 (take_bit 25 c) XOR v" "push_bit 5 (take_bit 25 c) XOR v < 2 ^ 30"
    using xor_range [OF r, of v] assms by simp_all
  ultimately show e: "polymod_step c v = (push_bit 5 (take_bit 25 c) XOR v) XOR generator_mix (drop_bit 25 c)"
    using generator_loop [OF x tr, of 5] by (simp add: polymod_step_def Let_def t generator_mix_def)
  show "chk_ok (polymod_step c v)"
    unfolding e chk_ok_def using xor_range [OF x, of "generator_mix (drop_bit 25 c)"] generator_range [OF tr] by simp
qed

lemma low_bits:
  assumes "0 \<le> (v :: int)" "v < 32"
  shows "((push_bit 5 a XOR v) XOR g) mod 32 = v XOR (g mod 32)"
proof -
  have "take_bit 5 ((push_bit 5 a XOR v) XOR g) = take_bit 5 v XOR take_bit 5 g"
    by (simp add: take_bit_xor take_bit_push_bit)
  moreover have "take_bit 5 v = v" using assms by (simp add: take_bit_int_eq_self)
  ultimately show ?thesis by (simp add: take_bit_eq_mod)
qed

lemma xor_cancel: "a XOR x = b XOR x \<longleftrightarrow> a = (b :: int)" "x XOR a = x XOR b \<longleftrightarrow> a = (b :: int)"
  by (metis xor.assoc xor_self_eq xor.right_neutral, metis xor.assoc xor_self_eq xor.left_neutral)

text \<open>A step loses nothing: neither of the state nor of the value.\<close>

lemma polymod_step_inj:
  assumes "chk_ok c" "chk_ok d" "0 \<le> v" "v < 32" "polymod_step c v = polymod_step d v"
  shows "c = d"
proof -
  have e: "(push_bit 5 (take_bit 25 c) XOR v) XOR generator_mix (drop_bit 25 c)
      = (push_bit 5 (take_bit 25 d) XOR v) XOR generator_mix (drop_bit 25 d)"
    using assms polymod_step_eq(1) by metis
  have r: "0 \<le> drop_bit 25 c" "drop_bit 25 c < 32" "0 \<le> drop_bit 25 d" "drop_bit 25 d < 32"
    using assms(1,2) by (auto simp: chk_ok_def drop_bit_eq_div)
  from arg_cong [OF e, of "\<lambda>x. x mod 32"] have "generator_mix (drop_bit 25 c) mod 32 = generator_mix (drop_bit 25 d) mod 32"
    by (simp only: low_bits [OF assms(3,4)] xor_cancel)
  then have t: "drop_bit 25 c = drop_bit 25 d" by (rule generator_low_inj [OF r])
  have "push_bit 5 (take_bit 25 c) = push_bit 5 (take_bit 25 d)" using e unfolding t xor_cancel .
  then have "take_bit 25 c = take_bit 25 d" unfolding push_bit_eq_mult by simp
  with t have "push_bit 25 (drop_bit 25 c) + take_bit 25 c = push_bit 25 (drop_bit 25 d) + take_bit 25 d" by simp
  then show ?thesis unfolding bits_ident .
qed

lemma polymod_value_inj:
  "chk_ok c \<Longrightarrow> 0 \<le> v \<Longrightarrow> v < 32 \<Longrightarrow> 0 \<le> w \<Longrightarrow> w < 32 \<Longrightarrow> polymod_step c v = polymod_step c w \<Longrightarrow> v = w"
  by (simp add: polymod_step_eq(1) xor_cancel)

abbreviation symbols :: "int list \<Rightarrow> bool" where
  "symbols vs \<equiv> list_all (\<lambda>v. 0 \<le> v \<and> v < 32) vs"

lemma polymod_ok: "chk_ok c \<Longrightarrow> symbols vs \<Longrightarrow> chk_ok (foldl polymod_step c vs)"
  by (induction vs arbitrary: c) (simp_all add: polymod_step_eq(2))

lemma polymod_foldl_inj:
  "chk_ok c \<Longrightarrow> chk_ok d \<Longrightarrow> symbols vs \<Longrightarrow> foldl polymod_step c vs = foldl polymod_step d vs \<Longrightarrow> c = d"
proof (induction vs arbitrary: c d)
  case Nil
  then show ?case by simp
next
  case (Cons v vs)
  then have "polymod_step c v = polymod_step d v" by (simp add: polymod_step_eq(2))
  with Cons.prems show ?case by (intro polymod_step_inj [of c d v]) auto
qed

text \<open>Changing one symbol changes the checksum.\<close>

lemma polymod_one_changed:
  assumes "symbols (xs @ v # ys)" "0 \<le> w" "w < 32" "v \<noteq> w"
  shows "bech32Polymod (xs @ v # ys) \<noteq> bech32Polymod (xs @ w # ys)"
proof
  assume "bech32Polymod (xs @ v # ys) = bech32Polymod (xs @ w # ys)"
  moreover have "chk_ok (foldl polymod_step 1 xs)" using assms by (intro polymod_ok) (simp_all add: chk_ok_def)
  ultimately show False
    using assms polymod_foldl_inj [of _ _ ys] polymod_value_inj [of "foldl polymod_step 1 xs" v w]
    by (simp add: bech32Polymod_def polymod_step_eq(2))
qed

section \<open>The parts of an address\<close>

lemma index_of_Some: "index_of c s = Some i \<Longrightarrow> i < length s \<and> s ! i = c"
  by (induction s arbitrary: i) (auto split: if_splits)

lemma index_of_first: "c \<notin> set r \<Longrightarrow> index_of c (r @ c # s) = Some (length r)"
  by (induction r) auto

lemma last_index: "c \<notin> set r \<Longrightarrow> last_index_of c (h @ c # r) = Some (length h)"
  using index_of_first [of c "rev r" "rev h"] by (simp add: last_index_of_def)

lemma charset_index_Some: "charset_index c = Some v \<Longrightarrow> 0 \<le> v \<and> v < 32 \<and> BECH32_CHARSET ! nat v = c"
  by (auto simp: charset_index_def dest!: index_of_Some) (simp add: BECH32_CHARSET_def)

lemma index_of_in: "c \<in> set s \<Longrightarrow> \<exists>i. index_of c s = Some i"
  by (induction s) auto

lemma charset_index_in: "c \<in> set BECH32_CHARSET \<Longrightarrow> \<exists>v. charset_index c = Some v"
  using index_of_in by (fastforce simp: charset_index_def)

lemma charset_data_iff: "charset_data s = Some vs \<longleftrightarrow> list_all2 (\<lambda>c v. charset_index c = Some v) s vs"
proof (induction s arbitrary: vs)
  case Nil
  then show ?case by (cases vs) auto
next
  case (Cons c s)
  then show ?case by (cases vs) (auto split: option.splits)
qed

lemma charset_data_append: "charset_data (s @ t) = (case charset_data s of None \<Rightarrow> None | Some vs \<Rightarrow> map_option ((@) vs) (charset_data t))"
  by (induction s; cases "charset_data t") (auto split: option.splits)

lemma charset_data_symbols: "charset_data s = Some vs \<Longrightarrow> symbols vs"
  by (auto simp: charset_data_iff list_all2_conv_all_nth list_all_length dest!: charset_index_Some)

lemma hrp_symbols: "list_all (\<lambda>c. c \<le> 126) h \<Longrightarrow> symbols (bech32HrpExpand h)"
proof -
  assume h: "list_all (\<lambda>c. c \<le> 126) h"
  have "0 \<le> js_shr (uint c) 5 \<and> js_shr (uint c) 5 < 32 \<and> 0 \<le> js_and (uint c) 31 \<and> js_and (uint c) 31 < 32"
    if "c \<in> set h" for c
  proof -
    have "c \<le> 126" using h that by (simp add: list_all_iff)
    then have u: "0 \<le> uint c" "uint c \<le> 126" by (simp_all add: word_le_def)
    have "- (2 ^ 31) \<le> uint c" by (rule order_trans [OF _ u(1)]) simp
    then have "to_int32 (uint c) = uint c" using u(2) by (intro to_int32_id) simp_all
    then have "js_shr (uint c) 5 = uint c div 32" by (simp add: js_shr_def drop_bit_eq_div)
    moreover have "js_and (uint c) 31 = uint c mod 32" using js_and_mask [of 5 "uint c"] by (simp add: mask_eq_exp_minus_1)
    moreover have "uint c div 32 \<le> 126 div 32" using u by (intro zdiv_mono1) simp_all
    ultimately show ?thesis using u by (simp add: pos_imp_zdiv_nonneg_iff)
  qed
  then show ?thesis by (auto simp: bech32HrpExpand_def list_all_iff)
qed

lemma decode_parts:
  assumes "decodeSegwitAddress lower upper (h @ 0x31 # r) = Some d" "lower (h @ 0x31 # r) = h @ 0x31 # r" "0x31 \<notin> set r"
  obtains data where "charset_data r = Some data" "7 \<le> length data" "hrp d = h" "version d = data ! 0" "list_all (\<lambda>c. c \<le> 126) h"
    "verifyBech32Checksum h data (if data ! 0 = 0 then Bech32 else Bech32m)"
    "convertBits (slice 1 (length data - 6) data) 5 8 False = Some (program d)"
    "2 \<le> length (program d)" "length (program d) \<le> 40"
proof -
  have "\<not> list_ex (\<lambda>c. c < 33 \<or> c > 126) h"
    using assms by (auto simp: decodeSegwitAddress_def Let_def last_index split: if_splits)
  then have "list_all (\<lambda>c. c \<le> 126) h" by (auto simp: list_all_iff list_ex_iff not_less)
  moreover obtain data where c: "charset_data r = Some data"
    using assms by (auto simp: decodeSegwitAddress_def Let_def last_index split: if_splits option.splits)
  moreover have "7 \<le> length data \<and> hrp d = h \<and> version d = data ! 0
      \<and> verifyBech32Checksum h data (if data ! 0 = 0 then Bech32 else Bech32m)
      \<and> convertBits (slice 1 (length data - 6) data) 5 8 False = Some (program d)
      \<and> 2 \<le> length (program d) \<and> length (program d) \<le> 40"
    using assms c unfolding decodeSegwitAddress_def Let_def
    by (simp add: last_index split: if_splits option.splits) auto
  ultimately show thesis using that by blast
qed

section \<open>Groups of bits\<close>

definition bits_of :: "nat \<Rightarrow> int \<Rightarrow> bool list" where
  "bits_of n v = map (bit v) (rev [0..<n])"

lemma bits_of_0 [simp]: "bits_of 0 v = []"
  by (simp add: bits_of_def)

lemma bits_of_append: "bits_of (m + n) v = map (\<lambda>i. bit v (i + n)) (rev [0..<m]) @ bits_of n v"
proof -
  have "[0..<m + n] = [0..<n] @ map (\<lambda>i. i + n) [0..<m]"
    using upt_add_eq_append [of 0 n m] by (simp add: add.commute map_add_upt)
  then show ?thesis by (simp add: bits_of_def rev_map comp_def)
qed

lemma bit_to_int32: "i < 31 \<Longrightarrow> bit (to_int32 a) i = bit a i"
  by (simp add: to_int32_def bit_signed_take_bit_iff)

lemma bits_of_shift:
  assumes "b \<le> 8" "0 \<le> v" "v < 32"
  shows "bits_of (b + 5) (js_or (js_shl acc 5) v) = bits_of b acc @ bits_of 5 v"
proof -
  have "take_bit 5 v = v" using assms by (simp add: take_bit_int_eq_self)
  then have v: "\<not> bit v i" if "5 \<le> i" for i using that by (metis bit_take_bit_iff not_less)
  have "bit (js_or (js_shl acc 5) v) i = (if i < 5 then bit v i else bit acc (i - 5))" if "i < 13" for i
    using that v [of i] by (simp add: js_or_def js_shl_def bit_or_iff bit_to_int32 bit_push_bit_iff)
  then show ?thesis using assms(1) unfolding bits_of_append by (simp add: bits_of_def)
qed

lemma byte_of_bits:
  assumes "b \<le> 12"
  shows "bits_of 8 (js_and (js_shr acc b) (js_shl 1 8 - 1)) = map (\<lambda>i. bit acc (i + b)) (rev [0..<8])"
    "0 \<le> js_and (js_shr acc b) (js_shl 1 8 - 1)" "js_and (js_shr acc b) (js_shl 1 8 - 1) < 256"
proof -
  have m: "js_shl 1 8 - 1 = mask 8" by (simp add: js_shl_def to_int32_id push_bit_eq_mult mask_eq_exp_minus_1)
  have a: "js_and (js_shr acc b) (js_shl 1 8 - 1) = take_bit 8 (js_shr acc b)"
    unfolding m by (simp add: js_and_mask take_bit_eq_mod)
  show "bits_of 8 (js_and (js_shr acc b) (js_shl 1 8 - 1)) = map (\<lambda>i. bit acc (i + b)) (rev [0..<8])"
    unfolding a bits_of_def using assms
    by (intro map_cong) (auto simp: bit_take_bit_iff js_shr_def bit_drop_bit_eq bit_to_int32 add.commute)
  show "0 \<le> js_and (js_shr acc b) (js_shl 1 8 - 1)" "js_and (js_shr acc b) (js_shl 1 8 - 1) < 256"
    unfolding a using take_bit_int_less_exp [of 8 "js_shr acc b"] by simp_all
qed

abbreviation byte_values :: "int list \<Rightarrow> bool" where
  "byte_values vs \<equiv> list_all (\<lambda>v. 0 \<le> v \<and> v < 256) vs"

lemma drain_8:
  assumes "b < 13" "drain_bits 8 acc b out = (b', out')" "byte_values out"
  shows "b' < 8 \<and> byte_values out' \<and> concat (map (bits_of 8) out) @ bits_of b acc = concat (map (bits_of 8) out') @ bits_of b' acc"
proof (cases "8 \<le> b")
  case True
  let ?x = "js_and (js_shr acc (b - 8)) (js_shl 1 8 - 1)"
  have "\<not> 8 \<le> b - 8" using assms(1) by simp
  then have "drain_bits 8 acc b out = (b - 8, out @ [?x])"
    using True by (simp add: drain_bits.simps [of 8 acc b out] drain_bits.simps [of 8 acc "b - 8"])
  moreover have "bits_of b acc = bits_of 8 ?x @ bits_of (b - 8) acc"
    using bits_of_append [of 8 "b - 8" acc] byte_of_bits(1) [of "b - 8" acc] True assms(1) by simp
  ultimately show ?thesis using assms byte_of_bits(2,3) [of "b - 8" acc] by auto
next
  case False
  with assms show ?thesis by (simp add: drain_bits.simps [of 8 acc b out])
qed

lemma convert_loop_bits:
  assumes "convert_loop 5 8 vs acc b out = Some (acc', b', out')" "b < 8" "byte_values out" "symbols vs"
  shows "b' < 8 \<and> byte_values out' \<and> concat (map (bits_of 8) out) @ bits_of b acc @ concat (map (bits_of 5) vs)
    = concat (map (bits_of 8) out') @ bits_of b' acc'"
  using assms
proof (induction vs arbitrary: acc b out)
  case Nil
  then show ?case by simp
next
  case (Cons v vs)
  obtain b1 out1 where d: "drain_bits 8 (js_or (js_shl acc 5) v) (b + 5) out = (b1, out1)" by (cases "drain_bits 8 (js_or (js_shl acc 5) v) (b + 5) out")
  with Cons.prems have "convert_loop 5 8 vs (js_or (js_shl acc 5) v) b1 out1 = Some (acc', b', out')"
    by (auto simp: Let_def split: if_splits)
  moreover have D: "b1 < 8 \<and> byte_values out1
      \<and> concat (map (bits_of 8) out) @ bits_of (b + 5) (js_or (js_shl acc 5) v) = concat (map (bits_of 8) out1) @ bits_of b1 (js_or (js_shl acc 5) v)"
    using drain_8 [OF _ d Cons.prems(3)] Cons.prems(2) by simp
  ultimately have IH: "b' < 8 \<and> byte_values out' \<and> concat (map (bits_of 8) out1) @ bits_of b1 (js_or (js_shl acc 5) v) @ concat (map (bits_of 5) vs)
      = concat (map (bits_of 8) out') @ bits_of b' acc'"
    using Cons.IH [of _ b1 out1] Cons.prems(4) by simp
  have s: "bits_of (b + 5) (js_or (js_shl acc 5) v) = bits_of b acc @ bits_of 5 v"
    using Cons.prems(2,4) by (intro bits_of_shift) simp_all
  have "concat (map (bits_of 8) out) @ bits_of b acc @ concat (map (bits_of 5) (v # vs))
      = (concat (map (bits_of 8) out) @ bits_of (b + 5) (js_or (js_shl acc 5) v)) @ concat (map (bits_of 5) vs)"
    unfolding s by simp
  also have "\<dots> = (concat (map (bits_of 8) out1) @ bits_of b1 (js_or (js_shl acc 5) v)) @ concat (map (bits_of 5) vs)"
    using D by simp
  finally show ?case using IH by simp
qed


lemma bits_of_word: "0 \<le> v \<Longrightarrow> v < 256 \<Longrightarrow> bits_of 8 (uint (word_of_int v :: byte)) = bits_of 8 v"
  by (simp add: uint_word_of_int_byte)

text \<open>The bytes hold the bits of the symbols; fewer than five are left and they are zero.\<close>

lemma convertBits_bits:
  assumes "convertBits vs 5 8 False = Some out" "symbols vs"
  shows "\<exists>k < 5. concat (map (bits_of 5) vs) = concat (map (\<lambda>b. bits_of 8 (uint b)) out) @ replicate k False"
proof -
  obtain acc b o8 where l: "convert_loop 5 8 vs 0 0 [] = Some (acc, b, o8)" and b: "b < 5"
    and z: "js_and (js_shl acc (8 - b)) (js_shl 1 8 - 1) = 0" and o: "out = map word_of_int o8"
    using assms(1) by (auto simp: convertBits_def Let_def split: option.splits prod.splits if_splits)
  have inv: "byte_values o8" "concat (map (bits_of 5) vs) = concat (map (bits_of 8) o8) @ bits_of b acc"
    using convert_loop_bits [OF l _ _ assms(2)] by simp_all
  have m: "js_shl 1 8 - 1 = mask 8" by (simp add: js_shl_def to_int32_id push_bit_eq_mult mask_eq_exp_minus_1)
  have zero: "\<not> bit acc i" if "i < b" for i
  proof -
    have "take_bit 8 (js_shl acc (8 - b)) = 0" using z unfolding m by (simp add: js_and_mask take_bit_eq_mod)
    then have "\<not> bit (take_bit 8 (js_shl acc (8 - b))) (i + (8 - b))" by (simp only: bit_0_eq bot_apply bot_bool_def not_False_eq_True)
    then have "\<not> bit (js_shl acc (8 - b)) (i + (8 - b))" using that b by (simp add: bit_take_bit_iff)
    then show ?thesis using that b by (simp add: js_shl_def bit_to_int32 bit_push_bit_iff)
  qed
  have "bits_of b acc = replicate b False"
    by (rule nth_equalityI) (simp_all add: bits_of_def zero rev_nth)
  moreover have "concat (map (\<lambda>b. bits_of 8 (uint b)) out) = concat (map (bits_of 8) o8)"
    unfolding o map_map comp_def using inv(1) by (intro arg_cong [of _ _ concat] map_cong) (auto simp: bits_of_word list_all_iff)
  ultimately show ?thesis using inv(2) b by auto
qed

section \<open>Amounts\<close>

lemma sats_parts: "int v sdiv SATS_PER_BTC = int (v div 10 ^ 8)" "int v smod SATS_PER_BTC = int (v mod 10 ^ 8)"
  by (simp_all add: SATS_PER_BTC_def sdiv_nonneg smod_nonneg zdiv_int zmod_int)

lemma show_int_nat [simp]: "show_int (int n) = show_nat n"
  by (simp add: show_int_def)

lemma strip_zeros_pos: "digits_val s \<noteq> 0 \<Longrightarrow> strip_zeros s \<noteq> []"
  using digits_val_strip [of s] by auto

lemma formatSats_units: "0 < v \<Longrightarrow> formatSats (int v) = units_text 8 v"
proof -
  assume v: "0 < v"
  have "digits_val (pad_start 8 0x30 (show_nat (v mod 10 ^ 8))) = v mod 10 ^ 8" by (rule pad_digits(3)) simp_all
  then have "v mod 10 ^ 8 \<noteq> 0 \<Longrightarrow> strip_zeros (pad_start 8 0x30 (show_nat (v mod 10 ^ 8))) \<noteq> []"
    using strip_zeros_pos by simp
  moreover have "strip_zeros (pad_start 8 0x30 (show_nat 0)) = []"
    by (subst show_nat.simps) (simp add: strip_zeros_def rstrip_def pad_start_def digit_char_def numeral_eq_Suc)
  ultimately show ?thesis using v
    by (cases "v mod 10 ^ 8 = 0") (simp_all add: formatSats_def units_text_def sats_parts Let_def)
qed

lemma big_int_digits: "list_all is_digit s \<Longrightarrow> big_int s = Some (int (digits_val s))"
  using toBigInt_digits [of s] by (simp add: toBigInt_def split: option.splits)

lemma parseBtc_units:
  assumes "decimal_text s" "length (fraction_of s) \<le> 8" "0 < decimal_units 8 s"
  shows "parseBtcAmount s = Some (int (decimal_units 8 s))"
proof -
  have t: "s \<noteq> []" "btc_text s"
    using assms(1,2) by (auto elim!: decimal_textE simp: btc_text_def fraction_of_def)
  have p: "take 8 (fraction_of s @ replicate 8 0x30) = pad_end 8 0x30 (fraction_of s)"
    using assms(2) by (simp add: pad_end_def take_replicate min_def)
  have "pad_end 8 0x30 (fraction_of s) \<noteq> []" by (cases "fraction_of s") (simp_all add: pad_end_def)
  moreover have "list_all is_digit (pad_end 8 0x30 (fraction_of s))"
    using decimal_parts(2) [OF assms(1)] by (auto simp: pad_end_def list_all_iff is_digit_def)
  then have "big_int (whole_of s) = Some (int (digits_val (whole_of s)))"
    "big_int (pad_end 8 0x30 (fraction_of s)) = Some (int (digits_val (pad_end 8 0x30 (fraction_of s))))"
    using big_int_digits decimal_parts(1) [OF assms(1)] by blast+
  moreover have "int (digits_val (whole_of s)) * SATS_PER_BTC + int (digits_val (pad_end 8 0x30 (fraction_of s))) = int (decimal_units 8 s)"
    using decimal_parts(3) [OF assms(1), of 8] by (simp add: SATS_PER_BTC_def)
  moreover have "\<not> int (decimal_units 8 s) \<le> 0" using assms(3) by simp
  ultimately show ?thesis
    using assms(1) t p by (simp add: parseBtcAmount_def Let_def del: digits_val_pad_end take_append)
qed

text \<open>The amounts of the application as an amount format: what is shown is read back.\<close>

interpretation btc_amounts: amount_format "\<lambda>v. formatSats (int v)"
  "\<lambda>s. case parseBtcAmount s of None \<Rightarrow> Inl () | Some v \<Rightarrow> Inr v" "\<lambda>v. 0 < v"
proof
  fix v :: nat assume v: "0 < v"
  then have "parseBtcAmount (units_text 8 v) = Some (int v)"
    using parseBtc_units [of "units_text 8 v"] fraction_units [of 8 v] by (simp add: decimal_text_units)
  with v show "(case parseBtcAmount (formatSats (int v)) of None \<Rightarrow> Inl () | Some v \<Rightarrow> Inr v) = Inr (int v)"
    by (simp add: formatSats_units)
qed

section \<open>The choice of an output\<close>

definition smallest_sufficient :: "('u \<Rightarrow> int) \<Rightarrow> int \<Rightarrow> 'u list \<Rightarrow> 'u option" where
  "smallest_sufficient amt needed us = find (\<lambda>u. amt u \<ge> needed) (sort_key amt us)"

lemma find_sorted:
  "sorted (map f us) \<Longrightarrow> find (\<lambda>u. f u \<ge> (k :: int)) us = Some u \<Longrightarrow> u \<in> set us \<and> k \<le> f u \<and> (\<forall>w \<in> set us. k \<le> f w \<longrightarrow> f u \<le> f w)"
  by (induction us) (auto split: if_splits)

lemma smallest_sufficient_Some:
  assumes "smallest_sufficient amt needed us = Some u"
  shows "u \<in> set us" "needed \<le> amt u" "\<And>w. w \<in> set us \<Longrightarrow> needed \<le> amt w \<Longrightarrow> amt u \<le> amt w"
  using find_sorted [of amt "sort_key amt us" needed u] assms by (auto simp: smallest_sufficient_def)

lemma smallest_sufficient_None: "smallest_sufficient amt needed us = None \<longleftrightarrow> (\<forall>u \<in> set us. amt u < needed)"
  by (auto simp: smallest_sufficient_def find_None_iff not_le)

lemma charset_data_middle:
  "charset_data (v # xs @ c # ys) = Some data \<Longrightarrow> \<exists>a as k bs. data = a # as @ k # bs \<and> charset_index v = Some a
    \<and> charset_data xs = Some as \<and> charset_index c = Some k \<and> charset_data ys = Some bs"
  by (auto simp: charset_data_append split: option.splits)

section \<open>Properties\<close>

text \<open>
  C23: A typing error is noticed.  When an address in lower case is accepted, the address with one
  symbol behind the version replaced by another symbol of the alphabet is refused.
\<close>

theorem one_symbol_typo_refused:
  assumes "decodeSegwitAddress lower upper (h @ 0x31 # v # xs @ c # ys) = Some d"
    and "0x31 \<notin> set (v # xs @ c # ys)" "c' \<in> set BECH32_CHARSET" "c' \<noteq> c"
    and "lower (h @ 0x31 # v # xs @ c # ys) = h @ 0x31 # v # xs @ c # ys"
    and "lower (h @ 0x31 # v # xs @ c' # ys) = h @ 0x31 # v # xs @ c' # ys"
  shows "decodeSegwitAddress lower upper (h @ 0x31 # v # xs @ c' # ys) = None"
proof (rule ccontr)
  assume "decodeSegwitAddress lower upper (h @ 0x31 # v # xs @ c' # ys) \<noteq> None"
  then obtain d' where d': "decodeSegwitAddress lower upper (h @ 0x31 # v # xs @ c' # ys) = Some d'" by blast
  have n: "0x31 \<notin> set (v # xs @ c' # ys)" using assms(2,3) by (auto simp: BECH32_CHARSET_def)
  obtain data where 1: "charset_data (v # xs @ c # ys) = Some data" "list_all (\<lambda>c. c \<le> 126) h"
    "verifyBech32Checksum h data (if data ! 0 = 0 then Bech32 else Bech32m)"
    using decode_parts [OF assms(1,5,2)] by blast
  obtain data' where 2: "charset_data (v # xs @ c' # ys) = Some data'"
    "verifyBech32Checksum h data' (if data' ! 0 = 0 then Bech32 else Bech32m)"
    using decode_parts [OF d' assms(6) n] by blast
  obtain a as k bs where a: "data = a # as @ k # bs" "charset_index v = Some a" "charset_data xs = Some as"
      "charset_index c = Some k" "charset_data ys = Some bs"
    using charset_data_middle [OF 1(1)] by blast
  obtain a' as' k' bs' where b: "data' = a' # as' @ k' # bs'" "charset_index v = Some a'" "charset_data xs = Some as'"
      "charset_index c' = Some k'" "charset_data ys = Some bs'"
    using charset_data_middle [OF 2(1)] by blast
  have b1: "data' = a # as @ k' # bs" using a b by simp
  have "k \<noteq> k'" using charset_index_Some [OF a(4)] charset_index_Some [OF b(4)] assms(4) by auto
  moreover have "symbols (bech32HrpExpand h @ data)" "symbols data'"
    using hrp_symbols [OF 1(2)] charset_data_symbols [OF 1(1)] charset_data_symbols [OF 2(1)] by simp_all
  ultimately have "bech32Polymod ((bech32HrpExpand h @ a # as) @ k # bs) \<noteq> bech32Polymod ((bech32HrpExpand h @ a # as) @ k' # bs)"
    unfolding a(1) b1 by (intro polymod_one_changed) simp_all
  with 1(3) 2(2) show False by (simp add: a(1) b1 verifyBech32Checksum_def)
qed

lemma example_address: "(case decodeSegwitAddress id id (js ''bc1qw508d6qejxtdg4y5r3zarvary0c5xw7kv8f3t4'') of None \<Rightarrow> False
    | Some d \<Rightarrow> version d = 0 \<and> length (program d) = 20)"
  by code_simp

theorem one_symbol_typo_refused_witness:
  "decodeSegwitAddress id id (js ''bc1qw508d6qejxtdg4y5r3zarvary0c5xw7kv8f3t4'') \<noteq> None
    \<and> decodeSegwitAddress id id (js ''bc1qw508d6qejxtdg4y5r3zarvary0c5xw7kv8f3t5'') = None"
proof -
  let ?xs = "js ''w508d6qejxtdg4y5r3zarvary0c5xw7kv8f3t''"
  have a: "js ''bc1qw508d6qejxtdg4y5r3zarvary0c5xw7kv8f3t4'' = js ''bc'' @ 0x31 # of_char CHR ''q'' # ?xs @ of_char CHR ''4'' # []"
    and b: "js ''bc1qw508d6qejxtdg4y5r3zarvary0c5xw7kv8f3t5'' = js ''bc'' @ 0x31 # of_char CHR ''q'' # ?xs @ of_char CHR ''5'' # []" by simp_all
  obtain d where "decodeSegwitAddress id id (js ''bc1qw508d6qejxtdg4y5r3zarvary0c5xw7kv8f3t4'') = Some d"
    using example_address by (auto split: option.splits simp del: js_simps)
  moreover from this [unfolded a] have "decodeSegwitAddress id id (js ''bc'' @ 0x31 # of_char CHR ''q'' # ?xs @ of_char CHR ''5'' # []) = None"
    by (rule one_symbol_typo_refused) (simp_all add: BECH32_CHARSET_def)
  ultimately show ?thesis unfolding b by simp
qed

text \<open>
  The witness program of an accepted address holds exactly the bits of the symbols between the
  version and the checksum; fewer than five bits are left over and all of them are zero.  The
  32-bit accumulator of the conversion loses nothing.
\<close>

theorem decoded_program_bits:
  assumes "decodeSegwitAddress lower upper (h @ 0x31 # r) = Some d" "lower (h @ 0x31 # r) = h @ 0x31 # r" "0x31 \<notin> set r"
  shows "\<exists>data k. charset_data r = Some data \<and> k < 5 \<and> version d = data ! 0 \<and> hrp d = h
    \<and> concat (map (bits_of 5) (slice 1 (length data - 6) data)) = concat (map (\<lambda>b. bits_of 8 (uint b)) (program d)) @ replicate k False"
proof -
  obtain data where d: "charset_data r = Some data" "hrp d = h" "version d = data ! 0"
    "convertBits (slice 1 (length data - 6) data) 5 8 False = Some (program d)"
    using decode_parts [OF assms] by blast
  have "symbols (slice 1 (length data - 6) data)"
    using charset_data_symbols [OF d(1)] by (auto simp: slice_def list_all_iff dest: in_set_takeD in_set_dropD)
  from convertBits_bits [OF d(4) this] d show ?thesis by blast
qed

theorem decoded_program_bits_witness:
  "\<exists>d data k. decodeSegwitAddress id id (js ''bc1qw508d6qejxtdg4y5r3zarvary0c5xw7kv8f3t4'') = Some d
    \<and> charset_data (js ''qw508d6qejxtdg4y5r3zarvary0c5xw7kv8f3t4'') = Some data \<and> k < 5
    \<and> concat (map (bits_of 5) (slice 1 (length data - 6) data)) = concat (map (\<lambda>b. bits_of 8 (uint b)) (program d)) @ replicate k False"
proof -
  have a: "js ''bc1qw508d6qejxtdg4y5r3zarvary0c5xw7kv8f3t4'' = js ''bc'' @ 0x31 # js ''qw508d6qejxtdg4y5r3zarvary0c5xw7kv8f3t4''" by simp
  obtain d where d: "decodeSegwitAddress id id (js ''bc'' @ 0x31 # js ''qw508d6qejxtdg4y5r3zarvary0c5xw7kv8f3t4'') = Some d"
    using example_address unfolding a by (auto split: option.splits simp del: js_simps)
  have "0x31 \<notin> set (js ''qw508d6qejxtdg4y5r3zarvary0c5xw7kv8f3t4'')" by simp
  from decoded_program_bits [OF d _ this] d show ?thesis unfolding a by (auto simp del: js_simps)
qed

text \<open>An amount in satoshis that is shown as BTC is read back as the same amount.\<close>

theorem btc_amount_roundtrip:
  assumes "0 < v"
  shows "parseBtcAmount (formatSats v) = Some v"
proof -
  have "parseBtcAmount (formatSats (int (nat v))) = Some (int (nat v))"
    using btc_amounts.parse_print [of "nat v"] assms by (simp split: option.splits)
  with assms show ?thesis by simp
qed

theorem btc_amount_roundtrip_witness: "parseBtcAmount (formatSats 150000) = Some 150000"
  by (rule btc_amount_roundtrip) simp

text \<open>
  The output chosen for a payment is one of the wallet's outputs, covers the amount and the fee,
  and is the smallest that does; the change is the rest and is not negative.
\<close>

theorem btc_output_choice:
  assumes "selectBitcoinSendUtxo us amount fee = Some s"
  shows "0 < amount \<and> 0 \<le> fee \<and> feeSats s = fee \<and> sel_utxo s \<in> set us
    \<and> uvalue (sel_utxo s) = amount + fee + changeSats s \<and> 0 \<le> changeSats s
    \<and> (\<forall>u \<in> set us. amount + fee \<le> uvalue u \<longrightarrow> uvalue (sel_utxo s) \<le> uvalue u)"
proof -
  obtain u where u: "smallest_sufficient uvalue (amount + fee) us = Some u" "0 < amount" "0 \<le> fee"
    "s = \<lparr>sel_utxo = u, feeSats = fee, changeSats = uvalue u - (amount + fee)\<rparr>"
    using assms by (auto simp: selectBitcoinSendUtxo_def smallest_sufficient_def Let_def not_le not_less split: if_splits option.splits)
  then show ?thesis using smallest_sufficient_Some [OF u(1)] by simp
qed

theorem btc_output_choice_witness:
  "\<exists>s. selectBitcoinSendUtxo [\<lparr>utxid = [], uvout = 0, uvalue = 900\<rparr>, \<lparr>utxid = [], uvout = 1, uvalue = 500\<rparr>] 100 300 = Some s
    \<and> changeSats s = 100 \<and> 0 \<le> changeSats s"
proof -
  have e: "selectBitcoinSendUtxo [\<lparr>utxid = [], uvout = 0, uvalue = 900\<rparr>, \<lparr>utxid = [], uvout = 1, uvalue = 500\<rparr>] 100 300
    = Some \<lparr>sel_utxo = \<lparr>utxid = [], uvout = 1, uvalue = 500\<rparr>, feeSats = 300, changeSats = 100\<rparr>"
    by (simp add: selectBitcoinSendUtxo_def)
  from btc_output_choice [OF e] e show ?thesis by auto
qed

end
