(* ===== verification/Chain_Zcash.thy ===== *)
theory Chain_Zcash
  imports Chain_Btc
begin

text \<open>
  \<open>lib/chain/zcash.ts\<close> without its network reads: transparent addresses and the choice of the
  output to spend, for which there is no change.  Base58 and SHA-256 are arguments.
\<close>

section \<open>Addresses\<close>

datatype ZcashNetwork = ZecMainnet | ZecTestnet

definition ZEC_MAINNET_VERSION :: bytes where
  "ZEC_MAINNET_VERSION = [0x1c, 0xb8]"

definition ZEC_TESTNET_VERSION :: bytes where
  "ZEC_TESTNET_VERSION = [0x1d, 0x25]"

record ZcashTransparentAddress =
  znetwork :: ZcashNetwork
  pkh :: bytes

fun equals_from :: "bytes \<Rightarrow> bytes \<Rightarrow> bool" where
  "equals_from (x # xs) (y # ys) = (if x \<noteq> y then False else equals_from xs ys)"
| "equals_from _ _ = True"

definition equalsBytes :: "bytes \<Rightarrow> bytes \<Rightarrow> bool" where
  "equalsBytes a b = (if length a \<noteq> length b then False else equals_from a b)"

definition doubleSha256 :: "(bytes \<Rightarrow> bytes) \<Rightarrow> bytes \<Rightarrow> bytes" where
  "doubleSha256 sha data = sha (sha data)"

definition decodeZcashTransparentAddress ::
  "(jsstr \<Rightarrow> bytes option) \<Rightarrow> (bytes \<Rightarrow> bytes) \<Rightarrow> jsstr \<Rightarrow> ZcashTransparentAddress option" where
  "decodeZcashTransparentAddress bs58 sha address =
     (let trimmed = trim address in
      if trimmed = [] then None
      else case bs58 trimmed of
        None \<Rightarrow> None
      | Some decoded \<Rightarrow>
          if length decoded \<noteq> 26 then None
          else let payload = slice 0 22 decoded; checksum = drop 22 decoded; version = slice 0 2 payload; p = drop 2 payload in
            if length p \<noteq> 20 then None
            else if \<not> equalsBytes version ZEC_MAINNET_VERSION \<and> \<not> equalsBytes version ZEC_TESTNET_VERSION then None
            else let expected = slice 0 4 (doubleSha256 sha payload) in
              if \<not> equalsBytes checksum expected then None
              else Some \<lparr>znetwork = (if equalsBytes version ZEC_MAINNET_VERSION then ZecMainnet else ZecTestnet), pkh = p\<rparr>)"

datatype ZcashDestination = ZecOk ZcashNetwork bytes | ZecRefused string

definition validateZcashDestination :: "(jsstr \<Rightarrow> bytes option) \<Rightarrow> (bytes \<Rightarrow> bytes) \<Rightarrow> jsstr \<Rightarrow> ZcashDestination" where
  "validateZcashDestination bs58 sha address =
     (case decodeZcashTransparentAddress bs58 sha address of
        None \<Rightarrow> ZecRefused ''Enter a valid transparent Zcash address.''
      | Some d \<Rightarrow> ZecOk (znetwork d) (pkh d))"

definition networkForZcashAddress :: "(jsstr \<Rightarrow> bytes option) \<Rightarrow> (bytes \<Rightarrow> bytes) \<Rightarrow> jsstr \<Rightarrow> ZcashNetwork option" where
  "networkForZcashAddress bs58 sha address = map_option znetwork (decodeZcashTransparentAddress bs58 sha address)"

section \<open>Outputs\<close>

record ZcashUtxo =
  ztxid :: jsstr
  zvout :: int
  satoshis :: int
  zheight :: "int option"

definition ZCASH_SEND_FEE_RESERVE_ZATS :: int where
  "ZCASH_SEND_FEE_RESERVE_ZATS = 1000"

record ZcashSendSelection =
  zsel_utxo :: ZcashUtxo
  impliedFeeZats :: int
  feeBurnRisk :: bool

definition selectZcashNoChangeUtxo :: "ZcashUtxo list \<Rightarrow> int \<Rightarrow> int \<Rightarrow> ZcashSendSelection option" where
  "selectZcashNoChangeUtxo utxos amountZats feeZats =
     (if amountZats \<le> 0 \<or> feeZats < 0 then None
      else let needed = amountZats + feeZats in
        case find (\<lambda>c. satoshis c \<ge> needed) (sort_key satoshis utxos) of
          None \<Rightarrow> None
        | Some u \<Rightarrow> let implied = satoshis u - amountZats in
            Some \<lparr>zsel_utxo = u, impliedFeeZats = implied, feeBurnRisk = (implied \<noteq> feeZats)\<rparr>)"

definition fetched_balance :: "ZcashUtxo list \<Rightarrow> int" where
  "fetched_balance utxos = foldl (\<lambda>acc u. acc + satoshis u) 0 utxos"

section \<open>Lemmas\<close>

lemma equalsBytes_iff [simp]: "equalsBytes a b \<longleftrightarrow> a = b"
proof -
  have "length a = length b \<Longrightarrow> equals_from a b \<longleftrightarrow> a = b"
    by (induction a b rule: list_induct2) simp_all
  then show ?thesis by (auto simp: equalsBytes_def)
qed

lemma cut_at: "length bs = m + n \<Longrightarrow> \<exists>a b. bs = a @ b \<and> length a = m \<and> length b = n"
  by (intro exI [of _ "take m bs"] exI [of _ "drop m bs"]) simp

section \<open>Properties\<close>

text \<open>
  C34: A transparent address is accepted exactly when its Base58 text holds a version of one of the two
  networks, a hash of twenty bytes and the first four bytes of the double hash of both; the
  hash and the network are those of the text.
\<close>

theorem zcash_address_accepted_iff:
  assumes "\<forall>x. length (sha x) = 32"
  shows "decodeZcashTransparentAddress bs58 sha a = Some z \<longleftrightarrow>
    trim a \<noteq> [] \<and> (let v = (case znetwork z of ZecMainnet \<Rightarrow> ZEC_MAINNET_VERSION | ZecTestnet \<Rightarrow> ZEC_TESTNET_VERSION) in
      length (pkh z) = 20 \<and> bs58 (trim a) = Some (v @ pkh z @ take 4 (sha (sha (v @ pkh z)))))"
proof
  assume d: "decodeZcashTransparentAddress bs58 sha a = Some z"
  then obtain bs where bs: "trim a \<noteq> []" "bs58 (trim a) = Some bs" "length bs = 26"
    by (auto simp: decodeZcashTransparentAddress_def Let_def split: if_splits option.splits)
  obtain v p c where "bs = v @ p @ c" "length v = 2" "length p = 20" "length c = 4"
    using cut_at [of bs 2 24] cut_at [of _ 20 4] bs(3) by fastforce
  with d bs show "trim a \<noteq> [] \<and> (let v = (case znetwork z of ZecMainnet \<Rightarrow> ZEC_MAINNET_VERSION | ZecTestnet \<Rightarrow> ZEC_TESTNET_VERSION) in
      length (pkh z) = 20 \<and> bs58 (trim a) = Some (v @ pkh z @ take 4 (sha (sha (v @ pkh z)))))"
    by (auto simp: decodeZcashTransparentAddress_def Let_def slice_def doubleSha256_def ZEC_MAINNET_VERSION_def ZEC_TESTNET_VERSION_def
        split: if_splits)
next
  assume r: "trim a \<noteq> [] \<and> (let v = (case znetwork z of ZecMainnet \<Rightarrow> ZEC_MAINNET_VERSION | ZecTestnet \<Rightarrow> ZEC_TESTNET_VERSION) in
      length (pkh z) = 20 \<and> bs58 (trim a) = Some (v @ pkh z @ take 4 (sha (sha (v @ pkh z)))))"
  then show "decodeZcashTransparentAddress bs58 sha a = Some z"
    using assms by (cases z; cases "znetwork z")
      (auto simp: decodeZcashTransparentAddress_def Let_def slice_def doubleSha256_def ZEC_MAINNET_VERSION_def ZEC_TESTNET_VERSION_def)
qed

theorem zcash_address_accepted_iff_witness:
  "decodeZcashTransparentAddress (\<lambda>_. Some (ZEC_TESTNET_VERSION @ replicate 20 7 @ replicate 4 0)) (\<lambda>_. replicate 32 0) (js ''t'')
    = Some \<lparr>znetwork = ZecTestnet, pkh = replicate 20 7\<rparr>"
proof -
  have t: "trim (js ''t'') = js ''t''" "js ''t'' \<noteq> []" by (intro trim_id) (simp_all add: js_space_def)
  have "\<forall>x :: bytes. length ((\<lambda>_. replicate 32 (0 :: byte)) x) = 32" by simp
  from zcash_address_accepted_iff [OF this] t show ?thesis by (simp add: numeral_eq_Suc del: js_simps)
qed

text \<open>
  Without change the whole output is spent: the chosen output is the smallest that covers the amount
  and the fee, what is left of it goes to the fee, and the warning is shown exactly when
  that is more than the fee that was asked for.
\<close>

theorem zcash_output_choice:
  assumes "selectZcashNoChangeUtxo us amount fee = Some s"
  shows "zsel_utxo s \<in> set us \<and> satoshis (zsel_utxo s) = amount + impliedFeeZats s \<and> fee \<le> impliedFeeZats s
    \<and> (feeBurnRisk s \<longleftrightarrow> fee < impliedFeeZats s)
    \<and> (\<forall>u \<in> set us. amount + fee \<le> satoshis u \<longrightarrow> satoshis (zsel_utxo s) \<le> satoshis u)"
proof -
  obtain u where u: "smallest_sufficient satoshis (amount + fee) us = Some u"
    "s = \<lparr>zsel_utxo = u, impliedFeeZats = satoshis u - amount, feeBurnRisk = (satoshis u - amount \<noteq> fee)\<rparr>"
    using assms by (auto simp: selectZcashNoChangeUtxo_def smallest_sufficient_def Let_def split: if_splits option.splits)
  then show ?thesis using smallest_sufficient_Some [OF u(1)] by auto
qed

theorem zcash_output_choice_witness:
  "\<exists>s. selectZcashNoChangeUtxo [\<lparr>ztxid = [], zvout = 0, satoshis = 9000, zheight = None\<rparr>, \<lparr>ztxid = [], zvout = 1, satoshis = 5000, zheight = None\<rparr>]
      3000 1000 = Some s \<and> impliedFeeZats s = 2000 \<and> 1000 \<le> impliedFeeZats s \<and> feeBurnRisk s"
proof -
  let ?us = "[\<lparr>ztxid = [], zvout = 0, satoshis = 9000, zheight = None\<rparr>, \<lparr>ztxid = [], zvout = 1, satoshis = 5000, zheight = None\<rparr>]"
  have e: "selectZcashNoChangeUtxo ?us 3000 1000
    = Some \<lparr>zsel_utxo = \<lparr>ztxid = [], zvout = 1, satoshis = 5000, zheight = None\<rparr>, impliedFeeZats = 2000, feeBurnRisk = True\<rparr>"
    by (simp add: selectZcashNoChangeUtxo_def)
  from zcash_output_choice [OF e] e show ?thesis by auto
qed

end
