(* ===== verification/Advanced_Rules.thy ===== *)
theory Advanced_Rules
  imports Policy_Agreement Policy_Storage Chain_Zcash
begin

text \<open>
  \<open>lib/policies/advancedOnchain.ts\<close>: the rules of a wallet compiled to the bytes of the fifth
  extension, and the function of the program that reads and applies them
  (\<open>programs/clear-wallet/src/utils/advanced_policy.rs\<close>).  The platform is that of
  \<open>Policy_Onchain\<close> with the lower-case mapping and Base58; \<open>tz\<close> is what
  \<open>getTimezoneOffset\<close> gives, \<open>other_json\<close> is that of \<open>Policy_Encryption\<close>.
\<close>

record chain_platform = platform +
  toLowerCase :: "jsstr \<Rightarrow> jsstr"
  bs58 :: "jsstr \<Rightarrow> bytes option"

record AdvancedPolicyTarget =
  chainKind :: int
  tticker :: jsstr
  tdecimals :: nat

record velocity_tracking =
  tcapDisplay :: jsstr
  twindowSeconds :: int

record CompiledAdvancedPolicy =
  payload :: "bytes option"
  trackingVelocity :: "velocity_tracking option"

section \<open>The writer\<close>

definition w8 :: "int \<Rightarrow> bytes" where
  "w8 v = [word_of_int (js_and v 0xff)]"

definition w16 :: "int \<Rightarrow> bytes" where
  "w16 v = [word_of_int (js_and v 0xff), word_of_int (js_and (js_ushr v 8) 0xff)]"

definition wi16 :: "int \<Rightarrow> bytes" where
  "wi16 v = w16 (if v < 0 then 0x10000 + v else v)"

definition w32 :: "int \<Rightarrow> bytes" where
  "w32 v = map (\<lambda>i. word_of_int (js_and (js_ushr v (8 * i)) 0xff)) [0..<4]"

definition U64_MAX :: int where
  "U64_MAX = 2 ^ 64 - 1"

definition w64 :: "int \<Rightarrow> bytes res" where
  "w64 v = ebind (guard (\<not> (v < 0 \<or> v > U64_MAX)) ''Policy value must fit in u64.'') (\<lambda>_.
     Inr (map (\<lambda>i. word_of_int (drop_bit (8 * i) v AND 0xff)) [0..<8]))"

section \<open>Amounts\<close>

definition parseRuleUnits :: "jsstr \<Rightarrow> nat \<Rightarrow> int res" where
  "parseRuleUnits input d =
     (let trimmed = trim input; whole = whole_of trimmed; fraction = fraction_of trimmed in
      if \<not> decimal_text trimmed then Inl (Thrown ''Policy  amount is invalid.'')
      else if length fraction > d then Inl (Thrown ''Policy  amount must use up to  decimal places.'')
      else ebind (toBigInt whole) (\<lambda>w.
           ebind (toBigInt (pad_end d 0x30 fraction)) (\<lambda>f.
           let raw = w * 10 ^ d + f in
           if raw > U64_MAX then Inl (Thrown ''Policy  amount exceeds the on-chain limit.'') else Inr raw)))"

text \<open>\<open>value.slice(0, -d)\<close> and \<open>value.slice(-d)\<close> of a text longer than \<open>d\<close>.\<close>

definition formatUnits :: "nat \<Rightarrow> nat \<Rightarrow> jsstr" where
  "formatUnits raw d =
     (if d = 0 then show_nat raw
      else let v = pad_start (d + 1) 0x30 (show_nat raw);
               whole = take (length v - d) v; fraction = strip_zeros (drop (length v - d) v)
           in if fraction \<noteq> [] then whole @ 0x2E # fraction else whole)"

section \<open>Recipients and conditions\<close>

definition sameTicker :: "chain_platform \<Rightarrow> jsstr \<Rightarrow> jsstr \<Rightarrow> bool" where
  "sameTicker pf l r \<longleftrightarrow> toUpperCase pf (trim l) = toUpperCase pf (trim r)"

definition pkhClearSignRecipient :: "jsstr \<Rightarrow> bytes \<Rightarrow> jsstr" where
  "pkhClearSignRecipient namespace p = namespace @ js '':0x'' @ toHex p"

definition recipientCommitment :: "chain_platform \<Rightarrow> jsstr \<Rightarrow> int \<Rightarrow> bytes res" where
  "recipientCommitment pf v kind =
     (let trimmed = trim v in
      if kind = 0 then pubkey (platform.truncate pf) trimmed
      else if kind = 2 then
        (let normalized = (case decodeSegwitAddress (toLowerCase pf) (toUpperCase pf) trimmed of
               Some d \<Rightarrow> if version d = 0 \<and> length (program d) = 20
                          then pkhClearSignRecipient (js ''btc-p2wpkh'') (program d) else trimmed
             | None \<Rightarrow> trimmed)
         in Inr (sha256 pf (utf8_encode normalized)))
      else if kind = 3 then
        (let normalized = (case decodeZcashTransparentAddress (bs58 pf) (sha256 pf) trimmed of
               Some d \<Rightarrow> pkhClearSignRecipient (js ''zcash-transparent'') (pkh d)
             | None \<Rightarrow> trimmed)
         in Inr (sha256 pf (utf8_encode normalized)))
      else Inr (sha256 pf (utf8_encode (toLowerCase pf trimmed))))"

definition actionCode :: "RuleAction \<Rightarrow> int" where
  "actionCode a = (case a of Deny \<Rightarrow> 0 | Allow \<Rightarrow> 1 | RequireExtraApprovers \<Rightarrow> 2 | RequireCooldown \<Rightarrow> 3)"

definition rule_day_bits :: "int list \<Rightarrow> int res" where
  "rule_day_bits days = efold (\<lambda>day mask.
     ebind (guard (\<not> (day < 0 \<or> day > 6)) ''Policy days must be between Sunday and Saturday.'') (\<lambda>_.
     Inr (js_or mask (js_shl 1 (nat day))))) days 0"

definition optional_units :: "jsstr option \<Rightarrow> nat \<Rightarrow> int res" where
  "optional_units t d = (if truthy t then parseRuleUnits (or_empty t) d else Inr 0)"

text \<open>The kind and the payload of a condition.\<close>

definition condition_body :: "chain_platform \<Rightarrow> int \<Rightarrow> AdvancedPolicyTarget \<Rightarrow> RuleCondition \<Rightarrow> (int \<times> bytes) option res" where
  "condition_body pf tz target c = (case c of
       AssetCondition _ _ \<Rightarrow> Inr None
     | RecipientCondition m addresses \<Rightarrow>
         (let rs = dedupe (or_empty addresses) in
          ebind (guard (length rs \<le> 16) ''A recipient condition supports up to 16 addresses.'') (\<lambda>_.
          ebind (emap (\<lambda>r. recipientCommitment pf r (chainKind target)) rs) (\<lambda>ks.
          Inr (Some (1, w8 (if m = Allowlist then 1 else 2) @ w8 (int (length rs)) @ concat ks)))))
     | AmountCondition mn mx _ \<Rightarrow>
         ebind (optional_units mn (tdecimals target)) (\<lambda>lo.
         ebind (optional_units mx (tdecimals target)) (\<lambda>hi.
         ebind (w64 lo) (\<lambda>lob.
         ebind (w64 hi) (\<lambda>hib.
         Inr (Some (2, w8 (js_or (if truthy mn then 1 else 0) (if truthy mx then 2 else 0)) @ lob @ hib))))))
     | TimeWindowCondition s f days m \<Rightarrow>
         ebind (rule_day_bits days) (\<lambda>mask.
         Inr (Some (3, w8 s @ w8 f @ w8 mask @ w8 (if m = Inside then 1 else 2) @ wi16 tz)))
     | VelocityCondition cap _ days \<Rightarrow>
         ebind (parseRuleUnits cap (tdecimals target)) (\<lambda>v.
         ebind (w64 v) (\<lambda>vb.
         Inr (Some (4, vb @ w32 (days * 24 * 60 * 60))))))"

definition encodeCondition :: "chain_platform \<Rightarrow> int \<Rightarrow> AdvancedPolicyTarget \<Rightarrow> RuleCondition \<Rightarrow> bytes option res" where
  "encodeCondition pf tz target c =
     ebind (condition_body pf tz target c) (\<lambda>r.
     Inr (case r of None \<Rightarrow> None | Some (kind, body) \<Rightarrow> Some (w8 kind @ w16 (int (length body)) @ body)))"

section \<open>Rules\<close>

definition ruleAppliesToTarget :: "chain_platform \<Rightarrow> RuleCondition list \<Rightarrow> AdvancedPolicyTarget \<Rightarrow> bool" where
  "ruleAppliesToTarget pf conds target = list_all (\<lambda>c. case c of
       AssetCondition ck token \<Rightarrow>
         (if ck \<noteq> None \<and> ck \<noteq> Some (chainKind target) then False
          else if truthy token then chainKind target = 4 else True)
     | AmountCondition _ _ t \<Rightarrow> (if truthy t then sameTicker pf (or_empty t) (tticker target) else True)
     | VelocityCondition _ t _ \<Rightarrow> (if t \<noteq> [] then sameTicker pf t (tticker target) else True)
     | _ \<Rightarrow> True) conds"

definition is_recipient :: "RuleCondition \<Rightarrow> jsstr list option" where
  "is_recipient c = (case c of RecipientCondition _ xs \<Rightarrow> Some (or_empty xs) | _ \<Rightarrow> None)"

definition assertAllEncryptedRecipientsRecovered :: "PolicyRule \<Rightarrow> RuleCondition list \<Rightarrow> unit res" where
  "assertAllEncryptedRecipientsRecovered rule conds =
     guard (list_all (\<lambda>i. case rule_conditions rule ! i of
         StoredRecipient _ _ enc \<Rightarrow>
           (let expected = length (or_empty enc) in
            expected = 0 \<or> (i < length conds \<and> map_option length (is_recipient (conds ! i)) = Some expected))
       | _ \<Rightarrow> True) [0..<length (rule_conditions rule)])
     ''Policy has recipient values that could not be decrypted.''"

text \<open>The conditions of a rule that reach the program: those for another ticker are left out.\<close>

definition skipped :: "chain_platform \<Rightarrow> AdvancedPolicyTarget \<Rightarrow> RuleCondition \<Rightarrow> bool" where
  "skipped pf target c = (case c of
       AssetCondition _ _ \<Rightarrow> True
     | AmountCondition _ _ t \<Rightarrow> truthy t \<and> \<not> sameTicker pf (or_empty t) (tticker target)
     | VelocityCondition _ t _ \<Rightarrow> \<not> sameTicker pf t (tticker target)
     | _ \<Rightarrow> False)"

text \<open>The loop over the conditions of a rule: the encoded conditions and the shared window.\<close>

definition track_window :: "RuleCondition \<Rightarrow> int \<Rightarrow> int res" where
  "track_window c win = (case c of
       VelocityCondition _ _ days \<Rightarrow>
         (let w = days * 24 * 60 * 60 in
          ebind (guard (\<not> (win \<noteq> 0 \<and> win \<noteq> w)) ''Advanced checks must use one shared velocity window.'') (\<lambda>_. Inr w))
     | _ \<Rightarrow> Inr win)"

fun encode_conditions :: "chain_platform \<Rightarrow> int \<Rightarrow> AdvancedPolicyTarget \<Rightarrow> RuleCondition list \<Rightarrow> int \<Rightarrow> (bytes list \<times> int) res" where
  "encode_conditions pf tz target [] win = Inr ([], win)"
| "encode_conditions pf tz target (c # cs) win =
     (if skipped pf target c then encode_conditions pf tz target cs win
      else ebind (encodeCondition pf tz target c) (\<lambda>e.
           ebind (track_window c win) (\<lambda>win.
           ebind (encode_conditions pf tz target cs win) (\<lambda>(es, win).
           Inr ((case e of None \<Rightarrow> es | Some b \<Rightarrow> b # es), win)))))"

definition rule_approvers :: "PolicyRule \<Rightarrow> jsstr list res" where
  "rule_approvers rule =
     (if rule_action rule = RequireExtraApprovers then decryptApprovers (extraApproversEncrypted rule) else Inr [])"

definition rule_wait :: "PolicyRule \<Rightarrow> int res" where
  "rule_wait rule =
     (if rule_action rule = RequireCooldown
      then ebind (decryptCooldownSeconds (extraCooldownEncrypted rule) (rule_cooldown rule)) (\<lambda>s.
           Inr (max 0 (case s of None \<Rightarrow> 0 | Some v \<Rightarrow> v)))
      else Inr 0)"

definition encodeRule :: "chain_platform \<Rightarrow> PolicyRule \<Rightarrow> bytes list \<Rightarrow> bytes res" where
  "encodeRule pf rule conds =
     ebind (rule_approvers rule) (\<lambda>approvers.
     ebind (guard (length approvers \<le> 16) ''A policy rule supports up to 16 required approvers.'') (\<lambda>_.
     ebind (rule_wait rule) (\<lambda>cooldown.
     ebind (emap (pubkey (platform.truncate pf)) approvers) (\<lambda>keys.
     Inr (w8 (actionCode (rule_action rule)) @ w8 (int (length conds)) @ w8 (int (length approvers)) @ w32 cooldown
       @ concat keys @ concat conds)))))"

text \<open>The loop over the rules.\<close>

fun compile_rules ::
  "chain_platform \<Rightarrow> int \<Rightarrow> (jsstr \<Rightarrow> int list option res) \<Rightarrow> AdvancedPolicyTarget \<Rightarrow> PolicyRule list \<Rightarrow> int \<Rightarrow> (bytes list \<times> int) res" where
  "compile_rules pf tz oj target [] win = Inr ([], win)"
| "compile_rules pf tz oj target (r # rs) win =
     (if \<not> enabled r then compile_rules pf tz oj target rs win
      else ebind (decryptConditions oj (rule_conditions r)) (\<lambda>conds.
           ebind (assertAllEncryptedRecipientsRecovered r conds) (\<lambda>_.
           if \<not> ruleAppliesToTarget pf conds target then compile_rules pf tz oj target rs win
           else ebind (encode_conditions pf tz target conds win) (\<lambda>(es, win).
                ebind (guard (length es \<le> 16) ''A policy rule supports up to 16 on-chain conditions.'') (\<lambda>_.
                ebind (encodeRule pf r es) (\<lambda>b.
                ebind (compile_rules pf tz oj target rs win) (\<lambda>(bs, win). Inr (b # bs, win))))))))"

definition compileAdvancedPolicyRules ::
  "chain_platform \<Rightarrow> int \<Rightarrow> (jsstr \<Rightarrow> int list option res) \<Rightarrow> shape \<Rightarrow> jsstr \<Rightarrow> AdvancedPolicyTarget \<Rightarrow> CompiledAdvancedPolicy res" where
  "compileAdvancedPolicyRules pf tz oj shape walletName target =
     ebind (compile_rules pf tz oj target (listPolicies walletName shape) 0) (\<lambda>(compiled, win).
     if compiled = [] then Inr \<lparr>payload = None, trackingVelocity = None\<rparr>
     else ebind (guard (length compiled \<le> 16) ''Program-enforced policies support up to 16 active rules per chain.'') (\<lambda>_.
          let bs = w8 1 @ w8 (int (length compiled)) @ concat compiled in
          ebind (guard (length bs \<le> 1900) ''Advanced policy rules exceed the on-chain 2,048-byte proposal limit.'') (\<lambda>_.
          Inr \<lparr>payload = Some bs, trackingVelocity =
            (if win > 0 then Some \<lparr>tcapDisplay = formatUnits (nat U64_MAX) (tdecimals target), twindowSeconds = win\<rparr> else None)\<rparr>)))"

section \<open>The evaluation of the program\<close>

record AdvancedRuleEffect =
  eaction :: int
  approvers_start :: nat
  approver_count :: nat
  ecooldown :: int

text \<open>The arguments of the evaluation beside the bytes.\<close>

record transfer =
  trecipient :: bytes
  amount_raw :: int
  spend_window_start :: int
  spent_raw :: int
  now :: int

definition recipient_matches :: "bytes \<Rightarrow> bytes \<Rightarrow> bool prog" where
  "recipient_matches p r =
     ebind (require (length p \<ge> 2) InvalidPolicy) (\<lambda>_.
     let m = uint (p ! 0); count = unat (p ! 1) in
     ebind (require (m = 1 \<or> m = 2) InvalidPolicy) (\<lambda>_.
     ebind (require (count \<le> 16) InvalidPolicy) (\<lambda>_.
     ebind (require (length p = 2 + count * 32) InvalidPolicy) (\<lambda>_.
     let listed = r \<in> set (rs_keys count (drop 2 p)) in
     Inr (if m = 1 then listed else \<not> listed)))))"

definition amount_matches :: "bytes \<Rightarrow> int \<Rightarrow> bool prog" where
  "amount_matches p amount =
     ebind (require (length p = 17) InvalidPolicy) (\<lambda>_.
     let flags = uint (p ! 0) in
     ebind (require (flags < 4) InvalidPolicy) (\<lambda>_.
     let mn = le_val (slice 1 9 p); mx = le_val (slice 9 17 p) in
     Inr ((\<not> bit flags 0 \<or> amount \<ge> mn) \<and> (\<not> bit flags 1 \<or> amount \<le> mx))))"

definition time_matches :: "bytes \<Rightarrow> int \<Rightarrow> bool prog" where
  "time_matches p t =
     ebind (require (length p = 6) InvalidPolicy) (\<lambda>_.
     let s = uint (p ! 0); f = uint (p ! 1); days = uint (p ! 2); m = uint (p ! 3); off = le_sval (slice 4 6 p) in
     ebind (require (s \<le> 23 \<and> f \<le> 23) InvalidPolicy) (\<lambda>_.
     ebind (require (days < 0x80) InvalidPolicy) (\<lambda>_.
     ebind (require (m = 1 \<or> m = 2) InvalidPolicy) (\<lambda>_.
     ebind (require (- 840 \<le> off \<and> off \<le> 840) InvalidPolicy) (\<lambda>_.
     let local = t - off * 60; day = local div 86400; hour = (local mod 86400) div 3600; weekday = (day + 4) mod 7;
         day_inside = (days = 0 \<or> days AND push_bit (nat weekday) 1 \<noteq> 0);
         hour_inside = (if s < f then hour \<ge> s \<and> hour < f else if s > f then hour \<ge> s \<or> hour < f else False);
         inside = day_inside \<and> hour_inside in
     Inr (if m = 1 then inside else \<not> inside))))))"

definition velocity_matches :: "bytes \<Rightarrow> transfer \<Rightarrow> bool prog" where
  "velocity_matches p x =
     ebind (require (length p = 12) InvalidPolicy) (\<lambda>_.
     let cap = le_val (slice 0 8 p); window = le_val (slice 8 12 p) in
     ebind (require (cap > 0 \<and> window > 0) InvalidPolicy) (\<lambda>_.
     let diff = now x - spend_window_start x;
         elapsed = (spend_window_start x = 0 \<or> \<not> (- (2 ^ 63) \<le> diff \<and> diff < 2 ^ 63) \<or> diff \<ge> window);
         total = spent_raw x + amount_raw x in
     Inr (if elapsed then amount_raw x > cap else if total < 2 ^ 64 then total > cap else True)))"

definition condition_matches :: "transfer \<Rightarrow> int \<Rightarrow> bytes \<Rightarrow> bool prog" where
  "condition_matches x kind p =
     (if kind = 1 then recipient_matches p (trecipient x)
      else if kind = 2 then amount_matches p (amount_raw x)
      else if kind = 3 then time_matches p (now x)
      else if kind = 4 then velocity_matches p x
      else Inl InvalidPolicy)"

fun eval_conditions :: "transfer \<Rightarrow> bytes \<Rightarrow> nat \<Rightarrow> nat \<Rightarrow> bool \<Rightarrow> (bool \<times> nat) prog" where
  "eval_conditions x bs 0 off acc = Inr (acc, off)"
| "eval_conditions x bs (Suc n) off acc =
     ebind (require (off + 3 \<le> length bs) InvalidPolicy) (\<lambda>_.
     let kind = uint (bs ! off); len = nat (le_val (slice (off + 1) (off + 3) bs)); off = off + 3 in
     ebind (require (off + len \<le> length bs) InvalidPolicy) (\<lambda>_.
     ebind (condition_matches x kind (slice off (off + len) bs)) (\<lambda>b.
     eval_conditions x bs n (off + len) (acc \<and> b))))"

fun eval_rules :: "transfer \<Rightarrow> bytes \<Rightarrow> nat \<Rightarrow> nat \<Rightarrow> AdvancedRuleEffect option \<Rightarrow> (AdvancedRuleEffect option \<times> nat) prog" where
  "eval_rules x bs 0 off first = Inr (first, off)"
| "eval_rules x bs (Suc n) off first =
     ebind (require (off + 7 \<le> length bs) InvalidPolicy) (\<lambda>_.
     let action = uint (bs ! off); conds = unat (bs ! (off + 1)); k = unat (bs ! (off + 2));
         cooldown = le_val (slice (off + 3) (off + 7) bs); off = off + 7 in
     ebind (require (action \<le> 3) InvalidPolicy) (\<lambda>_.
     ebind (require (conds \<le> 16 \<and> k \<le> 16) InvalidPolicy) (\<lambda>_.
     ebind (require (action \<noteq> 2 \<or> k > 0) InvalidPolicy) (\<lambda>_.
     ebind (require (action \<noteq> 3 \<or> cooldown > 0) InvalidPolicy) (\<lambda>_.
     let start = off in
     ebind (require (off + k * 32 \<le> length bs) InvalidPolicy) (\<lambda>_.
     ebind (eval_conditions x bs conds (off + k * 32) True) (\<lambda>(matches, off).
     eval_rules x bs n off
       (if matches \<and> first = None
        then Some \<lparr>eaction = action, approvers_start = start, approver_count = k, ecooldown = cooldown\<rparr>
        else first))))))))"

definition evaluate_advanced_rules :: "bytes \<Rightarrow> transfer \<Rightarrow> AdvancedRuleEffect option prog" where
  "evaluate_advanced_rules bs x =
     ebind (require (length bs \<ge> 2 \<and> bs ! 0 = 1) InvalidPolicy) (\<lambda>_.
     let rule_count = unat (bs ! 1) in
     ebind (require (rule_count \<le> 16) InvalidPolicy) (\<lambda>_.
     ebind (eval_rules x bs rule_count 2 None) (\<lambda>(first, off).
     ebind (require (off = length bs) InvalidPolicy) (\<lambda>_. Inr first))))"

end
