(* ===== verification/Policy_Targets.thy ===== *)
theory Policy_Targets
  imports Wallet_Settings Advanced_Rules Msig_Accounts
begin

text \<open>
  The protection of a wallet as it is put on chain: the policy of one SPL asset
  (\<open>lib/policies/assetOnchain.ts\<close>), the policies of all assets built from the saved settings
  and rules, and the policy a send must carry (\<open>lib/policies/persistentWalletPolicy.ts\<close>).
  \<open>num_text\<close> is \<open>String\<close> of a number, \<open>tz\<close> is \<open>getTimezoneOffset\<close>; what the connection answers
  is an argument.
\<close>

section \<open>The policy of an SPL asset\<close>

definition CSP2_MAGIC :: bytes where
  "CSP2_MAGIC = [0x43, 0x53, 0x50, 0x32]"

definition SPL_ASSET_POLICY_SCOPE :: int where
  "SPL_ASSET_POLICY_SCOPE = 1"

definition SOLANA_DEVNET_USDC_MINT :: jsstr where
  "SOLANA_DEVNET_USDC_MINT = js ''4zMMC9srt5Ri5X14GAgXhaHii3GnPAEERYPJgZJDncDU''"

definition spl_options :: "platform \<Rightarrow> jsstr \<Rightarrow> int \<Rightarrow> remote_options" where
  "spl_options pf t d = \<lparr>assetTicker = t, odecimals = Some d,
     normalizeRecipient = Some (\<lambda>v. ebind (pubkey pf v) (\<lambda>k. Inr (toBase58 pf k))), encodeRecipient = Some (pubkey pf)\<rparr>"

definition encodeTypedSplAssetPolicy :: "platform \<Rightarrow> PolicyEnforcementPlan \<Rightarrow> jsstr \<Rightarrow> int \<Rightarrow> jsstr \<Rightarrow> EncodedSolPolicy res" where
  "encodeTypedSplAssetPolicy pf plan mint d t =
     ebind (pubkey pf mint) (\<lambda>m.
     ebind (encodeTypedRemoteSendPolicy pf plan (spl_options pf t d)) (\<lambda>inner.
     let body = (case inner of None \<Rightarrow> emptyPolicyBytes | Some e \<Rightarrow> pbytes e)
     in encoded_policy pf (CSP2_MAGIC @ [word_of_int SPL_ASSET_POLICY_SCOPE] @ [word_of_int d] @ m @ body)))"

section \<open>The targets\<close>

datatype policy_scope = ChainScope | AssetScope

record PolicyTarget =
  pt_ticker :: PolicyChainTicker
  pt_kind :: int
  pt_decimals :: nat
  pt_scope :: policy_scope
  pt_asset :: "jsstr option"

definition chain_target :: "PolicyChainTicker \<Rightarrow> int \<Rightarrow> nat \<Rightarrow> PolicyTarget" where
  "chain_target t k d = \<lparr>pt_ticker = t, pt_kind = k, pt_decimals = d, pt_scope = ChainScope, pt_asset = None\<rparr>"

definition POLICY_TARGETS :: "PolicyTarget list" where
  "POLICY_TARGETS =
     [chain_target T_SOL 0 9,
      \<lparr>pt_ticker = T_USDC, pt_kind = 0, pt_decimals = 6, pt_scope = AssetScope, pt_asset = Some SOLANA_DEVNET_USDC_MINT\<rparr>,
      chain_target T_ETH 1 18, chain_target T_BTC 2 8, chain_target T_ZEC 3 8, chain_target T_HYPE 5 18]"

definition advanced_target :: "PolicyTarget \<Rightarrow> AdvancedPolicyTarget" where
  "advanced_target t = \<lparr>chainKind = pt_kind t, tticker = ticker_name (pt_ticker t), tdecimals = pt_decimals t\<rparr>"

definition EMPTY_POLICY_COMMITMENT :: jsstr where
  "EMPTY_POLICY_COMMITMENT = replicate 64 0x30"

definition EXT_ADVANCED_RULES :: int where
  "EXT_ADVANCED_RULES = 5"

record PersistentPolicyTarget =
  pp_ticker :: PolicyChainTicker
  pp_kind :: int
  pp_bytesHex :: jsstr
  pp_commitmentHex :: jsstr
  pp_summary :: jsstr
  pp_scope :: policy_scope
  pp_asset :: "jsstr option"
  pp_scopeKind :: "int option"
  pp_decimals :: nat

section \<open>The plan of the saved settings\<close>

definition native_cap :: "WalletBudget option \<Rightarrow> PolicyChainTicker \<Rightarrow> jsstr option" where
  "native_cap b t =
     (case Option.bind (Option.bind (Option.bind b onchainWeeklyNative) (\<lambda>m. m t)) id of
        Some c \<Rightarrow> if trim c \<noteq> [] then Some c else None | None \<Rightarrow> None)"

definition send_count :: "WalletBudget option \<Rightarrow> int" where
  "send_count b = max 0 \<lfloor>case Option.bind b velocityPerDay of None \<Rightarrow> 0 | Some v \<Rightarrow> v\<rfloor>"

definition allowance_cap :: "(number \<Rightarrow> jsstr) \<Rightarrow> FriendAllowance \<Rightarrow> MemberAllowanceCap" where
  "allowance_cap num_text r = \<lparr>member = fa_friend r, capDisplay = num_text (max 0 (amountSol r)),
     windowSeconds = (if period r = Monthly then 30 * 24 * 60 * 60 else 7 * 24 * 60 * 60)\<rparr>"

definition loadMemberAllowancesForChain :: "(number \<Rightarrow> jsstr) \<Rightarrow> settings \<Rightarrow> jsstr \<Rightarrow> PolicyTarget \<Rightarrow> MemberAllowanceCap list" where
  "loadMemberAllowancesForChain num_text st w t =
     (if pt_ticker t \<noteq> T_SOL then []
      else map (allowance_cap num_text) (filter (\<lambda>r. period r \<noteq> Unlimited) (listAllowances (Some w) (allowances st))))"

definition saved_guard :: "Allowlist \<Rightarrow> (ListMode \<times> jsstr list) option" where
  "saved_guard a = (if allow_on a then Some (Allowlist, allow_addresses a) else None)"

definition saved_window :: "int \<Rightarrow> TimeWindow \<Rightarrow> AllowedTimeWindow option" where
  "saved_window tz w =
     (if tw_enabled w
      then Some \<lparr>startHour = tw_start w, endHour = (if tw_days w = [] then tw_start w else tw_end w),
        daysOfWeek = tw_days w, utcOffsetMinutes = tz\<rparr>
      else None)"

definition personalPlanForTarget :: "(number \<Rightarrow> jsstr) \<Rightarrow> int \<Rightarrow> settings \<Rightarrow> jsstr \<Rightarrow> PolicyTarget \<Rightarrow> PolicyEnforcementPlan" where
  "personalPlanForTarget num_text tz st w t =
     (let b = getBudget w (budgets st) in
      \<lparr>evaluation = None, conditions = [], extraApprovers = [], extraCooldownSeconds = 0,
       recipientGuard = saved_guard (getAllowlist w (pt_kind t) (allowlists st)),
       allowedTimeWindow = saved_window tz (getTimeWindow w (time_windows st)),
       onchainLimits = \<lparr>velocityCapDisplay = native_cap b (pt_ticker t), velocityWindowSeconds = 7 * 24 * 60 * 60,
         maxSendCount = send_count b, countWindowSeconds = 24 * 60 * 60\<rparr>,
       memberAllowances = loadMemberAllowancesForChain num_text st w t\<rparr>)"

section \<open>The policies of all targets\<close>

definition chain_options :: "PolicyTarget \<Rightarrow> remote_options" where
  "chain_options t = \<lparr>assetTicker = ticker_name (pt_ticker t), odecimals = Some (int (pt_decimals t)),
     normalizeRecipient = None, encodeRecipient = None\<rparr>"

definition encodeForTarget :: "platform \<Rightarrow> PolicyEnforcementPlan \<Rightarrow> PolicyTarget \<Rightarrow> EncodedSolPolicy option res" where
  "encodeForTarget pf plan t =
     (if pt_scope t = AssetScope \<and> truthy (pt_asset t)
      then ebind (encodeTypedSplAssetPolicy pf plan (or_empty (pt_asset t)) (int (pt_decimals t)) (ticker_name (pt_ticker t)))
             (\<lambda>e. Inr (Some e))
      else if pt_kind t = 0 then encodeTypedSolPolicy pf plan
      else encodeTypedRemoteSendPolicy pf plan (chain_options t))"

text \<open>The window of the compiled velocity conditions joins the plan.\<close>

definition track_velocity :: "CompiledAdvancedPolicy \<Rightarrow> PolicyEnforcementPlan \<Rightarrow> PolicyEnforcementPlan res" where
  "track_velocity adv plan = (case trackingVelocity adv of
       None \<Rightarrow> Inr plan
     | Some v \<Rightarrow>
         (let lim = onchainLimits plan; capped = truthy (velocityCapDisplay lim);
              configured = (if capped then velocityWindowSeconds lim else 0) in
          ebind (guard (\<not> (configured > 0 \<and> configured \<noteq> twindowSeconds v))
            ''Spending protection and advanced checks must use the same velocity window.'') (\<lambda>_.
          Inr (if capped then plan
               else plan\<lparr>onchainLimits := lim\<lparr>velocityCapDisplay := Some (tcapDisplay v), velocityWindowSeconds := twindowSeconds v\<rparr>\<rparr>))))"

definition policySummary :: "PolicyChainTicker \<Rightarrow> EncodedSolPolicy option \<Rightarrow> jsstr" where
  "policySummary t e = (case e of None \<Rightarrow> js ''Clear '' | Some _ \<Rightarrow> js ''Update '') @ ticker_name t @ js '' spending protection''"

definition advanced_for_target ::
  "chain_platform \<Rightarrow> int \<Rightarrow> (jsstr \<Rightarrow> int list option res) \<Rightarrow> shape \<Rightarrow> jsstr \<Rightarrow> PolicyTarget \<Rightarrow> CompiledAdvancedPolicy res" where
  "advanced_for_target pf tz oj shape w t =
     (if pt_scope t = ChainScope then compileAdvancedPolicyRules pf tz oj shape w (advanced_target t)
      else Inr \<lparr>payload = None, trackingVelocity = None\<rparr>)"

text \<open>The policy of one target: its encoding with the rules appended.\<close>

definition target_policy ::
  "chain_platform \<Rightarrow> (number \<Rightarrow> jsstr) \<Rightarrow> int \<Rightarrow> (jsstr \<Rightarrow> int list option res) \<Rightarrow> settings \<Rightarrow> shape \<Rightarrow> jsstr \<Rightarrow> PolicyTarget
     \<Rightarrow> EncodedSolPolicy option res" where
  "target_policy pf num_text tz oj st shape w t =
     ebind (advanced_for_target pf tz oj shape w t) (\<lambda>adv.
     ebind (track_velocity adv (personalPlanForTarget num_text tz st w t)) (\<lambda>plan.
     ebind (encodeForTarget (platform.truncate pf) plan t) (\<lambda>e.
     case payload adv of
       None \<Rightarrow> Inr e
     | Some rules \<Rightarrow> ebind (appendPolicyExtension (platform.truncate pf) e EXT_ADVANCED_RULES rules) (\<lambda>f. Inr (Some f)))))"

definition persistent_target :: "PolicyTarget \<Rightarrow> EncodedSolPolicy option \<Rightarrow> PersistentPolicyTarget" where
  "persistent_target t e = \<lparr>pp_ticker = pt_ticker t, pp_kind = pt_kind t,
     pp_bytesHex = (case e of None \<Rightarrow> [] | Some e \<Rightarrow> hex e),
     pp_commitmentHex = (case e of None \<Rightarrow> EMPTY_POLICY_COMMITMENT | Some e \<Rightarrow> commitmentHex e),
     pp_summary = policySummary (pt_ticker t) e, pp_scope = pt_scope t, pp_asset = pt_asset t,
     pp_scopeKind = (if pt_scope t = AssetScope then Some SPL_ASSET_POLICY_SCOPE else None), pp_decimals = pt_decimals t\<rparr>"

text \<open>\<open>Promise.all\<close>: one target that throws makes the whole call throw.\<close>

definition buildPersistentPersonalPolicyTargets ::
  "chain_platform \<Rightarrow> (number \<Rightarrow> jsstr) \<Rightarrow> int \<Rightarrow> (jsstr \<Rightarrow> int list option res) \<Rightarrow> settings \<Rightarrow> shape \<Rightarrow> jsstr
     \<Rightarrow> PersistentPolicyTarget list res" where
  "buildPersistentPersonalPolicyTargets pf num_text tz oj st shape w =
     emap (\<lambda>t. ebind (target_policy pf num_text tz oj st shape w t) (\<lambda>e. Inr (persistent_target t e))) POLICY_TARGETS"

definition policyTargetsForConfiguredTickers :: "PersistentPolicyTarget list \<Rightarrow> PersistentPolicyTarget list" where
  "policyTargetsForConfiguredTickers ts = filter (\<lambda>t. pp_ticker t \<in> set POLICY_CHAIN_TICKERS) ts"

section \<open>The policy of a send\<close>

text \<open>The two texts of a policy: its bytes and its commitment.\<close>

type_synonym hex_policy = "jsstr \<times> jsstr"

definition persistentSendPolicyForChain :: "PersistentPolicyTarget list \<Rightarrow> int \<Rightarrow> hex_policy option" where
  "persistentSendPolicyForChain targets kind =
     (case find (\<lambda>t. pp_kind t = kind) targets of
        None \<Rightarrow> None
      | Some t \<Rightarrow> if pp_bytesHex t = [] then None else Some (pp_bytesHex t, pp_commitmentHex t))"

definition currentWalletPolicyCommitment :: "(bytes \<Rightarrow> jsstr) \<Rightarrow> int \<Rightarrow> bytes option \<Rightarrow> jsstr res" where
  "currentWalletPolicyCommitment b58enc kind info =
     ebind (guard (\<not> (kind < 0 \<or> kind \<ge> int WALLET_POLICY_CHAIN_SLOTS)) ''Unsupported policy chain kind.'') (\<lambda>_.
     if or_empty info = [] then Inr EMPTY_POLICY_COMMITMENT
     else ebind (parseWalletPolicy b58enc (or_empty info)) (\<lambda>p.
          Inr (if nat kind < length (policyCommitments p) then policyCommitments p ! nat kind else EMPTY_POLICY_COMMITMENT)))"

definition currentAssetPolicyCommitment :: "bytes \<Rightarrow> bytes \<Rightarrow> bytes option \<Rightarrow> jsstr res" where
  "currentAssetPolicyCommitment wallet asset info =
     (let bs = or_empty info in
      if bs = [] then Inr EMPTY_POLICY_COMMITMENT
      else ebind (guard (\<not> (length bs < 114 \<or> bs ! 0 \<noteq> 14 \<or> slice 1 33 bs \<noteq> wallet \<or> slice 33 65 bs \<noteq> asset))
             ''The active asset protection account is malformed.'') (\<lambda>_. Inr (toHex (slice 65 97 bs))))"

text \<open>The loop over the accounts of the program: an account that cannot be read is passed over.\<close>

definition executed_policy :: "platform \<Rightarrow> (bytes \<Rightarrow> jsstr) \<Rightarrow> byte \<Rightarrow> jsstr \<Rightarrow> bytes \<Rightarrow> hex_policy option res" where
  "executed_policy pf b58enc kind active d =
     ebind (parseTypedProposal b58enc d) (\<lambda>p.
     if tp_actionKind p \<noteq> kind \<or> tp_statusLabel p \<noteq> S_Executed \<or> tp_policyBytesHex p = [] then Inr None
     else ebind (fromHex (tp_policyBytesHex p)) (\<lambda>bs.
          ebind (policyCommitmentHex pf bs) (\<lambda>c.
          Inr (if c = active then Some (tp_policyBytesHex p, c) else None))))"

fun recover_policy :: "platform \<Rightarrow> (bytes \<Rightarrow> jsstr) \<Rightarrow> byte \<Rightarrow> jsstr \<Rightarrow> bytes list \<Rightarrow> hex_policy option" where
  "recover_policy pf b58enc kind active [] = None"
| "recover_policy pf b58enc kind active (d # ds) =
     (case executed_policy pf b58enc kind active d of
        Inr (Some r) \<Rightarrow> Some r | _ \<Rightarrow> recover_policy pf b58enc kind active ds)"

definition resolvePersistentSendPolicy ::
  "platform \<Rightarrow> (bytes \<Rightarrow> jsstr) \<Rightarrow> PersistentPolicyTarget list \<Rightarrow> int \<Rightarrow> bytes option \<Rightarrow> bytes list \<Rightarrow> hex_policy option res" where
  "resolvePersistentSendPolicy pf b58enc targets kind info accounts =
     (let local = persistentSendPolicyForChain targets kind in
      ebind (currentWalletPolicyCommitment b58enc kind info) (\<lambda>active.
      if active = EMPTY_POLICY_COMMITMENT then Inr local
      else if map_option snd local = Some active then Inr local
      else case recover_policy pf b58enc 6 active accounts of
             Some r \<Rightarrow> Inr (Some r)
           | None \<Rightarrow> Inl (Thrown ''The active wallet protection could not be recovered from its on-chain update proposal.'')))"

definition resolvePersistentAssetPolicy ::
  "platform \<Rightarrow> (bytes \<Rightarrow> jsstr) \<Rightarrow> PersistentPolicyTarget list \<Rightarrow> bytes \<Rightarrow> jsstr \<Rightarrow> bytes option \<Rightarrow> bytes list \<Rightarrow> hex_policy option res" where
  "resolvePersistentAssetPolicy pf b58enc targets wallet assetId info accounts =
     (case find (\<lambda>t. pp_scope t = AssetScope \<and> pp_asset t = Some assetId) targets of
        None \<Rightarrow> Inr None
      | Some t \<Rightarrow>
          ebind (pubkey pf assetId) (\<lambda>asset.
          ebind (currentAssetPolicyCommitment wallet asset info) (\<lambda>active.
          if active = pp_commitmentHex t then Inr (Some (pp_bytesHex t, pp_commitmentHex t))
          else if active = EMPTY_POLICY_COMMITMENT
            then Inl (Thrown ''Save USDC spending protection on Personal before creating this schedule.'')
          else case recover_policy pf b58enc 16 active accounts of
             Some r \<Rightarrow> Inr (Some r)
           | None \<Rightarrow> Inl (Thrown ''The active USDC protection could not be recovered from its onchain update proposal.''))))"

section \<open>The scope of an asset policy on chain\<close>

record AssetPolicyScope =
  scope_kind :: int
  scope_decimals :: int
  asset_id :: bytes

definition parse_asset_policy_scope :: "bytes \<Rightarrow> AssetPolicyScope prog" where
  "parse_asset_policy_scope bs =
     ebind (require (length bs \<ge> 38) InvalidPolicy) (\<lambda>_.
     ebind (require (take 4 bs = [0x43, 0x53, 0x50, 0x32]) InvalidPolicy) (\<lambda>_.
     let kind = uint (bs ! 4); d = uint (bs ! 5); a = slice 6 38 bs in
     ebind (require (kind = 1) InvalidPolicy) (\<lambda>_.
     ebind (require (d \<le> 18) InvalidPolicy) (\<lambda>_.
     ebind (require (a \<noteq> replicate 32 0) InvalidPolicy) (\<lambda>_.
     Inr \<lparr>scope_kind = kind, scope_decimals = d, asset_id = a\<rparr>)))))"

end
