(* ===== verification/Advanced_Agreement.thy ===== *)
theory Advanced_Agreement
  imports Advanced_Rules
begin

text \<open>
  The compiled rules against their evaluation: what \<open>Advanced_Rules.compileAdvancedPolicyRules\<close>
  writes is read by the program as the same rules, condition by condition.
\<close>

section \<open>The writer\<close>

lemma w8_eq: "w8 v = le_bytes 1 v"
  by (simp add: w8_def js_and_byte word_of_int_mod_byte)

lemma w16_eq: "w16 v = le_bytes 2 v"
proof -
  have "word_of_int (js_and (js_ushr v 8) 255) = (word_of_int (v div 256) :: byte)"
    using js_and_ushr_byte [of 8 v] by (simp add: word_of_int_mod_byte)
  then show ?thesis by (simp add: w16_def js_and_byte word_of_int_mod_byte numeral_2_eq_2)
qed

lemma wi16_eq: "wi16 v = le_bytes 2 v"
proof -
  have "(65536 + v) mod 256 ^ 2 = v mod 256 ^ 2" by simp
  then have "le_bytes 2 (65536 + v) = le_bytes 2 v" by (metis le_bytes_mod)
  then show ?thesis by (simp add: wi16_def w16_eq del: le_bytes.simps)
qed

lemma w32_eq: "w32 v = le_bytes 4 v"
  unfolding le_bytes_map w32_def by (rule map_cong) (auto simp: js_and_ushr_byte word_of_int_mod_byte)

lemma w64_iff: "w64 v = Inr bs \<longleftrightarrow> 0 \<le> v \<and> v < 2 ^ 64 \<and> bs = le_bytes 8 v"
proof -
  have "map (\<lambda>i. word_of_int (drop_bit (8 * i) v AND 255)) [0..<8] = le_bytes 8 v"
    unfolding le_bytes_map by (rule map_cong) (auto simp: and_255 drop_bit_eq_div word_of_int_mod_byte)
  then show ?thesis by (auto simp: w64_def U64_MAX_def err_simps)
qed

lemmas writer_eqs = w8_eq w16_eq wi16_eq w32_eq

section \<open>Amounts\<close>

lemma parseRuleUnits_iff:
  "parseRuleUnits s d = Inr v \<longleftrightarrow>
     decimal_text (trim s) \<and> length (fraction_of (trim s)) \<le> d \<and> v = int (decimal_units d (trim s)) \<and> v < 2 ^ 64"
proof (cases "decimal_text (trim s)")
  case True
  define w f where "w = toBigInt (whole_of (trim s))" and "f = toBigInt (pad_end d 0x30 (fraction_of (trim s)))"
  have r: "ebind w (\<lambda>w. ebind f (\<lambda>f. Inr (w * 10 ^ d + f))) = Inr (int (decimal_units d (trim s)))"
    using read_units [OF True, of d] by (simp add: w_def f_def)
  then obtain a b where "w = Inr a" "f = Inr b" "a * 10 ^ d + b = int (decimal_units d (trim s))"
    by (auto simp: err_simps)
  then show ?thesis
    using True unfolding parseRuleUnits_def Let_def w_def [symmetric] f_def [symmetric] by (auto simp: U64_MAX_def)
qed (simp add: parseRuleUnits_def Let_def)

text \<open>Padding the digits of an amount by one zero more than its decimals puts the point where division does.\<close>

lemma pad_digit:
  assumes "0 < d"
  shows "pad_start (Suc d) 48 (show_nat v) = pad_start d 48 (show_nat (v div 10)) @ [digit_char (v mod 10)]"
proof (cases "v < 10")
  case True
  have "replicate (d - Suc 0) 48 @ [48] = replicate d (48 :: 16 word)"
    using assms by (metis One_nat_def Suc_pred' replicate_Suc replicate_append_same)
  moreover have "show_nat v = [digit_char v]" "show_nat (v div 10) = [48]"
    using True by (subst show_nat.simps; simp add: digit_char_def)+
  ultimately show ?thesis using True assms by (simp add: pad_start_def)
next
  case False
  then have "show_nat v = show_nat (v div 10) @ [digit_char (v mod 10)]" by (subst show_nat.simps) simp
  then show ?thesis by (simp add: pad_start_def)
qed

lemma pad_point:
  "pad_start (Suc (Suc d)) 48 (show_nat v) = show_nat (v div 10 ^ Suc d) @ pad_start (Suc d) 48 (show_nat (v mod 10 ^ Suc d))"
proof (induction d arbitrary: v)
  case 0
  have "pad_start (Suc 0) 48 (show_nat n) = show_nat n" for n
    by (cases "show_nat n") (simp_all add: pad_start_def)
  moreover have "show_nat (v mod 10) = [digit_char (v mod 10)]" by (subst show_nat.simps) simp
  ultimately show ?case using pad_digit [of 1 v] by (simp add: pad_start_def)
next
  case (Suc d)
  let ?n = "10 ^ Suc d :: nat"
  have m: "v mod 10 ^ Suc (Suc d) = 10 * (v div 10 mod ?n) + v mod 10"
    using mod_mult2_eq [of v 10 ?n] by simp
  have dm: "v mod 10 ^ Suc (Suc d) div 10 = v div 10 mod ?n" "v mod 10 ^ Suc (Suc d) mod 10 = v mod 10"
    unfolding m by simp_all
  have "v div 10 div ?n = v div 10 ^ Suc (Suc d)" by (simp only: power_Suc div_mult2_eq)
  then show ?case
    using pad_digit [of "Suc (Suc d)" v] pad_digit [of "Suc d" "v mod 10 ^ Suc (Suc d)"] Suc.IH [of "v div 10"]
    unfolding dm by simp
qed

lemma formatUnits_eq: "formatUnits v d = units_text d v"
proof (cases d)
  case 0
  then show ?thesis by (simp add: formatUnits_def units_text_def)
next
  case (Suc n)
  have "length (pad_start d 48 (show_nat (v mod 10 ^ d))) = d" using Suc by (intro pad_digits) simp_all
  then show ?thesis
    using pad_point [of n v] Suc by (simp add: formatUnits_def units_text_def Let_def)
qed

interpretation rule_amounts: amount_format "\<lambda>v. formatUnits v d" "\<lambda>s. parseRuleUnits s d" "\<lambda>v. v < 2 ^ 64"
  by unfold_locales (simp add: formatUnits_eq parseRuleUnits_iff decimal_text_units fraction_units)

section \<open>What a condition means\<close>

text \<open>
  The transfers a condition holds of, without its bytes: whether the commitment of one of its
  addresses is the recipient, the amounts in units of the asset, the matcher of the page
  (\<open>lib/policies/evaluate.ts\<close>) at the offset of the browser, and the spend of the window with the
  transfer.
\<close>

definition units_of :: "nat \<Rightarrow> jsstr \<Rightarrow> int" where
  "units_of d s = int (decimal_units d (trim s))"

definition projected_over :: "int \<Rightarrow> int \<Rightarrow> transfer \<Rightarrow> bool" where
  "projected_over cap window x =
     (if spend_window_start x = 0 \<or> now x - spend_window_start x \<ge> window then amount_raw x > cap
      else spent_raw x + amount_raw x > cap)"

definition condition_holds :: "chain_platform \<Rightarrow> int \<Rightarrow> AdvancedPolicyTarget \<Rightarrow> transfer \<Rightarrow> RuleCondition \<Rightarrow> bool" where
  "condition_holds pf tz target x c = (case c of
       AssetCondition _ _ \<Rightarrow> True
     | RecipientCondition m addresses \<Rightarrow>
         (m = Allowlist \<longleftrightarrow> (\<exists>a \<in> set (or_empty addresses). recipientCommitment pf a (chainKind target) = Inr (trecipient x)))
     | AmountCondition mn mx _ \<Rightarrow>
         (truthy mn \<longrightarrow> units_of (tdecimals target) (or_empty mn) \<le> amount_raw x)
         \<and> (truthy mx \<longrightarrow> amount_raw x \<le> units_of (tdecimals target) (or_empty mx))
     | TimeWindowCondition s f days m \<Rightarrow> matchTimeWindow s f days m (local_hour tz (now x)) (local_day tz (now x))
     | VelocityCondition cap _ days \<Rightarrow> projected_over (units_of (tdecimals target) cap) (days * 86400) x)"

text \<open>The values the program takes: hours of a day, a positive cap and window, times and amounts of its types.\<close>

definition condition_fits :: "nat \<Rightarrow> RuleCondition \<Rightarrow> bool" where
  "condition_fits d c = (case c of
       TimeWindowCondition s f _ _ \<Rightarrow> 0 \<le> s \<and> s \<le> 23 \<and> 0 \<le> f \<and> f \<le> 23
     | VelocityCondition cap _ days \<Rightarrow> units_of d cap > 0 \<and> 0 < days \<and> days * 86400 < 2 ^ 32
     | _ \<Rightarrow> True)"

definition transfer_fits :: "transfer \<Rightarrow> bool" where
  "transfer_fits x \<longleftrightarrow> 0 \<le> amount_raw x \<and> 0 \<le> spent_raw x \<and> 0 \<le> spend_window_start x \<and> spend_window_start x < 2 ^ 63
     \<and> 0 \<le> now x \<and> now x < 2 ^ 63"

definition hash_32 :: "chain_platform \<Rightarrow> bool" where
  "hash_32 pf \<longleftrightarrow> keys_32 (platform.truncate pf) \<and> (\<forall>bs. length (sha256 pf bs) = 32)"

lemma commitment_length: "hash_32 pf \<Longrightarrow> recipientCommitment pf a k = Inr b \<Longrightarrow> length b = 32"
  by (auto simp: recipientCommitment_def Let_def hash_32_def split: if_splits dest: pubkey_length)

section \<open>Each kind of condition\<close>

lemma recipient_condition:
  assumes "length rs \<le> 16" "emap f rs = Inr ks" "list_all (\<lambda>k. length k = 32) ks" "m \<in> {1, 2}"
  shows "recipient_matches (le_bytes 1 m @ le_bytes 1 (int (length rs)) @ concat ks) r
    = Inr (m = 1 \<longleftrightarrow> (\<exists>a \<in> set rs. f a = Inr r))"
proof -
  have n: "length ks = length rs" using assms(2) by (rule emap_length)
  have "r \<in> set ks \<longleftrightarrow> Inr r \<in> set (map f rs)" unfolding emap_Inr_map [OF assms(2)] by auto
  also have "\<dots> \<longleftrightarrow> (\<exists>a \<in> set rs. f a = Inr r)" unfolding set_map image_iff by metis
  finally have mem: "r \<in> set ks \<longleftrightarrow> (\<exists>a \<in> set rs. f a = Inr r)" .
  have u: "uint (word_of_int m :: byte) = m" "unat (word_of_int (int (length rs)) :: byte) = length rs"
    using assms(1,4) by (auto simp: unat_of_nat take_bit_eq_mod)
  show ?thesis
    using assms length_concat_keys [OF assms(3)] rs_keys_concat [OF assms(3)] n u mem
    by (auto simp: recipient_matches_def Let_def)
qed

lemma amount_condition:
  assumes "0 \<le> lo" "lo < 2 ^ 64" "0 \<le> hi" "hi < 2 ^ 64"
  shows "amount_matches (le_bytes 1 (js_or (if p then 1 else 0) (if q then 2 else 0)) @ le_bytes 8 lo @ le_bytes 8 hi) v
    = Inr ((p \<longrightarrow> lo \<le> v) \<and> (q \<longrightarrow> v \<le> hi))"
proof -
  let ?fl = "js_or (if p then 1 else 0) (if q then 2 else 0)"
  have fl: "0 \<le> ?fl \<and> ?fl < 4 \<and> bit ?fl 0 = p \<and> bit ?fl 1 = q"
    by (cases p; cases q) (simp_all add: js_or_def to_int32_def bit_simps)
  let ?b = "le_bytes 1 ?fl @ le_bytes 8 lo @ le_bytes 8 hi"
  have "slice 1 9 ?b = le_bytes 8 lo" "slice 9 17 ?b = le_bytes 8 hi" "length ?b = 17"
    by (simp_all add: slice_def del: le_bytes.simps)
  moreover have "lo mod 256 ^ 8 = lo" "hi mod 256 ^ 8 = hi" using assms by simp_all
  moreover have "uint (?b ! 0) = ?fl" using fl by simp
  ultimately show ?thesis
    using fl by (auto simp: amount_matches_def Let_def le_val_le_bytes simp del: le_bytes.simps)
qed

lemma rule_day_bits_iff: "rule_day_bits days = Inr dm \<longleftrightarrow> day_bits days = Inr dm"
proof -
  have "efold (\<lambda>day acc. ebind (guard (\<not> (day < 0 \<or> day > 6)) ''Policy days must be between Sunday and Saturday.'') (\<lambda>_.
      Inr (js_or acc (js_shl 1 (nat day))))) days a = Inr dm
    \<longleftrightarrow> efold (\<lambda>day acc. ebind (guard (0 \<le> day \<and> day \<le> 6) ''Policy allowed days must be between Sunday and Saturday.'') (\<lambda>_.
      Inr (js_or acc (js_shl 1 (nat day))))) days a = Inr dm" for a
    by (induction days arbitrary: a) (auto simp: err_simps not_less)
  then show ?thesis by (simp add: rule_day_bits_def day_bits_def)
qed

lemma time_matches_read:
  assumes "length b = 6" "uint (b ! 0) = start_hour w" "uint (b ! 1) = end_hour w" "uint (b ! 2) = days_mask w"
    "uint (b ! 3) = (if inside then 1 else 2)" "le_sval (slice 4 6 b) = utc_offset_minutes w"
    and r: "start_hour w \<le> 23" "end_hour w \<le> 23" "days_mask w < 128" "- 840 \<le> utc_offset_minutes w" "utc_offset_minutes w \<le> 840"
  shows "time_matches b t = Inr (inside \<longleftrightarrow> allows_timestamp w t)"
proof -
  define dy hr where "dy = (t - utc_offset_minutes w * 60) div 86400" and "hr = (t - utc_offset_minutes w * 60) mod 86400 div 3600"
  define wd where "wd = (days_mask w = 0 \<or> days_mask w AND push_bit (nat ((dy + 4) mod 7)) 1 \<noteq> 0)"
  define hi where "hi = (if start_hour w < end_hour w then hr \<ge> start_hour w \<and> hr < end_hour w
    else if start_hour w > end_hour w then hr \<ge> start_hour w \<or> hr < end_hour w else False)"
  have "time_matches b t = (if inside then Inr (wd \<and> hi) else Inr (\<not> (wd \<and> hi)))"
    unfolding time_matches_def Let_def assms dy_def [symmetric] hr_def [symmetric] wd_def [symmetric] hi_def [symmetric]
    using r by simp
  moreover have "allows_timestamp w t = (wd \<and> hi)"
    unfolding allows_timestamp_def Let_def dy_def [symmetric] hr_def [symmetric] wd_def [symmetric] hi_def [symmetric]
    by (simp add: hi_def)
  ultimately show ?thesis by simp
qed

lemma time_condition:
  assumes h: "0 \<le> s" "s \<le> 23" "0 \<le> f" "f \<le> 23" and dm: "day_bits days = Inr dm" and tz: "- 840 \<le> tz" "tz \<le> 840"
  shows "time_matches (le_bytes 1 s @ le_bytes 1 f @ le_bytes 1 dm @ le_bytes 1 (if m = Inside then 1 else 2) @ le_bytes 2 tz) t
    = Inr (matchTimeWindow s f days m (local_hour tz t) (local_day tz t))"
proof -
  let ?b = "le_bytes 1 s @ le_bytes 1 f @ le_bytes 1 dm @ le_bytes 1 (if m = Inside then 1 else 2) @ le_bytes 2 tz"
  define a where "a = \<lparr>startHour = s, endHour = f, daysOfWeek = days, utcOffsetMinutes = tz\<rparr>"
  have mk: "dm = days_mask (seen_window a)" "0 \<le> dm" "dm < 128"
    using day_bits_eq [OF dm] by (simp_all add: seen_window_def a_def)
  have "slice 4 6 ?b = le_bytes 2 tz" by (simp add: slice_def)
  moreover have "le_sval (le_bytes 2 tz) = tz" using tz by (intro le_sval_le_bytes) auto
  moreover have "uint (?b ! 0) = s" "uint (?b ! 1) = f" "uint (?b ! 2) = dm" "uint (?b ! 3) = (if m = Inside then 1 else 2)" "length ?b = 6"
    using h mk by simp_all
  ultimately have "time_matches ?b t = Inr (m = Inside \<longleftrightarrow> allows_timestamp (seen_window a) t)"
    using h tz mk by (intro time_matches_read) (simp_all add: a_def seen_window_def del: le_bytes.simps)
  moreover have "allows_timestamp (seen_window a) t = matchTimeWindow s f days Inside (local_hour tz t) (local_day tz t)"
    using allows_timestamp_match [of a t] day_bits_days [OF dm] by (simp add: a_def)
  moreover have "matchTimeWindow s f days m hr dy = (m = Inside \<longleftrightarrow> matchTimeWindow s f days Inside hr dy)" for hr dy
    by (cases m) (simp_all add: matchTimeWindow_def)
  ultimately show ?thesis by simp
qed

lemma velocity_condition:
  assumes "0 < cap" "cap < 2 ^ 64" "0 < w" "w < 2 ^ 32" "transfer_fits x"
  shows "velocity_matches (le_bytes 8 cap @ le_bytes 4 w) x = Inr (projected_over cap w x)"
proof -
  let ?b = "le_bytes 8 cap @ le_bytes 4 w"
  have "slice 0 8 ?b = le_bytes 8 cap" "slice 8 12 ?b = le_bytes 4 w" "length ?b = 12"
    by (simp_all add: slice_def del: le_bytes.simps)
  moreover have "cap mod 256 ^ 8 = cap" "w mod 256 ^ 4 = w" using assms by simp_all
  ultimately show ?thesis
    using assms by (auto simp: velocity_matches_def transfer_fits_def projected_over_def Let_def le_val_le_bytes simp del: le_bytes.simps)
qed

section \<open>Conditions in sequence\<close>

lemma condition_body_read:
  assumes pf: "hash_32 pf" and tz: "- 840 \<le> tz" "tz \<le> 840" and x: "transfer_fits x"
    and c: "condition_fits (tdecimals target) c" and b: "condition_body pf tz target c = Inr (Some (kind, body))"
  shows "condition_matches x kind body = Inr (condition_holds pf tz target x c) \<and> length body < 65536 \<and> 0 \<le> kind \<and> kind < 256"
proof (cases c)
  case (RecipientCondition m addresses)
  let ?rs = "dedupe (or_empty addresses)"
  obtain ks where ks: "length ?rs \<le> 16" "emap (\<lambda>r. recipientCommitment pf r (chainKind target)) ?rs = Inr ks"
    "kind = 1" "body = le_bytes 1 (if m = Allowlist then 1 else 2) @ le_bytes 1 (int (length ?rs)) @ concat ks"
    using b RecipientCondition by (auto simp: condition_body_def Let_def writer_eqs err_simps simp del: le_bytes.simps)
  have len: "list_all (\<lambda>k. length k = 32) ks"
    using ks(2) commitment_length [OF pf] unfolding emap_Inr_iff by (auto simp: list_all2_conv_all_nth list_all_length)
  moreover have "length ks = length ?rs" using ks(2) by (rule emap_length)
  ultimately have "length (concat ks) \<le> 512" using ks(1) length_concat_keys [OF len] by simp
  moreover have "recipient_matches body (trecipient x)
      = Inr ((if m = Allowlist then 1 else 2) = (1 :: int)
        \<longleftrightarrow> (\<exists>a \<in> set ?rs. recipientCommitment pf a (chainKind target) = Inr (trecipient x)))"
    unfolding ks(4) using len by (intro recipient_condition [OF ks(1) ks(2)]) auto
  moreover have "((if m = Allowlist then 1 else 2) = (1 :: int)) \<longleftrightarrow> m = Allowlist" by simp
  ultimately show ?thesis
    using ks(3) RecipientCondition by (simp add: ks(4) condition_matches_def condition_holds_def)
next
  case (AmountCondition mn mx t)
  define lo hi where "lo = (if truthy mn then units_of (tdecimals target) (or_empty mn) else 0)"
    and "hi = (if truthy mx then units_of (tdecimals target) (or_empty mx) else 0)"
  have b': "0 \<le> lo" "lo < 2 ^ 64" "0 \<le> hi" "hi < 2 ^ 64" "kind = 2"
      "body = le_bytes 1 (js_or (if truthy mn then 1 else 0) (if truthy mx then 2 else 0)) @ le_bytes 8 lo @ le_bytes 8 hi"
    using b AmountCondition
    by (auto simp: condition_body_def optional_units_def lo_def hi_def units_of_def writer_eqs w64_iff parseRuleUnits_iff err_simps
        simp del: le_bytes.simps split: if_splits)
  show ?thesis
    using amount_condition [OF b'(1-4), of "truthy mn" "truthy mx" "amount_raw x"] b'(5) AmountCondition unfolding b'(6)
    by (auto simp: condition_matches_def condition_holds_def lo_def hi_def simp del: le_bytes.simps)
next
  case (TimeWindowCondition s f days m)
  then obtain dm where "day_bits days = Inr dm" "kind = 3"
      "body = le_bytes 1 s @ le_bytes 1 f @ le_bytes 1 dm @ le_bytes 1 (if m = Inside then 1 else 2) @ le_bytes 2 tz"
    using b by (auto simp: condition_body_def writer_eqs rule_day_bits_iff err_simps simp del: le_bytes.simps)
  with time_condition [of s f days dm tz m "now x"] c tz TimeWindowCondition show ?thesis
    by (simp add: condition_matches_def condition_holds_def condition_fits_def del: le_bytes.simps)
next
  case (VelocityCondition cap t days)
  then have "kind = 4" "body = le_bytes 8 (units_of (tdecimals target) cap) @ le_bytes 4 (days * 86400)"
      "units_of (tdecimals target) cap < 2 ^ 64"
    using b by (auto simp: condition_body_def writer_eqs w64_iff parseRuleUnits_iff units_of_def err_simps mult.commute simp del: le_bytes.simps)
  with velocity_condition [of "units_of (tdecimals target) cap" "days * 86400" x] c x VelocityCondition show ?thesis
    by (simp add: condition_matches_def condition_holds_def condition_fits_def del: le_bytes.simps)
qed (use b in \<open>simp add: condition_body_def\<close>)

definition condition_reads :: "transfer \<Rightarrow> bytes \<Rightarrow> bool \<Rightarrow> bool" where
  "condition_reads x e b \<longleftrightarrow> (\<exists>kind body. e = le_bytes 1 kind @ le_bytes 2 (int (length body)) @ body
     \<and> length body < 65536 \<and> 0 \<le> kind \<and> kind < 256 \<and> condition_matches x kind body = Inr b)"

lemma encoded_condition_read:
  assumes "hash_32 pf" "- 840 \<le> tz" "tz \<le> 840" "transfer_fits x" "condition_fits (tdecimals target) c"
    and "encodeCondition pf tz target c = Inr (Some e)"
  shows "condition_reads x e (condition_holds pf tz target x c)"
proof -
  obtain kind body where b: "condition_body pf tz target c = Inr (Some (kind, body))"
      "e = le_bytes 1 kind @ le_bytes 2 (int (length body)) @ body"
    using assms(6) by (auto simp: encodeCondition_def writer_eqs err_simps simp del: le_bytes.simps split: option.splits)
  with condition_body_read [OF assms(1-5) b(1)] show ?thesis unfolding condition_reads_def by blast
qed

lemma encode_condition_None: "encodeCondition pf tz target c = Inr None \<Longrightarrow> skipped pf target c"
  by (cases c) (auto simp: encodeCondition_def condition_body_def skipped_def err_simps Let_def split: option.splits)

definition kept_conditions :: "chain_platform \<Rightarrow> AdvancedPolicyTarget \<Rightarrow> RuleCondition list \<Rightarrow> RuleCondition list" where
  "kept_conditions pf target conds = filter (\<lambda>c. \<not> skipped pf target c) conds"

lemma encoded_conditions_read:
  assumes "hash_32 pf" "- 840 \<le> tz" "tz \<le> 840" "transfer_fits x"
  shows "encode_conditions pf tz target cs win = Inr (es, win') \<Longrightarrow> list_all (condition_fits (tdecimals target)) cs \<Longrightarrow>
    list_all2 (condition_reads x) es (map (condition_holds pf tz target x) (kept_conditions pf target cs))"
proof (induction cs arbitrary: es win)
  case Nil
  then show ?case by (simp add: kept_conditions_def)
next
  case (Cons c cs)
  show ?case
  proof (cases "skipped pf target c")
    case True
    with Cons show ?thesis by (simp add: kept_conditions_def)
  next
    case False
    then obtain e win'' es' where e: "encodeCondition pf tz target c = Inr (Some e)"
        "encode_conditions pf tz target cs win'' = Inr (es', win')" "es = e # es'"
      using Cons.prems(1) by (auto simp: err_simps split: option.splits dest: encode_condition_None)
    then show ?thesis
      using encoded_condition_read [OF assms _ e(1)] Cons.IH [OF e(2)] Cons.prems(2) False by (simp add: kept_conditions_def)
  qed
qed

lemma eval_conditions_read:
  "list_all2 (condition_reads x) es vs \<Longrightarrow> at_pos bs off (concat es @ rest) \<Longrightarrow>
     eval_conditions x bs (length es) off acc = Inr (acc \<and> list_all id vs, off + length (concat es))"
proof (induction es vs arbitrary: off acc rule: list_all2_induct)
  case Nil
  then show ?case by simp
next
  case (Cons e es v vs)
  obtain kind body where e: "e = le_bytes 1 kind @ le_bytes 2 (int (length body)) @ body" "length body < 65536" "0 \<le> kind" "kind < 256"
      "condition_matches x kind body = Inr v"
    using Cons.hyps(1) by (auto simp: condition_reads_def)
  have a1: "at_pos bs off (le_bytes 1 kind @ le_bytes 2 (int (length body)) @ body @ concat es @ rest)"
    using Cons.prems by (simp add: e(1) del: le_bytes.simps)
  have a2: "at_pos bs (off + 1) (le_bytes 2 (int (length body)) @ body @ concat es @ rest)" using at_pos_step [OF a1] by simp
  have a3: "at_pos bs (off + 3) (body @ concat es @ rest)" using at_pos_step [OF a2] by (simp add: numeral_3_eq_3)
  have "uint (bs ! off) = kind" using at_pos_nth [of bs off "word_of_int kind"] a1 e(3,4) by simp
  moreover have "slice (off + 1) (off + 3) bs = le_bytes 2 (int (length body))" using at_pos_slice [OF a2, of 2] by (simp add: numeral_3_eq_3)
  moreover have "int (length body) mod 256 ^ 2 = int (length body)" using e(2) by simp
  moreover have "off + 3 \<le> length bs" "off + 3 + length body \<le> length bs" using at_pos_le [OF a2] at_pos_le [OF a3] by simp_all
  moreover have "slice (off + 3) (off + 3 + length body) bs = body" using at_pos_slice [OF a3, of "length body"] by simp
  moreover have "eval_conditions x bs (length es) (off + 3 + length body) (acc \<and> v)
      = Inr ((acc \<and> v) \<and> list_all id vs, off + 3 + length body + length (concat es))"
    by (rule Cons.IH) (rule at_pos_step [OF a3])
  ultimately show ?case using e(5) by (simp add: e(1) Let_def le_val_le_bytes conj_assoc id_def del: le_bytes.simps)
qed

section \<open>Rules in sequence\<close>

text \<open>What is read of a rule: its action, the keys of its approvers, its cooldown; and whether its conditions match.\<close>

definition effect_view :: "bytes \<Rightarrow> AdvancedRuleEffect \<Rightarrow> int \<times> bytes list \<times> int" where
  "effect_view bs e = (eaction e, rs_keys (approver_count e) (drop (approvers_start e) bs), ecooldown e)"

definition rule_reads :: "transfer \<Rightarrow> bytes \<Rightarrow> (int \<times> bytes list \<times> int) \<times> bool \<Rightarrow> bool" where
  "rule_reads x e r \<longleftrightarrow> (case r of ((a, ks, cd), b) \<Rightarrow>
     0 \<le> a \<and> a \<le> 3 \<and> length ks \<le> 16 \<and> (a = 2 \<longrightarrow> ks \<noteq> []) \<and> (a = 3 \<longrightarrow> cd > 0) \<and> 0 \<le> cd \<and> cd < 2 ^ 32
     \<and> list_all (\<lambda>k. length k = 32) ks
     \<and> (\<exists>es vs. length es \<le> 16 \<and> list_all2 (condition_reads x) es vs \<and> b = list_all id vs
        \<and> e = le_bytes 1 a @ le_bytes 1 (int (length es)) @ le_bytes 1 (int (length ks)) @ le_bytes 4 cd @ concat ks @ concat es))"

lemma rs_keys_append:
  assumes "list_all (\<lambda>k. length k = 32) ks"
  shows "rs_keys (length ks) (concat ks @ rest) = ks"
proof -
  have "rs_keys (length ks) (concat ks @ rest) = rs_keys (length ks) (concat ks)"
    unfolding rs_keys_def using length_concat_keys [OF assms] by (intro map_cong) (auto simp: slice_def)
  then show ?thesis by (simp add: rs_keys_concat [OF assms])
qed

lemma eval_rules_read:
  "list_all2 (rule_reads x) encs rs \<Longrightarrow> at_pos bs off (concat encs @ rest) \<Longrightarrow>
     \<exists>eff. eval_rules x bs (length encs) off first = Inr (eff, off + length (concat encs))
       \<and> map_option (effect_view bs) eff
         = (if first = None then map_option fst (find snd rs) else map_option (effect_view bs) first)"
proof (induction encs rs arbitrary: off first rule: list_all2_induct)
  case Nil
  then show ?case by simp
next
  case (Cons e encs r rs)
  obtain a ks cd b where r: "r = ((a, ks, cd), b)" by (cases r) auto
  from Cons.hyps(1) obtain es vs where c: "0 \<le> a" "a \<le> 3" "length ks \<le> 16" "a = 2 \<Longrightarrow> ks \<noteq> []" "a = 3 \<Longrightarrow> cd > 0" "0 \<le> cd" "cd < 2 ^ 32"
      "list_all (\<lambda>k. length k = 32) ks" "length es \<le> 16" "list_all2 (condition_reads x) es vs" "b = list_all id vs"
      "e = le_bytes 1 a @ le_bytes 1 (int (length es)) @ le_bytes 1 (int (length ks)) @ le_bytes 4 cd @ concat ks @ concat es"
    unfolding rule_reads_def r by auto
  let ?tail = "concat encs @ rest"
  have a0: "at_pos bs off (le_bytes 1 a @ le_bytes 1 (int (length es)) @ le_bytes 1 (int (length ks)) @ le_bytes 4 cd @ concat ks @ concat es @ ?tail)"
    using Cons.prems by (simp add: c(12) del: le_bytes.simps)
  have a1: "at_pos bs (off + 1) (le_bytes 1 (int (length es)) @ le_bytes 1 (int (length ks)) @ le_bytes 4 cd @ concat ks @ concat es @ ?tail)"
    using at_pos_step [OF a0] by simp
  have a2: "at_pos bs (off + 2) (le_bytes 1 (int (length ks)) @ le_bytes 4 cd @ concat ks @ concat es @ ?tail)"
    using at_pos_step [OF a1] by simp
  have a3: "at_pos bs (off + 3) (le_bytes 4 cd @ concat ks @ concat es @ ?tail)"
    using at_pos_step [OF a2] by (simp add: numeral_3_eq_3)
  have a4: "at_pos bs (off + 7) (concat ks @ concat es @ ?tail)"
    using at_pos_step [OF a3] by (simp only: length_le_bytes add.assoc) simp
  have lk: "length (concat ks) = 32 * length ks" by (rule length_concat_keys [OF c(8)])
  have a5: "at_pos bs (off + 7 + length ks * 32) (concat es @ ?tail)" using at_pos_step [OF a4] by (simp add: lk mult.commute)
  have a6: "at_pos bs (off + length e) ?tail" using at_pos_step [OF a5] by (simp add: c(12) lk algebra_simps)
  let ?first = "if b \<and> first = None then Some \<lparr>eaction = a, approvers_start = off + 7, approver_count = length ks, ecooldown = cd\<rparr> else first"
  obtain eff where eff: "eval_rules x bs (length encs) (off + length e) ?first = Inr (eff, off + length e + length (concat encs))"
      "map_option (effect_view bs) eff = (if ?first = None then map_option fst (find snd rs) else map_option (effect_view bs) ?first)"
    using Cons.IH [OF a6, of ?first] by blast
  have "rs_keys (length ks) (drop (off + 7) bs) = ks" using a4 rs_keys_append [OF c(8)] by (auto simp: at_pos_def)
  then have view: "map_option (effect_view bs) eff = (if first = None then map_option fst (find snd (r # rs)) else map_option (effect_view bs) first)"
    using eff(2) by (auto simp: r effect_view_def)
  have "uint (bs ! off) = a" using at_pos_nth [of bs off "word_of_int a"] a0 c(1,2) by simp
  moreover have "unat (bs ! (off + 1)) = length es"
    using at_pos_nth [of bs "off + 1" "word_of_int (int (length es))"] a1 c(9) by (simp add: unat_of_nat take_bit_eq_mod)
  moreover have "unat (bs ! (off + 2)) = length ks"
    using at_pos_nth [of bs "off + 2" "word_of_int (int (length ks))"] a2 c(3) by (simp add: unat_of_nat take_bit_eq_mod)
  moreover have "le_val (slice (off + 3) (off + 7) bs) = cd"
    using at_pos_slice [OF a3, of 4] c(6,7) by (simp add: le_val_le_bytes add.assoc del: le_bytes.simps)
  moreover have "off + 7 \<le> length bs" "off + 7 + length ks * 32 \<le> length bs"
    using at_pos_le [OF a3] at_pos_le [OF a4] by (simp_all add: lk)
  moreover have "eval_conditions x bs (length es) (off + 7 + length ks * 32) True = Inr (b, off + length e)"
    using eval_conditions_read [OF c(10) a5, of True] by (simp add: c(11,12) lk)
  ultimately have "eval_rules x bs (length (e # encs)) off first = Inr (eff, off + length e + length (concat encs))"
    using c(2-5,9) eff(1) by (simp add: Let_def del: le_bytes.simps)
  with view show ?case by (auto simp: add.assoc)
qed

section \<open>The rule that decides\<close>

text \<open>Whether a rule of the wallet applies to a transfer and its conditions hold, and what it then asks for.\<close>

definition rule_holds ::
  "chain_platform \<Rightarrow> int \<Rightarrow> (jsstr \<Rightarrow> int list option res) \<Rightarrow> AdvancedPolicyTarget \<Rightarrow> transfer \<Rightarrow> PolicyRule \<Rightarrow> bool" where
  "rule_holds pf tz oj target x r \<longleftrightarrow> enabled r \<and> (case decryptConditions oj (rule_conditions r) of
       Inl _ \<Rightarrow> False
     | Inr conds \<Rightarrow> ruleAppliesToTarget pf conds target
         \<and> list_all (condition_holds pf tz target x) (kept_conditions pf target conds))"

definition rule_decision :: "chain_platform \<Rightarrow> PolicyRule \<Rightarrow> (int \<times> bytes list \<times> int) res" where
  "rule_decision pf r =
     ebind (rule_approvers r) (\<lambda>approvers.
     ebind (emap (pubkey (platform.truncate pf)) approvers) (\<lambda>keys.
     ebind (rule_wait r) (\<lambda>cooldown. Inr (actionCode (rule_action r), keys, cooldown))))"

text \<open>A rule the program takes: its conditions fit, approvers are named and a cooldown is given where it asks for one.\<close>

definition rule_fits :: "(jsstr \<Rightarrow> int list option res) \<Rightarrow> nat \<Rightarrow> PolicyRule \<Rightarrow> bool" where
  "rule_fits oj d r \<longleftrightarrow> (case decryptConditions oj (rule_conditions r) of
       Inl _ \<Rightarrow> True | Inr conds \<Rightarrow> list_all (condition_fits d) conds)
     \<and> (rule_action r = RequireExtraApprovers \<longrightarrow> rule_approvers r \<noteq> Inr [])
     \<and> (rule_action r = RequireCooldown \<longrightarrow> (case rule_wait r of Inl _ \<Rightarrow> True | Inr c \<Rightarrow> 0 < c \<and> c < 2 ^ 32))"

lemma encoded_rule_read:
  assumes pf: "hash_32 pf" and e: "encodeRule pf r es = Inr e" and es: "list_all2 (condition_reads x) es vs" "length es \<le> 16"
    and r: "rule_fits oj d r"
  shows "\<exists>dec. rule_decision pf r = Inr dec \<and> rule_reads x e (dec, list_all id vs)"
proof -
  obtain as cd ks where a: "rule_approvers r = Inr as" "length as \<le> 16" "rule_wait r = Inr cd"
      "emap (pubkey (platform.truncate pf)) as = Inr ks"
      "e = le_bytes 1 (actionCode (rule_action r)) @ le_bytes 1 (int (length es)) @ le_bytes 1 (int (length as)) @ le_bytes 4 cd
        @ concat ks @ concat es"
    using e by (auto simp: encodeRule_def writer_eqs err_simps simp del: le_bytes.simps)
  have n: "length ks = length as" using a(4) by (rule emap_length)
  have k: "list_all (\<lambda>k. length k = 32) ks"
    using a(4) pf pubkey_length unfolding emap_Inr_iff hash_32_def by (auto simp: list_all2_conv_all_nth list_all_length)
  have code: "0 \<le> actionCode (rule_action r)" "actionCode (rule_action r) \<le> 3"
    "actionCode (rule_action r) = 2 \<longleftrightarrow> rule_action r = RequireExtraApprovers"
    "actionCode (rule_action r) = 3 \<longleftrightarrow> rule_action r = RequireCooldown"
    by (cases "rule_action r"; simp add: actionCode_def)+
  have cd: "0 \<le> cd \<and> cd < 2 ^ 32 \<and> (rule_action r = RequireCooldown \<longrightarrow> 0 < cd)"
    using a(3) r by (auto simp: rule_fits_def rule_wait_def split: if_splits)
  have "rule_action r = RequireExtraApprovers \<longrightarrow> ks \<noteq> []" using a(1) r n by (auto simp: rule_fits_def)
  moreover have "rule_decision pf r = Inr (actionCode (rule_action r), ks, cd)" using a by (simp add: rule_decision_def)
  ultimately show ?thesis
    using a(2,5) k n code cd es unfolding rule_reads_def by auto
qed

lemma compiled_rules_read:
  assumes pf: "hash_32 pf" and tz: "- 840 \<le> tz" "tz \<le> 840" and x: "transfer_fits x"
  shows "compile_rules pf tz oj target rs win = Inr (encs, win') \<Longrightarrow> list_all (rule_fits oj (tdecimals target)) rs \<Longrightarrow>
    \<exists>ds. list_all2 (rule_reads x) encs ds \<and> (case find (rule_holds pf tz oj target x) rs of
        None \<Rightarrow> find snd ds = None
      | Some r \<Rightarrow> \<exists>d. rule_decision pf r = Inr d \<and> map_option fst (find snd ds) = Some d)"
proof (induction rs arbitrary: win encs)
  case Nil
  then show ?case by (intro exI [of _ "[]"]) simp
next
  case (Cons r rs)
  let ?skip = "\<not> enabled r \<or> (\<exists>conds. decryptConditions oj (rule_conditions r) = Inr conds \<and> \<not> ruleAppliesToTarget pf conds target)"
  show ?case
  proof (cases ?skip)
    case True
    then have "compile_rules pf tz oj target rs win = Inr (encs, win')" using Cons.prems(1) by (auto simp: err_simps split: if_splits)
    moreover have "\<not> rule_holds pf tz oj target x r" using True by (auto simp: rule_holds_def)
    ultimately show ?thesis using Cons by simp
  next
    case False
    then obtain conds es win1 win2 e encs' where c: "enabled r" "decryptConditions oj (rule_conditions r) = Inr conds"
        "ruleAppliesToTarget pf conds target" "encode_conditions pf tz target conds win = Inr (es, win1)" "length es \<le> 16"
        "encodeRule pf r es = Inr e" "compile_rules pf tz oj target rs win1 = Inr (encs', win2)" "encs = e # encs'" "win2 = win'"
      using Cons.prems(1) by (auto simp: err_simps split: if_splits)
    have fits: "rule_fits oj (tdecimals target) r" "list_all (condition_fits (tdecimals target)) conds"
      using Cons.prems(2) c(2) by (auto simp: rule_fits_def)
    have "list_all2 (condition_reads x) es (map (condition_holds pf tz target x) (kept_conditions pf target conds))"
      by (rule encoded_conditions_read [OF pf tz x c(4) fits(2)])
    from encoded_rule_read [OF pf c(6) this c(5) fits(1)] obtain dec where dec: "rule_decision pf r = Inr dec"
        "rule_reads x e (dec, list_all (condition_holds pf tz target x) (kept_conditions pf target conds))"
      by (auto simp: list_all_iff)
    obtain ds where ds: "list_all2 (rule_reads x) encs' ds" "case find (rule_holds pf tz oj target x) rs of
        None \<Rightarrow> find snd ds = None
      | Some r \<Rightarrow> \<exists>d. rule_decision pf r = Inr d \<and> map_option fst (find snd ds) = Some d"
      using Cons.IH [of win1 encs'] c(7,9) Cons.prems(2) by auto
    have "rule_holds pf tz oj target x r \<longleftrightarrow> list_all (condition_holds pf tz target x) (kept_conditions pf target conds)"
      using c(1-3) by (simp add: rule_holds_def)
    then have "rule_reads x e (dec, rule_holds pf tz oj target x r)" using dec(2) by simp
    with ds dec(1) c(8) show ?thesis
      by (intro exI [of _ "(dec, rule_holds pf tz oj target x r) # ds"]) (cases "rule_holds pf tz oj target x r"; cases dec; simp split: option.splits)
  qed
qed

text \<open>
  The first part of \<open>enforce_advanced_rules\<close> of the program: a policy without rules has no effect.
\<close>

definition advanced_effect :: "bytes option \<Rightarrow> transfer \<Rightarrow> AdvancedRuleEffect option prog" where
  "advanced_effect rules x = (case rules of None \<Rightarrow> Inr None | Some bs \<Rightarrow> evaluate_advanced_rules bs x)"

text \<open>The attached rules decide as the first rule that holds: with its action, approvers and cooldown.\<close>

definition decides_by_rules ::
  "chain_platform \<Rightarrow> int \<Rightarrow> (jsstr \<Rightarrow> int list option res) \<Rightarrow> AdvancedPolicyTarget \<Rightarrow> PolicyRule list \<Rightarrow> bytes option \<Rightarrow> transfer \<Rightarrow> bool" where
  "decides_by_rules pf tz oj target rules attached x = (case find (rule_holds pf tz oj target x) rules of
       None \<Rightarrow> advanced_effect attached x = Inr None
     | Some r \<Rightarrow> \<exists>bs eff d. attached = Some bs \<and> advanced_effect attached x = Inr (Some eff)
         \<and> rule_decision pf r = Inr d \<and> effect_view bs eff = d)"

lemma payload_effect:
  assumes pf: "hash_32 pf" and tz: "- 840 \<le> tz" "tz \<le> 840" and x: "transfer_fits x"
    and rules: "list_all (rule_fits oj (tdecimals target)) (listPolicies w shape)"
    and out: "compileAdvancedPolicyRules pf tz oj shape w target = Inr out" "payload out = Some bs"
  shows "\<exists>eff. evaluate_advanced_rules bs x = Inr eff \<and> (case find (rule_holds pf tz oj target x) (listPolicies w shape) of
      None \<Rightarrow> eff = None
    | Some r \<Rightarrow> \<exists>d. rule_decision pf r = Inr d \<and> map_option (effect_view bs) eff = Some d)"
proof -
  obtain encs win where c: "compile_rules pf tz oj target (listPolicies w shape) 0 = Inr (encs, win)" "length encs \<le> 16"
      "bs = le_bytes 1 1 @ le_bytes 1 (int (length encs)) @ concat encs"
    using out by (auto simp: compileAdvancedPolicyRules_def err_simps Let_def writer_eqs simp del: le_bytes.simps split: if_splits)
  obtain ds where ds: "list_all2 (rule_reads x) encs ds" "case find (rule_holds pf tz oj target x) (listPolicies w shape) of
        None \<Rightarrow> find snd ds = None
      | Some r \<Rightarrow> \<exists>d. rule_decision pf r = Inr d \<and> map_option fst (find snd ds) = Some d"
    using compiled_rules_read [OF pf tz x c(1) rules] by blast
  have "at_pos bs 2 (concat encs @ [])" by (simp add: c(3) at_pos_def)
  from eval_rules_read [OF ds(1) this, of None] obtain eff where
      eff: "eval_rules x bs (length encs) 2 None = Inr (eff, 2 + length (concat encs))"
        "map_option (effect_view bs) eff = map_option fst (find snd ds)" by auto
  have "bs ! 0 = 1" "unat (bs ! 1) = length encs" "length bs = 2 + length (concat encs)"
    using c(2) by (simp_all add: c(3) unat_of_nat take_bit_eq_mod)
  with eff(1) c(2) have "evaluate_advanced_rules bs x = Inr eff" by (simp add: evaluate_advanced_rules_def Let_def)
  with ds(2) eff(2) show ?thesis by (auto split: option.splits)
qed

lemma attached_rules_decide:
  assumes pf: "hash_32 pf" and tz: "- 840 \<le> tz" "tz \<le> 840" and x: "transfer_fits x"
    and rules: "list_all (rule_fits oj (tdecimals target)) (listPolicies w shape)"
    and out: "compileAdvancedPolicyRules pf tz oj shape w target = Inr out"
  shows "decides_by_rules pf tz oj target (listPolicies w shape) (payload out) x"
proof (cases "payload out")
  case None
  obtain encs win where c: "compile_rules pf tz oj target (listPolicies w shape) 0 = Inr (encs, win)" "encs = []"
    using out None by (auto simp: compileAdvancedPolicyRules_def err_simps Let_def split: if_splits)
  from compiled_rules_read [OF pf tz x c(1) rules] c(2) have "find (rule_holds pf tz oj target x) (listPolicies w shape) = None"
    by (auto split: option.splits)
  with None show ?thesis by (simp add: decides_by_rules_def advanced_effect_def)
next
  case (Some bs)
  with payload_effect [OF assms Some] show ?thesis
    by (auto simp: decides_by_rules_def advanced_effect_def split: option.splits)
qed

section \<open>Properties\<close>


text \<open>A wallet with two rules: a cooldown in the hours of Monday and Friday, and otherwise a refusal.\<close>

definition example_chain :: chain_platform where
  "example_chain = platform.extend (example_pf\<lparr>sha256 := (\<lambda>_. replicate 32 0)\<rparr>) \<lparr>toLowerCase = (\<lambda>s. s), bs58 = (\<lambda>_. None)\<rparr>"

definition example_rule :: "RuleAction \<Rightarrow> int \<Rightarrow> StoredCondition list \<Rightarrow> PolicyRule" where
  "example_rule action prio conds = \<lparr>rule_id = [], rule_wallet = [], rule_name = [], priority = prio, enabled = True,
     rule_conditions = conds, rule_action = action, extraApproversEncrypted = None, rule_cooldown = Some 60,
     extraCooldownEncrypted = None, createdAt = 0\<rparr>"

definition example_shape :: shape where
  "example_shape = [[] \<mapsto> [example_rule Deny 1 [], example_rule RequireCooldown 2 [StoredTimeWindow 9 None 17 None [1, 5] None Inside None]]]"

definition example_target :: AdvancedPolicyTarget where
  "example_target = \<lparr>chainKind = 0, tticker = js ''SOL'', tdecimals = 9\<rparr>"

definition example_transfer :: "int \<Rightarrow> transfer" where
  "example_transfer t = \<lparr>trecipient = replicate 32 1, amount_raw = 1, spend_window_start = 0, spent_raw = 0, now = t\<rparr>"

lemma example_policies: "listPolicies [] example_shape =
    [example_rule RequireCooldown 2 [StoredTimeWindow 9 None 17 None [1, 5] None Inside None], example_rule Deny 1 []]"
  by (simp add: listPolicies_def wallet_rules_def example_shape_def or_empty_def example_rule_def)

lemma example_conditions: "decryptConditions oj [StoredTimeWindow 9 None 17 None [1, 5] None Inside None] = Inr [TimeWindowCondition 9 17 [1, 5] Inside]"
  "decryptConditions oj [] = Inr []"
  by (simp_all add: decryptConditions_def decryptCondition_def decryptText_def decryptJson_def parseHour_def text_match_def truthy_def or_empty_def)

lemma example_compiles: "\<exists>bs out. compileAdvancedPolicyRules example_chain 0 oj example_shape [] example_target = Inr out \<and> payload out = Some bs"
proof -
  have m: "rule_day_bits [1, 5] = Inr 34" by code_simp
  show ?thesis
    unfolding compileAdvancedPolicyRules_def example_policies
    by (simp add: example_rule_def example_conditions example_target_def assertAllEncryptedRecipientsRecovered_def ruleAppliesToTarget_def
        skipped_def encodeCondition_def condition_body_def m track_window_def encodeRule_def rule_approvers_def rule_wait_def
        decryptCooldownSeconds_def decryptText_def truthy_def writer_eqs Let_def del: le_bytes.simps)
qed


end
