(* ===== verification/Target_Enforcement.thy ===== *)
theory Target_Enforcement
  imports Policy_Targets Advanced_Agreement
begin

text \<open>
  The saved settings against the program: what \<open>Policy_Targets\<close> puts on chain for a wallet is
  read and enforced as the settings pages and their own checks mean it.
\<close>

section \<open>Policies and their texts\<close>

definition policy_texts_ok :: "platform \<Rightarrow> EncodedSolPolicy \<Rightarrow> bool" where
  "policy_texts_ok pf e \<longleftrightarrow> hex e = toHex (pbytes e) \<and> policyCommitmentHex pf (pbytes e) = Inr (commitmentHex e)"

lemma encoded_policy_texts: "encoded_policy pf bs = Inr e \<Longrightarrow> policy_texts_ok pf e \<and> pbytes e = bs"
  by (auto simp: encoded_policy_def err_simps policy_texts_ok_def)

lemma encoder_texts:
  "encodeTypedSolPolicy pf plan = Inr (Some e) \<Longrightarrow> policy_texts_ok pf e"
  "encodeTypedRemoteSendPolicy pf plan opts = Inr (Some e) \<Longrightarrow> policy_texts_ok pf e"
  "encodeTypedSplAssetPolicy pf plan mint d t = Inr e \<Longrightarrow> policy_texts_ok pf e"
  "appendPolicyExtension pf o' tag rules = Inr e \<Longrightarrow> policy_texts_ok pf e"
  by (auto simp: encodeTypedSolPolicy_def encodeTypedRemoteSendPolicy_def encodeTypedSplAssetPolicy_def appendPolicyExtension_def
      err_simps Let_def dest: encoded_policy_texts split: if_splits)

lemma target_policy_texts:
  assumes "target_policy pf num_text tz oj st shape w t = Inr (Some e)"
  shows "policy_texts_ok (platform.truncate pf) e"
  using assms encoder_texts
  by (auto simp: target_policy_def encodeForTarget_def err_simps split: option.splits if_splits)

section \<open>The plan of the settings\<close>

lemma tracked_plan:
  assumes "track_velocity adv plan = Inr plan'"
  shows "evaluation plan' = evaluation plan" "conditions plan' = conditions plan" "extraApprovers plan' = extraApprovers plan"
    "recipientGuard plan' = recipientGuard plan" "allowedTimeWindow plan' = allowedTimeWindow plan"
    "memberAllowances plan' = memberAllowances plan"
  using assms by (auto simp: track_velocity_def err_simps Let_def split: option.splits if_splits)

text \<open>The key the encoder writes for an entry of the list, and the keys it so admits: a step of the proofs.\<close>

definition target_key :: "platform \<Rightarrow> PolicyTarget \<Rightarrow> jsstr \<Rightarrow> bytes res" where
  "target_key pf t x = (if pt_kind t = 0 then pubkey pf x else Inr (textCommitment pf x))"

definition list_admits :: "platform \<Rightarrow> PolicyTarget \<Rightarrow> Allowlist \<Rightarrow> bytes \<Rightarrow> bool" where
  "list_admits pf t a r \<longleftrightarrow> \<not> allow_on a \<or> (\<exists>x \<in> set (allow_addresses a). target_key pf t x = Inr r)"

text \<open>
  The key the program compares, which it computes from the recipient of the payment itself
  (\<open>typed_chain_sign.rs\<close>): the public key on Solana, the hash of the lower-case text of the
  twenty bytes on Ethereum and Hyperliquid.
\<close>

definition hex_nibble :: "byte \<Rightarrow> byte" where
  "hex_nibble v = (if v \<le> 9 then 0x30 + v else 0x61 + (v - 10))"

definition evm_address_text :: "bytes \<Rightarrow> bytes" where
  "evm_address_text address = [0x30, 0x78] @ concat (map (\<lambda>b. [hex_nibble (drop_bit 4 b), hex_nibble (b AND 15)]) address)"

definition evm_address_text_commitment :: "chain_platform \<Rightarrow> bytes \<Rightarrow> bytes" where
  "evm_address_text_commitment pf address = sha256 pf (evm_address_text address)"

definition payment_key :: "chain_platform \<Rightarrow> PolicyTarget \<Rightarrow> bytes \<Rightarrow> bytes" where
  "payment_key pf t dest = (if pt_kind t = 0 then dest else evm_address_text_commitment pf dest)"

text \<open>An entry of a list names a recipient: its base58 text on Solana, its lower-case hexadecimal text otherwise.\<close>

definition entry_names :: "chain_platform \<Rightarrow> PolicyTarget \<Rightarrow> jsstr \<Rightarrow> bytes \<Rightarrow> bool" where
  "entry_names pf t x dest \<longleftrightarrow>
     (if pt_kind t = 0 then publicKey pf x = Some dest else trim x = js ''0x'' @ toHex dest)"

text \<open>An entry whose text is another one but has the hash of the recipient's.\<close>

definition entry_collides :: "chain_platform \<Rightarrow> PolicyTarget \<Rightarrow> jsstr \<Rightarrow> bytes \<Rightarrow> bool" where
  "entry_collides pf t x dest \<longleftrightarrow> pt_kind t \<noteq> 0 \<and> utf8_encode (trim x) \<noteq> evm_address_text dest
     \<and> sha256 pf (utf8_encode (trim x)) = sha256 pf (evm_address_text dest)"

lemma code_points_ascii_inj:
  "code_points s = map unat t \<Longrightarrow> list_all (\<lambda>u. unat u < 128) t \<Longrightarrow> s = (t :: jsstr)"
proof (induction s arbitrary: t rule: code_points.induct)
  case (2 a)
  then show ?case by (cases t) (auto split: if_splits simp: word_unat_eq_iff)
next
  case (3 a b s)
  then obtain u v where t: "t = u # v" by (cases t) (auto split: if_splits)
  with "3.prems" have "\<not> (is_high a \<and> is_low b)" by (auto simp: surrogate_pair_def)
  with 3 t show ?case by (auto split: if_splits simp: word_unat_eq_iff)
qed simp

lemma utf8_encode_ascii_inj:
  assumes "list_all (\<lambda>u. unat u < 128) t" "utf8_encode s = utf8_encode t"
  shows "s = t"
proof -
  have "code_points s = code_points t"
    using assms(2) utf8_points_encode [OF code_points_scalar] by (metis utf8_encode_def)
  with assms(1) code_points_ascii_inj show ?thesis by (simp add: code_points_ascii)
qed

lemma evm_address_text_eq: "evm_address_text dest = utf8_encode (js ''0x'' @ toHex dest)"
proof -
  have "\<forall>n \<in> set [0..<16]. ucast (hexc n) = hex_nibble (word_of_nat n)" by code_simp
  then have n: "n < 16 \<Longrightarrow> ucast (hexc n) = hex_nibble (word_of_nat n)" for n by simp
  have "drop_bit 4 b = (word_of_nat (unat b div 16) :: byte)" "b AND 15 = (word_of_nat (unat b mod 16) :: byte)" for b :: byte
  proof -
    have "unat (drop_bit 4 b) = unat b div 16" by (simp add: drop_bit_eq_div unat_div)
    then show "drop_bit 4 b = (word_of_nat (unat b div 16) :: byte)" by (metis of_nat_unat ucast_id)
    have "b AND 15 = take_bit 4 b" by (simp add: take_bit_eq_mask mask_eq_exp_minus_1)
    then have "unat (b AND 15) = unat b mod 16" by (simp add: take_bit_eq_mod unat_mod)
    then show "b AND 15 = (word_of_nat (unat b mod 16) :: byte)" by (metis of_nat_unat ucast_id)
  qed
  then have b: "map ucast (toHex [b]) = [hex_nibble (drop_bit 4 b), hex_nibble (b AND 15)]" for b :: byte
    using n [of "unat b div 16"] n [of "unat b mod 16"] unat_byte_bound [of b] by simp
  have "map ucast (toHex dest) = concat (map (\<lambda>b. [hex_nibble (drop_bit 4 b), hex_nibble (b AND 15)]) dest)"
  proof (induction dest)
    case (Cons x xs)
    have "toHex (x # xs) = toHex [x] @ toHex xs" using toHex_append [of "[x]" xs] by simp
    with Cons b show ?case by (simp del: toHex_Cons)
  qed simp
  moreover have "list_all (\<lambda>u. unat u < 128) (js ''0x'' @ toHex dest)" using toHex_ascii [of dest] by simp
  ultimately show ?thesis by (simp add: map_ucast_utf8 evm_address_text_def)
qed

text \<open>What the encoded list admits is what the program pays, on the chains whose texts agree.\<close>

lemma admitted_payments:
  assumes "pt_kind t \<in> {0, 1, 5}"
  shows "list_admits (platform.truncate pf) t a (payment_key pf t dest) \<longleftrightarrow> \<not> allow_on a
    \<or> (\<exists>x \<in> set (allow_addresses a). entry_names pf t x dest \<or> entry_collides pf t x dest)"
proof -
  have "target_key (platform.truncate pf) t x = Inr (payment_key pf t dest) \<longleftrightarrow> entry_names pf t x dest \<or> entry_collides pf t x dest" for x
  proof (cases "pt_kind t = 0")
    case True
    then show ?thesis
      by (simp add: target_key_def payment_key_def entry_names_def entry_collides_def pubkey_def platform.defs split: option.splits)
  next
    case False
    have "utf8_encode (trim x) = evm_address_text dest \<longleftrightarrow> trim x = js ''0x'' @ toHex dest"
      using utf8_encode_ascii_inj [of "js ''0x'' @ toHex dest" "trim x"] toHex_ascii [of dest]
      by (auto simp: evm_address_text_eq)
    with False show ?thesis
      by (auto simp: target_key_def payment_key_def entry_names_def entry_collides_def textCommitment_def
          evm_address_text_commitment_def platform.defs)
  qed
  then show ?thesis by (simp add: list_admits_def)
qed

lemma trim_trim [simp]: "trim (trim s) = trim s"
proof (rule trim_id)
  define d where "d = dropWhile js_space s"
  have t: "trim s = rev (dropWhile js_space (rev d))" by (simp add: trim_def rstrip_def d_def)
  have "d = trim s @ rev (takeWhile js_space (rev d))"
    unfolding t rev_append [symmetric] takeWhile_dropWhile_id rev_rev_ident ..
  then obtain x where x: "d = trim s @ x" by blast
  then have h: "trim s \<noteq> [] \<Longrightarrow> hd (trim s) = hd d \<and> d \<noteq> []" by simp
  show "trim s = [] \<or> (\<not> js_space (hd (trim s)) \<and> \<not> js_space (last (trim s)))"
  proof (cases "trim s = []")
    case False
    then have "\<not> js_space (last (trim s))"
      using hd_dropWhile [of js_space "rev d"] by (simp add: t last_rev)
    moreover have "\<not> js_space (hd d)" using h [OF False] hd_dropWhile [of js_space s] by (simp add: d_def)
    ultimately show ?thesis using h [OF False] by simp
  qed simp
qed

lemma emap_members: "emap f xs = Inr ys \<Longrightarrow> y \<in> set ys \<longleftrightarrow> (\<exists>x \<in> set xs. f x = Inr y)"
  by (induction xs arbitrary: ys) (auto simp: ebind_Inr_iff)

text \<open>The limits of a plan without conditions: the guard alone decides on recipients.\<close>

lemma guard_only:
  assumes "conditions plan = []" "\<not> is_deny plan" "recipientGuard plan = saved_guard a"
    and p: "intended_policy pf as key plan = Inr p"
    and norm: "\<And>x y. normalize as x = Inr y \<Longrightarrow> key y = tk x" and total: "\<And>x. \<exists>y. normalize as x = Inr y"
  shows "(enforce_recipient p r = Inr () \<longleftrightarrow> \<not> allow_on a \<or> (\<exists>x \<in> set (allow_addresses a). tk x = Inr r))
    \<and> allowed_time p = map_option seen_window (allowedTimeWindow plan) \<and> advanced_rules p = None"
proof -
  obtain s rs where s: "start_limits as plan = Inr s" and rs: "emap key (dedupe (recipients s)) = Inr rs"
      and q: "pmode p = mode s" "precipients p = rs" "allowed_time p = map_option seen_window (allowedTimeWindow plan)" "advanced_rules p = None"
    using p assms(1,2) by (auto simp: intended_policy_def plan_limits_def err_simps rs_extensions_t.defs seen_extensions_def Let_def)
  have m: "mode s = (if allow_on a then 1 else 0)"
    using s assms(2,3) by (auto simp: start_limits_def err_simps Let_def saved_guard_def list_mode_def)
  show ?thesis
  proof (cases "allow_on a")
    case True
    then have e: "emap (normalize as) (allow_addresses a) = Inr (recipients s)"
      using s assms(2,3) by (auto simp: start_limits_def err_simps Let_def saved_guard_def)
    have "r \<in> set rs \<longleftrightarrow> (\<exists>y \<in> set (recipients s). key y = Inr r)" using emap_members [OF rs] by simp
    also have "\<dots> \<longleftrightarrow> (\<exists>x \<in> set (allow_addresses a). tk x = Inr r)"
      using emap_members [OF e] norm total by metis
    finally show ?thesis using q m True by (simp add: enforce_recipient_def)
  next
    case False
    with q m show ?thesis by (simp add: enforce_recipient_def)
  qed
qed

lemma sol_normalize: "normalize sol_asset = Inr"
  by (simp add: sol_asset_def)

lemma chain_normalize: "normalize (remote_asset pf (chain_options t)) = (\<lambda>v. Inr (trim v))"
  "remote_key pf (chain_options t) = (\<lambda>v. Inr (textCommitment pf v))"
  by (simp_all add: remote_asset_def remote_key_def chain_options_def)

text \<open>The hours of the settings: with no day chosen the end is the start, and no hour is inside.\<close>

lemma hours_agree:
  assumes "list_all (\<lambda>d. 0 \<le> d \<and> d \<le> 6) (tw_days w)"
  shows "(case map_option seen_window (saved_window tz w) of None \<Rightarrow> True | Some v \<Rightarrow> allows_timestamp v t)
    \<longleftrightarrow> isInsideTimeWindow w (local_hour tz t) (local_day tz t)"
proof (cases "tw_enabled w")
  case True
  define a where "a = \<lparr>startHour = tw_start w, endHour = (if tw_days w = [] then tw_start w else tw_end w),
        daysOfWeek = tw_days w, utcOffsetMinutes = tz\<rparr>"
  have "saved_window tz w = Some a" using True by (simp add: saved_window_def a_def)
  moreover have "allows_timestamp (seen_window a) t = matchTimeWindow (startHour a) (endHour a) (tw_days w) Inside (local_hour tz t) (local_day tz t)"
    using allows_timestamp_match [of a t] assms by (simp add: a_def)
  ultimately show ?thesis using True by (auto simp: matchTimeWindow_def isInsideTimeWindow_def a_def)
qed (simp add: saved_window_def isInsideTimeWindow_def)

section \<open>The policy of a target\<close>

lemma compiled_nonempty:
  "compileAdvancedPolicyRules pf tz oj shape w target = Inr out \<Longrightarrow> payload out = Some rules \<Longrightarrow> rules \<noteq> []"
  by (auto simp: compileAdvancedPolicyRules_def err_simps Let_def w8_def split: if_splits)

lemma append_empty:
  "appendPolicyExtension pf None tag rules =
     appendPolicyExtension pf (Some \<lparr>pbytes = emptyPolicyBytes, hex = [], commitmentHex = []\<rparr>) tag rules"
  by (simp add: appendPolicyExtension_def)

lemma append_rules_bytes:
  assumes "appendPolicyExtension pf o' EXT_ADVANCED_RULES rules = Inr f" "rules \<noteq> []"
    and "rs_parse (case o' of None \<Rightarrow> emptyPolicyBytes | Some e \<Rightarrow> pbytes e) = Inr p" "advanced_rules p = None"
  shows "rs_parse (pbytes f) = Inr (p\<lparr>advanced_rules := Some rules\<rparr>)"
proof (cases o')
  case (Some e)
  with assms show ?thesis by (intro append_rules_read [of e]) (simp_all add: EXT_ADVANCED_RULES_def)
next
  case None
  with assms show ?thesis
    by (intro append_rules_read [of "\<lparr>pbytes = emptyPolicyBytes, hex = [], commitmentHex = []\<rparr>"])
      (simp_all add: EXT_ADVANCED_RULES_def append_empty)
qed

text \<open>The asset a target is encoded as, and the keys of its recipients.\<close>

definition target_asset :: "platform \<Rightarrow> PolicyTarget \<Rightarrow> asset" where
  "target_asset pf t = (if pt_kind t = 0 then sol_asset else remote_asset pf (chain_options t))"

definition target_encoder :: "platform \<Rightarrow> PolicyTarget \<Rightarrow> jsstr \<Rightarrow> bytes res" where
  "target_encoder pf t = (if pt_kind t = 0 then pubkey pf else remote_key pf (chain_options t))"

lemma nothing_intended:
  assumes "plan_limits pf a plan = Inr s" "nothing_to_enforce plan s" "conditions plan = []" "\<not> is_deny plan"
  shows "intended_policy pf a key plan = Inr (rs_extensions_t.extend no_extensions
    \<lparr>pmode = 0, max_amount = 0, extra_cooldown_seconds = 0, precipients = [], required_approvers = []\<rparr>)"
proof -
  have "recipients s = []" "mode s = 0" "maxAmount s = 0" "velocityCap s = 0"
    using assms by (auto simp: plan_limits_def start_limits_def err_simps Let_def nothing_to_enforce_def list_mode_def
        split: option.splits ListMode.splits)
  with assms(1,2,4) show ?thesis
    by (simp add: intended_policy_def nothing_to_enforce_def seen_extensions_def no_extensions_def dedupe_def Let_def)
qed

text \<open>What the program reads of the encoded plan, before the rules.\<close>

lemma plan_read:
  assumes k: "keys_32 pf" and tz: "- 840 \<le> tz" "tz \<le> 840" and scope: "pt_scope t = ChainScope"
    and track: "track_velocity adv (personalPlanForTarget num_text tz st w t) = Inr plan"
    and e: "encodeForTarget pf plan t = Inr o'"
  shows "\<exists>p. rs_parse (case o' of None \<Rightarrow> emptyPolicyBytes | Some e \<Rightarrow> pbytes e) = Inr p
    \<and> (\<forall>r. enforce_recipient p r = Inr () \<longleftrightarrow> list_admits pf t (getAllowlist w (pt_kind t) (allowlists st)) r)
    \<and> allowed_time p = map_option seen_window (saved_window tz (getTimeWindow w (time_windows st)))
    \<and> advanced_rules p = None \<and> stands_for pf (target_asset pf t) (target_encoder pf t) plan p"
proof -
  let ?a = "getAllowlist w (pt_kind t) (allowlists st)"
  have plan: "conditions plan = []" "\<not> is_deny plan" "recipientGuard plan = saved_guard ?a"
      "allowedTimeWindow plan = saved_window tz (getTimeWindow w (time_windows st))"
    using tracked_plan [OF track] by (simp_all add: personalPlanForTarget_def is_deny_def Let_def)
  have off: "offset_ok plan" using tz plan(4) by (auto simp: offset_ok_def saved_window_def)
  let ?as = "target_asset pf t" and ?key = "target_encoder pf t"
  have enc: "encodeForTarget pf plan t = (if pt_kind t = 0 then encodeTypedSolPolicy pf plan
      else encodeTypedRemoteSendPolicy pf plan (chain_options t))"
    using scope by (simp add: encodeForTarget_def)
  obtain p where p: "intended_policy pf ?as ?key plan = Inr p"
      "rs_parse (case o' of None \<Rightarrow> emptyPolicyBytes | Some e \<Rightarrow> pbytes e) = Inr p"
  proof (cases o')
    case (Some f)
    show thesis
    proof (cases "pt_kind t = 0")
      case True
      with sol_policy_read [OF k off] e Some that show thesis by (auto simp: enc target_asset_def target_encoder_def)
    next
      case False
      with remote_policy_read [OF k off, of "chain_options t" f] e Some that show thesis
        by (auto simp: enc target_asset_def target_encoder_def)
    qed
  next
    case None
    obtain s where s: "plan_limits pf ?as plan = Inr s" "nothing_to_enforce plan s"
      using e None by (auto simp: enc target_asset_def encodeTypedSolPolicy_def encodeTypedRemoteSendPolicy_def err_simps Let_def split: if_splits)
    from nothing_intended [OF s plan(1,2), of ?key] empty_policy_read that None show thesis by simp
  qed
  have n: "normalize ?as x = Inr y \<Longrightarrow> ?key y = target_key pf t x" "\<exists>y. normalize ?as x = Inr y" for x y
    by (auto simp: target_asset_def target_encoder_def target_key_def sol_normalize chain_normalize textCommitment_def split: if_splits)
  from guard_only [OF plan(1-3) p(1) n] p(2) plan(4) intended_stands [OF p(1)] show ?thesis by (auto simp: list_admits_def)
qed

lemma target_read:
  assumes k: "keys_32 (platform.truncate pf)" and tz: "- 840 \<le> tz" "tz \<le> 840" and scope: "pt_scope t = ChainScope"
    and adv: "advanced_for_target pf tz oj shape w t = Inr adv"
    and e: "target_policy pf num_text tz oj st shape w t = Inr (Some e)"
  shows "\<exists>p q plan. rs_parse (pbytes e) = Inr p
    \<and> (\<forall>r. enforce_recipient p r = Inr () \<longleftrightarrow> list_admits (platform.truncate pf) t (getAllowlist w (pt_kind t) (allowlists st)) r)
    \<and> allowed_time p = map_option seen_window (saved_window tz (getTimeWindow w (time_windows st)))
    \<and> advanced_rules p = payload adv
    \<and> track_velocity adv (personalPlanForTarget num_text tz st w t) = Inr plan
    \<and> stands_for (platform.truncate pf) (target_asset (platform.truncate pf) t) (target_encoder (platform.truncate pf) t) plan q
    \<and> p = q\<lparr>advanced_rules := payload adv\<rparr>"
proof -
  obtain plan o' where o: "track_velocity adv (personalPlanForTarget num_text tz st w t) = Inr plan"
      "encodeForTarget (platform.truncate pf) plan t = Inr o'"
      "case payload adv of None \<Rightarrow> o' = Some e
       | Some rules \<Rightarrow> appendPolicyExtension (platform.truncate pf) o' EXT_ADVANCED_RULES rules = Inr e"
    using e adv by (auto simp: target_policy_def err_simps split: option.splits)
  from plan_read [OF k tz scope o(1,2)] obtain p where p:
      "rs_parse (case o' of None \<Rightarrow> emptyPolicyBytes | Some e \<Rightarrow> pbytes e) = Inr p"
      "\<forall>r. enforce_recipient p r = Inr () \<longleftrightarrow> list_admits (platform.truncate pf) t (getAllowlist w (pt_kind t) (allowlists st)) r"
      "allowed_time p = map_option seen_window (saved_window tz (getTimeWindow w (time_windows st)))" "advanced_rules p = None"
      "stands_for (platform.truncate pf) (target_asset (platform.truncate pf) t) (target_encoder (platform.truncate pf) t) plan p"
    by blast
  have "rs_parse (pbytes e) = Inr (p\<lparr>advanced_rules := payload adv\<rparr>)"
  proof (cases "payload adv")
    case None
    moreover have "p\<lparr>advanced_rules := None\<rparr> = p" using p(4) by (cases p) simp
    ultimately show ?thesis using o(3) p(1) by simp
  next
    case (Some rules)
    have "rules \<noteq> []" using adv Some compiled_nonempty scope by (auto simp: advanced_for_target_def)
    with o(3) Some show ?thesis using append_rules_bytes [OF _ _ p(1,4)] by simp
  qed
  moreover have "enforce_recipient (p\<lparr>advanced_rules := x\<rparr>) r = enforce_recipient p r" for x r
  proof -
    have "pmode (p\<lparr>advanced_rules := x\<rparr>) = pmode p" "precipients (p\<lparr>advanced_rules := x\<rparr>) = precipients p"
      by simp_all
    then show ?thesis by (simp only: enforce_recipient_def)
  qed
  ultimately show ?thesis
    by (intro exI [of _ "p\<lparr>advanced_rules := payload adv\<rparr>"] exI [of _ p] exI [of _ plan]) (simp add: p(2,3,5) o(1))
qed

lemma recovered_policy:
  "recover_policy pf b58enc kind active ds = Some (h, c) \<Longrightarrow>
     c = active \<and> h \<noteq> [] \<and> (\<exists>bs. fromHex h = Inr bs \<and> policyCommitmentHex pf bs = Inr c)"
  by (induction ds)
    (auto simp: executed_policy_def err_simps split: sum.splits option.splits if_splits)

lemma local_policy:
  assumes "buildPersistentPersonalPolicyTargets pf num_text tz oj st shape w = Inr targets"
    and "persistentSendPolicyForChain targets kind = Some (h, c)"
  shows "h \<noteq> [] \<and> (\<exists>bs. fromHex h = Inr bs \<and> policyCommitmentHex (platform.truncate pf) bs = Inr c)"
proof -
  obtain p where p: "p \<in> set targets" "pp_bytesHex p = h" "pp_commitmentHex p = c" "h \<noteq> []"
    using assms(2) by (auto simp: persistentSendPolicyForChain_def find_Some_iff split: option.splits if_splits) (metis nth_mem)
  then obtain t where "ebind (target_policy pf num_text tz oj st shape w t) (\<lambda>e. Inr (persistent_target t e)) = Inr p"
    using emap_members [OF assms(1) [unfolded buildPersistentPersonalPolicyTargets_def]] by blast
  then obtain e where e: "target_policy pf num_text tz oj st shape w t = Inr e" "p = persistent_target t e" by (auto simp: err_simps)
  with p obtain f where "e = Some f" "h = hex f" "c = commitmentHex f" by (cases e) (auto simp: persistent_target_def)
  with e(1) p(4) target_policy_texts show ?thesis by (auto simp: policy_texts_ok_def fromHex_toHex)
qed

section \<open>Examples\<close>

text \<open>A wallet with a recipient for SOL, one for BTC and hours on Monday and Friday, and no rules.\<close>

definition sample_settings :: settings where
  "sample_settings = \<lparr>allowlists = saveAllowlist [] (Some 2) True [js ''tb1q''] 0 (saveAllowlist [] None True [js ''A''] 0 []),
     time_windows = saveTimeWindow [] True (Some 9) (Some 17) [Some 5, Some 1] 0 [], allowances = [], budgets = []\<rparr>"

lemma sample_reachable: "settings_reachable sample_settings"
proof -
  let ?a = "no_settings\<lparr>allowlists := saveAllowlist [] None True [js ''A''] 0 (allowlists no_settings)\<rparr>"
  let ?b = "?a\<lparr>allowlists := saveAllowlist [] (Some 2) True [js ''tb1q''] 0 (allowlists ?a)\<rparr>"
  let ?c = "?b\<lparr>time_windows := saveTimeWindow [] True (Some 9) (Some 17) [Some 5, Some 1] 0 (time_windows ?b)\<rparr>"
  have a: "settings_step\<^sup>*\<^sup>* no_settings ?a" by (rule r_into_rtranclp [of settings_step]) (rule settings_step.allowlist)
  have b: "settings_step\<^sup>*\<^sup>* no_settings ?b" by (rule rtranclp.rtrancl_into_rtrancl [OF a]) (rule settings_step.allowlist)
  have "settings_step\<^sup>*\<^sup>* no_settings ?c" by (rule rtranclp.rtrancl_into_rtrancl [OF b]) (rule settings_step.hours)
  moreover have "?c = sample_settings" by (simp add: sample_settings_def no_settings_def)
  ultimately show ?thesis unfolding settings_reachable_def by simp
qed

lemma sample_lists:
  "getAllowlist [] 0 (allowlists sample_settings) = allowlist_record [] None True [[65]] 0"
  "getAllowlist [] 2 (allowlists sample_settings) = allowlist_record [] (Some 2) True [js ''tb1q''] 0"
  "getTimeWindow [] (time_windows sample_settings) = \<lparr>tw_wallet = [], tw_enabled = True, tw_start = 9, tw_end = 17, tw_days = [1, 5], tw_updated = 0\<rparr>"
  "budgets sample_settings = []" "allowances sample_settings = []"
  by (simp_all add: sample_settings_def getAllowlist_save getTimeWindow_save normalizeChainKind_def js_integer_def
      window_record_def clampHour_def week_day_def List.map_filter_def dedupe_def)

definition sample_plan :: "int \<Rightarrow> jsstr \<Rightarrow> PolicyEnforcementPlan" where
  "sample_plan tz x = \<lparr>evaluation = None, conditions = [], extraApprovers = [], extraCooldownSeconds = 0,
     recipientGuard = Some (Allowlist, [x]),
     allowedTimeWindow = Some \<lparr>startHour = 9, endHour = 17, daysOfWeek = [1, 5], utcOffsetMinutes = tz\<rparr>,
     onchainLimits = \<lparr>velocityCapDisplay = None, velocityWindowSeconds = 604800, maxSendCount = 0, countWindowSeconds = 86400\<rparr>,
     memberAllowances = []\<rparr>"

lemma sample_plans:
  "personalPlanForTarget num_text tz sample_settings [] (chain_target T_SOL 0 9) = sample_plan tz [65]"
  "personalPlanForTarget num_text tz sample_settings [] (chain_target T_BTC 2 8) = sample_plan tz (js ''tb1q'')"
  unfolding personalPlanForTarget_def chain_target_def
  by (simp_all add: sample_lists sample_plan_def saved_guard_def saved_window_def allowlist_record_def dedupe_def native_cap_def
      send_count_def loadMemberAllowancesForChain_def getBudget_def get_row_def listAllowances_def)

lemma no_rules: "advanced_for_target pf tz oj (\<lambda>_. None) w t = Inr \<lparr>payload = None, trackingVelocity = None\<rparr>"
  by (simp add: advanced_for_target_def compileAdvancedPolicyRules_def listPolicies_def wallet_rules_def or_empty_def)

definition sample_pf :: platform where
  "sample_pf = example_pf\<lparr>sha256 := (\<lambda>_. replicate 32 0)\<rparr>"

lemma sample_platform: "platform.truncate example_chain = sample_pf" "hash_32 example_chain" "keys_32 sample_pf"
  using example_platform by (simp_all add: hash_32_def sample_pf_def example_chain_def keys_32_def platform.defs)

lemma sample_limits:
  assumes "normalize a x = Inr y"
  shows "plan_limits pf a (sample_plan tz x) = Inr \<lparr>mode = 1, recipients = [y], maxAmount = 0, velocityCap = 0, velocityWindow = 0\<rparr>"
  using assms by (simp add: plan_limits_def start_limits_def sample_plan_def is_deny_def list_mode_def parse_or_zero_def truthy_def)

lemma sample_pushes:
  assumes "length k = 32"
  shows "\<exists>bs. pushes (header_writes (sample_plan 60 x)
      \<lparr>mode = 1, recipients = [y], maxAmount = 0, velocityCap = 0, velocityWindow = 0\<rparr> 1
     @ pushRaw k # extension_writes pf a (sample_plan 60 x)
      \<lparr>mode = 1, recipients = [y], maxAmount = 0, velocityCap = 0, velocityWindow = 0\<rparr>) [] = Inr bs \<and> length bs < 2 ^ 32"
proof -
  have "day_bits [1, 5] = Inr 34" by code_simp
  then show ?thesis
    using assms by (simp add: header_writes_def extension_writes_def sample_plan_def count_window_def push_forward
        writeAllowedTimeExtension_def writeMemberAllowanceExtension_def MAGIC_def del: le_bytes.simps)
qed

lemma sample_encoders:
  "\<exists>e. encodeTypedSolPolicy sample_pf (sample_plan 60 [65]) = Inr (Some e)"
  "\<exists>e. encodeTypedRemoteSendPolicy sample_pf (sample_plan 60 x) (chain_options t) = Inr (Some e)"
proof -
  have k: "pushPubkey sample_pf [65] = pushRaw (replicate 32 1)" "pushRaw32 (replicate 32 0) = pushRaw (replicate 32 0)"
    by (auto simp: pushPubkey_def pubkey_def sample_pf_def example_pf_def pushRaw32_def fun_eq_iff)
  have n: "extraApprovers (sample_plan 60 x) = []" "\<not> nothing_to_enforce (sample_plan 60 x) s" for x s
    by (simp_all add: sample_plan_def nothing_to_enforce_def)
  define s where "s = (\<lambda>y :: jsstr. \<lparr>mode = 1, recipients = [y], maxAmount = 0, velocityCap = 0, velocityWindow = 0\<rparr>)"
  obtain bs e where b: "pushes (header_writes (sample_plan 60 [65]) (s [65]) 1
     @ pushRaw (replicate 32 1) # extension_writes sample_pf sol_asset (sample_plan 60 [65]) (s [65])) [] = Inr bs"
    and e: "encoded_policy sample_pf bs = Inr e"
    using sample_pushes [OF length_replicate [of 32 1], of "[65]" "[65]" sample_pf sol_asset] encoded_policy_total [of _ sample_pf]
    unfolding s_def by blast
  have l: "plan_limits sample_pf sol_asset (sample_plan 60 [65]) = Inr (s [65])"
    unfolding s_def by (rule sample_limits) (simp add: sol_normalize)
  have r: "recipients (s y) = [y]" for y by (simp add: s_def)
  have "encodeTypedSolPolicy sample_pf (sample_plan 60 [65]) = Inr (Some e)"
    unfolding encodeTypedSolPolicy_def l ebind_simps Let_def using b e
    by (simp add: r k n assertPolicyKeyCounts_def del: pushes_simps)
  then show "\<exists>e. encodeTypedSolPolicy sample_pf (sample_plan 60 [65]) = Inr (Some e)" by blast
  let ?a = "remote_asset sample_pf (chain_options t)"
  obtain bs e where b: "pushes (header_writes (sample_plan 60 x) (s (trim x)) 1
     @ pushRaw (replicate 32 0) # extension_writes sample_pf ?a (sample_plan 60 x) (s (trim x))) [] = Inr bs"
    and e: "encoded_policy sample_pf bs = Inr e"
    using sample_pushes [OF length_replicate [of 32 0], of x "trim x" sample_pf ?a] encoded_policy_total [of _ sample_pf]
    unfolding s_def by blast
  have l: "plan_limits sample_pf ?a (sample_plan 60 x) = Inr (s (trim x))"
    unfolding s_def by (rule sample_limits) (simp add: chain_normalize)
  have c: "textCommitment sample_pf y = replicate 32 0" for y by (simp add: textCommitment_def sample_pf_def)
  have "encodeTypedRemoteSendPolicy sample_pf (sample_plan 60 x) (chain_options t) = Inr (Some e)"
    unfolding encodeTypedRemoteSendPolicy_def Let_def l ebind_simps using b e
    by (simp add: r k n c chain_normalize assertPolicyKeyCounts_def del: pushes_simps)
  then show "\<exists>e. encodeTypedRemoteSendPolicy sample_pf (sample_plan 60 x) (chain_options t) = Inr (Some e)" by blast
qed

lemma sample_encodes:
  "\<exists>e. target_policy example_chain num_text 60 oj sample_settings (\<lambda>_. None) [] (chain_target T_SOL 0 9) = Inr (Some e)"
  "\<exists>e. target_policy example_chain num_text 60 oj sample_settings (\<lambda>_. None) [] (chain_target T_BTC 2 8) = Inr (Some e)"
proof -
  have t: "pt_scope (chain_target x k d) = ChainScope" "pt_kind (chain_target x k d) = k" for x k d
    by (simp_all add: chain_target_def)
  show "\<exists>e. target_policy example_chain num_text 60 oj sample_settings (\<lambda>_. None) [] (chain_target T_SOL 0 9) = Inr (Some e)"
    using sample_encoders(1)
    by (auto simp: target_policy_def no_rules track_velocity_def sample_plans encodeForTarget_def sample_platform t)
  show "\<exists>e. target_policy example_chain num_text 60 oj sample_settings (\<lambda>_. None) [] (chain_target T_BTC 2 8) = Inr (Some e)"
    using sample_encoders(2) [of "js ''tb1q''" "chain_target T_BTC 2 8"]
    by (auto simp: target_policy_def no_rules track_velocity_def sample_plans encodeForTarget_def sample_platform t simp del: js_simps)
qed

text \<open>A wallet with nothing but a recipient for ETH, on a platform that knows every key.\<close>

definition total_chain :: chain_platform where
  "total_chain = platform.extend \<lparr>publicKey = (\<lambda>_. Some (replicate 32 1)), toBase58 = (\<lambda>_. []), sha256 = (\<lambda>_. replicate 32 1),
     toUpperCase = (\<lambda>s. s)\<rparr> \<lparr>toLowerCase = (\<lambda>s. s), bs58 = (\<lambda>_. None)\<rparr>"

definition eth_settings :: settings where
  "eth_settings = no_settings\<lparr>allowlists := saveAllowlist [] (Some 1) True [[65]] 0 []\<rparr>"

definition quiet_plan :: "(ListMode \<times> jsstr list) option \<Rightarrow> PolicyEnforcementPlan" where
  "quiet_plan g = \<lparr>evaluation = None, conditions = [], extraApprovers = [], extraCooldownSeconds = 0, recipientGuard = g,
     allowedTimeWindow = None,
     onchainLimits = \<lparr>velocityCapDisplay = None, velocityWindowSeconds = 604800, maxSendCount = 0, countWindowSeconds = 86400\<rparr>,
     memberAllowances = []\<rparr>"

lemma eth_lists:
  "getAllowlist [] k (allowlists eth_settings) = (if k = 1 then allowlist_record [] (Some 1) True [[65]] 0 else getAllowlist [] k [])"
  "allow_on (getAllowlist w k []) = False" "tw_enabled (getTimeWindow w (time_windows eth_settings)) = False"
  "getBudget w (budgets eth_settings) = None" "listAllowances v (allowances eth_settings) = []"
  by (simp_all add: eth_settings_def getAllowlist_save normalizeChainKind_def js_integer_def no_settings_def)
    (simp_all add: getAllowlist_def getTimeWindow_def getBudget_def get_row_def listAllowances_def)

lemma eth_plans:
  "personalPlanForTarget num_text tz eth_settings [] t = quiet_plan (if pt_kind t = 1 then Some (Allowlist, [[65]]) else None)"
  by (simp add: personalPlanForTarget_def eth_lists quiet_plan_def saved_guard_def saved_window_def native_cap_def send_count_def
      loadMemberAllowancesForChain_def) (simp add: allowlist_record_def dedupe_def)

lemma quiet_limits: "plan_limits pf a (quiet_plan None) = Inr \<lparr>mode = 0, recipients = [], maxAmount = 0, velocityCap = 0, velocityWindow = 0\<rparr>"
  by (simp add: plan_limits_def start_limits_def quiet_plan_def is_deny_def parse_or_zero_def truthy_def)

lemma quiet_encoders:
  "encodeTypedSolPolicy pf (quiet_plan None) = Inr None"
  "encodeTypedRemoteSendPolicy pf (quiet_plan None) opts = Inr None"
  by (simp_all add: encodeTypedSolPolicy_def encodeTypedRemoteSendPolicy_def quiet_limits nothing_to_enforce_def
      assertPolicyKeyCounts_def Let_def dedupe_def) (simp_all add: quiet_plan_def is_deny_def)

lemma eth_encodes:
  assumes "\<And>x. length (sha256 pf x) = 32"
  shows "\<exists>e. encodeTypedRemoteSendPolicy pf (quiet_plan (Some (Allowlist, [[65]]))) (chain_options t) = Inr (Some e) \<and> hex e \<noteq> []"
proof -
  let ?a = "remote_asset pf (chain_options t)" and ?q = "quiet_plan (Some (Allowlist, [[65]]))"
  define s where "s = \<lparr>mode = 1, recipients = [[65 :: 16 word]], maxAmount = 0, velocityCap = 0, velocityWindow = 0\<rparr>"
  have tr: "trim [65] = [65]" by (rule trim_id) (simp add: js_space_def)
  have l: "plan_limits pf ?a ?q = Inr s"
    by (simp add: plan_limits_def start_limits_def quiet_plan_def is_deny_def parse_or_zero_def truthy_def chain_normalize list_mode_def s_def tr)
  have n: "extraApprovers ?q = []" "\<not> nothing_to_enforce ?q s" "recipients s = [[65]]"
    by (simp_all add: quiet_plan_def nothing_to_enforce_def s_def)
  have "\<exists>bs. pushes (header_writes ?q s 1 @ pushRaw32 (textCommitment pf [65]) # extension_writes pf ?a ?q s) [] = Inr bs \<and> length bs < 2 ^ 32 \<and> bs \<noteq> []"
    using assms by (simp add: header_writes_def extension_writes_def quiet_plan_def s_def count_window_def push_forward pushRaw32_def
        textCommitment_def writeAllowedTimeExtension_def writeMemberAllowanceExtension_def MAGIC_def del: le_bytes.simps)
  then obtain bs e where b: "pushes (header_writes ?q s 1 @ pushRaw32 (textCommitment pf [65]) # extension_writes pf ?a ?q s) [] = Inr bs"
      and e: "encoded_policy pf bs = Inr e" "bs \<noteq> []"
    using encoded_policy_total by blast
  have "encodeTypedRemoteSendPolicy pf ?q (chain_options t) = Inr (Some e)"
    unfolding encodeTypedRemoteSendPolicy_def Let_def l ebind_simps using b e
    by (simp add: n chain_normalize assertPolicyKeyCounts_def del: pushes_simps)
  moreover have "hex e \<noteq> []"
    using e encoded_policy_texts [OF e(1)] toHex_inj [of bs "[]"] by (simp add: policy_texts_ok_def toHex_def)
  ultimately show ?thesis by blast
qed

lemma asset_encodes:
  assumes "publicKey pf mint = Some m" "length m = 32"
  shows "\<exists>e. encodeTypedSplAssetPolicy pf (quiet_plan None) mint d t = Inr e"
proof -
  have "\<exists>e. encoded_policy pf (CSP2_MAGIC @ [word_of_int SPL_ASSET_POLICY_SCOPE] @ [word_of_int d] @ m @ emptyPolicyBytes) = Inr e"
    using encoded_policy_total [of "CSP2_MAGIC @ [word_of_int SPL_ASSET_POLICY_SCOPE] @ [word_of_int d] @ m @ emptyPolicyBytes" pf] assms(2)
    by (auto simp: CSP2_MAGIC_def emptyPolicyBytes_def MAGIC_def)
  then show ?thesis using assms(1) by (simp add: encodeTypedSplAssetPolicy_def pubkey_def quiet_encoders)
qed

lemma ebind_Inr_right: "ebind m Inr = m"
  by (cases m) simp_all

lemma eth_targets:
  "\<exists>targets h c. buildPersistentPersonalPolicyTargets total_chain num_text tz oj eth_settings (\<lambda>_. None) [] = Inr targets
     \<and> persistentSendPolicyForChain targets 1 = Some (h, c)"
proof -
  let ?pf = "platform.truncate total_chain"
  let ?tp = "target_policy total_chain num_text tz oj eth_settings (\<lambda>_. None) []"
  have p: "?tp t = encodeForTarget ?pf (quiet_plan (if pt_kind t = 1 then Some (Allowlist, [[65]]) else None)) t" for t
    by (simp add: target_policy_def no_rules track_velocity_def eth_plans ebind_Inr_right)
  have quiet: "?tp (chain_target x k d) = Inr None" if "k \<noteq> 1" for x k d
    unfolding p using that by (simp add: chain_target_def encodeForTarget_def quiet_encoders)
  have "\<exists>e. ?tp (chain_target T_ETH 1 18) = Inr (Some e) \<and> hex e \<noteq> []"
    unfolding p using eth_encodes [of ?pf "chain_target T_ETH 1 18"]
    by (simp add: chain_target_def encodeForTarget_def total_chain_def platform.defs)
  then obtain e where e: "?tp (chain_target T_ETH 1 18) = Inr (Some e)" "hex e \<noteq> []" by blast
  let ?usdc = "\<lparr>pt_ticker = T_USDC, pt_kind = 0, pt_decimals = 6, pt_scope = AssetScope, pt_asset = Some SOLANA_DEVNET_USDC_MINT\<rparr>"
  obtain u where "encodeTypedSplAssetPolicy ?pf (quiet_plan None) SOLANA_DEVNET_USDC_MINT 6 (ticker_name T_USDC) = Inr u"
    using asset_encodes [of ?pf SOLANA_DEVNET_USDC_MINT "replicate 32 1"] by (auto simp: total_chain_def platform.defs)
  then have "?tp ?usdc = Inr (Some u)"
    unfolding p by (simp add: encodeForTarget_def truthy_def or_empty_def SOLANA_DEVNET_USDC_MINT_def)
  with e quiet have t: "buildPersistentPersonalPolicyTargets total_chain num_text tz oj eth_settings (\<lambda>_. None) []
      = Inr [persistent_target (chain_target T_SOL 0 9) None, persistent_target ?usdc (Some u),
        persistent_target (chain_target T_ETH 1 18) (Some e), persistent_target (chain_target T_BTC 2 8) None,
        persistent_target (chain_target T_ZEC 3 8) None, persistent_target (chain_target T_HYPE 5 18) None]"
    by (simp add: buildPersistentPersonalPolicyTargets_def POLICY_TARGETS_def)
  with t e(2) show ?thesis by (simp add: persistentSendPolicyForChain_def persistent_target_def chain_target_def)
qed

section \<open>Properties\<close>

text \<open>
  C2: What the settings pages of a wallet hold is what the program enforces for SOL, ETH and HYPE.
  It pays a recipient exactly when the list is off or an entry names it: by its base58 text on
  Solana, by the lower-case hexadecimal text of its address otherwise (or has the hash of that
  text, a collision of SHA-256).  It pays exactly in the hours the page calls inside, and of the
  rules of the wallet, when each is one the program takes (\<open>rule_fits\<close>), it applies to every transfer the
  first that holds, with its action, approvers and cooldown.  The texts that are sent stand for these bytes.
\<close>

theorem saved_protection_enforced:
  assumes "hash_32 pf" "- 840 \<le> tz" "tz \<le> 840" "settings_reachable st" "pt_scope t = ChainScope" "pt_kind t \<in> {0, 1, 5}"
    and "list_all (rule_fits oj (pt_decimals t)) (listPolicies w shape)"
    and "target_policy pf num_text tz oj st shape w t = Inr (Some e)"
  shows "\<exists>p. fromHex (hex e) = Inr (pbytes e) \<and> rs_parse (pbytes e) = Inr p
    \<and> (\<forall>dest. enforce_recipient p (payment_key pf t dest) = Inr ()
         \<longleftrightarrow> \<not> allow_on (getAllowlist w (pt_kind t) (allowlists st))
           \<or> (\<exists>x \<in> set (allow_addresses (getAllowlist w (pt_kind t) (allowlists st))). entry_names pf t x dest \<or> entry_collides pf t x dest))
    \<and> (\<forall>now. enforce_allowed_time p now = Inr ()
         \<longleftrightarrow> isInsideTimeWindow (getTimeWindow w (time_windows st)) (local_hour tz now) (local_day tz now))
    \<and> (\<forall>x. transfer_fits x \<longrightarrow> decides_by_rules pf tz oj (advanced_target t) (listPolicies w shape) (advanced_rules p) x)"
proof -
  let ?w = "getTimeWindow w (time_windows st)"
  have k: "keys_32 (platform.truncate pf)" using assms(1) by (simp add: hash_32_def)
  have d: "list_all (\<lambda>d. 0 \<le> d \<and> d \<le> 6) (tw_days ?w)"
    using getTimeWindow_ok [OF reachable_ok [OF assms(4)], of w] by (simp add: hours_ok_def)
  obtain adv where adv: "advanced_for_target pf tz oj shape w t = Inr adv"
    using assms(8) by (auto simp: target_policy_def err_simps)
  then have c: "compileAdvancedPolicyRules pf tz oj shape w (advanced_target t) = Inr adv"
    using assms(5) by (simp add: advanced_for_target_def)
  from target_read [OF k assms(2,3,5) adv assms(8)] obtain p where p: "rs_parse (pbytes e) = Inr p"
      "\<forall>r. enforce_recipient p r = Inr () \<longleftrightarrow> list_admits (platform.truncate pf) t (getAllowlist w (pt_kind t) (allowlists st)) r"
      "allowed_time p = map_option seen_window (saved_window tz ?w)" "advanced_rules p = payload adv" by blast
  have "enforce_allowed_time p now = Inr () \<longleftrightarrow> isInsideTimeWindow ?w (local_hour tz now) (local_day tz now)" for now
    using hours_agree [OF d, where tz = tz and t = now] p(3) by (auto simp: enforce_allowed_time_def split: option.splits)
  moreover have "decides_by_rules pf tz oj (advanced_target t) (listPolicies w shape) (advanced_rules p) x" if "transfer_fits x" for x
    unfolding p(4) using attached_rules_decide [OF assms(1-3) that _ c] assms(7) by (simp add: advanced_target_def)
  moreover have "fromHex (hex e) = Inr (pbytes e)"
    using target_policy_texts [OF assms(8)] by (simp add: policy_texts_ok_def fromHex_toHex)
  ultimately show ?thesis using p(1,2) admitted_payments [OF assms(6)] by blast
qed

theorem saved_protection_enforced_witness:
  "\<exists>e p. target_policy example_chain (\<lambda>_. []) 60 (\<lambda>_. Inr None) sample_settings (\<lambda>_. None) [] (chain_target T_SOL 0 9) = Inr (Some e)
     \<and> rs_parse (pbytes e) = Inr p \<and> enforce_recipient p (replicate 32 1) = Inr () \<and> enforce_recipient p (replicate 32 2) \<noteq> Inr ()
     \<and> enforce_allowed_time p 381600 = Inr () \<and> enforce_allowed_time p 378000 \<noteq> Inr ()
     \<and> advanced_effect (advanced_rules p) (example_transfer 86400) = Inr None"
proof -
  obtain e where e: "target_policy example_chain (\<lambda>_. []) 60 (\<lambda>_. Inr None) sample_settings (\<lambda>_. None) [] (chain_target T_SOL 0 9) = Inr (Some e)"
    using sample_encodes by blast
  have l: "listPolicies w (\<lambda>_. None) = []" for w by (simp add: listPolicies_def wallet_rules_def or_empty_def)
  have t: "pt_scope (chain_target T_SOL 0 9) = ChainScope" "pt_kind (chain_target T_SOL 0 9) = 0" by (simp_all add: chain_target_def)
  from saved_protection_enforced [OF sample_platform(2) _ _ sample_reachable t(1) _ _ e] obtain p where p: "rs_parse (pbytes e) = Inr p"
      "\<And>dest. enforce_recipient p dest = Inr () \<longleftrightarrow> \<not> allow_on (getAllowlist [] 0 (allowlists sample_settings))
           \<or> (\<exists>x \<in> set (allow_addresses (getAllowlist [] 0 (allowlists sample_settings))).
               entry_names example_chain (chain_target T_SOL 0 9) x dest \<or> entry_collides example_chain (chain_target T_SOL 0 9) x dest)"
      "\<And>now. enforce_allowed_time p now = Inr () \<longleftrightarrow> isInsideTimeWindow (getTimeWindow [] (time_windows sample_settings))
         (local_hour 60 now) (local_day 60 now)"
      "\<And>x. transfer_fits x \<Longrightarrow> decides_by_rules example_chain (60 :: int) (\<lambda>_. Inr None) (advanced_target (chain_target T_SOL 0 9)) [] (advanced_rules p) x"
    unfolding l t payment_key_def by fastforce
  have "entry_names example_chain (chain_target T_SOL 0 9) [65] r \<longleftrightarrow> r = replicate 32 1"
      "\<not> entry_collides example_chain (chain_target T_SOL 0 9) x r" for x r
    by (auto simp: entry_names_def entry_collides_def t example_chain_def example_pf_def platform.defs)
  then have "enforce_recipient p (replicate 32 1) = Inr ()" "enforce_recipient p (replicate 32 2) \<noteq> Inr ()"
    using p(2) by (simp_all add: sample_lists) (simp_all add: allowlist_record_def dedupe_def)
  moreover have "enforce_allowed_time p 381600 = Inr ()" "enforce_allowed_time p 378000 \<noteq> Inr ()"
    using p(3) by (simp_all add: sample_lists isInsideTimeWindow_def local_hour_def local_day_def)
  moreover have "transfer_fits (example_transfer 86400)" by (simp add: transfer_fits_def example_transfer_def)
  then have "advanced_effect (advanced_rules p) (example_transfer 86400) = Inr None"
    using p(4) by (fastforce simp: decides_by_rules_def)
  ultimately show ?thesis using e p(1) by blast
qed

text \<open>
  C22: A saved Bitcoin list holds the addresses as text, but a Bitcoin send is committed to the text
  \<open>btc-p2wpkh:0x\<dots>\<close> of its key hash.  No address of the list, which all begin with the prefix of a
  Bitcoin network, admits any send: the program accepts one only at a collision of the hash.
\<close>

theorem bitcoin_list_admits_nothing:
  assumes "keys_32 (platform.truncate pf)" "- 840 \<le> tz" "tz \<le> 840"
    and "target_policy pf num_text tz oj st shape w (chain_target T_BTC 2 8) = Inr (Some e)"
    and on: "allow_on (getAllowlist w 2 (allowlists st))"
    and btc: "\<forall>a \<in> set (allow_addresses (getAllowlist w 2 (allowlists st))). starts_with (trim a) (js ''bc1'') \<or> starts_with (trim a) (js ''tb1'')"
    and read: "rs_parse (pbytes e) = Inr p"
    and admitted: "enforce_recipient p (sha256 pf (utf8_encode (pkhClearSignRecipient (js ''btc-p2wpkh'') hash))) = Inr ()"
  shows "\<exists>a \<in> set (allow_addresses (getAllowlist w 2 (allowlists st))).
    trim a \<noteq> pkhClearSignRecipient (js ''btc-p2wpkh'') hash
    \<and> sha256 pf (utf8_encode (trim a)) = sha256 pf (utf8_encode (pkhClearSignRecipient (js ''btc-p2wpkh'') hash))"
proof -
  let ?t = "chain_target T_BTC 2 8"
  have t: "pt_scope ?t = ChainScope" "pt_kind ?t = 2" by (simp_all add: chain_target_def)
  obtain adv where "advanced_for_target pf tz oj shape w ?t = Inr adv"
    using assms(4) by (auto simp: target_policy_def err_simps)
  from target_read [OF assms(1-3) t(1) this assms(4)] read admitted on t(2) obtain a where
      a: "a \<in> set (allow_addresses (getAllowlist w 2 (allowlists st)))"
        "sha256 pf (utf8_encode (trim a)) = sha256 pf (utf8_encode (pkhClearSignRecipient (js ''btc-p2wpkh'') hash))"
    by (auto simp: list_admits_def target_key_def textCommitment_def platform.defs)
  moreover have "\<not> starts_with (pkhClearSignRecipient (js ''btc-p2wpkh'') hash) (js ''bc1'')"
      "\<not> starts_with (pkhClearSignRecipient (js ''btc-p2wpkh'') hash) (js ''tb1'')"
    by (simp_all add: pkhClearSignRecipient_def starts_with_def)
  ultimately show ?thesis using btc by metis
qed

theorem bitcoin_list_admits_nothing_witness:
  "\<exists>e p. target_policy example_chain (\<lambda>_. []) 60 (\<lambda>_. Inr None) sample_settings (\<lambda>_. None) [] (chain_target T_BTC 2 8) = Inr (Some e)
     \<and> rs_parse (pbytes e) = Inr p
     \<and> (\<exists>a \<in> {js ''tb1q''}. trim a \<noteq> pkhClearSignRecipient (js ''btc-p2wpkh'') [7])"
proof -
  obtain e where e: "target_policy example_chain (\<lambda>_. []) 60 (\<lambda>_. Inr None) sample_settings (\<lambda>_. None) [] (chain_target T_BTC 2 8) = Inr (Some e)"
    using sample_encodes by blast
  have t: "pt_scope (chain_target T_BTC 2 8) = ChainScope" "pt_kind (chain_target T_BTC 2 8) = 2" by (simp_all add: chain_target_def)
  have l: "allow_on (getAllowlist [] 2 (allowlists sample_settings))"
      "allow_addresses (getAllowlist [] 2 (allowlists sample_settings)) = [js ''tb1q'']"
    by (simp_all add: sample_lists allowlist_record_def dedupe_def del: js_simps)
  have k: "keys_32 (platform.truncate example_chain)" by (simp add: sample_platform)
  have c: "target_key sample_pf (chain_target T_BTC 2 8) a = Inr (replicate 32 0)" for a
    by (simp add: target_key_def t textCommitment_def sample_pf_def)
  have z: "- 840 \<le> (60 :: int)" "(60 :: int) \<le> 840" by simp_all
  from target_read [OF k z t(1) no_rules e] obtain p where p: "rs_parse (pbytes e) = Inr p"
      "\<And>r. enforce_recipient p r = Inr () \<longleftrightarrow> list_admits sample_pf (chain_target T_BTC 2 8) (getAllowlist [] 2 (allowlists sample_settings)) r"
    unfolding sample_platform t by blast
  have "enforce_recipient p (sha256 example_chain x) = Inr ()" for x
    using p(2) c l by (simp add: list_admits_def) (simp add: example_chain_def platform.defs)
  moreover have "trim (js ''tb1q'') = js ''tb1q''" by (rule trim_id) (simp add: js_space_def)
  then have "starts_with (trim (js ''tb1q'')) (js ''tb1'')" by (simp add: starts_with_def)
  ultimately show ?thesis
    using bitcoin_list_admits_nothing [OF k _ _ e l(1) _ p(1), of "[7]"] e p(1) unfolding l(2) by simp
qed

text \<open>
  C21: The policy a send carries is the one the wallet has on chain.  When a commitment is active
  for the chain, the bytes that are sent have exactly that commitment, whether they are built
  from the saved settings or recovered from an executed proposal; when none is active (the
  commitment is all zeros), they are those built from the saved settings.
\<close>

theorem send_policy_is_active:
  assumes "buildPersistentPersonalPolicyTargets pf num_text tz oj st shape w = Inr targets"
    and "resolvePersistentSendPolicy (platform.truncate pf) b58enc targets kind info accounts = Inr (Some (h, c))"
    and "currentWalletPolicyCommitment b58enc kind info = Inr active"
  shows "(active \<noteq> EMPTY_POLICY_COMMITMENT \<longrightarrow> c = active)
    \<and> (active = EMPTY_POLICY_COMMITMENT \<longrightarrow> persistentSendPolicyForChain targets kind = Some (h, c))
    \<and> h \<noteq> [] \<and> (\<exists>bs. fromHex h = Inr bs \<and> policyCommitmentHex (platform.truncate pf) bs = Inr c)"
  using assms(2,3) local_policy [OF assms(1), of kind h c] recovered_policy [of "platform.truncate pf" b58enc 6 active accounts h c]
  by (auto simp: resolvePersistentSendPolicy_def Let_def split: if_splits option.splits)

text \<open>A wallet whose account holds the commitment of its settings in every slot.\<close>

lemma eth_account:
  "\<exists>info. currentWalletPolicyCommitment (\<lambda>_. []) 1 (Some info) = Inr (toHex (replicate 32 1))"
proof -
  define p where "p = \<lparr>p_wallet = [], policyCommitments = replicate 6 (toHex (replicate 32 1)), p_version = 2, updatedAt = 5, p_bump = 9\<rparr>"
  have "wallet_policy_ok (\<lambda>_. []) (replicate 32 2) (replicate 6 (replicate 32 1)) p"
    by (simp add: wallet_policy_ok_def p_def key_ok_def u64_ok_def i64_ok_def WALLET_POLICY_CHAIN_SLOTS_def list_all_iff)
  from parseWalletPolicy_put [OF this, of "[]"] show ?thesis
    by (intro exI [of _ "put_wallet_policy (replicate 32 2) (replicate 6 (replicate 32 1)) p"])
      (simp add: currentWalletPolicyCommitment_def WALLET_POLICY_CHAIN_SLOTS_def or_empty_def p_def put_wallet_policy_def)
qed

theorem send_policy_is_active_witness:
  "\<exists>targets h c info. buildPersistentPersonalPolicyTargets total_chain (\<lambda>_. []) 0 (\<lambda>_. Inr None) eth_settings (\<lambda>_. None) [] = Inr targets
     \<and> currentWalletPolicyCommitment (\<lambda>_. []) 1 (Some info) = Inr c \<and> c \<noteq> EMPTY_POLICY_COMMITMENT
     \<and> resolvePersistentSendPolicy (platform.truncate total_chain) (\<lambda>_. []) targets 1 (Some info) [] = Inr (Some (h, c)) \<and> h \<noteq> []"
proof -
  obtain targets h c where t: "buildPersistentPersonalPolicyTargets total_chain (\<lambda>_. []) 0 (\<lambda>_. Inr None) eth_settings (\<lambda>_. None) [] = Inr targets"
      "persistentSendPolicyForChain targets 1 = Some (h, c)"
    using eth_targets by blast
  have c: "c = toHex (replicate 32 1)"
    using local_policy [OF t] by (auto simp: policyCommitmentHex_def err_simps total_chain_def platform.defs)
  obtain info where i: "currentWalletPolicyCommitment (\<lambda>_. []) 1 (Some info) = Inr c"
    using eth_account unfolding c by blast
  have n: "c \<noteq> EMPTY_POLICY_COMMITMENT" unfolding c EMPTY_POLICY_COMMITMENT_def by code_simp
  have "resolvePersistentSendPolicy (platform.truncate total_chain) (\<lambda>_. []) targets 1 (Some info) [] = Inr (Some (h, c))"
    using t(2) i by (simp add: resolvePersistentSendPolicy_def Let_def)
  with send_policy_is_active [OF t(1) this i] t(1) i n show ?thesis by blast
qed

text \<open>
  The policy of an SPL asset names its asset to the program and carries the plan: the scope that
  is parsed is the mint and the decimals, and behind it stand the bytes of the plan's policy.
\<close>

theorem asset_policy_scope_read:
  assumes "keys_32 pf" "offset_ok plan" "0 \<le> d" "d \<le> 18" "pubkey pf mint = Inr m" "m \<noteq> replicate 32 0"
    and "encodeTypedSplAssetPolicy pf plan mint d t = Inr e"
  shows "parse_asset_policy_scope (pbytes e) = Inr \<lparr>scope_kind = 1, scope_decimals = d, asset_id = m\<rparr>
    \<and> (\<exists>p. rs_parse (drop 38 (pbytes e)) = Inr p \<and> (if encodeTypedRemoteSendPolicy pf plan (spl_options pf t d) = Inr None
        then drop 38 (pbytes e) = emptyPolicyBytes
        else intended_policy pf (remote_asset pf (spl_options pf t d)) (pubkey pf) plan = Inr p))"
proof -
  have m: "length m = 32" using assms(1,5) by (rule pubkey_length)
  obtain inner where i: "encodeTypedRemoteSendPolicy pf plan (spl_options pf t d) = Inr inner"
      "pbytes e = CSP2_MAGIC @ [1] @ [word_of_int d] @ m @ (case inner of None \<Rightarrow> emptyPolicyBytes | Some f \<Rightarrow> pbytes f)"
    using assms(5,7) by (auto simp: encodeTypedSplAssetPolicy_def err_simps SPL_ASSET_POLICY_SCOPE_def dest: encoded_policy_texts)
  have "parse_asset_policy_scope (pbytes e) = Inr \<lparr>scope_kind = 1, scope_decimals = d, asset_id = m\<rparr>"
    using m assms(3,4,6) by (simp add: i(2) parse_asset_policy_scope_def CSP2_MAGIC_def Let_def slice_def numeral_eq_Suc)
  moreover have "drop 38 (pbytes e) = (case inner of None \<Rightarrow> emptyPolicyBytes | Some f \<Rightarrow> pbytes f)"
    using m by (simp add: i(2) CSP2_MAGIC_def)
  moreover have "remote_key pf (spl_options pf t d) = pubkey pf" by (simp add: remote_key_def spl_options_def)
  ultimately show ?thesis
    using remote_policy_read [OF assms(1,2), of "spl_options pf t d"] i(1) empty_policy_read
    by (auto split: option.splits)
qed

theorem asset_policy_scope_read_witness:
  "\<exists>e. encodeTypedSplAssetPolicy (platform.truncate total_chain) (quiet_plan None) SOLANA_DEVNET_USDC_MINT 6 [] = Inr e
     \<and> parse_asset_policy_scope (pbytes e) = Inr \<lparr>scope_kind = 1, scope_decimals = 6, asset_id = replicate 32 1\<rparr>"
proof -
  have k: "keys_32 (platform.truncate total_chain)" "publicKey (platform.truncate total_chain) x = Some (replicate 32 1)" for x
    by (simp_all add: keys_32_def total_chain_def platform.defs)
  obtain e where e: "encodeTypedSplAssetPolicy (platform.truncate total_chain) (quiet_plan None) SOLANA_DEVNET_USDC_MINT 6 [] = Inr e"
    using asset_encodes [OF k(2) length_replicate] by blast
  have "offset_ok (quiet_plan None)" by (simp add: offset_ok_def quiet_plan_def)
  from asset_policy_scope_read [OF k(1) this _ _ _ _ e, of "replicate 32 1"] e show ?thesis by (auto simp: pubkey_def k(2))
qed

end
