(* ===== verification/JS_Json.thy ===== *)
theory JS_Json
  imports Complex_Main JS_Utf8 "HOL-Library.List_Lexorder"
begin

text \<open>
  \<open>JSON.stringify\<close> of texts and the printer with sorted keys (\<open>stableStringify\<close>) that the
  application hashes.  A finite number is a \<open>rat\<close>; \<open>String\<close> of a number is the parameter
  \<open>num_text\<close>.  The printer is injective: what is hashed is the value, not only its text.
\<close>

type_synonym number = rat

section \<open>Quoting\<close>

definition hex_char :: "nat \<Rightarrow> 16 word" where
  "hex_char d = word_of_nat (if d < 10 then 0x30 + d else 0x61 + (d - 10))"

definition u_escape :: "16 word \<Rightarrow> jsstr" where
  "u_escape c = (let n = unat c in
     [0x5C, 0x75, hex_char (n div 4096), hex_char (n div 256 mod 16), hex_char (n div 16 mod 16), hex_char (n mod 16)])"

definition quote_unit :: "16 word \<Rightarrow> jsstr" where
  "quote_unit c =
     (if c = 0x22 then [0x5C, 0x22] else if c = 0x5C then [0x5C, 0x5C]
      else if c = 8 then [0x5C, 0x62] else if c = 9 then [0x5C, 0x74] else if c = 10 then [0x5C, 0x6E]
      else if c = 12 then [0x5C, 0x66] else if c = 13 then [0x5C, 0x72]
      else if c < 0x20 then u_escape c else [c])"

text \<open>A surrogate that is not part of a pair is escaped.\<close>

definition quote_single :: "16 word \<Rightarrow> jsstr" where
  "quote_single c = (if is_high c \<or> is_low c then u_escape c else quote_unit c)"

fun quote_units :: "jsstr \<Rightarrow> jsstr" where
  "quote_units [] = []"
| "quote_units [a] = quote_single a"
| "quote_units (a # b # s) =
     (if is_high a \<and> is_low b then a # b # quote_units s else quote_single a @ quote_units (b # s))"

definition json_quote :: "jsstr \<Rightarrow> jsstr" where
  "json_quote s = 0x22 # quote_units s @ [0x22]"

section \<open>Values\<close>

datatype json = JNull | JBool bool | JNum number | JStr jsstr | JArr "json list" | JObj "(jsstr \<times> json) list"

fun comma_join :: "jsstr list \<Rightarrow> jsstr" where
  "comma_join [] = []"
| "comma_join [x] = x"
| "comma_join (x # y # xs) = x @ 0x2C # comma_join (y # xs)"

fun print_json :: "(number \<Rightarrow> jsstr) \<Rightarrow> json \<Rightarrow> jsstr" where
  "print_json nt JNull = js ''null''"
| "print_json nt (JBool b) = (if b then js ''true'' else js ''false'')"
| "print_json nt (JNum x) = nt x"
| "print_json nt (JStr s) = json_quote s"
| "print_json nt (JArr vs) = 0x5B # comma_join (map (print_json nt) vs) @ [0x5D]"
| "print_json nt (JObj kvs) = 0x7B # comma_join (map (\<lambda>kv. json_quote (fst kv) @ 0x3A # print_json nt (snd kv)) kvs) @ [0x7D]"

fun sort_keys :: "json \<Rightarrow> json" where
  "sort_keys (JArr vs) = JArr (map sort_keys vs)"
| "sort_keys (JObj kvs) = JObj (sort_key fst (map (\<lambda>kv. (fst kv, sort_keys (snd kv))) kvs))"
| "sort_keys v = v"

definition stableStringify :: "(number \<Rightarrow> jsstr) \<Rightarrow> json \<Rightarrow> jsstr" where
  "stableStringify nt v = print_json nt (sort_keys v)"

section \<open>Reading a quoted text back\<close>

definition hex_value :: "16 word \<Rightarrow> nat" where
  "hex_value c = (if unat c < 0x61 then unat c - 0x30 else unat c - 0x61 + 10)"

lemma hex_value_char: "d < 16 \<Longrightarrow> hex_value (hex_char d) = d"
  by (auto simp: hex_value_def hex_char_def unat_of_nat take_bit_eq_mod)

definition read_u :: "jsstr \<Rightarrow> 16 word" where
  "read_u s = word_of_nat (((hex_value (s ! 0) * 16 + hex_value (s ! 1)) * 16 + hex_value (s ! 2)) * 16 + hex_value (s ! 3))"

lemma hex4: "(((n div 4096) * 16 + n div 256 mod 16) * 16 + n div 16 mod 16) * 16 + n mod 16 = (n :: nat)"
proof -
  have "(n div 4096) * 16 + n div 256 mod 16 = n div 256" using div_mult_mod_eq [of "n div 256" 16] by (simp add: div_mult2_eq [symmetric])
  moreover have "(n div 256) * 16 + n div 16 mod 16 = n div 16" using div_mult_mod_eq [of "n div 16" 16] by (simp add: div_mult2_eq [symmetric])
  ultimately show ?thesis by simp
qed

lemma read_u_escape: "u_escape c = [0x5C, 0x75] @ h \<Longrightarrow> length h = 4 \<and> read_u (h @ r) = c"
proof -
  assume h: "u_escape c = [0x5C, 0x75] @ h"
  have n: "unat c div 4096 < 16" using unsigned_less [of c, where 'a = nat] by (simp add: less_mult_imp_div_less)
  have "h = [hex_char (unat c div 4096), hex_char (unat c div 256 mod 16), hex_char (unat c div 16 mod 16), hex_char (unat c mod 16)]"
    using h by (simp add: u_escape_def Let_def)
  then have v: "hex_value ((h @ r) ! 0) = unat c div 4096" "hex_value ((h @ r) ! 1) = unat c div 256 mod 16"
      "hex_value ((h @ r) ! 2) = unat c div 16 mod 16" "hex_value ((h @ r) ! 3) = unat c mod 16" and l: "length h = 4"
    using n by (simp_all add: hex_value_char numeral_2_eq_2 numeral_3_eq_3)
  show ?thesis unfolding read_u_def v hex4 using l by simp
qed

definition unescape :: "16 word \<Rightarrow> 16 word" where
  "unescape e = (if e = 0x62 then 8 else if e = 0x74 then 9 else if e = 0x6E then 10 else if e = 0x66 then 12
     else if e = 0x72 then 13 else e)"

fun read_units :: "nat \<Rightarrow> jsstr \<Rightarrow> jsstr \<times> jsstr" where
  "read_units 0 r = ([], r)"
| "read_units (Suc n) [] = ([], [])"
| "read_units (Suc n) (c # r) =
     (if c = 0x22 then ([], r)
      else if c \<noteq> 0x5C then apfst (Cons c) (read_units n r)
      else if hd r = 0x75 then apfst (Cons (read_u (tl r))) (read_units n (drop 4 (tl r)))
      else apfst (Cons (unescape (hd r))) (read_units n (tl r)))"

lemma read_u_escape_units: "read_units (Suc n) (u_escape c @ r) = apfst (Cons c) (read_units n r)"
proof -
  obtain h where h: "u_escape c = [0x5C, 0x75] @ h" by (simp add: u_escape_def Let_def)
  with read_u_escape [OF h] show ?thesis by simp
qed

lemma read_quote_single: "read_units (Suc n) (quote_single c @ r) = apfst (Cons c) (read_units n r)"
  by (auto simp: quote_single_def quote_unit_def read_u_escape_units unescape_def)

lemma surrogate_plain: "is_high a \<or> is_low a \<Longrightarrow> a \<noteq> 0x22 \<and> a \<noteq> 0x5C"
  by (auto simp: is_high_def is_low_def)

lemma read_quote_units: "length s < n \<Longrightarrow> read_units n (quote_units s @ 0x22 # r) = (s, r)"
proof (induction s arbitrary: n rule: quote_units.induct)
  case 1
  then show ?case by (cases n) simp_all
next
  case (2 a)
  then obtain m where "n = Suc (Suc m)" by (metis One_nat_def Suc_less_eq2 length_Cons less_Suc_eq_0_disj list.size(3) not_less_eq)
  then show ?case by (simp add: read_quote_single)
next
  case (3 a b s)
  then obtain m where n: "n = Suc (Suc m)" by (metis Suc_less_eq2 length_Cons)
  show ?case
  proof (cases "is_high a \<and> is_low b")
    case True
    with 3 n surrogate_plain [of a] surrogate_plain [of b] show ?thesis by (simp del: read_units.simps add: read_units.simps(3))
  next
    case False
    then have q: "quote_units (a # b # s) = quote_single a @ quote_units (b # s)" by (simp only: quote_units.simps if_False)
    from 3(2) [OF False, of "Suc m"] 3(3) n show ?thesis unfolding q by (simp add: read_quote_single del: read_units.simps quote_units.simps)
  qed
qed

lemma json_quote_inject:
  assumes "json_quote s @ r = json_quote t @ q"
  shows "s = t \<and> r = q"
proof -
  let ?n = "Suc (length s + length t)"
  have "read_units ?n (quote_units s @ 0x22 # r) = read_units ?n (quote_units t @ 0x22 # q)"
    using assms by (simp add: json_quote_def)
  then show ?thesis by (simp add: read_quote_units del: read_units.simps)
qed

section \<open>The printer is injective\<close>

text \<open>What \<open>String\<close> of a finite number gives: digits, a sign, a point, an exponent; and different texts of different numbers.\<close>

definition number_chars :: "16 word set" where
  "number_chars = {0x30, 0x31, 0x32, 0x33, 0x34, 0x35, 0x36, 0x37, 0x38, 0x39, 0x2B, 0x2D, 0x2E, 0x65}"

definition num_text_ok :: "(number \<Rightarrow> jsstr) \<Rightarrow> bool" where
  "num_text_ok nt \<longleftrightarrow> inj nt \<and> (\<forall>x. nt x \<noteq> [] \<and> set (nt x) \<subseteq> number_chars)"

definition closes :: "jsstr \<Rightarrow> bool" where
  "closes r \<longleftrightarrow> r = [] \<or> hd r \<in> {0x2C, 0x5D, 0x7D}"

lemma closes_simps [simp]: "closes []" "closes (0x2C # r)" "closes (0x5D # r)" "closes (0x7D # r)"
  by (simp_all add: closes_def)

text \<open>A printer whose texts end by themselves where they stand.\<close>

definition delimits :: "('a \<Rightarrow> jsstr) \<Rightarrow> 'a \<Rightarrow> bool" where
  "delimits f x \<longleftrightarrow> (\<forall>y r q. closes r \<longrightarrow> closes q \<longrightarrow> f x @ r = f y @ q \<longrightarrow> x = y \<and> r = q)"

lemma delimitsD: "delimits f x \<Longrightarrow> f x @ r = f y @ q \<Longrightarrow> closes r \<Longrightarrow> closes q \<Longrightarrow> x = y \<and> r = q"
  unfolding delimits_def by blast

lemma split_first: "xs @ c # r = ys @ d # q \<Longrightarrow> set xs \<subseteq> A \<Longrightarrow> set ys \<subseteq> A \<Longrightarrow> c \<notin> A \<Longrightarrow> d \<notin> A \<Longrightarrow> xs = ys \<and> c # r = d # q"
proof (induction xs arbitrary: ys)
  case Nil
  then show ?case by (cases ys) auto
next
  case (Cons x xs)
  then show ?case by (cases ys) auto
qed

lemma number_delimits:
  assumes "num_text_ok nt" "nt x @ r = nt y @ q" "closes r" "closes q"
  shows "x = y \<and> r = q"
proof -
  have cs: "set (nt x) \<subseteq> number_chars" "set (nt y) \<subseteq> number_chars" "inj nt" using assms(1) by (simp_all add: num_text_ok_def)
  have no: "\<And>c r. closes (c # r) \<Longrightarrow> c \<notin> number_chars" by (auto simp: closes_def number_chars_def)
  have "nt x = nt y \<and> r = q"
    using split_first [of "nt x @ r" "0x2C" "[]" "nt y @ q" "0x2C" "[]"] assms(2-4) cs no
  proof (cases r)
    case Nil
    show ?thesis
    proof (cases q)
      case (Cons d q')
      with no assms(4) have "d \<notin> number_chars" by blast
      moreover have "d \<in> set (nt x)" using assms(2) Nil Cons by (metis append_Nil2 in_set_conv_decomp)
      ultimately show ?thesis using cs by blast
    qed (use assms(2) Nil in simp)
  next
    case (Cons c r')
    with no assms(3) have c: "c \<notin> number_chars" by blast
    show ?thesis
    proof (cases q)
      case Nil
      then have "c \<in> set (nt y)" using assms(2) Cons by (metis append_Nil2 in_set_conv_decomp)
      then show ?thesis using cs c by blast
    next
      case (Cons d q')
      with no assms(4) have "d \<notin> number_chars" by blast
      then show ?thesis using split_first [OF _ cs(1,2) c] assms(2) \<open>r = c # r'\<close> Cons by simp
    qed
  qed
  then show ?thesis using cs(3) by (simp add: inj_eq)
qed

lemma comma_join_delimits:
  assumes "\<And>x. x \<in> set xs \<Longrightarrow> delimits f x" "\<And>y. f y \<noteq> [] \<and> hd (f y) \<noteq> c" "c \<in> {0x5D, 0x7D}"
    and "comma_join (map f xs) @ c # r = comma_join (map f ys) @ c # q"
  shows "xs = ys \<and> r = q"
  using assms(1,4)
proof (induction xs arbitrary: ys)
  case Nil
  then show ?case
  proof (cases ys)
    case (Cons y zs)
    have "hd (comma_join (map f ys)) = hd (f y)" "comma_join (map f ys) \<noteq> []"
      using Cons assms(2) [of y] by (cases zs; simp)+
    then show ?thesis using Nil assms(2) [of y] by (metis append_Nil hd_append2 list.sel(1) list.simps(8) comma_join.simps(1))
  qed simp
next
  case (Cons x xs)
  have cl: "closes (c # r)" for r using assms(3) by (auto simp: closes_def)
  show ?case
  proof (cases ys)
    case Nil
    have "hd (comma_join (map f (x # xs))) = hd (f x)" "comma_join (map f (x # xs)) \<noteq> []"
      using assms(2) [of x] by (cases xs; simp)+
    then show ?thesis using Cons.prems Nil assms(2) [of x] by (metis append_Nil hd_append2 list.sel(1) list.simps(8) comma_join.simps(1))
  next
    case ys: (Cons y zs)
    have d: "delimits f x" using Cons.prems(1) by simp
    let ?rest = "\<lambda>xs r. (if xs = [] then c # r else 0x2C # comma_join (map f xs) @ c # r)"
    have j: "comma_join (map f (x # xs)) @ c # r = f x @ ?rest xs r" for x xs r by (cases xs) simp_all
    have "x = y \<and> ?rest xs r = ?rest zs q"
      using Cons.prems(2) unfolding ys j by (rule delimitsD [OF d]) (simp_all add: cl)
    moreover from this have "xs = zs \<and> r = q"
      using Cons.IH [of zs] Cons.prems(1) assms(3) by (auto split: if_splits)
    ultimately show ?thesis using ys by simp
  qed
qed

lemma print_json_head:
  assumes "num_text_ok nt"
  shows "print_json nt v \<noteq> [] \<and> hd (print_json nt v) \<noteq> 0x5D \<and> hd (print_json nt v) \<noteq> 0x7D"
proof (cases v)
  case (JNum x)
  have "nt x \<noteq> []" "set (nt x) \<subseteq> number_chars" using assms by (simp_all add: num_text_ok_def)
  then have "hd (nt x) \<in> number_chars" by (cases "nt x") auto
  with JNum \<open>nt x \<noteq> []\<close> show ?thesis by (auto simp: number_chars_def)
qed (auto simp: json_quote_def)

text \<open>The first unit of a text tells which kind of value it is.\<close>

definition head_kind :: "16 word \<Rightarrow> nat" where
  "head_kind c = (if c = 0x6E then 0 else if c = 0x74 \<or> c = 0x66 then 1 else if c = 0x22 then 3
     else if c = 0x5B then 4 else if c = 0x7B then 5 else 2)"

fun json_kind :: "json \<Rightarrow> nat" where
  "json_kind JNull = 0"
| "json_kind (JBool b) = 1"
| "json_kind (JNum x) = 2"
| "json_kind (JStr s) = 3"
| "json_kind (JArr vs) = 4"
| "json_kind (JObj kvs) = 5"

lemma head_kind_print:
  assumes "num_text_ok nt"
  shows "head_kind (hd (print_json nt v)) = json_kind v"
proof (cases v)
  case (JNum x)
  have "nt x \<noteq> []" "set (nt x) \<subseteq> number_chars" using assms by (simp_all add: num_text_ok_def)
  then have "hd (nt x) \<in> number_chars" by (cases "nt x") auto
  with JNum show ?thesis by (auto simp: number_chars_def head_kind_def)
qed (auto simp: json_quote_def head_kind_def)

lemma print_json_kind:
  assumes "num_text_ok nt" "print_json nt v @ r = print_json nt w @ q"
  shows "json_kind v = json_kind w"
  using head_kind_print [OF assms(1), of v] head_kind_print [OF assms(1), of w]
    print_json_head [OF assms(1), of v] print_json_head [OF assms(1), of w] assms(2)
  by (metis hd_append2)

lemma field_delimits:
  assumes "delimits (print_json nt) (snd kv)"
  shows "delimits (\<lambda>kv. json_quote (fst kv) @ 0x3A # print_json nt (snd kv)) kv"
  unfolding delimits_def
proof (intro allI impI)
  fix y r q
  assume c: "closes r" "closes q"
    and e: "(json_quote (fst kv) @ 0x3A # print_json nt (snd kv)) @ r = (json_quote (fst y) @ 0x3A # print_json nt (snd y)) @ q"
  from e have "fst kv = fst y \<and> 0x3A # print_json nt (snd kv) @ r = 0x3A # print_json nt (snd y) @ q"
    using json_quote_inject [of "fst kv" "0x3A # print_json nt (snd kv) @ r" "fst y" "0x3A # print_json nt (snd y) @ q"] by simp
  with delimitsD [OF assms _ c] show "kv = y \<and> r = q" by (auto simp: prod_eq_iff)
qed

lemma print_json_delimits:
  assumes ok: "num_text_ok nt"
  shows "delimits (print_json nt) v"
proof (induction v)
  case JNull
  show ?case unfolding delimits_def
  proof (intro allI impI)
    fix w r q assume "print_json nt JNull @ r = print_json nt w @ q"
    with print_json_kind [OF ok this] show "JNull = w \<and> r = q" by (cases w) auto
  qed
next
  case (JBool b)
  show ?case unfolding delimits_def
  proof (intro allI impI)
    fix w r q assume "print_json nt (JBool b) @ r = print_json nt w @ q"
    with print_json_kind [OF ok this] show "JBool b = w \<and> r = q" by (cases w) (auto split: if_splits)
  qed
next
  case (JNum x)
  show ?case unfolding delimits_def
  proof (intro allI impI)
    fix w r q assume c: "closes r" "closes q" and e: "print_json nt (JNum x) @ r = print_json nt w @ q"
    from print_json_kind [OF ok e] obtain y where w: "w = JNum y" by (cases w) auto
    with number_delimits [OF ok _ c, of x y] e show "JNum x = w \<and> r = q" by simp
  qed
next
  case (JStr s)
  show ?case unfolding delimits_def
  proof (intro allI impI)
    fix w r q assume e: "print_json nt (JStr s) @ r = print_json nt w @ q"
    from print_json_kind [OF ok e] obtain t where w: "w = JStr t" by (cases w) auto
    with json_quote_inject [of s r t q] e show "JStr s = w \<and> r = q" by simp
  qed
next
  case (JArr vs)
  show ?case unfolding delimits_def
  proof (intro allI impI)
    fix w r q assume e: "print_json nt (JArr vs) @ r = print_json nt w @ q"
    from print_json_kind [OF ok e] obtain ws where w: "w = JArr ws" by (cases w) auto
    from e have "comma_join (map (print_json nt) vs) @ 0x5D # r = comma_join (map (print_json nt) ws) @ 0x5D # q" by (simp add: w)
    from comma_join_delimits [OF JArr _ _ this] print_json_head [OF ok] show "JArr vs = w \<and> r = q" by (simp add: w)
  qed
next
  case (JObj kvs)
  let ?f = "\<lambda>kv. json_quote (fst kv) @ 0x3A # print_json nt (snd kv)"
  have d: "delimits ?f kv" if "kv \<in> set kvs" for kv
    using JObj [OF that, of "snd kv"] field_delimits by (simp add: snds.simps)
  show ?case unfolding delimits_def
  proof (intro allI impI)
    fix w r q assume e: "print_json nt (JObj kvs) @ r = print_json nt w @ q"
    from print_json_kind [OF ok e] obtain ws where w: "w = JObj ws" by (cases w) auto
    from e have "comma_join (map ?f kvs) @ 0x7D # r = comma_join (map ?f ws) @ 0x7D # q" by (simp add: w)
    from comma_join_delimits [OF d _ _ this] show "JObj kvs = w \<and> r = q" by (simp add: w json_quote_def)
  qed
qed

text \<open>Texts of equal values only: what is hashed determines the value up to the order of its keys.\<close>

lemma stableStringify_inject:
  "num_text_ok nt \<Longrightarrow> stableStringify nt v = stableStringify nt w \<Longrightarrow> sort_keys v = sort_keys w"
  using delimitsD [OF print_json_delimits, of nt "sort_keys v" "[]" "sort_keys w" "[]"] by (simp add: stableStringify_def)

section \<open>What is hashed\<close>

text \<open>The printed text has no surrogate by itself, so its bytes determine it.\<close>

definition plain_unit :: "16 word \<Rightarrow> bool" where
  "plain_unit u \<longleftrightarrow> \<not> is_high u \<and> \<not> is_low u"

lemma ascii_plain: "u < 0x80 \<Longrightarrow> plain_unit u"
  by (simp add: plain_unit_def is_high_def is_low_def word_less_nat_alt word_le_nat_alt)

lemma plain_well_formed: "list_all plain_unit s \<Longrightarrow> well_formed s"
  by (induction s rule: well_formed.induct) (auto simp: plain_unit_def)

lemma well_formed_append: "well_formed s \<Longrightarrow> well_formed t \<Longrightarrow> well_formed (s @ t)"
proof (induction s rule: well_formed.induct)
  case (2 a)
  then show ?case by (cases t) auto
qed (auto split: if_splits)

lemma hex_char_ascii: "d < 16 \<Longrightarrow> hex_char d < 0x80"
  by (auto simp: hex_char_def word_less_nat_alt unat_of_nat take_bit_eq_mod)

lemma quote_single_plain: "list_all plain_unit (quote_single c)"
proof -
  have n: "unat c div 4096 < 16" using unsigned_less [of c, where 'a = nat] by (simp add: less_mult_imp_div_less)
  have "list_all plain_unit (u_escape c)"
    using n by (auto simp: u_escape_def Let_def intro!: ascii_plain hex_char_ascii)
  then show ?thesis by (auto simp: quote_single_def quote_unit_def plain_unit_def ascii_plain [unfolded plain_unit_def])
qed

lemma quote_units_well_formed: "well_formed (quote_units s)"
proof (induction s rule: quote_units.induct)
  case (3 a b s)
  then show ?case using well_formed_append [OF plain_well_formed [OF quote_single_plain]] by simp
qed (simp_all add: plain_well_formed quote_single_plain)

lemma json_quote_well_formed: "well_formed (json_quote s)"
proof -
  have "json_quote s = [0x22] @ quote_units s @ [0x22]" by (simp add: json_quote_def)
  moreover have "well_formed [0x22]" by (simp add: is_high_def is_low_def)
  ultimately show ?thesis using quote_units_well_formed well_formed_append by metis
qed

lemma comma_join_well_formed: "(\<And>t. t \<in> set ts \<Longrightarrow> well_formed t) \<Longrightarrow> well_formed (comma_join ts)"
proof (induction ts rule: comma_join.induct)
  case (3 x y xs)
  have "well_formed ([0x2C] @ comma_join (y # xs))"
    using 3 by (intro well_formed_append) (simp_all add: is_high_def is_low_def)
  with 3 show ?case by (simp add: well_formed_append)
qed simp_all

lemma bracket_well_formed: "well_formed s \<Longrightarrow> plain_unit a \<Longrightarrow> plain_unit b \<Longrightarrow> well_formed (a # s @ [b])"
  using well_formed_append [of "[a]" "s @ [b]"] well_formed_append [of s "[b]"] by (simp add: plain_unit_def)

lemma number_well_formed: "num_text_ok nt \<Longrightarrow> well_formed (nt x)"
proof -
  assume "num_text_ok nt"
  then have "set (nt x) \<subseteq> number_chars" by (simp add: num_text_ok_def)
  moreover have "\<forall>c \<in> number_chars. plain_unit c" by (auto simp: number_chars_def intro!: ascii_plain)
  ultimately show ?thesis by (intro plain_well_formed) (auto simp: list_all_iff)
qed

lemma print_json_well_formed:
  assumes "num_text_ok nt"
  shows "well_formed (print_json nt v)"
proof (induction v)
  case (JArr vs)
  then show ?case by (auto intro!: bracket_well_formed comma_join_well_formed ascii_plain)
next
  case (JObj kvs)
  have "well_formed (json_quote k @ 0x3A # print_json nt v)" if "(k, v) \<in> set kvs" for k v
    using well_formed_append [OF json_quote_well_formed well_formed_append [of "[0x3A]"]] JObj [OF that, of v]
    by (simp add: is_high_def is_low_def snds.simps)
  then show ?case by (auto intro!: bracket_well_formed comma_join_well_formed ascii_plain)
qed (auto simp: number_well_formed [OF assms] json_quote_well_formed is_high_def is_low_def)

lemma stable_bytes_inject:
  assumes "num_text_ok nt" "utf8_encode (stableStringify nt v) = utf8_encode (stableStringify nt w)"
  shows "sort_keys v = sort_keys w"
proof -
  have "stableStringify nt v = stableStringify nt w"
    using assms(2) by (rule utf8_encode_inj [rotated 2]) (simp_all add: stableStringify_def print_json_well_formed assms(1))
  then show ?thesis using assms(1) stableStringify_inject by blast
qed

text \<open>Two objects with the same keys that sort to the same object have the same values, key by key.\<close>

lemma sorted_keys_member:
  assumes "sort_keys (JObj kvs) = sort_keys (JObj lvs)" "distinct (map fst kvs)" "map fst lvs = map fst kvs"
    and "n < length kvs"
  shows "sort_keys (snd (kvs ! n)) = sort_keys (snd (lvs ! n))"
proof -
  let ?f = "\<lambda>kv. (fst kv, sort_keys (snd kv))"
  have s: "set (map ?f kvs) = set (map ?f lvs)"
  proof -
    have "sort_key fst (map ?f kvs) = sort_key fst (map ?f lvs)" using assms(1) by simp
    then have "set (sort_key fst (map ?f kvs)) = set (sort_key fst (map ?f lvs))" by simp
    then show ?thesis unfolding set_sort .
  qed
  have d: "distinct (map fst (map ?f kvs))" "distinct (map fst (map ?f lvs))" using assms(2,3) by (simp_all add: o_def)
  have "map_of (map ?f kvs) = map_of (map ?f lvs)" using map_of_inject_set [OF d] s by blast
  moreover have l: "length lvs = length kvs" using assms(3) map_eq_imp_length_eq by blast
  moreover have "map_of (map ?f kvs) (fst (kvs ! n)) = Some (sort_keys (snd (kvs ! n)))"
    using map_of_eq_Some_iff [OF d(1)] assms(4) by (auto simp: in_set_conv_nth intro!: image_eqI [of _ _ "kvs ! n"])
  moreover have "map_of (map ?f lvs) (fst (lvs ! n)) = Some (sort_keys (snd (lvs ! n)))"
    using map_of_eq_Some_iff [OF d(2)] assms(4) l by (auto simp: in_set_conv_nth intro!: image_eqI [of _ _ "lvs ! n"])
  moreover have "fst (lvs ! n) = fst (kvs ! n)" using assms(3,4) l by (metis nth_map)
  ultimately show ?thesis by simp
qed

lemma map_JStr_inject [simp]: "map (sort_keys \<circ> JStr) xs = map (sort_keys \<circ> JStr) ys \<longleftrightarrow> xs = ys"
  by (rule inj_map_eq_map) (simp add: inj_def)

end
