(* ===== verification/Agent_Policy.thy ===== *)
theory Agent_Policy
  imports JS_Json Msig_Hash
begin

text \<open>
  The rules of agent trading: the records of \<open>lib/agents/types.ts\<close> as far as the rules and the
  store read or write them, the hash that binds a session to the rules
  (\<open>lib/agents/policyHash.ts\<close>), the venues (\<open>lib/agents/executionAdapters.ts\<close>) and the
  evaluation of a trade (\<open>lib/agents/policy.ts\<close>).  Texts shown to the owner, journals, profiles
  and the encrypted copies of fields are left out.  A \<open>number\<close> field that is not finite is
  \<open>None\<close>: stored as JSON it is \<open>null\<close>.
\<close>

type_synonym jsnum = "number option"

text \<open>\<open>Number(text)\<close> (\<open>None\<close> when it is not finite), \<open>String(number)\<close>, the rounded operations,
  \<open>toUpperCase\<close>, sorting by \<open>localeCompare\<close>,
  the local midnight before a time, SHA-256.\<close>

record js_lib =
  to_number :: "jsstr \<Rightarrow> number option"
  to_text :: "number \<Rightarrow> jsstr"
  fadd :: "number \<Rightarrow> number \<Rightarrow> number"
  fmul :: "number \<Rightarrow> number \<Rightarrow> number"
  fdiv :: "number \<Rightarrow> number \<Rightarrow> number"
  to_upper :: "jsstr \<Rightarrow> jsstr"
  locale_sort :: "jsstr list \<Rightarrow> jsstr list"
  day_start :: "int \<Rightarrow> int"
  sha :: "bytes \<Rightarrow> bytes"

section \<open>The records\<close>

datatype AgentStatus = Agent_active | Agent_paused | Agent_revoked

datatype TradingVenue = Mock_perps | Hyperliquid_testnet | Bulktrade_mock

datatype TradeSide = Long | Short

datatype TradeOrderType = Order_market | Order_limit

datatype AgentTradingMode = Read_only | Mode_paper | Bounded_live

record AgentStrategyProfile =
  strategy_mode :: AgentTradingMode
  strategy_markets :: "jsstr list"

record AgentProfile =
  g_id :: jsstr
  g_wallet :: jsstr
  g_status :: AgentStatus
  strategy :: "AgentStrategyProfile option"
  g_created :: int
  g_updated :: int

datatype AgentProposalStatus = Draft | Blocked | Needs_approval | Approved | Rejected | Executed | Expired

datatype AgentPolicyDecision = Decision_blocked | Requires_human_approval | Allowed

datatype AgentPolicyViolationCode =
  Policy_disabled | Policy_incomplete | Emergency_paused | Agent_not_active | Session_missing | Session_inactive
  | Session_expired | Session_policy_stale | Venue_not_allowed | Market_not_allowed | Invalid_notional
  | Notional_too_large | Invalid_leverage | Leverage_too_high | Stop_loss_required | Take_profit_required
  | Too_many_open_positions | Cooldown_active | Daily_loss_cap_reached | Proposal_expired | Strategy_missing
  | Strategy_mode_read_only | Strategy_market_not_allowed | Strategy_venue_not_allowed

datatype severity = Block | Approval

record AgentPolicyViolation =
  code :: AgentPolicyViolationCode
  severity :: severity

record AgentTradeProposal =
  p_id :: jsstr
  p_wallet :: jsstr
  p_agent :: jsstr
  venue :: TradingVenue
  market :: jsstr
  side :: TradeSide
  orderType :: TradeOrderType
  notionalUsd :: jsstr
  leverage :: jsnum
  entryPrice :: "jsstr option"
  stopLossPrice :: "jsstr option"
  takeProfitPrice :: "jsstr option"
  clientSignalId :: "jsstr option"
  p_expires :: int
  evaluationDecision :: "AgentPolicyDecision option"
  policyViolations :: "AgentPolicyViolation list option"
  p_hash :: "jsstr option"
  p_status :: AgentProposalStatus
  p_created :: int
  p_updated :: int

record AgentVaultPolicy =
  v_wallet :: jsstr
  v_hash :: "jsstr option"
  v_encrypted :: bool
  enabled :: bool
  emergencyPaused :: bool
  allowedVenues :: "TradingVenue list"
  allowedMarkets :: "jsstr list"
  maxNotionalUsd :: jsstr
  maxLeverage :: jsnum
  requireStopLoss :: bool
  requireTakeProfit :: bool
  maxOpenPositionsPerAgent :: jsnum
  cooldownSeconds :: jsnum
  maxSessionHours :: jsnum
  dailyLossCapUsd :: jsstr
  v_created :: int
  v_updated :: int

datatype SessionStatus = Session_status_active | Session_status_paused | Session_status_expired | Session_status_revoked

record AgentSessionGrant =
  s_id :: jsstr
  s_wallet :: jsstr
  s_agent :: jsstr
  s_status :: SessionStatus
  startsAt :: number
  s_expires :: number
  s_venues :: "TradingVenue list option"
  s_markets :: "jsstr list option"
  s_maxNotional :: "jsstr option"
  s_maxLeverage :: jsnum
  s_maxOpen :: jsnum
  s_hash :: "jsstr option"
  s_created :: int
  s_updated :: int

record AgentRiskSnapshot =
  openPositions :: nat
  lastTradeAt :: "int option"
  dailyRealizedPnlUsd :: "jsstr option"

record normalized_trade =
  n_market :: jsstr
  n_notional :: number
  n_leverage :: number
  n_venue :: TradingVenue

record AgentPolicyEvaluation =
  decision :: AgentPolicyDecision
  violations :: "AgentPolicyViolation list"
  normalized :: normalized_trade

section \<open>Numbers and texts\<close>

definition parsePositiveDecimal :: "js_lib \<Rightarrow> jsstr option \<Rightarrow> number option" where
  "parsePositiveDecimal L s = (case Option.bind s (to_number L) of
     None \<Rightarrow> None | Some x \<Rightarrow> if x > 0 then Some x else None)"

definition parseDecimal :: "js_lib \<Rightarrow> jsstr option \<Rightarrow> number option" where
  "parseDecimal L s = Option.bind s (to_number L)"

definition minDefinedPositive :: "jsnum list \<Rightarrow> number option" where
  "minDefinedPositive vs =
     (let valid = filter (\<lambda>x. x > 0) (concat (map (\<lambda>v. case v of None \<Rightarrow> [] | Some x \<Rightarrow> [x]) vs))
      in if valid = [] then None else Some (Min (set valid)))"

definition normalizeMarket :: "js_lib \<Rightarrow> jsstr \<Rightarrow> jsstr" where
  "normalizeMarket L m = to_upper L (trim m)"

definition hasValue :: "jsstr option \<Rightarrow> bool" where
  "hasValue s = (case s of None \<Rightarrow> False | Some t \<Rightarrow> trim t \<noteq> [])"

definition positive :: "jsnum \<Rightarrow> bool" where
  "positive x = (case x of None \<Rightarrow> False | Some v \<Rightarrow> v > 0)"

section \<open>The hash of the rules\<close>

definition venue_text :: "TradingVenue \<Rightarrow> jsstr" where
  "venue_text v = (case v of Mock_perps \<Rightarrow> js ''mock_perps'' | Hyperliquid_testnet \<Rightarrow> js ''hyperliquid_testnet''
     | Bulktrade_mock \<Rightarrow> js ''bulktrade_mock'')"

definition sortedStrings :: "js_lib \<Rightarrow> jsstr list \<Rightarrow> jsstr list" where
  "sortedStrings L xs = locale_sort L (filter (\<lambda>x. x \<noteq> []) (map trim xs))"

definition normalizeDecimalText :: "js_lib \<Rightarrow> jsstr \<Rightarrow> jsstr" where
  "normalizeDecimalText L s = (case to_number L s of None \<Rightarrow> [] | Some x \<Rightarrow> to_text L x)"

definition normalizeNumber :: "jsnum \<Rightarrow> number" where
  "normalizeNumber x = (case x of None \<Rightarrow> 0 | Some v \<Rightarrow> v)"

definition vault_policy_json :: "js_lib \<Rightarrow> AgentVaultPolicy \<Rightarrow> json" where
  "vault_policy_json L v = JObj
     [(js ''kind'', JStr (js ''clearsig.agent.vault-policy'')),
      (js ''version'', JNum 1),
      (js ''walletName'', JStr (v_wallet v)),
      (js ''enabled'', JBool (enabled v)),
      (js ''allowedVenues'', JArr (map JStr (sortedStrings L (map venue_text (allowedVenues v))))),
      (js ''allowedMarkets'', JArr (map JStr (sortedStrings L (map (normalizeMarket L) (allowedMarkets v))))),
      (js ''maxNotionalUsd'', JStr (normalizeDecimalText L (maxNotionalUsd v))),
      (js ''maxLeverage'', JNum (normalizeNumber (maxLeverage v))),
      (js ''requireStopLoss'', JBool (requireStopLoss v)),
      (js ''requireTakeProfit'', JBool (requireTakeProfit v)),
      (js ''maxOpenPositionsPerAgent'', JNum (normalizeNumber (maxOpenPositionsPerAgent v))),
      (js ''cooldownSeconds'', JNum (normalizeNumber (cooldownSeconds v))),
      (js ''maxSessionHours'', JNum (normalizeNumber (maxSessionHours v))),
      (js ''dailyLossCapUsd'', JStr (normalizeDecimalText L (dailyLossCapUsd v)))]"

definition stableHash :: "js_lib \<Rightarrow> json \<Rightarrow> jsstr" where
  "stableHash L j = toHex (sha L (utf8_encode (stableStringify (to_text L) j)))"

definition computeAgentVaultPolicyHash :: "js_lib \<Rightarrow> AgentVaultPolicy \<Rightarrow> jsstr" where
  "computeAgentVaultPolicyHash L v = stableHash L (vault_policy_json L v)"

definition bindAgentVaultPolicyHash :: "js_lib \<Rightarrow> AgentVaultPolicy \<Rightarrow> AgentVaultPolicy" where
  "bindAgentVaultPolicyHash L v =
     (if truthy (v_hash v) \<and> v_encrypted v then v else v\<lparr>v_hash := Some (computeAgentVaultPolicyHash L v)\<rparr>)"

definition policy_hash :: "js_lib \<Rightarrow> AgentVaultPolicy \<Rightarrow> jsstr" where
  "policy_hash L v = (case v_hash v of Some h \<Rightarrow> h | None \<Rightarrow> computeAgentVaultPolicyHash L v)"

text \<open>
  The rules page encrypts what it saves (\<open>encryption.ts\<close>): the hash is taken of the rules as entered,
  and when the network is live the plain limits are emptied.  The payloads only matter as present.
\<close>

definition encryptAgentVaultPolicy :: "js_lib \<Rightarrow> bool \<Rightarrow> AgentVaultPolicy \<Rightarrow> AgentVaultPolicy" where
  "encryptAgentVaultPolicy L live v =
     (let b = (bindAgentVaultPolicyHash L (v\<lparr>v_hash := None\<rparr>))\<lparr>v_encrypted := True\<rparr>
      in if \<not> live then b
         else b\<lparr>allowedVenues := [], allowedMarkets := [], maxNotionalUsd := [], maxLeverage := Some 0,
           requireStopLoss := False, requireTakeProfit := False, maxOpenPositionsPerAgent := Some 0,
           cooldownSeconds := Some 0, maxSessionHours := Some 0, dailyLossCapUsd := []\<rparr>)"

definition bindAgentSessionPolicyHash :: "js_lib \<Rightarrow> AgentSessionGrant \<Rightarrow> AgentVaultPolicy \<Rightarrow> AgentSessionGrant" where
  "bindAgentSessionPolicyHash L s v = s\<lparr>s_hash := Some (policy_hash L v)\<rparr>"

definition bindAgentProposalPolicyHash :: "js_lib \<Rightarrow> AgentTradeProposal \<Rightarrow> AgentVaultPolicy \<Rightarrow> AgentTradeProposal" where
  "bindAgentProposalPolicyHash L p v = p\<lparr>p_hash := Some (policy_hash L v)\<rparr>"

datatype binding_status = Binding_current | Binding_missing | Binding_stale

definition agentSessionPolicyBindingStatus :: "AgentSessionGrant \<Rightarrow> AgentVaultPolicy \<Rightarrow> binding_status" where
  "agentSessionPolicyBindingStatus s v =
     (if \<not> truthy (s_hash s) \<or> \<not> truthy (v_hash v) then Binding_missing
      else if s_hash s = v_hash v then Binding_current else Binding_stale)"

definition isAgentSessionCurrent :: "AgentSessionGrant \<Rightarrow> AgentVaultPolicy \<Rightarrow> int \<Rightarrow> bool" where
  "isAgentSessionCurrent s v now \<longleftrightarrow>
     s_status s = Session_status_active \<and> s_expires s > of_int now \<and> agentSessionPolicyBindingStatus s v = Binding_current"

section \<open>The venues\<close>

datatype AgentExecutionMode = Paper | Testnet

datatype AgentExecutionAdapterStatus = Adapter_ready | Backend_required

record AgentExecutionAdapterInfo =
  adapter_mode :: AgentExecutionMode
  adapter_status :: AgentExecutionAdapterStatus
  canOpenLocally :: bool

definition agentExecutionAdapter :: "TradingVenue \<Rightarrow> AgentExecutionAdapterInfo" where
  "agentExecutionAdapter v = (case v of
       Hyperliquid_testnet \<Rightarrow> \<lparr>adapter_mode = Testnet, adapter_status = Backend_required, canOpenLocally = False\<rparr>
     | _ \<Rightarrow> \<lparr>adapter_mode = Paper, adapter_status = Adapter_ready, canOpenLocally = True\<rparr>)"

definition canOpenLocalAgentExecution :: "TradingVenue \<Rightarrow> bool" where
  "canOpenLocalAgentExecution v = canOpenLocally (agentExecutionAdapter v)"

section \<open>The evaluation of a trade\<close>

definition block_if :: "bool \<Rightarrow> AgentPolicyViolationCode \<Rightarrow> AgentPolicyViolation list" where
  "block_if b c = (if b then [\<lparr>code = c, severity = Block\<rparr>] else [])"

definition approval_if :: "bool \<Rightarrow> AgentPolicyViolationCode \<Rightarrow> AgentPolicyViolation list" where
  "approval_if b c = (if b then [\<lparr>code = c, severity = Approval\<rparr>] else [])"

definition policy_complete :: "js_lib \<Rightarrow> AgentVaultPolicy \<Rightarrow> bool" where
  "policy_complete L v \<longleftrightarrow> \<not> (parsePositiveDecimal L (Some (maxNotionalUsd v)) = None
     \<or> \<not> positive (maxLeverage v) \<or> \<not> positive (maxOpenPositionsPerAgent v) \<or> \<not> positive (maxSessionHours v)
     \<or> parsePositiveDecimal L (Some (dailyLossCapUsd v)) = None)"

definition session_active :: "AgentSessionGrant option \<Rightarrow> bool" where
  "session_active s = (case s of None \<Rightarrow> False | Some s \<Rightarrow> s_status s = Session_status_active)"

definition evaluateStrategy :: "js_lib \<Rightarrow> AgentProfile \<Rightarrow> AgentTradeProposal \<Rightarrow> AgentSessionGrant option \<Rightarrow> jsstr \<Rightarrow> AgentPolicyViolation list" where
  "evaluateStrategy L g p s m = (case strategy g of
       None \<Rightarrow> approval_if (session_active s) Strategy_missing
     | Some t \<Rightarrow>
         (let ms = map (normalizeMarket L) (strategy_markets t) in
          block_if (ms \<noteq> [] \<and> m \<notin> set ms) Strategy_market_not_allowed
          @ approval_if (strategy_mode t = Read_only \<and> session_active s) Strategy_mode_read_only
          @ block_if (strategy_mode t = Mode_paper \<and> venue p = Bulktrade_mock) Strategy_venue_not_allowed))"

definition session_ms :: "js_lib \<Rightarrow> number \<Rightarrow> number" where
  "session_ms L h = fmul L (fmul L (fmul L h 60) 60) 1000"

definition session_span :: "js_lib \<Rightarrow> AgentSessionGrant \<Rightarrow> number" where
  "session_span L s = fadd L (s_expires s) (- startsAt s)"

definition evaluateSession :: "js_lib \<Rightarrow> AgentSessionGrant option \<Rightarrow> AgentTradeProposal \<Rightarrow> AgentVaultPolicy \<Rightarrow> int \<Rightarrow> AgentPolicyViolation list" where
  "evaluateSession L s p v now = (case s of
       None \<Rightarrow> []
     | Some s \<Rightarrow>
         if s_wallet s \<noteq> p_wallet p \<or> s_agent s \<noteq> p_agent p then block_if True Session_missing
         else block_if (s_status s \<noteq> Session_status_active) Session_inactive
            @ block_if (s_expires s \<le> of_int now) Session_expired
            @ approval_if (agentSessionPolicyBindingStatus s v \<noteq> Binding_current) Session_policy_stale
            @ (case maxSessionHours v of
                 None \<Rightarrow> []
               | Some h \<Rightarrow> block_if (h > 0 \<and> session_span L s > session_ms L h) Session_expired))"

definition intersectOrPolicy :: "'a list \<Rightarrow> 'a list option \<Rightarrow> 'a list" where
  "intersectOrPolicy ps ss = (case ss of None \<Rightarrow> ps | Some xs \<Rightarrow> if xs = [] then ps else filter (\<lambda>x. x \<in> set xs) ps)"

definition evaluateVenueAndMarket ::
  "js_lib \<Rightarrow> AgentTradeProposal \<Rightarrow> AgentVaultPolicy \<Rightarrow> AgentSessionGrant option \<Rightarrow> jsstr \<Rightarrow> AgentPolicyViolation list" where
  "evaluateVenueAndMarket L p v s m =
     block_if (venue p \<notin> set (intersectOrPolicy (allowedVenues v) (Option.bind s s_venues))) Venue_not_allowed
     @ block_if (m \<notin> set (intersectOrPolicy (map (normalizeMarket L) (allowedMarkets v))
          (map_option (map (normalizeMarket L)) (Option.bind s s_markets)))) Market_not_allowed"

definition notional_violations ::
  "js_lib \<Rightarrow> AgentTradeProposal \<Rightarrow> AgentVaultPolicy \<Rightarrow> AgentSessionGrant option \<Rightarrow> AgentPolicyViolation list" where
  "notional_violations L p v s = (case parsePositiveDecimal L (Some (notionalUsd p)) of
       None \<Rightarrow> block_if True Invalid_notional
     | Some n \<Rightarrow> (case minDefinedPositive [parsePositiveDecimal L (Some (maxNotionalUsd v)),
           case s of None \<Rightarrow> None | Some s \<Rightarrow> parsePositiveDecimal L (s_maxNotional s)] of
         None \<Rightarrow> [] | Some limit \<Rightarrow> block_if (n > limit) Notional_too_large))"

definition leverage_violations :: "AgentTradeProposal \<Rightarrow> AgentVaultPolicy \<Rightarrow> AgentSessionGrant option \<Rightarrow> AgentPolicyViolation list" where
  "leverage_violations p v s = (case leverage p of
       None \<Rightarrow> block_if True Invalid_leverage
     | Some l \<Rightarrow> if l \<le> 0 then block_if True Invalid_leverage
         else (case minDefinedPositive [maxLeverage v, Option.bind s s_maxLeverage] of
           None \<Rightarrow> [] | Some limit \<Rightarrow> block_if (l > limit) Leverage_too_high))"

definition position_violations :: "AgentVaultPolicy \<Rightarrow> AgentSessionGrant option \<Rightarrow> AgentRiskSnapshot option \<Rightarrow> AgentPolicyViolation list" where
  "position_violations v s risk =
     (case minDefinedPositive [maxOpenPositionsPerAgent v, Option.bind s s_maxOpen] of
        None \<Rightarrow> []
      | Some limit \<Rightarrow> block_if (of_nat (case risk of None \<Rightarrow> 0 | Some r \<Rightarrow> openPositions r) \<ge> limit) Too_many_open_positions)"

text \<open>
  A stored cooldown is a finite number or none: \<open>JSON.stringify\<close> writes \<open>NaN\<close> and \<open>Infinity\<close> as \<open>null\<close>,
  which multiplies to no wait at all.
\<close>

definition cooling :: "js_lib \<Rightarrow> AgentVaultPolicy \<Rightarrow> AgentRiskSnapshot option \<Rightarrow> int \<Rightarrow> bool" where
  "cooling L v risk now = (case (cooldownSeconds v, Option.bind risk lastTradeAt) of
       (Some c, Some t) \<Rightarrow> c > 0 \<and> t \<noteq> 0 \<and> of_int (now - t) < fmul L c 1000
     | _ \<Rightarrow> False)"

definition loss_capped :: "js_lib \<Rightarrow> AgentVaultPolicy \<Rightarrow> AgentRiskSnapshot option \<Rightarrow> bool" where
  "loss_capped L v risk =
     (case (parsePositiveDecimal L (Some (dailyLossCapUsd v)), parseDecimal L (Option.bind risk dailyRealizedPnlUsd)) of
        (Some cap, Some pnl) \<Rightarrow> pnl \<le> - cap
      | _ \<Rightarrow> False)"

definition trade_violations ::
  "js_lib \<Rightarrow> AgentProfile \<Rightarrow> AgentTradeProposal \<Rightarrow> AgentVaultPolicy \<Rightarrow> AgentSessionGrant option \<Rightarrow> AgentRiskSnapshot option \<Rightarrow> int
     \<Rightarrow> AgentPolicyViolation list" where
  "trade_violations L g p v s risk now =
     (let m = normalizeMarket L (market p) in
      block_if (\<not> enabled v) Policy_disabled
      @ block_if (\<not> policy_complete L v) Policy_incomplete
      @ block_if (emergencyPaused v) Emergency_paused
      @ block_if (g_status g \<noteq> Agent_active) Agent_not_active
      @ block_if (p_expires p \<le> now) Proposal_expired
      @ evaluateStrategy L g p s m
      @ evaluateSession L s p v now
      @ evaluateVenueAndMarket L p v s m
      @ notional_violations L p v s
      @ leverage_violations p v s
      @ block_if (requireStopLoss v \<and> \<not> hasValue (stopLossPrice p)) Stop_loss_required
      @ block_if (requireTakeProfit v \<and> \<not> hasValue (takeProfitPrice p)) Take_profit_required
      @ position_violations v s risk
      @ block_if (cooling L v risk now) Cooldown_active
      @ block_if (loss_capped L v risk) Daily_loss_cap_reached)"

definition evaluateAgentTradeProposal ::
  "js_lib \<Rightarrow> AgentProfile \<Rightarrow> AgentTradeProposal \<Rightarrow> AgentVaultPolicy \<Rightarrow> AgentSessionGrant option \<Rightarrow> AgentRiskSnapshot option \<Rightarrow> int
     \<Rightarrow> AgentPolicyEvaluation" where
  "evaluateAgentTradeProposal L g p v s risk now =
     (let vs = trade_violations L g p v s risk now in
      \<lparr>decision = (if \<exists>x \<in> set vs. severity x = Block then Decision_blocked
                  else if \<exists>x \<in> set vs. severity x = Approval then Requires_human_approval
                  else if session_active s then Allowed else Requires_human_approval),
       violations = vs,
       normalized = \<lparr>n_market = normalizeMarket L (market p),
         n_notional = (case parsePositiveDecimal L (Some (notionalUsd p)) of None \<Rightarrow> 0 | Some n \<Rightarrow> n),
         n_leverage = normalizeNumber (leverage p), n_venue = venue p\<rparr>\<rparr>)"

definition defaultAgentVaultPolicy :: "js_lib \<Rightarrow> jsstr \<Rightarrow> int \<Rightarrow> AgentVaultPolicy" where
  "defaultAgentVaultPolicy L w now = bindAgentVaultPolicyHash L
     \<lparr>v_wallet = w, v_hash = None, v_encrypted = False, enabled = True, emergencyPaused = False,
      allowedVenues = [Mock_perps], allowedMarkets = [js ''BTC-PERP'', js ''ETH-PERP'', js ''SOL-PERP''],
      maxNotionalUsd = js ''500'', maxLeverage = Some 2, requireStopLoss = True, requireTakeProfit = False,
      maxOpenPositionsPerAgent = Some 1, cooldownSeconds = Some 300, maxSessionHours = Some 24,
      dailyLossCapUsd = js ''100'', v_created = now, v_updated = now\<rparr>"

end
