(* ===== verification/Agent_Store.thy ===== *)
theory Agent_Store
  imports Agent_Policy Keyed_Store
begin

text \<open>
  The store of agent trading (\<open>features/agents/local-state\<close>: \<open>store.ts\<close>, \<open>tradeState.ts\<close>,
  \<open>governanceStore.ts\<close>, \<open>policyStore.ts\<close>, the agents of \<open>profileStore.ts\<close>) with its scorecards
  (\<open>features/agents/domain/scorecardState.ts\<close>) and the closing of a trade
  (\<open>lib/agents/executionClose.ts\<close>).  The state is what the browser stores, one list of records
  per wallet; every operation reads it, changes it and writes it back.

  \<open>Date.now()\<close> is the argument \<open>now\<close> of an operation, the random id of a new record the
  argument \<open>new\<close>.  Left out: the wording and the ids of events, journals, the display snapshot
  (\<open>clearSignV2\<close>), publishing profiles, connection keys, the JSON text of the storage.
\<close>

section \<open>The state\<close>

datatype AgentExecutionStatus = Open | Closed

datatype AgentPostTradeOutcome = Win | Loss | Flat

datatype AgentTradeThesisVerdict = Confirmed | Invalidated | Inconclusive

record AgentPostTradeReview =
  review_outcome :: AgentPostTradeOutcome
  thesisVerdict :: AgentTradeThesisVerdict
  review_pnl :: jsstr
  reviewedAt :: int

record AgentExecutionRecord =
  x_id :: jsstr
  x_wallet :: jsstr
  x_proposal :: jsstr
  x_agent :: jsstr
  x_venue :: TradingVenue
  x_market :: jsstr
  x_side :: TradeSide
  x_orderType :: TradeOrderType
  x_notional :: jsstr
  x_leverage :: jsnum
  x_entry :: "jsstr option"
  x_mode :: AgentExecutionMode
  x_adapter :: AgentExecutionAdapterStatus
  x_hash :: "jsstr option"
  x_review :: "AgentPostTradeReview option"
  x_status :: AgentExecutionStatus
  openedAt :: int
  closedAt :: "int option"
  x_pnl :: jsstr

datatype AgentAuditEventKind =
  Agent_status_changed | Agent_profile_published | Agent_profile_unpublished | Agent_profile_moderated
  | Connection_key_rotated | Owner_action_approved | Policy_emergency_pause_changed | Proposal_created | Proposal_approved
  | Proposal_rejected | Proposal_rechecked | Proposal_executed | Execution_opened | Execution_closed
  | Execution_bulk_closed | Session_status_changed | Session_renewed

record AgentAuditEvent =
  e_wallet :: jsstr
  e_agent :: "jsstr option"
  e_proposal :: "jsstr option"
  e_execution :: "jsstr option"
  e_kind :: AgentAuditEventKind
  e_created :: int

record AgentScorecard =
  c_wallet :: jsstr
  c_agent :: jsstr
  c_proposals :: nat
  c_approved :: nat
  c_rejected :: nat
  c_blocked :: nat
  c_executed :: nat
  ruleViolations :: nat
  c_pnl :: jsstr
  maxDrawdownPct :: jsnum
  humanOverrideCount :: nat
  c_updated :: int

record AgentOwnerApproval =
  o_id :: jsstr
  o_wallet :: jsstr
  o_agent :: "jsstr option"
  approvalHash :: jsstr
  o_created :: int

record StoredShape =
  agents :: "jsstr \<Rightarrow> AgentProfile list"
  policies :: "jsstr \<Rightarrow> AgentVaultPolicy option"
  proposals :: "jsstr \<Rightarrow> AgentTradeProposal list"
  sessions :: "jsstr \<Rightarrow> AgentSessionGrant list"
  executions :: "jsstr \<Rightarrow> AgentExecutionRecord list"
  events :: "jsstr \<Rightarrow> AgentAuditEvent list"
  scorecards :: "jsstr \<Rightarrow> jsstr \<Rightarrow> AgentScorecard option"
  approvals :: "jsstr \<Rightarrow> AgentOwnerApproval list"

definition emptyStoredShape :: StoredShape where
  "emptyStoredShape = \<lparr>agents = \<lambda>_. [], policies = \<lambda>_. None, proposals = \<lambda>_. [], sessions = \<lambda>_. [],
     executions = \<lambda>_. [], events = \<lambda>_. [], scorecards = \<lambda>_ _. None, approvals = \<lambda>_. []\<rparr>"

definition appendEvent :: "AgentAuditEvent \<Rightarrow> StoredShape \<Rightarrow> StoredShape" where
  "appendEvent e st = st\<lparr>events := (events st)(e_wallet e := events st (e_wallet e) @ [e])\<rparr>"

definition event :: "jsstr \<Rightarrow> jsstr option \<Rightarrow> jsstr option \<Rightarrow> jsstr option \<Rightarrow> AgentAuditEventKind \<Rightarrow> int \<Rightarrow> AgentAuditEvent" where
  "event w a p x k now = \<lparr>e_wallet = w, e_agent = a, e_proposal = p, e_execution = x, e_kind = k, e_created = now\<rparr>"

text \<open>\<open>shape.proposalsByWallet[w] = list\<close> and the same for the other maps.\<close>

definition set_proposals :: "jsstr \<Rightarrow> AgentTradeProposal list \<Rightarrow> StoredShape \<Rightarrow> StoredShape" where
  "set_proposals w ps st = st\<lparr>proposals := (proposals st)(w := ps)\<rparr>"

definition set_executions :: "jsstr \<Rightarrow> AgentExecutionRecord list \<Rightarrow> StoredShape \<Rightarrow> StoredShape" where
  "set_executions w xs st = st\<lparr>executions := (executions st)(w := xs)\<rparr>"

definition set_sessions :: "jsstr \<Rightarrow> AgentSessionGrant list \<Rightarrow> StoredShape \<Rightarrow> StoredShape" where
  "set_sessions w ss st = st\<lparr>sessions := (sessions st)(w := ss)\<rparr>"

definition set_agents :: "jsstr \<Rightarrow> AgentProfile list \<Rightarrow> StoredShape \<Rightarrow> StoredShape" where
  "set_agents w gs st = st\<lparr>agents := (agents st)(w := gs)\<rparr>"

definition set_policy :: "jsstr \<Rightarrow> AgentVaultPolicy \<Rightarrow> StoredShape \<Rightarrow> StoredShape" where
  "set_policy w v st = st\<lparr>policies := (policies st)(w \<mapsto> v)\<rparr>"

definition set_scorecard :: "jsstr \<Rightarrow> jsstr \<Rightarrow> AgentScorecard \<Rightarrow> StoredShape \<Rightarrow> StoredShape" where
  "set_scorecard w a c st = st\<lparr>scorecards := (scorecards st)(w := (scorecards st w)(a \<mapsto> c))\<rparr>"

section \<open>Money\<close>

text \<open>\<open>Math.round(x)\<close> is the floor of \<open>x + 1/2\<close>; the division rounds.\<close>

definition roundMoney :: "js_lib \<Rightarrow> number \<Rightarrow> number" where
  "roundMoney L x = fdiv L (of_int \<lfloor>fmul L x 100 + 1 / 2\<rfloor>) 100"

definition EPSILON :: number where
  "EPSILON = 1 / 2 ^ 52"

definition score_round :: "js_lib \<Rightarrow> number \<Rightarrow> number" where
  "score_round L x = roundMoney L (fadd L x EPSILON)"

definition normalizePnl :: "js_lib \<Rightarrow> jsstr \<Rightarrow> jsstr" where
  "normalizePnl L s = to_text L (roundMoney L (case to_number L s of None \<Rightarrow> 0 | Some x \<Rightarrow> x))"

text \<open>\<open>Number(text || 0)\<close>.\<close>

definition number_or_zero :: "js_lib \<Rightarrow> jsstr \<Rightarrow> jsnum" where
  "number_or_zero L s = (if s = [] then Some 0 else to_number L s)"

section \<open>Scorecards\<close>

definition blankAgentScorecard :: "jsstr \<Rightarrow> jsstr \<Rightarrow> int \<Rightarrow> AgentScorecard" where
  "blankAgentScorecard w a now = \<lparr>c_wallet = w, c_agent = a, c_proposals = 0, c_approved = 0, c_rejected = 0, c_blocked = 0,
     c_executed = 0, ruleViolations = 0, c_pnl = js ''0'', maxDrawdownPct = Some 0, humanOverrideCount = 0, c_updated = now\<rparr>"

definition incrementStatus :: "AgentProposalStatus \<Rightarrow> AgentScorecard \<Rightarrow> AgentScorecard" where
  "incrementStatus s c = (case s of
       Approved \<Rightarrow> c\<lparr>c_approved := c_approved c + 1\<rparr>
     | Rejected \<Rightarrow> c\<lparr>c_rejected := c_rejected c + 1\<rparr>
     | Blocked \<Rightarrow> c\<lparr>c_blocked := c_blocked c + 1\<rparr>
     | Executed \<Rightarrow> c\<lparr>c_executed := c_executed c + 1, c_approved := c_approved c + 1\<rparr>
     | _ \<Rightarrow> c)"

definition scorecardForNewProposal :: "AgentScorecard option \<Rightarrow> AgentTradeProposal \<Rightarrow> int \<Rightarrow> AgentScorecard" where
  "scorecardForNewProposal cur p now =
     (let c = (case cur of Some c \<Rightarrow> c | None \<Rightarrow> blankAgentScorecard (p_wallet p) (p_agent p) now);
          c = c\<lparr>c_proposals := c_proposals c + 1,
                ruleViolations := ruleViolations c + (case policyViolations p of None \<Rightarrow> 0 | Some vs \<Rightarrow> length vs)\<rparr>
      in (incrementStatus (p_status p) c)\<lparr>c_updated := now\<rparr>)"

definition became :: "AgentProposalStatus \<Rightarrow> AgentTradeProposal \<Rightarrow> AgentTradeProposal \<Rightarrow> nat" where
  "became s before after = (if p_status before \<noteq> s \<and> p_status after = s then 1 else 0)"

definition scorecardForStatusChange ::
  "AgentScorecard option \<Rightarrow> AgentTradeProposal \<Rightarrow> AgentTradeProposal \<Rightarrow> int \<Rightarrow> bool \<Rightarrow> AgentScorecard" where
  "scorecardForStatusChange cur before after now countViolations =
     (let c = (case cur of Some c \<Rightarrow> c | None \<Rightarrow> blankAgentScorecard (p_wallet after) (p_agent after) now)
      in c\<lparr>c_approved := c_approved c + became Approved before after,
           humanOverrideCount := humanOverrideCount c
             + (if became Approved before after = 1 \<and> p_status before = Needs_approval then 1 else 0),
           c_rejected := c_rejected c + became Rejected before after,
           c_blocked := c_blocked c + became Blocked before after,
           c_executed := c_executed c + became Executed before after,
           ruleViolations := ruleViolations c
             + (if countViolations then (case policyViolations after of None \<Rightarrow> 0 | Some vs \<Rightarrow> length vs) else 0),
           c_updated := now\<rparr>)"

definition drawdown :: "js_lib \<Rightarrow> jsnum \<Rightarrow> AgentExecutionRecord \<Rightarrow> jsnum \<Rightarrow> jsnum" where
  "drawdown L next x cur =
     (case (next, number_or_zero L (x_notional x)) of
        (Some pnl, Some n) \<Rightarrow>
          if pnl < 0 \<and> n > 0
          then map_option (\<lambda>m. max m (score_round L (fmul L (fdiv L \<bar>pnl\<bar> n) 100))) cur
          else cur
      | _ \<Rightarrow> cur)"

text \<open>\<open>String\<close> of a number that may be \<open>NaN\<close>.\<close>

definition number_text :: "js_lib \<Rightarrow> jsnum \<Rightarrow> jsstr" where
  "number_text L x = (case x of None \<Rightarrow> js ''NaN'' | Some v \<Rightarrow> to_text L v)"

definition scorecardForClosedExecution :: "js_lib \<Rightarrow> AgentScorecard option \<Rightarrow> AgentExecutionRecord \<Rightarrow> int \<Rightarrow> AgentScorecard" where
  "scorecardForClosedExecution L cur x now =
     (let c = (case cur of Some c \<Rightarrow> c | None \<Rightarrow> blankAgentScorecard (x_wallet x) (x_agent x) now);
          pnl = (case number_or_zero L (x_pnl x) of None \<Rightarrow> 0 | Some v \<Rightarrow> v);
          next = map_option (\<lambda>v. score_round L (fadd L v pnl)) (number_or_zero L (c_pnl c))
      in c\<lparr>c_pnl := number_text L next, maxDrawdownPct := drawdown L next x (maxDrawdownPct c), c_updated := now\<rparr>)"

definition updateScorecardForNewProposal :: "int \<Rightarrow> AgentTradeProposal \<Rightarrow> StoredShape \<Rightarrow> StoredShape" where
  "updateScorecardForNewProposal now p st =
     set_scorecard (p_wallet p) (p_agent p) (scorecardForNewProposal (scorecards st (p_wallet p) (p_agent p)) p now) st"

definition updateScorecardForStatusChange :: "int \<Rightarrow> AgentTradeProposal \<Rightarrow> AgentTradeProposal \<Rightarrow> StoredShape \<Rightarrow> StoredShape" where
  "updateScorecardForStatusChange now before after st =
     set_scorecard (p_wallet after) (p_agent after)
       (scorecardForStatusChange (scorecards st (p_wallet after) (p_agent after)) before after now False) st"

definition updateScorecardForClosedExecution :: "js_lib \<Rightarrow> int \<Rightarrow> AgentExecutionRecord \<Rightarrow> StoredShape \<Rightarrow> StoredShape" where
  "updateScorecardForClosedExecution L now x st =
     set_scorecard (x_wallet x) (x_agent x) (scorecardForClosedExecution L (scorecards st (x_wallet x) (x_agent x)) x now) st"

section \<open>The rules, the session and the risk of an agent\<close>

definition normalizePolicy :: "js_lib \<Rightarrow> AgentVaultPolicy \<Rightarrow> AgentVaultPolicy" where
  "normalizePolicy L v = bindAgentVaultPolicyHash L
     (v\<lparr>dailyLossCapUsd := if dailyLossCapUsd v = [] then js ''100'' else dailyLossCapUsd v\<rparr>)"

definition currentPolicyForShape :: "js_lib \<Rightarrow> StoredShape \<Rightarrow> jsstr \<Rightarrow> int \<Rightarrow> AgentVaultPolicy" where
  "currentPolicyForShape L st w now =
     normalizePolicy L (case policies st w of Some v \<Rightarrow> v | None \<Rightarrow> defaultAgentVaultPolicy L w now)"

definition activeSessionFor :: "StoredShape \<Rightarrow> jsstr \<Rightarrow> jsstr \<Rightarrow> int \<Rightarrow> AgentSessionGrant option" where
  "activeSessionFor st w a now =
     find (\<lambda>s. s_agent s = a \<and> s_status s = Session_status_active \<and> s_expires s > of_int now) (sessions st w)"

definition dailyRealizedPnl :: "js_lib \<Rightarrow> AgentExecutionRecord list \<Rightarrow> int \<Rightarrow> jsnum" where
  "dailyRealizedPnl L xs now =
     fold (\<lambda>x sum. case (sum, number_or_zero L (x_pnl x)) of (Some s, Some v) \<Rightarrow> Some (fadd L s v) | _ \<Rightarrow> None)
       (filter (\<lambda>x. x_status x = Closed \<and> (case closedAt x of None \<Rightarrow> False | Some t \<Rightarrow> t \<ge> day_start L now)) xs) (Some 0)"

definition later :: "AgentExecutionRecord \<Rightarrow> int option \<Rightarrow> int option" where
  "later x latest = (case latest of None \<Rightarrow> Some (openedAt x) | Some t \<Rightarrow> Some (if openedAt x > t then openedAt x else t))"

definition riskSnapshotFromShape :: "js_lib \<Rightarrow> StoredShape \<Rightarrow> jsstr \<Rightarrow> jsstr \<Rightarrow> int \<Rightarrow> AgentRiskSnapshot" where
  "riskSnapshotFromShape L st w a now =
     (let xs = filter (\<lambda>x. x_agent x = a) (executions st w) in
      \<lparr>openPositions = length (filter (\<lambda>x. x_status x = Open) xs), lastTradeAt = fold later xs None,
       dailyRealizedPnlUsd = Some (number_text L (map_option (roundMoney L) (dailyRealizedPnl L xs now)))\<rparr>)"

definition evaluateProposalForCurrentRisk :: "js_lib \<Rightarrow> StoredShape \<Rightarrow> AgentTradeProposal \<Rightarrow> int \<Rightarrow> AgentPolicyEvaluation option" where
  "evaluateProposalForCurrentRisk L st p now =
     (case find (\<lambda>g. g_id g = p_agent p) (agents st (p_wallet p)) of
        None \<Rightarrow> None
      | Some g \<Rightarrow> Some (evaluateAgentTradeProposal L g p (currentPolicyForShape L st (p_wallet p) now)
          (activeSessionFor st (p_wallet p) (p_agent p) now)
          (Some (riskSnapshotFromShape L st (p_wallet p) (p_agent p) now)) now))"

definition canExecuteProposal :: "js_lib \<Rightarrow> StoredShape \<Rightarrow> AgentTradeProposal \<Rightarrow> int \<Rightarrow> bool" where
  "canExecuteProposal L st p now \<longleftrightarrow> map_option decision (evaluateProposalForCurrentRisk L st p now) = Some Allowed"

definition statusForEvaluation :: "AgentPolicyEvaluation \<Rightarrow> AgentProposalStatus" where
  "statusForEvaluation e = (case decision e of Decision_blocked \<Rightarrow> Blocked | Allowed \<Rightarrow> Approved | Requires_human_approval \<Rightarrow> Needs_approval)"

section \<open>Executions\<close>

definition bindAgentExecutionPolicyHash :: "AgentExecutionRecord \<Rightarrow> AgentTradeProposal \<Rightarrow> AgentExecutionRecord" where
  "bindAgentExecutionPolicyHash x p = (if truthy (p_hash p) then x\<lparr>x_hash := p_hash p\<rparr> else x)"

definition executionFromProposal :: "jsstr \<Rightarrow> AgentTradeProposal \<Rightarrow> int \<Rightarrow> AgentExecutionRecord option" where
  "executionFromProposal new p now =
     (if \<not> canOpenLocalAgentExecution (venue p) then None
      else Some (bindAgentExecutionPolicyHash
        \<lparr>x_id = new, x_wallet = p_wallet p, x_proposal = p_id p, x_agent = p_agent p, x_venue = venue p, x_market = market p,
         x_side = side p, x_orderType = orderType p, x_notional = notionalUsd p, x_leverage = leverage p, x_entry = entryPrice p,
         x_mode = adapter_mode (agentExecutionAdapter (venue p)), x_adapter = adapter_status (agentExecutionAdapter (venue p)),
         x_hash = None, x_review = None, x_status = Open, openedAt = now, closedAt = None, x_pnl = js ''0''\<rparr> p))"

definition buildAgentPostTradeReview :: "js_lib \<Rightarrow> jsstr \<Rightarrow> int \<Rightarrow> AgentPostTradeReview" where
  "buildAgentPostTradeReview L pnl now =
     (let v = (case to_number L pnl of None \<Rightarrow> 0 | Some v \<Rightarrow> v);
          result = (if v > 0 then Win else if v < 0 then Loss else Flat)
      in \<lparr>review_outcome = result,
          thesisVerdict = (case result of Win \<Rightarrow> Confirmed | Loss \<Rightarrow> Invalidated | Flat \<Rightarrow> Inconclusive),
          review_pnl = to_text L (roundMoney L v), reviewedAt = now\<rparr>)"

text \<open>\<open>normalizePnl\<close> of \<open>executionClose.ts\<close>: zero without rounding when the text is no number.\<close>

definition close_pnl :: "js_lib \<Rightarrow> jsstr \<Rightarrow> jsstr" where
  "close_pnl L s = (case to_number L s of None \<Rightarrow> js ''0'' | Some v \<Rightarrow> to_text L (roundMoney L v))"

definition closeAgentExecutionRecord :: "js_lib \<Rightarrow> AgentExecutionRecord \<Rightarrow> jsstr \<Rightarrow> int \<Rightarrow> AgentExecutionRecord" where
  "closeAgentExecutionRecord L x pnl now =
     x\<lparr>x_status := Closed, closedAt := Some now, x_pnl := close_pnl L pnl,
       x_review := Some (buildAgentPostTradeReview L (close_pnl L pnl) now)\<rparr>"

definition log_opened :: "jsstr \<Rightarrow> AgentTradeProposal \<Rightarrow> AgentExecutionRecord \<Rightarrow> int \<Rightarrow> StoredShape \<Rightarrow> StoredShape" where
  "log_opened w p x now st =
     appendEvent (event w (Some (p_agent p)) (Some (p_id p)) (Some (x_id x)) Execution_opened now)
       (appendEvent (event w (Some (p_agent p)) (Some (p_id p)) (Some (x_id x)) Proposal_executed now) st)"

definition appendExecutionEvents :: "AgentTradeProposal \<Rightarrow> AgentExecutionRecord \<Rightarrow> int \<Rightarrow> StoredShape \<Rightarrow> StoredShape" where
  "appendExecutionEvents p x now st = log_opened (p_wallet p) p x now st"

definition push_execution :: "jsstr \<Rightarrow> AgentExecutionRecord \<Rightarrow> StoredShape \<Rightarrow> StoredShape" where
  "push_execution w x st = set_executions w (executions st w @ [x]) st"

section \<open>Lists\<close>

definition listAgentProposals :: "StoredShape \<Rightarrow> jsstr \<Rightarrow> AgentTradeProposal list" where
  "listAgentProposals st w = sort_key (\<lambda>p. - p_created p) (proposals st w)"

definition findAgentProposal :: "StoredShape \<Rightarrow> jsstr \<Rightarrow> jsstr \<Rightarrow> AgentTradeProposal option" where
  "findAgentProposal st w i = find (\<lambda>p. p_id p = i) (listAgentProposals st w)"

definition listAgentExecutions :: "StoredShape \<Rightarrow> jsstr \<Rightarrow> AgentExecutionRecord list" where
  "listAgentExecutions st w = sort_key (\<lambda>x. - openedAt x) (executions st w)"

definition listAgentSessions :: "StoredShape \<Rightarrow> jsstr \<Rightarrow> AgentSessionGrant list" where
  "listAgentSessions st w = sort_key (\<lambda>s. - s_created s) (sessions st w)"

definition listAgentEvents :: "StoredShape \<Rightarrow> jsstr \<Rightarrow> AgentAuditEvent list" where
  "listAgentEvents st w = sort_key (\<lambda>e. - e_created e) (events st w)"

definition listAgents :: "StoredShape \<Rightarrow> jsstr \<Rightarrow> AgentProfile list" where
  "listAgents st w = sort_key g_created (agents st w)"

definition findAgent :: "StoredShape \<Rightarrow> jsstr \<Rightarrow> jsstr \<Rightarrow> AgentProfile option" where
  "findAgent st w i = find (\<lambda>g. g_id g = i) (listAgents st w)"

definition listAgentOwnerApprovals :: "StoredShape \<Rightarrow> jsstr \<Rightarrow> AgentOwnerApproval list" where
  "listAgentOwnerApprovals st w = sort_key (\<lambda>a. - o_created a) (approvals st w)"

definition getAgentVaultPolicy :: "js_lib \<Rightarrow> StoredShape \<Rightarrow> jsstr \<Rightarrow> int \<Rightarrow> AgentVaultPolicy" where
  "getAgentVaultPolicy L st w now = currentPolicyForShape L st w now"

section \<open>Proposals\<close>

definition findDuplicateClientSignalIndex :: "AgentTradeProposal list \<Rightarrow> AgentTradeProposal \<Rightarrow> nat option" where
  "findDuplicateClientSignalIndex ps p =
     (let c = trim (or_empty (clientSignalId p)) in
      if c = [] then None
      else find_index (\<lambda>e. p_id e \<noteq> p_id p \<and> p_wallet e = p_wallet p \<and> p_agent e = p_agent p \<and> clientSignalId e = Some c) ps)"

definition bind_proposal :: "js_lib \<Rightarrow> StoredShape \<Rightarrow> AgentTradeProposal \<Rightarrow> int \<Rightarrow> AgentTradeProposal" where
  "bind_proposal L st p now = bindAgentProposalPolicyHash L p (currentPolicyForShape L st (p_wallet p) now)"

text \<open>The proposal replaces the one with its id, or is pushed, counted and logged.\<close>

definition put_proposal :: "nat option \<Rightarrow> AgentTradeProposal \<Rightarrow> int \<Rightarrow> StoredShape \<Rightarrow> StoredShape" where
  "put_proposal idx p now st =
     (let w = p_wallet p in
      case idx of
        Some i \<Rightarrow> set_proposals w ((proposals st w)[i := p]) st
      | None \<Rightarrow> set_proposals w (proposals st w @ [p])
          (appendEvent (event w (Some (p_agent p)) (Some (p_id p)) None Proposal_created now) (updateScorecardForNewProposal now p st)))"

definition saveAgentProposal :: "js_lib \<Rightarrow> int \<Rightarrow> AgentTradeProposal \<Rightarrow> StoredShape \<Rightarrow> AgentTradeProposal \<times> StoredShape" where
  "saveAgentProposal L now p st =
     (let b = bind_proposal L st p now; ps = proposals st (p_wallet p);
          idx = find_index (\<lambda>e. p_id e = p_id b) ps; dup = findDuplicateClientSignalIndex ps b
      in case (idx, dup) of
           (None, Some j) \<Rightarrow> (ps ! j, st)
         | _ \<Rightarrow> (b, put_proposal idx b now st))"

definition saveAgentProposalAndExecuteIfAllowed ::
  "js_lib \<Rightarrow> int \<Rightarrow> jsstr \<Rightarrow> AgentTradeProposal \<Rightarrow> StoredShape \<Rightarrow> (AgentTradeProposal \<times> AgentExecutionRecord option) \<times> StoredShape" where
  "saveAgentProposalAndExecuteIfAllowed L now new p st =
     (let b = bind_proposal L st p now; w = p_wallet p; ps = proposals st w;
          idx = find_index (\<lambda>e. p_id e = p_id b) ps; dup = findDuplicateClientSignalIndex ps b
      in case (idx, dup) of
           (None, Some j) \<Rightarrow> ((ps ! j, None), st)
         | _ \<Rightarrow>
             (let x = (if p_status b = Approved \<and> canExecuteProposal L st b now then executionFromProposal new b now else None)
              in case x of
                   None \<Rightarrow> ((b, None), put_proposal idx b now st)
                 | Some x \<Rightarrow>
                     (let s = b\<lparr>p_status := Executed, p_updated := now\<rparr>
                      in ((s, Some x), appendExecutionEvents s x now (push_execution w x (put_proposal idx s now st))))))"

definition transitionAgentProposal ::
  "js_lib \<Rightarrow> int \<Rightarrow> jsstr \<Rightarrow> jsstr \<Rightarrow> AgentProposalStatus \<Rightarrow> AgentAuditEventKind \<Rightarrow> StoredShape \<Rightarrow> AgentTradeProposal option \<times> StoredShape" where
  "transitionAgentProposal L now w i status k st =
     (let ps = proposals st w in
      case find_index (\<lambda>p. p_id p = i) ps of
        None \<Rightarrow> (None, st)
      | Some n \<Rightarrow>
          (let p = ps ! n in
           if p_status p = status \<or> p_status p = Executed then (Some p, st)
           else (let u = bindAgentProposalPolicyHash L (p\<lparr>p_status := status, p_updated := now\<rparr>) (currentPolicyForShape L st w now)
                 in (Some u, appendEvent (event w (Some (p_agent p)) (Some (p_id p)) None k now)
                       (updateScorecardForStatusChange now p u (set_proposals w (ps[n := u]) st))))))"

definition approveAgentProposal :: "js_lib \<Rightarrow> int \<Rightarrow> jsstr \<Rightarrow> jsstr \<Rightarrow> StoredShape \<Rightarrow> AgentTradeProposal option \<times> StoredShape" where
  "approveAgentProposal L now w i st = transitionAgentProposal L now w i Approved Proposal_approved st"

definition rejectAgentProposal :: "js_lib \<Rightarrow> int \<Rightarrow> jsstr \<Rightarrow> jsstr \<Rightarrow> StoredShape \<Rightarrow> AgentTradeProposal option \<times> StoredShape" where
  "rejectAgentProposal L now w i st = transitionAgentProposal L now w i Rejected Proposal_rejected st"

definition evaluated :: "AgentPolicyEvaluation \<Rightarrow> AgentProposalStatus \<Rightarrow> int \<Rightarrow> AgentTradeProposal \<Rightarrow> AgentTradeProposal" where
  "evaluated e s now p = p\<lparr>p_status := s, evaluationDecision := Some (decision e), policyViolations := Some (violations e), p_updated := now\<rparr>"

text \<open>The proposal at position \<open>n\<close> is evaluated anew for the agent \<open>g\<close>.\<close>

definition recheck_trade ::
  "js_lib \<Rightarrow> int \<Rightarrow> jsstr \<Rightarrow> jsstr \<Rightarrow> nat \<Rightarrow> AgentProfile \<Rightarrow> StoredShape
     \<Rightarrow> (AgentTradeProposal \<times> AgentPolicyEvaluation \<times> AgentExecutionRecord option) option \<times> StoredShape" where
  "recheck_trade L now new w n g st =
     (let ps = proposals st w; p = ps ! n; v = currentPolicyForShape L st w now;
          q = bindAgentProposalPolicyHash L p v;
          e = evaluateAgentTradeProposal L g q v (activeSessionFor st w (p_agent p) now)
                (Some (riskSnapshotFromShape L st w (p_agent p) now)) now;
          s = statusForEvaluation e;
          base = evaluated e s now q;
          x = (if s = Approved then executionFromProposal new base now else None);
          u = base\<lparr>p_status := (case x of None \<Rightarrow> s | Some _ \<Rightarrow> Executed)\<rparr>;
          st1 = appendEvent (event w (Some (p_agent p)) (Some (p_id p)) None Proposal_rechecked now)
                  (updateScorecardForStatusChange now p u (set_proposals w (ps[n := u]) st))
      in (Some (u, e, x),
          case x of None \<Rightarrow> st1 | Some x \<Rightarrow> appendExecutionEvents u x now (push_execution w x st1)))"

definition recheckAgentProposal ::
  "js_lib \<Rightarrow> int \<Rightarrow> jsstr \<Rightarrow> jsstr \<Rightarrow> jsstr \<Rightarrow> StoredShape
     \<Rightarrow> (AgentTradeProposal \<times> AgentPolicyEvaluation \<times> AgentExecutionRecord option) option \<times> StoredShape" where
  "recheckAgentProposal L now new w i st =
     (let ps = proposals st w in
      case find_index (\<lambda>p. p_id p = i) ps of
        None \<Rightarrow> (None, st)
      | Some n \<Rightarrow>
          if p_status (ps ! n) = Executed \<or> p_status (ps ! n) = Rejected then (None, st)
          else case find (\<lambda>g. g_id g = p_agent (ps ! n)) (agents st w) of
                 None \<Rightarrow> (None, st)
               | Some g \<Rightarrow> recheck_trade L now new w n g st)"

datatype AgentPaperTradeOpenReason = Opened | Not_found | Already_open | Not_approved | Open_blocked | Open_backend_required

record AgentPaperTradeOpenResult =
  r_proposal :: "AgentTradeProposal option"
  r_evaluation :: "AgentPolicyEvaluation option"
  r_execution :: "AgentExecutionRecord option"
  r_reason :: AgentPaperTradeOpenReason

definition open_result ::
  "AgentTradeProposal option \<Rightarrow> AgentPolicyEvaluation option \<Rightarrow> AgentExecutionRecord option \<Rightarrow> AgentPaperTradeOpenReason
     \<Rightarrow> AgentPaperTradeOpenResult" where
  "open_result p e x r = \<lparr>r_proposal = p, r_evaluation = e, r_execution = x, r_reason = r\<rparr>"

definition missing_agent :: "AgentPolicyViolation list" where
  "missing_agent = block_if True Agent_not_active"

definition open_trade ::
  "js_lib \<Rightarrow> int \<Rightarrow> jsstr \<Rightarrow> jsstr \<Rightarrow> nat \<Rightarrow> StoredShape \<Rightarrow> AgentPaperTradeOpenResult \<times> StoredShape" where
  "open_trade L now new w n st =
     (let ps = proposals st w; p = ps ! n; v = currentPolicyForShape L st w now;
          q = bindAgentProposalPolicyHash L p v; put = (\<lambda>u. set_proposals w (ps[n := u]) st)
      in case evaluateProposalForCurrentRisk L st q now of
           None \<Rightarrow>
             (let u = q\<lparr>p_status := Blocked, evaluationDecision := Some Decision_blocked, policyViolations := Some missing_agent, p_updated := now\<rparr>
              in (open_result (Some u) None None Open_blocked,
                  appendEvent (event w (Some (p_agent p)) (Some (p_id p)) None Proposal_rechecked now)
                    (updateScorecardForStatusChange now p u (put u))))
         | Some e \<Rightarrow>
             if decision e = Decision_blocked then
               (let u = evaluated e Blocked now q
                in (open_result (Some u) (Some e) None Open_blocked,
                    appendEvent (event w (Some (p_agent p)) (Some (p_id p)) None Proposal_rechecked now)
                      (updateScorecardForStatusChange now p u (put u))))
             else if decision e = Requires_human_approval \<and> p_status p \<noteq> Approved then
               (let u = evaluated e Needs_approval now q
                in (open_result (Some u) (Some e) None Not_approved, updateScorecardForStatusChange now p u (put u)))
             else case executionFromProposal new q now of
                    None \<Rightarrow> (let u = evaluated e Approved now q in (open_result (Some u) (Some e) None Open_backend_required, put u))
                  | Some x \<Rightarrow>
                      (let u = evaluated e Executed now q
                       in (open_result (Some u) (Some e) (Some x) Opened,
                           log_opened w p x now (updateScorecardForStatusChange now p u (push_execution w x (put u))))))"

definition openAgentPaperTrade ::
  "js_lib \<Rightarrow> int \<Rightarrow> jsstr \<Rightarrow> jsstr \<Rightarrow> jsstr \<Rightarrow> StoredShape \<Rightarrow> AgentPaperTradeOpenResult \<times> StoredShape" where
  "openAgentPaperTrade L now new w i st =
     (case find_index (\<lambda>p. p_id p = i) (proposals st w) of
        None \<Rightarrow> (open_result None None None Not_found, st)
      | Some n \<Rightarrow>
          (let p = proposals st w ! n in
           if p_status p = Executed then (open_result (Some p) None None Already_open, st)
           else if p_status p = Rejected then (open_result (Some p) None None Not_approved, st)
           else open_trade L now new w n st))"

section \<open>Closing\<close>

definition log_closed :: "js_lib \<Rightarrow> jsstr \<Rightarrow> int \<Rightarrow> AgentExecutionRecord \<Rightarrow> StoredShape \<Rightarrow> StoredShape" where
  "log_closed L w now x st =
     appendEvent (event w (Some (x_agent x)) (Some (x_proposal x)) (Some (x_id x)) Execution_closed now)
       (updateScorecardForClosedExecution L now x st)"

definition closeMockAgentExecution ::
  "js_lib \<Rightarrow> int \<Rightarrow> jsstr \<Rightarrow> jsstr \<Rightarrow> jsstr \<Rightarrow> StoredShape \<Rightarrow> AgentExecutionRecord option \<times> StoredShape" where
  "closeMockAgentExecution L now w i pnl st =
     (let xs = executions st w in
      case find_index (\<lambda>x. x_id x = i) xs of
        None \<Rightarrow> (None, st)
      | Some n \<Rightarrow>
          if x_status (xs ! n) = Closed then (Some (xs ! n), st)
          else (let u = closeAgentExecutionRecord L (xs ! n) (normalizePnl L pnl) now
                in (Some u, log_closed L w now u (set_executions w (xs[n := u]) st))))"

definition to_close :: "jsstr option \<Rightarrow> AgentExecutionRecord \<Rightarrow> bool" where
  "to_close a x \<longleftrightarrow> \<not> (x_status x \<noteq> Open \<or> (truthy a \<and> x_agent x \<noteq> or_empty a))"

definition closeOpenMockAgentExecutions ::
  "js_lib \<Rightarrow> int \<Rightarrow> jsstr \<Rightarrow> jsstr option \<Rightarrow> jsstr \<Rightarrow> StoredShape \<Rightarrow> AgentExecutionRecord list \<times> StoredShape" where
  "closeOpenMockAgentExecutions L now w a pnl st =
     (let close = (\<lambda>x. closeAgentExecutionRecord L x (normalizePnl L pnl) now);
          closed = map close (filter (to_close a) (executions st w));
          st1 = fold (log_closed L w now) closed
                  (set_executions w (map (\<lambda>x. if to_close a x then close x else x) (executions st w)) st)
      in (closed, if closed = [] then st1 else appendEvent (event w a None None Execution_bulk_closed now) st1))"

section \<open>Sessions\<close>

definition revoke_if :: "(AgentSessionGrant \<Rightarrow> bool) \<Rightarrow> int \<Rightarrow> AgentSessionGrant \<Rightarrow> AgentSessionGrant" where
  "revoke_if b now s = (if b s then s\<lparr>s_status := Session_status_revoked, s_updated := now\<rparr> else s)"

definition saveAgentSession :: "js_lib \<Rightarrow> int \<Rightarrow> AgentSessionGrant \<Rightarrow> StoredShape \<Rightarrow> AgentSessionGrant \<times> StoredShape" where
  "saveAgentSession L now s st =
     (let w = s_wallet s; b = bindAgentSessionPolicyHash L s (currentPolicyForShape L st w now);
          ss = map (revoke_if (\<lambda>e. s_status b = Session_status_active \<and> s_id e \<noteq> s_id b \<and> s_agent e = s_agent b
                 \<and> s_status e = Session_status_active) now) (sessions st w)
      in (b, set_sessions w (case find_index (\<lambda>e. s_id e = s_id b) ss of Some i \<Rightarrow> ss[i := b] | None \<Rightarrow> ss @ [b]) st))"

definition updateAgentSessionStatus ::
  "int \<Rightarrow> jsstr \<Rightarrow> jsstr \<Rightarrow> SessionStatus \<Rightarrow> StoredShape \<Rightarrow> AgentSessionGrant option \<times> StoredShape" where
  "updateAgentSessionStatus now w i status st =
     (let ss = sessions st w in
      case find_index (\<lambda>s. s_id s = i) ss of
        None \<Rightarrow> (None, st)
      | Some n \<Rightarrow>
          (let u = (ss ! n)\<lparr>s_status := status, s_updated := now\<rparr>
           in (Some u, appendEvent (event w (Some (s_agent u)) None None Session_status_changed now) (set_sessions w (ss[n := u]) st))))"

definition renewAgentSession :: "js_lib \<Rightarrow> int \<Rightarrow> jsstr \<Rightarrow> jsstr \<Rightarrow> jsstr \<Rightarrow> StoredShape \<Rightarrow> AgentSessionGrant option \<times> StoredShape" where
  "renewAgentSession L now new w i st =
     (case find (\<lambda>s. s_id s = i) (sessions st w) of
        None \<Rightarrow> (None, st)
      | Some old \<Rightarrow>
          (case find (\<lambda>g. g_id g = s_agent old) (agents st w) of
             None \<Rightarrow> (None, st)
           | Some g \<Rightarrow>
               if g_status g \<noteq> Agent_active then (None, st)
               else (let v = (case policies st w of Some v \<Rightarrow> v | None \<Rightarrow> defaultAgentVaultPolicy L w now);
                         d = max 3600000 (session_span L old);
                         longest = (case maxSessionHours v of
                            None \<Rightarrow> d | Some h \<Rightarrow> if h > 0 then session_ms L h else d);
                         r = old\<lparr>s_id := new, s_status := Session_status_active, startsAt := of_int now,
                                 s_expires := fadd L (of_int now) (min d longest), s_created := now, s_updated := now\<rparr>;
                         b = bindAgentSessionPolicyHash L r (normalizePolicy L v);
                         ss = map (revoke_if (\<lambda>e. s_agent e = s_agent b \<and> s_status e = Session_status_active) now) (sessions st w)
                     in (Some b, appendEvent (event w (Some (s_agent b)) None None Session_renewed now)
                           (set_sessions w (ss @ [b]) st)))))"

section \<open>Owner approvals, rules and agents\<close>

definition saveAgentOwnerApproval :: "AgentOwnerApproval \<Rightarrow> StoredShape \<Rightarrow> StoredShape" where
  "saveAgentOwnerApproval a st =
     (let w = o_wallet a; as = approvals st w;
          i = find_index (\<lambda>e. o_id e = o_id a \<or> approvalHash e = approvalHash a) as;
          st1 = st\<lparr>approvals := (approvals st)(w := take 250 (case i of Some n \<Rightarrow> as[n := a] | None \<Rightarrow> a # as))\<rparr>
      in if i = None then appendEvent (event w (o_agent a) None None Owner_action_approved (o_created a)) st1 else st1)"

definition saveAgentVaultPolicy :: "js_lib \<Rightarrow> AgentVaultPolicy \<Rightarrow> StoredShape \<Rightarrow> StoredShape" where
  "saveAgentVaultPolicy L v st = set_policy (v_wallet v) (normalizePolicy L v) st"

definition setAgentVaultEmergencyPause :: "js_lib \<Rightarrow> int \<Rightarrow> jsstr \<Rightarrow> bool \<Rightarrow> StoredShape \<Rightarrow> StoredShape" where
  "setAgentVaultEmergencyPause L now w b st =
     (let v = normalizePolicy L ((currentPolicyForShape L st w now)\<lparr>emergencyPaused := b, v_updated := now\<rparr>)
      in appendEvent (event w None None None Policy_emergency_pause_changed now) (set_policy w v st))"

definition saveAgent :: "int \<Rightarrow> AgentProfile \<Rightarrow> StoredShape \<Rightarrow> StoredShape" where
  "saveAgent now g st =
     (let w = g_wallet g; gs = agents st w;
          st1 = set_agents w (case find_index (\<lambda>e. g_id e = g_id g) gs of Some i \<Rightarrow> gs[i := g] | None \<Rightarrow> gs @ [g]) st
      in if scorecards st w (g_id g) = None then set_scorecard w (g_id g) (blankAgentScorecard w (g_id g) now) st1 else st1)"

definition updateAgentStatus :: "int \<Rightarrow> jsstr \<Rightarrow> jsstr \<Rightarrow> AgentStatus \<Rightarrow> StoredShape \<Rightarrow> AgentProfile option \<times> StoredShape" where
  "updateAgentStatus now w i status st =
     (let gs = agents st w in
      case find_index (\<lambda>g. g_id g = i) gs of
        None \<Rightarrow> (None, st)
      | Some n \<Rightarrow>
          (let u = (gs ! n)\<lparr>g_status := status, g_updated := now\<rparr>; st1 = set_agents w (gs[n := u]) st;
               st2 = (if status \<noteq> Agent_active
                      then set_sessions w (map (revoke_if (\<lambda>s. s_agent s = i \<and> s_status s = Session_status_active) now) (sessions st w)) st1
                      else st1)
           in (Some u, appendEvent (event w (Some i) None None Agent_status_changed now) st2)))"

section \<open>Operations as data\<close>

text \<open>The calls of the pages, with the ids the operation may hand out.\<close>

datatype agent_op =
  Save_proposal AgentTradeProposal
| Save_and_execute jsstr AgentTradeProposal
| Approve jsstr jsstr
| Reject jsstr jsstr
| Recheck jsstr jsstr jsstr
| Open_trade jsstr jsstr jsstr
| Close_trade jsstr jsstr jsstr
| Close_all jsstr "jsstr option" jsstr
| Save_session AgentSessionGrant
| Session_status jsstr jsstr SessionStatus
| Renew_session jsstr jsstr jsstr
| Save_approval AgentOwnerApproval
| Save_policy AgentVaultPolicy
| Emergency_pause jsstr bool
| Save_agent AgentProfile
| Agent_status jsstr jsstr AgentStatus

definition run_op :: "js_lib \<Rightarrow> int \<times> agent_op \<Rightarrow> StoredShape \<Rightarrow> StoredShape" where
  "run_op L c st = (let now = fst c in case snd c of
       Save_proposal p \<Rightarrow> snd (saveAgentProposal L now p st)
     | Save_and_execute new p \<Rightarrow> snd (saveAgentProposalAndExecuteIfAllowed L now new p st)
     | Approve w i \<Rightarrow> snd (approveAgentProposal L now w i st)
     | Reject w i \<Rightarrow> snd (rejectAgentProposal L now w i st)
     | Recheck new w i \<Rightarrow> snd (recheckAgentProposal L now new w i st)
     | Open_trade new w i \<Rightarrow> snd (openAgentPaperTrade L now new w i st)
     | Close_trade w i pnl \<Rightarrow> snd (closeMockAgentExecution L now w i pnl st)
     | Close_all w a pnl \<Rightarrow> snd (closeOpenMockAgentExecutions L now w a pnl st)
     | Save_session s \<Rightarrow> snd (saveAgentSession L now s st)
     | Session_status w i s \<Rightarrow> snd (updateAgentSessionStatus now w i s st)
     | Renew_session new w i \<Rightarrow> snd (renewAgentSession L now new w i st)
     | Save_approval a \<Rightarrow> saveAgentOwnerApproval a st
     | Save_policy v \<Rightarrow> saveAgentVaultPolicy L v st
     | Emergency_pause w b \<Rightarrow> setAgentVaultEmergencyPause L now w b st
     | Save_agent g \<Rightarrow> saveAgent now g st
     | Agent_status w i s \<Rightarrow> snd (updateAgentStatus now w i s st))"

definition run_ops :: "js_lib \<Rightarrow> (int \<times> agent_op) list \<Rightarrow> StoredShape \<Rightarrow> StoredShape" where
  "run_ops L cs st = fold (run_op L) cs st"

end
