(* ===== verification/Agent_Rules.thy ===== *)
theory Agent_Rules
  imports Agent_Store
begin

text \<open>
  What the rules of agent trading promise, stated without the order of the checks: a limit that
  is set is not exceeded.  The evaluation of a trade is equivalent to it.
\<close>

section \<open>The contract\<close>

text \<open>A limit that is set and positive.\<close>

definition at_most :: "number \<Rightarrow> jsnum \<Rightarrow> bool" where
  "at_most x limit \<longleftrightarrow> (\<forall>m. limit = Some m \<longrightarrow> m > 0 \<longrightarrow> x \<le> m)"

definition below :: "number \<Rightarrow> jsnum \<Rightarrow> bool" where
  "below x limit \<longleftrightarrow> (\<forall>m. limit = Some m \<longrightarrow> m > 0 \<longrightarrow> x < m)"

definition strategy_admits :: "js_lib \<Rightarrow> AgentProfile \<Rightarrow> AgentTradeProposal \<Rightarrow> bool" where
  "strategy_admits L g p \<longleftrightarrow> (\<forall>t. strategy g = Some t \<longrightarrow>
     (strategy_markets t = [] \<or> normalizeMarket L (market p) \<in> normalizeMarket L ` set (strategy_markets t))
     \<and> \<not> (strategy_mode t = Mode_paper \<and> venue p = Bulktrade_mock))"

definition session_admits :: "js_lib \<Rightarrow> AgentTradeProposal \<Rightarrow> AgentVaultPolicy \<Rightarrow> int \<Rightarrow> AgentSessionGrant \<Rightarrow> bool" where
  "session_admits L p v now s \<longleftrightarrow> s_wallet s = p_wallet p \<and> s_agent s = p_agent p \<and> s_status s = Session_status_active
     \<and> of_int now < s_expires s \<and> (\<forall>h. maxSessionHours v = Some h \<longrightarrow> h > 0 \<longrightarrow> session_span L s \<le> session_ms L h)
     \<and> (\<forall>xs. s_venues s = Some xs \<longrightarrow> xs \<noteq> [] \<longrightarrow> venue p \<in> set xs)
     \<and> (\<forall>xs. s_markets s = Some xs \<longrightarrow> xs \<noteq> [] \<longrightarrow> normalizeMarket L (market p) \<in> normalizeMarket L ` set xs)"

definition all_limits_set :: "js_lib \<Rightarrow> AgentVaultPolicy \<Rightarrow> bool" where
  "all_limits_set L v \<longleftrightarrow> (\<exists>n > 0. to_number L (maxNotionalUsd v) = Some n) \<and> (\<exists>l > 0. maxLeverage v = Some l)
     \<and> (\<exists>k > 0. maxOpenPositionsPerAgent v = Some k) \<and> (\<exists>h > 0. maxSessionHours v = Some h)
     \<and> (\<exists>cap > 0. to_number L (dailyLossCapUsd v) = Some cap)"

text \<open>Everything whose violation blocks a trade.\<close>

definition within_rules ::
  "js_lib \<Rightarrow> AgentProfile \<Rightarrow> AgentTradeProposal \<Rightarrow> AgentVaultPolicy \<Rightarrow> AgentSessionGrant option \<Rightarrow> AgentRiskSnapshot \<Rightarrow> int \<Rightarrow> bool" where
  "within_rules L g p v s risk now \<longleftrightarrow>
     enabled v \<and> all_limits_set L v \<and> \<not> emergencyPaused v \<and> g_status g = Agent_active \<and> now < p_expires p
     \<and> strategy_admits L g p
     \<and> (\<forall>t. s = Some t \<longrightarrow> session_admits L p v now t)
     \<and> venue p \<in> set (allowedVenues v)
     \<and> normalizeMarket L (market p) \<in> normalizeMarket L ` set (allowedMarkets v)
     \<and> (\<exists>n > 0. to_number L (notionalUsd p) = Some n \<and> at_most n (to_number L (maxNotionalUsd v))
          \<and> at_most n (Option.bind (Option.bind s s_maxNotional) (to_number L)))
     \<and> (\<exists>l > 0. leverage p = Some l \<and> at_most l (maxLeverage v) \<and> at_most l (Option.bind s s_maxLeverage))
     \<and> (requireStopLoss v \<longrightarrow> hasValue (stopLossPrice p)) \<and> (requireTakeProfit v \<longrightarrow> hasValue (takeProfitPrice p))
     \<and> below (of_nat (openPositions risk)) (maxOpenPositionsPerAgent v)
     \<and> below (of_nat (openPositions risk)) (Option.bind s s_maxOpen)
     \<and> (\<forall>c > 0. cooldownSeconds v = Some c \<longrightarrow> (\<forall>t. lastTradeAt risk = Some t \<longrightarrow> t \<noteq> 0 \<longrightarrow> fmul L c 1000 \<le> of_int (now - t)))
     \<and> (\<forall>cap pnl. to_number L (dailyLossCapUsd v) = Some cap \<longrightarrow> cap > 0
          \<longrightarrow> Option.bind (dailyRealizedPnlUsd risk) (to_number L) = Some pnl \<longrightarrow> - cap < pnl)"

text \<open>What a trade needs to run without the owner: a bound session and a strategy that is not read only.\<close>

definition autonomous :: "AgentProfile \<Rightarrow> AgentVaultPolicy \<Rightarrow> AgentSessionGrant option \<Rightarrow> bool" where
  "autonomous g v s \<longleftrightarrow> (\<exists>t u. s = Some t \<and> agentSessionPolicyBindingStatus t v = Binding_current
     \<and> strategy g = Some u \<and> strategy_mode u \<noteq> Read_only)"

section \<open>Limits\<close>

definition blocks :: "AgentPolicyViolation list \<Rightarrow> bool" where
  "blocks vs \<longleftrightarrow> (\<exists>x \<in> set vs. severity x = Block)"

definition asks :: "AgentPolicyViolation list \<Rightarrow> bool" where
  "asks vs \<longleftrightarrow> (\<exists>x \<in> set vs. severity x = Approval)"

lemma severities [simp]:
  "\<not> blocks []" "blocks (xs @ ys) \<longleftrightarrow> blocks xs \<or> blocks ys" "blocks (block_if b c) \<longleftrightarrow> b" "\<not> blocks (approval_if b c)"
  "\<not> asks []" "asks (xs @ ys) \<longleftrightarrow> asks xs \<or> asks ys" "asks (approval_if b c) \<longleftrightarrow> b" "\<not> asks (block_if b c)"
  by (auto simp: blocks_def asks_def block_if_def approval_if_def)

lemma minDefinedPositive_two:
  "minDefinedPositive [a, b] = (case (a, b) of
     (Some x, Some y) \<Rightarrow> if x > 0 then if y > 0 then Some (min x y) else Some x else if y > 0 then Some y else None
   | (Some x, None) \<Rightarrow> if x > 0 then Some x else None
   | (None, Some y) \<Rightarrow> if y > 0 then Some y else None
   | (None, None) \<Rightarrow> None)"
  by (cases a; cases b) (auto simp: minDefinedPositive_def Let_def min_def simp del: set_filter)

lemma min_limit:
  "(case minDefinedPositive [a, b] of None \<Rightarrow> False | Some m \<Rightarrow> x > m) \<longleftrightarrow> \<not> (at_most x a \<and> at_most x b)"
  by (auto simp: minDefinedPositive_two at_most_def split: option.splits)

lemma min_reached:
  "(case minDefinedPositive [a, b] of None \<Rightarrow> False | Some m \<Rightarrow> x \<ge> m) \<longleftrightarrow> \<not> (below x a \<and> below x b)"
  by (auto simp: minDefinedPositive_two below_def split: option.splits)

lemma parsePositive: "parsePositiveDecimal L s = Some x \<longleftrightarrow> Option.bind s (to_number L) = Some x \<and> x > 0"
  by (auto simp: parsePositiveDecimal_def split: option.splits)

lemma at_most_parsed: "at_most x (parsePositiveDecimal L s) \<longleftrightarrow> at_most x (Option.bind s (to_number L))"
  by (auto simp: at_most_def parsePositive)

section \<open>The checks one by one\<close>

lemma complete_iff: "policy_complete L v \<longleftrightarrow> all_limits_set L v"
  by (auto simp: policy_complete_def all_limits_set_def positive_def parsePositiveDecimal_def split: option.splits if_splits)

lemma cooling_iff:
  "\<not> cooling L v (Some risk) now \<longleftrightarrow> (\<forall>c > 0. cooldownSeconds v = Some c \<longrightarrow>
     (\<forall>t. lastTradeAt risk = Some t \<longrightarrow> t \<noteq> 0 \<longrightarrow> fmul L c 1000 \<le> of_int (now - t)))"
  by (auto simp: cooling_def not_less split: option.splits)

lemma loss_iff:
  "\<not> loss_capped L v (Some risk) \<longleftrightarrow> (\<forall>cap pnl. to_number L (dailyLossCapUsd v) = Some cap \<longrightarrow> cap > 0
     \<longrightarrow> Option.bind (dailyRealizedPnlUsd risk) (to_number L) = Some pnl \<longrightarrow> - cap < pnl)"
  by (auto simp: loss_capped_def parsePositive parseDecimal_def parsePositiveDecimal_def split: option.splits if_splits)

lemma strategy_blocks: "blocks (evaluateStrategy L g p s (normalizeMarket L (market p))) \<longleftrightarrow> \<not> strategy_admits L g p"
  by (auto simp: evaluateStrategy_def strategy_admits_def Let_def split: option.splits)

lemma strategy_asks:
  "asks (evaluateStrategy L g p s m) \<longleftrightarrow> session_active s \<and> (\<forall>u. strategy g = Some u \<longrightarrow> strategy_mode u = Read_only)"
  by (auto simp: evaluateStrategy_def Let_def split: option.splits)

lemma intersect_member:
  "x \<in> set (intersectOrPolicy ps ss) \<longleftrightarrow> x \<in> set ps \<and> (\<forall>xs. ss = Some xs \<longrightarrow> xs \<noteq> [] \<longrightarrow> x \<in> set xs)"
  by (auto simp: intersectOrPolicy_def split: option.splits)

lemma session_and_venue:
  "\<not> blocks (evaluateSession L s p v now) \<and> \<not> blocks (evaluateVenueAndMarket L p v s (normalizeMarket L (market p)))
   \<longleftrightarrow> (\<forall>t. s = Some t \<longrightarrow> session_admits L p v now t)
     \<and> venue p \<in> set (allowedVenues v) \<and> normalizeMarket L (market p) \<in> normalizeMarket L ` set (allowedMarkets v)"
  unfolding evaluateVenueAndMarket_def
  by (cases s) (auto simp: evaluateSession_def session_admits_def intersect_member split: option.splits if_splits)

lemma session_asks:
  "\<not> blocks (evaluateSession L s p v now) \<Longrightarrow>
   asks (evaluateSession L s p v now) \<longleftrightarrow> (\<exists>t. s = Some t \<and> agentSessionPolicyBindingStatus t v \<noteq> Binding_current)"
  by (auto simp: evaluateSession_def split: option.splits if_splits)

lemma notional_blocks:
  "\<not> blocks (notional_violations L p v s) \<longleftrightarrow>
     (\<exists>n > 0. to_number L (notionalUsd p) = Some n \<and> at_most n (to_number L (maxNotionalUsd v))
        \<and> at_most n (Option.bind (Option.bind s s_maxNotional) (to_number L)))"
proof (cases "parsePositiveDecimal L (Some (notionalUsd p))")
  case None
  then show ?thesis by (auto simp: notional_violations_def parsePositiveDecimal_def split: option.splits if_splits)
next
  case (Some n)
  have s: "(case s of None \<Rightarrow> None | Some s \<Rightarrow> parsePositiveDecimal L (s_maxNotional s)) = parsePositiveDecimal L (Option.bind s s_maxNotional)"
    by (cases s) (simp_all add: parsePositiveDecimal_def)
  have "blocks (notional_violations L p v s) \<longleftrightarrow>
      (case minDefinedPositive [parsePositiveDecimal L (Some (maxNotionalUsd v)), parsePositiveDecimal L (Option.bind s s_maxNotional)] of
         None \<Rightarrow> False | Some m \<Rightarrow> n > m)"
    by (simp add: notional_violations_def Some s split: option.splits)
  also have "\<dots> \<longleftrightarrow> \<not> (at_most n (to_number L (maxNotionalUsd v)) \<and> at_most n (Option.bind (Option.bind s s_maxNotional) (to_number L)))"
    unfolding min_limit at_most_parsed by simp
  finally show ?thesis using Some by (auto simp: parsePositive)
qed

lemma leverage_blocks:
  "\<not> blocks (leverage_violations p v s) \<longleftrightarrow>
     (\<exists>l > 0. leverage p = Some l \<and> at_most l (maxLeverage v) \<and> at_most l (Option.bind s s_maxLeverage))"
proof (cases "leverage p")
  case None
  then show ?thesis by (simp add: leverage_violations_def)
next
  case (Some l)
  then have "blocks (leverage_violations p v s) \<longleftrightarrow>
      l \<le> 0 \<or> (case minDefinedPositive [maxLeverage v, Option.bind s s_maxLeverage] of None \<Rightarrow> False | Some m \<Rightarrow> l > m)"
    by (auto simp: leverage_violations_def split: option.splits)
  then show ?thesis using Some unfolding min_limit by auto
qed

lemma position_blocks:
  "\<not> blocks (position_violations v s (Some risk)) \<longleftrightarrow>
     below (of_nat (openPositions risk)) (maxOpenPositionsPerAgent v) \<and> below (of_nat (openPositions risk)) (Option.bind s s_maxOpen)"
proof -
  have "blocks (position_violations v s (Some risk)) \<longleftrightarrow>
      (case minDefinedPositive [maxOpenPositionsPerAgent v, Option.bind s s_maxOpen] of None \<Rightarrow> False | Some m \<Rightarrow> of_nat (openPositions risk) \<ge> m)"
    by (simp add: position_violations_def split: option.splits)
  then show ?thesis unfolding min_reached by simp
qed

lemma no_asks:
  "\<not> asks (evaluateVenueAndMarket L p v s m)" "\<not> asks (notional_violations L p v s)" "\<not> asks (leverage_violations p v s)"
  "\<not> asks (position_violations v s risk)"
  by (simp_all add: evaluateVenueAndMarket_def notional_violations_def leverage_violations_def position_violations_def split: option.splits)

section \<open>The decision\<close>

lemma trade_blocks:
  "\<not> blocks (trade_violations L g p v s (Some risk) now) \<longleftrightarrow> within_rules L g p v s risk now"
proof -
  have "\<not> blocks (trade_violations L g p v s (Some risk) now) \<longleftrightarrow>
      enabled v \<and> policy_complete L v \<and> \<not> emergencyPaused v \<and> g_status g = Agent_active \<and> now < p_expires p
      \<and> \<not> blocks (evaluateStrategy L g p s (normalizeMarket L (market p)))
      \<and> (\<not> blocks (evaluateSession L s p v now) \<and> \<not> blocks (evaluateVenueAndMarket L p v s (normalizeMarket L (market p))))
      \<and> \<not> blocks (notional_violations L p v s) \<and> \<not> blocks (leverage_violations p v s)
      \<and> (requireStopLoss v \<longrightarrow> hasValue (stopLossPrice p)) \<and> (requireTakeProfit v \<longrightarrow> hasValue (takeProfitPrice p))
      \<and> \<not> blocks (position_violations v s (Some risk)) \<and> \<not> cooling L v (Some risk) now \<and> \<not> loss_capped L v (Some risk)"
    unfolding trade_violations_def Let_def severities by auto
  then show ?thesis
    unfolding within_rules_def strategy_blocks session_and_venue notional_blocks leverage_blocks position_blocks
      complete_iff cooling_iff loss_iff by (simp only: conj_assoc not_not)
qed

lemma trade_asks:
  assumes "\<not> blocks (trade_violations L g p v s (Some risk) now)"
  shows "asks (trade_violations L g p v s (Some risk) now) \<longleftrightarrow> s \<noteq> None \<and> \<not> autonomous g v s"
proof -
  have b: "\<not> blocks (evaluateSession L s p v now)" using assms by (simp add: trade_violations_def Let_def)
  have a: "session_active s" if "s = Some t" for t
    using b that by (auto simp: session_active_def evaluateSession_def split: if_splits)
  have "asks (trade_violations L g p v s (Some risk) now) \<longleftrightarrow>
      asks (evaluateStrategy L g p s (normalizeMarket L (market p))) \<or> asks (evaluateSession L s p v now)"
    by (simp add: trade_violations_def Let_def no_asks)
  then show ?thesis
    unfolding strategy_asks session_asks [OF b] autonomous_def using a by (cases s) (auto simp: session_active_def)
qed

lemma decision_blocked: "decision (evaluateAgentTradeProposal L g p v s (Some risk) now) = Decision_blocked \<longleftrightarrow> \<not> within_rules L g p v s risk now"
  unfolding trade_blocks [symmetric] by (simp add: evaluateAgentTradeProposal_def Let_def blocks_def)

lemma decision_allowed:
  "decision (evaluateAgentTradeProposal L g p v s (Some risk) now) = Allowed \<longleftrightarrow> within_rules L g p v s risk now \<and> autonomous g v s"
proof (cases "within_rules L g p v s risk now")
  case True
  then have b: "\<not> blocks (trade_violations L g p v s (Some risk) now)" by (simp add: trade_blocks)
  have "session_active s" if "s = Some t" for t
    using True that by (auto simp: session_active_def within_rules_def session_admits_def)
  then show ?thesis using True b trade_asks [OF b] unfolding evaluateAgentTradeProposal_def Let_def blocks_def [symmetric] asks_def [symmetric]
    by (cases s) (auto simp: autonomous_def session_active_def)
next
  case False
  then have "blocks (trade_violations L g p v s (Some risk) now)" using trade_blocks by blast
  with False show ?thesis by (simp add: evaluateAgentTradeProposal_def Let_def blocks_def)
qed

section \<open>Properties\<close>

text \<open>
  C6: The evaluation of a trade decides exactly by the rules: it is blocked when a rule that is set
  is broken, it runs by itself when none is and a session bound to the current rules is active
  for a strategy that may trade, and it needs the owner otherwise.
\<close>

theorem agent_decision_by_rules:
  "decision (evaluateAgentTradeProposal L g p v s (Some risk) now) =
     (if \<not> within_rules L g p v s risk now then Decision_blocked
      else if autonomous g v s then Allowed else Requires_human_approval)"
  using decision_blocked [of L g p v s risk now] decision_allowed [of L g p v s risk now]
  by (cases "decision (evaluateAgentTradeProposal L g p v s (Some risk) now)") auto

end
