(* ===== verification/Agent_Safety.thy ===== *)
theory Agent_Safety
  imports Agent_Rules
begin

text \<open>
  What holds of the store of agent trading after any calls: records are filed under their
  wallet, trades open only within the rules of the moment, closed trades stay, the log is
  complete, the emergency pause holds.
\<close>

named_theorems store_simps \<open>what an update of the store leaves and changes\<close>

lemma event_simps [simp]:
  "e_wallet (event w a p x k now) = w" "e_kind (event w a p x k now) = k"
  by (simp_all add: event_def)

lemma appendEvent_simps [store_simps]:
  "agents (appendEvent e st) = agents st" "approvals (appendEvent e st) = approvals st" "policies (appendEvent e st) = policies st" "proposals (appendEvent e st) = proposals st"
  "sessions (appendEvent e st) = sessions st" "executions (appendEvent e st) = executions st"
  "events (appendEvent e st) = (events st)(e_wallet e := events st (e_wallet e) @ [e])"
  "scorecards (appendEvent e st) = scorecards st"
  by (simp_all add: appendEvent_def)

lemma set_proposals_simps [store_simps]:
  "agents (set_proposals w ps st) = agents st" "approvals (set_proposals w ps st) = approvals st" "policies (set_proposals w ps st) = policies st"
  "proposals (set_proposals w ps st) = (proposals st)(w := ps)" "sessions (set_proposals w ps st) = sessions st"
  "executions (set_proposals w ps st) = executions st" "events (set_proposals w ps st) = events st"
  "scorecards (set_proposals w ps st) = scorecards st"
  by (simp_all add: set_proposals_def)

lemma set_executions_simps [store_simps]:
  "agents (set_executions w xs st) = agents st" "approvals (set_executions w xs st) = approvals st" "policies (set_executions w xs st) = policies st"
  "proposals (set_executions w xs st) = proposals st" "sessions (set_executions w xs st) = sessions st"
  "executions (set_executions w xs st) = (executions st)(w := xs)" "events (set_executions w xs st) = events st"
  "scorecards (set_executions w xs st) = scorecards st"
  by (simp_all add: set_executions_def)

lemma set_sessions_simps [store_simps]:
  "agents (set_sessions w ss st) = agents st" "approvals (set_sessions w ss st) = approvals st" "policies (set_sessions w ss st) = policies st"
  "proposals (set_sessions w ss st) = proposals st" "sessions (set_sessions w ss st) = (sessions st)(w := ss)"
  "executions (set_sessions w ss st) = executions st" "events (set_sessions w ss st) = events st"
  "scorecards (set_sessions w ss st) = scorecards st"
  by (simp_all add: set_sessions_def)

lemma set_agents_simps [store_simps]:
  "agents (set_agents w gs st) = (agents st)(w := gs)" "approvals (set_agents w gs st) = approvals st" "policies (set_agents w gs st) = policies st"
  "proposals (set_agents w gs st) = proposals st" "sessions (set_agents w gs st) = sessions st"
  "executions (set_agents w gs st) = executions st" "events (set_agents w gs st) = events st"
  "scorecards (set_agents w gs st) = scorecards st"
  by (simp_all add: set_agents_def)

lemma set_policy_simps [store_simps]:
  "agents (set_policy w v st) = agents st" "approvals (set_policy w v st) = approvals st" "policies (set_policy w v st) = (policies st)(w \<mapsto> v)"
  "proposals (set_policy w v st) = proposals st" "sessions (set_policy w v st) = sessions st"
  "executions (set_policy w v st) = executions st" "events (set_policy w v st) = events st"
  "scorecards (set_policy w v st) = scorecards st"
  by (simp_all add: set_policy_def)

lemma set_scorecard_simps [store_simps]:
  "agents (set_scorecard w a c st) = agents st" "approvals (set_scorecard w a c st) = approvals st" "policies (set_scorecard w a c st) = policies st"
  "proposals (set_scorecard w a c st) = proposals st" "sessions (set_scorecard w a c st) = sessions st"
  "executions (set_scorecard w a c st) = executions st" "events (set_scorecard w a c st) = events st"
  "scorecards (set_scorecard w a c st) = (scorecards st)(w := (scorecards st w)(a \<mapsto> c))"
  by (simp_all add: set_scorecard_def)

lemmas store_defs [store_simps] = updateScorecardForNewProposal_def updateScorecardForStatusChange_def
  updateScorecardForClosedExecution_def log_opened_def appendExecutionEvents_def push_execution_def log_closed_def

lemma put_proposal_simps [store_simps]:
  "agents (put_proposal i p now st) = agents st" "approvals (put_proposal i p now st) = approvals st" "policies (put_proposal i p now st) = policies st"
  "proposals (put_proposal i p now st) = (proposals st)(p_wallet p :=
     (case i of Some n \<Rightarrow> (proposals st (p_wallet p))[n := p] | None \<Rightarrow> proposals st (p_wallet p) @ [p]))"
  "sessions (put_proposal i p now st) = sessions st" "executions (put_proposal i p now st) = executions st"
  by (simp_all add: put_proposal_def Let_def store_simps split: option.splits)

lemma fold_closed_simps [store_simps]:
  "agents (fold (log_closed L w now) xs st) = agents st" "approvals (fold (log_closed L w now) xs st) = approvals st" "policies (fold (log_closed L w now) xs st) = policies st"
  "proposals (fold (log_closed L w now) xs st) = proposals st" "sessions (fold (log_closed L w now) xs st) = sessions st"
  "executions (fold (log_closed L w now) xs st) = executions st"
  by (induction xs arbitrary: st) (simp_all add: store_simps)

lemma run_ops_Nil [simp]: "run_ops L [] st = st"
  and run_ops_Cons [simp]: "run_ops L (c # cs) st = run_ops L cs (run_op L c st)"
  by (simp_all add: run_ops_def)

text \<open>An invariant of single calls holds after any sequence of them.\<close>

lemma run_ops_invariant:
  assumes "I st" "\<And>c st. c \<in> set cs \<Longrightarrow> I st \<Longrightarrow> I (run_op L c st)"
  shows "I (run_ops L cs st)"
  using assms by (induction cs arbitrary: st) auto

section \<open>Records are filed under their wallet\<close>

definition well_filed :: "StoredShape \<Rightarrow> bool" where
  "well_filed st \<longleftrightarrow> (\<forall>w. (\<forall>g \<in> set (agents st w). g_wallet g = w) \<and> (\<forall>p \<in> set (proposals st w). p_wallet p = w)
     \<and> (\<forall>s \<in> set (sessions st w). s_wallet s = w) \<and> (\<forall>x \<in> set (executions st w). x_wallet x = w)
     \<and> (\<forall>v. policies st w = Some v \<longrightarrow> v_wallet v = w) \<and> (\<forall>a \<in> set (approvals st w). o_wallet a = w) \<and> (\<forall>e \<in> set (events st w). e_wallet e = w)
     \<and> (\<forall>a c. scorecards st w a = Some c \<longrightarrow> c_wallet c = w \<and> c_agent c = a))"

lemma find_indexD: "find_index P xs = Some n \<Longrightarrow> n < length xs \<and> xs ! n \<in> set xs \<and> P (xs ! n)"
  by (auto dest: find_index_Some)

lemma find_Some_set: "find P xs = Some x \<Longrightarrow> x \<in> set xs \<and> P x"
  by (induction xs) (auto split: if_splits)

lemma in_update: "x \<in> set (xs[n := y]) \<Longrightarrow> x \<in> set xs \<or> x = y"
  using set_update_subset_insert by fastforce

lemma bound_simps [simp]:
  "p_wallet (bindAgentProposalPolicyHash L p v) = p_wallet p" "p_id (bindAgentProposalPolicyHash L p v) = p_id p"
  "p_agent (bindAgentProposalPolicyHash L p v) = p_agent p" "p_status (bindAgentProposalPolicyHash L p v) = p_status p"
  "p_wallet (bind_proposal L st p now) = p_wallet p" "p_id (bind_proposal L st p now) = p_id p"
  "p_agent (bind_proposal L st p now) = p_agent p" "p_status (bind_proposal L st p now) = p_status p"
  "p_wallet (evaluated e s now p) = p_wallet p" "p_id (evaluated e s now p) = p_id p" "p_agent (evaluated e s now p) = p_agent p"
  by (simp_all add: bindAgentProposalPolicyHash_def bind_proposal_def evaluated_def)

lemma normalized_simps [simp]:
  "v_wallet (normalizePolicy L v) = v_wallet v" "emergencyPaused (normalizePolicy L v) = emergencyPaused v"
  "maxOpenPositionsPerAgent (normalizePolicy L v) = maxOpenPositionsPerAgent v"
  by (simp_all add: normalizePolicy_def bindAgentVaultPolicyHash_def)

lemma default_simps [simp]:
  "v_wallet (defaultAgentVaultPolicy L w now) = w" "\<not> emergencyPaused (defaultAgentVaultPolicy L w now)"
  "maxOpenPositionsPerAgent (defaultAgentVaultPolicy L w now) = Some 1"
  by (simp_all add: defaultAgentVaultPolicy_def bindAgentVaultPolicyHash_def)

lemma revoke_simps [simp]:
  "s_wallet (revoke_if b now s) = s_wallet s" "s_agent (revoke_if b now s) = s_agent s" "s_id (revoke_if b now s) = s_id s"
  by (simp_all add: revoke_if_def)

lemma close_simps [simp]:
  "x_wallet (closeAgentExecutionRecord L x pnl now) = x_wallet x" "x_agent (closeAgentExecutionRecord L x pnl now) = x_agent x"
  "x_id (closeAgentExecutionRecord L x pnl now) = x_id x" "x_status (closeAgentExecutionRecord L x pnl now) = Closed"
  by (simp_all add: closeAgentExecutionRecord_def)

lemma filed:
  "p \<in> set (proposals st w) \<Longrightarrow> well_filed st \<Longrightarrow> p_wallet p = w"
  "x \<in> set (executions st w) \<Longrightarrow> well_filed st \<Longrightarrow> x_wallet x = w"
  "g \<in> set (agents st w) \<Longrightarrow> well_filed st \<Longrightarrow> g_wallet g = w"
  "s \<in> set (sessions st w) \<Longrightarrow> well_filed st \<Longrightarrow> s_wallet s = w"
  "policies st w = Some v \<Longrightarrow> well_filed st \<Longrightarrow> v_wallet v = w"
  "scorecards st w a = Some c \<Longrightarrow> well_filed st \<Longrightarrow> c_wallet c = w \<and> c_agent c = a"
  by (auto simp: well_filed_def)

lemma filed_all:
  assumes "well_filed st"
  shows "\<forall>x \<in> set (executions st w). x_wallet x = w" "\<forall>g \<in> set (agents st w). g_wallet g = w" "\<forall>s \<in> set (sessions st w). s_wallet s = w"
  using assms by (auto simp: well_filed_def)

lemma filed_appendEvent: "well_filed st \<Longrightarrow> well_filed (appendEvent e st)"
  by (auto simp: well_filed_def store_simps)

lemma filed_set_proposals: "well_filed st \<Longrightarrow> (\<And>p. p \<in> set ps \<Longrightarrow> p_wallet p = w) \<Longrightarrow> well_filed (set_proposals w ps st)"
  by (auto simp: well_filed_def store_simps)

lemma filed_set_executions: "well_filed st \<Longrightarrow> (\<And>x. x \<in> set xs \<Longrightarrow> x_wallet x = w) \<Longrightarrow> well_filed (set_executions w xs st)"
  by (auto simp: well_filed_def store_simps)

lemma filed_set_sessions: "well_filed st \<Longrightarrow> (\<And>s. s \<in> set ss \<Longrightarrow> s_wallet s = w) \<Longrightarrow> well_filed (set_sessions w ss st)"
  by (auto simp: well_filed_def store_simps)

lemma filed_set_agents: "well_filed st \<Longrightarrow> (\<And>g. g \<in> set gs \<Longrightarrow> g_wallet g = w) \<Longrightarrow> well_filed (set_agents w gs st)"
  by (auto simp: well_filed_def store_simps)

lemma filed_set_policy: "well_filed st \<Longrightarrow> v_wallet v = w \<Longrightarrow> well_filed (set_policy w v st)"
  by (auto simp: well_filed_def store_simps)

lemma filed_set_scorecard: "well_filed st \<Longrightarrow> c_wallet c = w \<Longrightarrow> c_agent c = a \<Longrightarrow> well_filed (set_scorecard w a c st)"
  by (auto simp: well_filed_def store_simps)

lemma increment_simps [simp]: "c_wallet (incrementStatus s c) = c_wallet c" "c_agent (incrementStatus s c) = c_agent c"
  by (simp_all add: incrementStatus_def split: AgentProposalStatus.splits)

lemma blank_simps [simp]: "c_wallet (blankAgentScorecard w a now) = w" "c_agent (blankAgentScorecard w a now) = a"
  by (simp_all add: blankAgentScorecard_def)

lemma filed_scorecards:
  assumes "well_filed st"
  shows "well_filed (updateScorecardForNewProposal now p st)" "well_filed (updateScorecardForStatusChange now p q st)"
    "well_filed (updateScorecardForClosedExecution L now x st)"
  using assms
  by (auto simp: updateScorecardForNewProposal_def updateScorecardForStatusChange_def updateScorecardForClosedExecution_def
      scorecardForNewProposal_def scorecardForStatusChange_def scorecardForClosedExecution_def Let_def
      intro!: filed_set_scorecard dest: filed(6) split: option.splits)

lemma filed_put_proposal:
  assumes "well_filed st"
  shows "well_filed (put_proposal i p now st)"
  using assms unfolding put_proposal_def Let_def
  by (auto intro!: filed_set_proposals filed_appendEvent filed_scorecards dest!: in_update dest: filed(1) split: option.splits)

lemma filed_push: "well_filed st \<Longrightarrow> x_wallet x = w \<Longrightarrow> well_filed (push_execution w x st)"
  unfolding push_execution_def by (rule filed_set_executions) (auto dest: filed(2))

lemma filed_opened: "well_filed st \<Longrightarrow> well_filed (log_opened w p x now st)"
  by (simp add: log_opened_def filed_appendEvent)

lemma filed_closed: "well_filed st \<Longrightarrow> well_filed (fold (log_closed L w now) xs st)"
  by (induction xs arbitrary: st) (simp_all add: log_closed_def filed_appendEvent filed_scorecards)

lemma executionFromProposal_wallet: "executionFromProposal new p now = Some x \<Longrightarrow> x_wallet x = p_wallet p"
  by (auto simp: executionFromProposal_def bindAgentExecutionPolicyHash_def split: if_splits)

lemmas filed_intros = filed_appendEvent filed_set_proposals filed_set_executions filed_set_sessions filed_set_agents filed_set_policy
  filed_scorecards filed_put_proposal filed_push filed_opened filed_closed

lemma filed_saves:
  assumes "well_filed st"
  shows "well_filed (snd (saveAgentProposal L now p st))"
    "well_filed (snd (saveAgentProposalAndExecuteIfAllowed L now new p st))"
  using assms
  by (auto simp: saveAgentProposal_def saveAgentProposalAndExecuteIfAllowed_def appendExecutionEvents_def Let_def
      intro!: filed_intros dest: executionFromProposal_wallet split: option.splits)

lemma filed_transition:
  assumes "well_filed st"
  shows "well_filed (snd (transitionAgentProposal L now w i s k st))"
  using assms
  by (auto simp: transitionAgentProposal_def Let_def intro!: filed_intros dest!: in_update find_indexD dest: filed(1) split: option.splits)

lemma filed_recheck:
  assumes "well_filed st"
  shows "well_filed (snd (recheckAgentProposal L now new w i st))"
proof -
  have "well_filed (snd (recheck_trade L now new w n g st))" if "proposals st w ! n \<in> set (proposals st w)" for n g
    using assms filed(1) [OF that assms]
    by (auto simp: recheck_trade_def appendExecutionEvents_def Let_def intro!: filed_intros dest!: in_update executionFromProposal_wallet
        dest: filed(1) split: option.splits if_splits)
  then show ?thesis using assms
    by (auto simp: recheckAgentProposal_def Let_def dest!: find_indexD split: option.splits)
qed

lemma filed_open:
  assumes "well_filed st"
  shows "well_filed (snd (openAgentPaperTrade L now new w i st))"
proof -
  have "well_filed (snd (open_trade L now new w n st))" if "proposals st w ! n \<in> set (proposals st w)" for n
    using assms filed(1) [OF that assms]
    by (auto simp: open_trade_def Let_def intro!: filed_intros dest!: in_update executionFromProposal_wallet
        dest: filed(1) split: option.splits if_splits)
  then show ?thesis using assms
    by (auto simp: openAgentPaperTrade_def Let_def dest!: find_indexD split: option.splits)
qed

lemma filed_closing:
  assumes "well_filed st"
  shows "well_filed (snd (closeMockAgentExecution L now w i pnl st))" "well_filed (snd (closeOpenMockAgentExecutions L now w a pnl st))"
  using assms filed_all [OF assms, of w]
  by (auto simp: closeMockAgentExecution_def closeOpenMockAgentExecutions_def log_closed_def Let_def intro!: filed_intros
      dest!: in_update find_indexD split: option.splits)

lemma filed_sessions:
  assumes "well_filed st"
  shows "well_filed (snd (saveAgentSession L now ses st))" "well_filed (snd (updateAgentSessionStatus now w i ss st))"
    "well_filed (snd (renewAgentSession L now new w i st))"
proof -
  have f: "s \<in> set (sessions st u) \<Longrightarrow> s_wallet s = u" for s u using filed(4) assms by blast
  show "well_filed (snd (saveAgentSession L now ses st))"
    unfolding saveAgentSession_def Let_def snd_conv
    by (rule filed_set_sessions [OF assms])
      (use filed_all(3) [OF assms, of "s_wallet ses"] in \<open>auto simp: bindAgentSessionPolicyHash_def dest!: in_update split: option.splits\<close>)
  show "well_filed (snd (updateAgentSessionStatus now w i ss st))"
  proof (cases "find_index (\<lambda>s. s_id s = i) (sessions st w)")
    case (Some n)
    have "well_filed (set_sessions w ((sessions st w)[n := (sessions st w ! n)\<lparr>s_status := ss, s_updated := now\<rparr>]) st)"
      by (rule filed_set_sessions [OF assms]) (use find_indexD [OF Some] f in \<open>auto dest!: in_update\<close>)
    then show ?thesis by (simp add: updateAgentSessionStatus_def Let_def Some filed_appendEvent)
  qed (simp add: updateAgentSessionStatus_def assms)
  show "well_filed (snd (renewAgentSession L now new w i st))"
  proof (cases "find (\<lambda>s. s_id s = i) (sessions st w)")
    case (Some old)
    then have "s_wallet old = w" using find_Some_set [OF Some] filed(4) assms by blast
    then show ?thesis using assms filed_all(3) [OF assms, of w]
      by (cases "find (\<lambda>g. g_id g = s_agent old) (agents st w)")
        (auto simp: renewAgentSession_def bindAgentSessionPolicyHash_def Let_def Some intro!: filed_intros)
  qed (simp add: renewAgentSession_def assms)
qed

lemma filed_others:
  assumes "well_filed st"
  shows "well_filed (saveAgentOwnerApproval o' st)" "well_filed (saveAgentVaultPolicy L v st)"
    "well_filed (setAgentVaultEmergencyPause L now w b st)" "well_filed (saveAgent now g st)"
    "well_filed (snd (updateAgentStatus now w i s st))"
proof -
  have u: "well_filed (st\<lparr>approvals := (approvals st)(w := as)\<rparr>)" if "\<And>a. a \<in> set as \<Longrightarrow> o_wallet a = w" for w as
    using assms that by (auto simp: well_filed_def)
  have "o_wallet a = o_wallet o'" if "a \<in> set (approvals st (o_wallet o'))" for a
    using assms that by (simp add: well_filed_def)
  then show "well_filed (saveAgentOwnerApproval o' st)"
    by (auto simp: saveAgentOwnerApproval_def Let_def intro!: filed_appendEvent u dest!: in_set_takeD in_update split: option.splits)
  show "well_filed (saveAgentVaultPolicy L v st)" "well_filed (setAgentVaultEmergencyPause L now w b st)"
    using assms by (auto simp: saveAgentVaultPolicy_def setAgentVaultEmergencyPause_def currentPolicyForShape_def Let_def
        intro!: filed_intros dest: filed(5) split: option.splits)
  have g: "h \<in> set (agents st u) \<Longrightarrow> g_wallet h = u" for h u using filed(3) assms by blast
  have f: "t \<in> set (sessions st u) \<Longrightarrow> s_wallet t = u" for t u using filed(4) assms by blast
  have "well_filed (set_agents (g_wallet g) (case find_index (\<lambda>e. g_id e = g_id g) (agents st (g_wallet g)) of
      Some i \<Rightarrow> (agents st (g_wallet g))[i := g] | None \<Rightarrow> agents st (g_wallet g) @ [g]) st)"
    by (rule filed_set_agents [OF assms]) (use filed_all(2) [OF assms, of "g_wallet g"] in \<open>auto dest!: in_update split: option.splits\<close>)
  then show "well_filed (saveAgent now g st)"
    by (auto simp: saveAgent_def Let_def intro!: filed_set_scorecard)
  show "well_filed (snd (updateAgentStatus now w i s st))"
  proof (cases "find_index (\<lambda>e. g_id e = i) (agents st w)")
    case (Some n)
    have "well_filed (set_agents w ((agents st w)[n := (agents st w ! n)\<lparr>g_status := s, g_updated := now\<rparr>]) st)"
      by (rule filed_set_agents [OF assms]) (use find_indexD [OF Some] g in \<open>auto dest!: in_update\<close>)
    then show ?thesis using f
      by (auto simp: updateAgentStatus_def Let_def Some store_simps intro!: filed_appendEvent filed_set_sessions)
  qed (simp add: updateAgentStatus_def assms)
qed

lemma run_op_filed: "well_filed st \<Longrightarrow> well_filed (run_op L c st)"
  by (cases c; cases "snd c")
    (simp_all add: run_op_def approveAgentProposal_def rejectAgentProposal_def filed_saves filed_transition filed_recheck
      filed_open filed_closing filed_sessions filed_others)

lemma empty_filed: "well_filed emptyStoredShape"
  by (simp add: well_filed_def emptyStoredShape_def)

lemma run_ops_filed: "well_filed st \<Longrightarrow> well_filed (run_ops L cs st)"
  by (rule run_ops_invariant [where I = well_filed]) (simp_all add: run_op_filed)

section \<open>Trades open only within the rules\<close>

definition trade_of :: "AgentTradeProposal \<Rightarrow> AgentExecutionRecord \<Rightarrow> bool" where
  "trade_of p x \<longleftrightarrow> x_proposal x = p_id p \<and> x_wallet x = p_wallet p \<and> x_agent x = p_agent p \<and> x_venue x = venue p \<and> x_market x = market p
     \<and> x_side x = side p \<and> x_notional x = notionalUsd p \<and> x_leverage x = leverage p \<and> canOpenLocalAgentExecution (x_venue x)"

text \<open>The proposal a call is about: the one that is submitted, or the stored one of that id.\<close>

definition proposal_of :: "agent_op \<Rightarrow> StoredShape \<Rightarrow> AgentTradeProposal option" where
  "proposal_of c st = (case c of
       Save_and_execute new p \<Rightarrow> Some p
     | Recheck new w i \<Rightarrow> find (\<lambda>p. p_id p = i) (proposals st w)
     | Open_trade new w i \<Rightarrow> find (\<lambda>p. p_id p = i) (proposals st w)
     | _ \<Rightarrow> None)"

definition asks_to_open :: "agent_op \<Rightarrow> bool" where
  "asks_to_open c \<longleftrightarrow> (case c of Open_trade new w i \<Rightarrow> True | _ \<Rightarrow> False)"

text \<open>
  The rules of the moment admit the proposal of the trade, with its stop loss, take profit and
  expiry, and it may run by itself, or the owner asks to open it and has approved it.
\<close>

definition authorised :: "js_lib \<Rightarrow> int \<Rightarrow> StoredShape \<Rightarrow> jsstr \<Rightarrow> bool \<Rightarrow> AgentTradeProposal \<Rightarrow> AgentExecutionRecord \<Rightarrow> bool" where
  "authorised L now st w asked p x \<longleftrightarrow> (\<exists>g v s. g \<in> set (agents st w) \<and> g_id g = p_agent p \<and> trade_of p x \<and> p_wallet p = w
     \<and> v = currentPolicyForShape L st w now \<and> s = activeSessionFor st w (p_agent p) now
     \<and> within_rules L g p v s (riskSnapshotFromShape L st w (p_agent p) now) now
     \<and> (autonomous g v s \<or> (asked \<and> p_status p = Approved)))"

lemma find_index_find: "find_index P xs = Some n \<Longrightarrow> find P xs = Some (xs ! n)"
  by (induction xs arbitrary: n) (auto split: if_splits option.splits)

lemma executionFromProposalD:
  assumes "executionFromProposal new p now = Some x"
  shows "trade_of p x" "x_status x = Open" "x_id x = new" "openedAt x = now"
  using assms by (auto simp: executionFromProposal_def bindAgentExecutionPolicyHash_def trade_of_def split: if_splits)

lemma within_rules_cong:
  assumes "market p = market q" "venue p = venue q" "notionalUsd p = notionalUsd q" "leverage p = leverage q"
    "stopLossPrice p = stopLossPrice q" "takeProfitPrice p = takeProfitPrice q" "p_expires p = p_expires q"
    "p_wallet p = p_wallet q" "p_agent p = p_agent q"
  shows "within_rules L g p v s risk now = within_rules L g q v s risk now"
  by (simp add: within_rules_def strategy_admits_def session_admits_def assms)

lemma within_evaluated [simp]: "within_rules L g (evaluated e u now p) v s risk t = within_rules L g p v s risk t"
  by (rule within_rules_cong) (simp_all add: evaluated_def)

lemma evaluate_current:
  assumes "evaluateProposalForCurrentRisk L st p now = Some e" "decision e \<noteq> Decision_blocked"
  obtains g where "g \<in> set (agents st (p_wallet p))" "g_id g = p_agent p"
    "within_rules L g p (currentPolicyForShape L st (p_wallet p) now) (activeSessionFor st (p_wallet p) (p_agent p) now)
       (riskSnapshotFromShape L st (p_wallet p) (p_agent p) now) now"
    "decision e = Allowed \<longrightarrow> autonomous g (currentPolicyForShape L st (p_wallet p) now) (activeSessionFor st (p_wallet p) (p_agent p) now)"
proof -
  from assms(1) obtain g where g: "find (\<lambda>g. g_id g = p_agent p) (agents st (p_wallet p)) = Some g"
    and e: "e = evaluateAgentTradeProposal L g p (currentPolicyForShape L st (p_wallet p) now)
      (activeSessionFor st (p_wallet p) (p_agent p) now) (Some (riskSnapshotFromShape L st (p_wallet p) (p_agent p) now)) now"
    by (auto simp: evaluateProposalForCurrentRisk_def split: option.splits)
  from find_Some_set [OF g] show ?thesis using that assms(2) unfolding e decision_blocked decision_allowed by blast
qed

lemma within_bound [simp]:
  "within_rules L g (bindAgentProposalPolicyHash L p u) v s risk t = within_rules L g p v s risk t"
  "within_rules L g (bind_proposal L st p now) v s risk t = within_rules L g p v s risk t"
  by (rule within_rules_cong; simp add: bind_proposal_def bindAgentProposalPolicyHash_def)+

lemma trade_of_bound [simp]:
  "trade_of (bindAgentProposalPolicyHash L p v) x = trade_of p x" "trade_of (bind_proposal L st p now) x = trade_of p x"
  "trade_of (evaluated e s now p) x = trade_of p x"
  by (simp_all add: trade_of_def bind_proposal_def bindAgentProposalPolicyHash_def evaluated_def)

lemma authorisedI:
  assumes "g \<in> set (agents st w)" "g_id g = p_agent p" "trade_of p x" "p_wallet p = w"
    and "within_rules L g p (currentPolicyForShape L st w now) (activeSessionFor st w (p_agent p) now) (riskSnapshotFromShape L st w (p_agent p) now) now"
    and "autonomous g (currentPolicyForShape L st w now) (activeSessionFor st w (p_agent p) now) \<or> (asked \<and> p_status p = Approved)"
  shows "authorised L now st w asked p x"
  unfolding authorised_def by (intro exI [of _ g] exI conjI) (use assms in auto)

lemma save_and_execute_effect:
  "executions (snd (saveAgentProposalAndExecuteIfAllowed L now new p st)) = executions st
   \<or> (\<exists>x. authorised L now st (p_wallet p) False p x \<and> x_status x = Open \<and>
        executions (snd (saveAgentProposalAndExecuteIfAllowed L now new p st)) = (executions st)(p_wallet p := executions st (p_wallet p) @ [x]))"
proof (cases "p_status p = Approved \<and> canExecuteProposal L st (bind_proposal L st p now) now")
  case True
  let ?b = "bind_proposal L st p now"
  show ?thesis
  proof (cases "executionFromProposal new ?b now")
    case (Some x)
    note x = executionFromProposalD [OF Some]
    from True obtain e where e: "evaluateProposalForCurrentRisk L st ?b now = Some e" "decision e = Allowed"
      by (auto simp: canExecuteProposal_def)
    from e(2) have "decision e \<noteq> Decision_blocked" by simp
    with e obtain g where "g \<in> set (agents st (p_wallet p))" "g_id g = p_agent p"
        "within_rules L g ?b (currentPolicyForShape L st (p_wallet p) now) (activeSessionFor st (p_wallet p) (p_agent p) now)
           (riskSnapshotFromShape L st (p_wallet p) (p_agent p) now) now"
        "autonomous g (currentPolicyForShape L st (p_wallet p) now) (activeSessionFor st (p_wallet p) (p_agent p) now)"
      using evaluate_current [of L st ?b now e] by auto
    then have "authorised L now st (p_wallet p) False p x" using x(1) by (intro authorisedI) simp_all
    then show ?thesis using x(2) True Some
      by (auto simp: saveAgentProposalAndExecuteIfAllowed_def Let_def store_simps split: option.splits)
  qed (auto simp: saveAgentProposalAndExecuteIfAllowed_def Let_def store_simps split: option.splits)
qed (auto simp: saveAgentProposalAndExecuteIfAllowed_def Let_def store_simps split: option.splits)

lemma recheck_trade_effect:
  assumes "g \<in> set (agents st w)" "g_id g = p_agent (proposals st w ! n)" "p_wallet (proposals st w ! n) = w"
  shows "executions (snd (recheck_trade L now new w n g st)) = executions st
   \<or> (\<exists>x. authorised L now st w False (proposals st w ! n) x \<and> x_status x = Open \<and>
        executions (snd (recheck_trade L now new w n g st)) = (executions st)(w := executions st w @ [x]))"
proof -
  let ?v = "currentPolicyForShape L st w now"
  let ?p = "bindAgentProposalPolicyHash L (proposals st w ! n) ?v"
  let ?e = "evaluateAgentTradeProposal L g ?p ?v (activeSessionFor st w (p_agent ?p) now) (Some (riskSnapshotFromShape L st w (p_agent ?p) now)) now"
  let ?x = "if statusForEvaluation ?e = Approved then executionFromProposal new (evaluated ?e (statusForEvaluation ?e) now ?p) now else None"
  have ex: "executions (snd (recheck_trade L now new w n g st)) =
      (case ?x of None \<Rightarrow> executions st | Some x \<Rightarrow> (executions st)(w := executions st w @ [x]))"
    by (simp add: recheck_trade_def Let_def store_simps split: option.splits)
  show ?thesis
  proof (cases ?x)
    case (Some x)
    then have a: "statusForEvaluation ?e = Approved" and x: "executionFromProposal new (evaluated ?e Approved now ?p) now = Some x"
      by (auto split: if_splits)
    from a have "decision ?e = Allowed" by (simp add: statusForEvaluation_def split: AgentPolicyDecision.splits)
    then have "authorised L now st w False (proposals st w ! n) x"
      using assms executionFromProposalD(1) [OF x] unfolding decision_allowed
      by (intro authorisedI [of g st w "proposals st w ! n"]) simp_all
    then show ?thesis using ex Some executionFromProposalD(2) [OF x] by auto
  qed (simp add: ex)
qed

lemma recheck_effect:
  assumes "\<forall>p \<in> set (proposals st w). p_wallet p = w"
  shows "executions (snd (recheckAgentProposal L now new w i st)) = executions st
   \<or> (\<exists>p x. find (\<lambda>p. p_id p = i) (proposals st w) = Some p \<and> authorised L now st w False p x \<and> x_status x = Open \<and>
        executions (snd (recheckAgentProposal L now new w i st)) = (executions st)(w := executions st w @ [x]))"
proof (cases "find_index (\<lambda>p. p_id p = i) (proposals st w)")
  case (Some n)
  show ?thesis
  proof (cases "find (\<lambda>g. g_id g = p_agent (proposals st w ! n)) (agents st w)")
    case g: (Some g)
    have "recheckAgentProposal L now new w i st = (None, st) \<or> recheckAgentProposal L now new w i st = recheck_trade L now new w n g st"
      by (simp add: recheckAgentProposal_def Let_def Some g)
    moreover from find_Some_set [OF g] find_indexD [OF Some] find_index_find [OF Some] assms
      recheck_trade_effect [of g st w n L now new] show ?thesis using calculation by auto
  qed (simp add: recheckAgentProposal_def Let_def Some)
qed (simp add: recheckAgentProposal_def Let_def)

lemma open_trade_effect:
  assumes "proposals st w ! n \<in> set (proposals st w)" "p_wallet (proposals st w ! n) = w"
  shows "executions (snd (open_trade L now new w n st)) = executions st
   \<or> (\<exists>x. authorised L now st w True (proposals st w ! n) x \<and> x_status x = Open \<and>
        executions (snd (open_trade L now new w n st)) = (executions st)(w := executions st w @ [x]))"
proof -
  let ?v = "currentPolicyForShape L st w now"
  let ?p = "bindAgentProposalPolicyHash L (proposals st w ! n) ?v"
  show ?thesis
  proof (cases "evaluateProposalForCurrentRisk L st ?p now")
    case (Some e)
    have ex: "executions (snd (open_trade L now new w n st)) =
        (if decision e = Decision_blocked \<or> (decision e = Requires_human_approval \<and> p_status (proposals st w ! n) \<noteq> Approved)
         then executions st
         else case executionFromProposal new ?p now of None \<Rightarrow> executions st
              | Some x \<Rightarrow> (executions st)(w := executions st w @ [x]))"
      by (cases "executionFromProposal new ?p now") (simp_all add: open_trade_def Let_def store_simps Some)
    show ?thesis
    proof (cases "decision e = Decision_blocked \<or> (decision e = Requires_human_approval \<and> p_status (proposals st w ! n) \<noteq> Approved)")
      case False
      then have d: "decision e \<noteq> Decision_blocked" "decision e = Allowed \<or> p_status (proposals st w ! n) = Approved"
        by (cases "decision e"; auto)+
      show ?thesis
      proof (cases "executionFromProposal new ?p now")
        case x: (Some x)
        note x' = executionFromProposalD [OF x]
        obtain g where "g \<in> set (agents st w)" "g_id g = p_agent ?p"
            "within_rules L g ?p ?v (activeSessionFor st w (p_agent ?p) now) (riskSnapshotFromShape L st w (p_agent ?p) now) now"
            "decision e = Allowed \<longrightarrow> autonomous g ?v (activeSessionFor st w (p_agent ?p) now)"
          using evaluate_current [OF Some d(1)] assms(2) by auto
        then have "authorised L now st w True (proposals st w ! n) x"
          using assms d(2) x'(1) by (intro authorisedI) auto
        then show ?thesis using ex False x x'(2) by auto
      qed (use ex in simp)
    qed (use ex in simp)
  qed (simp add: open_trade_def Let_def store_simps)
qed

lemma open_effect:
  assumes "\<forall>p \<in> set (proposals st w). p_wallet p = w"
  shows "executions (snd (openAgentPaperTrade L now new w i st)) = executions st
   \<or> (\<exists>p x. find (\<lambda>p. p_id p = i) (proposals st w) = Some p \<and> authorised L now st w True p x \<and> x_status x = Open \<and>
        executions (snd (openAgentPaperTrade L now new w i st)) = (executions st)(w := executions st w @ [x]))"
proof (cases "find_index (\<lambda>p. p_id p = i) (proposals st w)")
  case (Some n)
  with open_trade_effect [of st w n L now new] find_indexD [OF Some] find_index_find [OF Some] assms show ?thesis
    by (auto simp: openAgentPaperTrade_def Let_def)
qed (simp add: openAgentPaperTrade_def)

section \<open>Closing\<close>

text \<open>A trade stays as it is, or it is open and is closed.\<close>

definition kept :: "js_lib \<Rightarrow> int \<Rightarrow> AgentExecutionRecord \<Rightarrow> AgentExecutionRecord \<Rightarrow> bool" where
  "kept L now x y \<longleftrightarrow> y = x \<or> (x_status x = Open \<and> (\<exists>pnl. y = closeAgentExecutionRecord L x pnl now))"

lemma kept_refl [simp]: "kept L now x x" "list_all2 (kept L now) xs xs"
  by (simp_all add: kept_def list_all2_refl)

lemma close_effect:
  "list_all2 (kept L now) (executions st v) (executions (snd (closeMockAgentExecution L now w i pnl st)) v)"
proof (cases "find_index (\<lambda>x. x_id x = i) (executions st w)")
  case (Some n)
  then have "n < length (executions st w)" using find_indexD by blast
  then show ?thesis using Some
    by (auto simp: closeMockAgentExecution_def Let_def store_simps list_all2_conv_all_nth nth_list_update kept_def
        split: AgentExecutionStatus.splits) (metis AgentExecutionStatus.exhaust)
qed (simp add: closeMockAgentExecution_def)

lemma close_all_executions:
  "executions (snd (closeOpenMockAgentExecutions L now w a pnl st)) =
     (executions st)(w := map (\<lambda>x. if to_close a x then closeAgentExecutionRecord L x (normalizePnl L pnl) now else x) (executions st w))"
  by (simp add: closeOpenMockAgentExecutions_def Let_def store_simps)

lemma close_all_effect:
  "list_all2 (kept L now) (executions st v) (executions (snd (closeOpenMockAgentExecutions L now w a pnl st)) v)"
  by (auto simp: close_all_executions kept_def to_close_def list_all2_conv_all_nth)

section \<open>What a call does to the trades\<close>

lemma other_executions:
  "executions (snd (saveAgentProposal L now p st)) = executions st"
  "executions (snd (transitionAgentProposal L now w i s k st)) = executions st"
  "executions (snd (saveAgentSession L now ses st)) = executions st"
  "executions (snd (updateAgentSessionStatus now w i ss st)) = executions st"
  "executions (snd (renewAgentSession L now new w i st)) = executions st"
  "executions (saveAgentOwnerApproval a st) = executions st"
  "executions (saveAgentVaultPolicy L v st) = executions st"
  "executions (setAgentVaultEmergencyPause L now w b st) = executions st"
  "executions (saveAgent now g st) = executions st"
  "executions (snd (updateAgentStatus now w i gs st)) = executions st"
  by (auto simp: saveAgentProposal_def transitionAgentProposal_def saveAgentSession_def updateAgentSessionStatus_def renewAgentSession_def
      saveAgentOwnerApproval_def saveAgentVaultPolicy_def setAgentVaultEmergencyPause_def saveAgent_def updateAgentStatus_def
      Let_def store_simps split: option.splits)

lemma run_op_executions:
  assumes "well_filed st"
  shows "list_all2 (kept L now) (executions st w) (executions (run_op L (now, c) st) w)
    \<or> (\<exists>p x. proposal_of c st = Some p \<and> authorised L now st w (asks_to_open c) p x \<and> x_status x = Open
        \<and> executions (run_op L (now, c) st) w = executions st w @ [x])"
proof -
  have f: "\<forall>p \<in> set (proposals st u). p_wallet p = u" for u using assms by (simp add: well_filed_def)
  show ?thesis
  proof (cases c)
    case (Save_and_execute new p)
    then show ?thesis using save_and_execute_effect [of L now new p st] by (cases "w = p_wallet p") (auto simp: run_op_def proposal_of_def asks_to_open_def)
  next
    case (Recheck new u i)
    then show ?thesis using recheck_effect [OF f, of L now new u i] by (cases "w = u") (auto simp: run_op_def proposal_of_def asks_to_open_def)
  next
    case (Open_trade new u i)
    then show ?thesis using open_effect [OF f, of L now new u i] by (cases "w = u") (auto simp: run_op_def proposal_of_def asks_to_open_def)
  qed (simp_all add: run_op_def approveAgentProposal_def rejectAgentProposal_def other_executions close_effect close_all_effect)
qed

end
