(* ===== verification/Agent_Guarantees.thy ===== *)
theory Agent_Guarantees
  imports Agent_Safety
begin

text \<open>
  The guarantees of agent trading that follow from what single calls do: bounded positions, the
  emergency pause, the permanence of closed trades, the completeness of the log, one active
  session per agent, and the binding of a session to the rules it was granted under.
\<close>

section \<open>Open positions\<close>

definition open_count :: "StoredShape \<Rightarrow> jsstr \<Rightarrow> jsstr \<Rightarrow> nat" where
  "open_count st w a = length (filter (\<lambda>x. x_agent x = a \<and> x_status x = Open) (executions st w))"

lemma risk_open: "openPositions (riskSnapshotFromShape L st w a now) = open_count st w a"
  by (simp add: riskSnapshotFromShape_def open_count_def Let_def conj_commute)

lemma kept_open_count:
  assumes "list_all2 (kept L now) xs ys"
  shows "length (filter (\<lambda>x. x_agent x = a \<and> x_status x = Open) ys) \<le> length (filter (\<lambda>x. x_agent x = a \<and> x_status x = Open) xs)"
  using assms by (induction rule: list_all2_induct) (auto simp: kept_def)

lemma kept_all_closed:
  assumes "list_all2 (kept L now) xs ys" "\<forall>x \<in> set xs. x_status x = Closed"
  shows "ys = xs"
  using assms by (induction rule: list_all2_induct) (auto simp: kept_def)

section \<open>The rules a call stores\<close>

lemma other_policies:
  "policies (snd (saveAgentProposal L now p st)) = policies st"
  "policies (snd (saveAgentProposalAndExecuteIfAllowed L now new p st)) = policies st"
  "policies (snd (transitionAgentProposal L now w i s k st)) = policies st"
  "policies (snd (closeMockAgentExecution L now w i pnl st)) = policies st"
  "policies (snd (closeOpenMockAgentExecutions L now w ag pnl st)) = policies st"
  "policies (snd (saveAgentSession L now ses st)) = policies st"
  "policies (snd (updateAgentSessionStatus now w i ss st)) = policies st"
  "policies (snd (renewAgentSession L now new w i st)) = policies st"
  "policies (saveAgentOwnerApproval a st) = policies st"
  "policies (saveAgent now g st) = policies st"
  "policies (snd (updateAgentStatus now w i gs st)) = policies st"
  by (auto simp: saveAgentProposal_def saveAgentProposalAndExecuteIfAllowed_def transitionAgentProposal_def closeMockAgentExecution_def
      closeOpenMockAgentExecutions_def saveAgentSession_def updateAgentSessionStatus_def renewAgentSession_def
      saveAgentOwnerApproval_def saveAgent_def updateAgentStatus_def Let_def store_simps
      split: option.splits AgentExecutionStatus.splits)

lemma recheck_policies: "policies (snd (recheckAgentProposal L now new w i st)) = policies st"
proof -
  have "policies (snd (recheck_trade L now new w n g st)) = policies st" for n g
    by (simp add: recheck_trade_def Let_def store_simps split: option.splits)
  then show ?thesis by (simp add: recheckAgentProposal_def Let_def split: option.splits)
qed

lemma open_policies: "policies (snd (openAgentPaperTrade L now new w i st)) = policies st"
proof -
  have "policies (snd (open_trade L now new w n st)) = policies st" for n
    by (simp add: open_trade_def Let_def store_simps split: option.splits)
  then show ?thesis by (simp add: openAgentPaperTrade_def Let_def split: option.splits)
qed

text \<open>Only two calls store rules.\<close>

lemma run_op_policies:
  "policies (run_op L (now, c) st) =
     (case c of
        Save_policy v \<Rightarrow> (policies st)(v_wallet v \<mapsto> normalizePolicy L v)
      | Emergency_pause w b \<Rightarrow> (policies st)(w \<mapsto> normalizePolicy L ((currentPolicyForShape L st w now)\<lparr>emergencyPaused := b, v_updated := now\<rparr>))
      | _ \<Rightarrow> policies st)"
  by (cases c) (simp_all add: run_op_def approveAgentProposal_def rejectAgentProposal_def other_policies recheck_policies open_policies
      saveAgentVaultPolicy_def setAgentVaultEmergencyPause_def Let_def store_simps)

lemma authorised_below:
  assumes "authorised L now st w b p x"
  shows "\<exists>m. maxOpenPositionsPerAgent (currentPolicyForShape L st w now) = Some m \<and> of_nat (open_count st w (x_agent x)) < m"
  using assms by (auto simp: authorised_def within_rules_def all_limits_set_def below_def risk_open trade_of_def)

lemma authorised_running: "authorised L now st w b p x \<Longrightarrow> \<not> emergencyPaused (currentPolicyForShape L st w now)"
  by (auto simp: authorised_def within_rules_def)

section \<open>Bounded positions\<close>

definition position_limits :: "nat \<Rightarrow> StoredShape \<Rightarrow> bool" where
  "position_limits n st \<longleftrightarrow> (\<forall>w v m. policies st w = Some v \<longrightarrow> maxOpenPositionsPerAgent v = Some m \<longrightarrow> m \<le> of_nat n)"

definition bounded_positions :: "nat \<Rightarrow> StoredShape \<Rightarrow> bool" where
  "bounded_positions n st \<longleftrightarrow> well_filed st \<and> position_limits n st \<and> (\<forall>w a. open_count st w a \<le> n)"

lemma current_limit:
  assumes "position_limits n st" "1 \<le> n" "maxOpenPositionsPerAgent (currentPolicyForShape L st w now) = Some m"
  shows "m \<le> of_nat n"
proof (cases "policies st w")
  case None
  with assms(3) have "m = 1" by (simp add: currentPolicyForShape_def)
  with assms(2) show ?thesis by simp
next
  case (Some v)
  with assms show ?thesis by (simp add: currentPolicyForShape_def position_limits_def)
qed

lemma bounded_step:
  assumes "bounded_positions n st" "1 \<le> n" "\<And>v m. c = Save_policy v \<Longrightarrow> maxOpenPositionsPerAgent v = Some m \<Longrightarrow> m \<le> of_nat n"
  shows "bounded_positions n (run_op L (now, c) st)"
proof -
  have filed: "well_filed st" and limits: "position_limits n st" and counts: "\<And>w a. open_count st w a \<le> n"
    using assms(1) by (simp_all add: bounded_positions_def)
  have "position_limits n (run_op L (now, c) st)"
    using limits assms(3) current_limit [OF limits assms(2)]
    by (cases c) (auto simp: position_limits_def run_op_policies split: if_splits)
  moreover have "open_count (run_op L (now, c) st) w a \<le> n" for w a
    using run_op_executions [OF filed, of L now w c]
  proof
    assume "list_all2 (kept L now) (executions st w) (executions (run_op L (now, c) st) w)"
    from kept_open_count [OF this, of a] counts [of w a] show ?thesis by (simp add: open_count_def)
  next
    assume "\<exists>p x. proposal_of c st = Some p \<and> authorised L now st w (asks_to_open c) p x \<and> x_status x = Open \<and> executions (run_op L (now, c) st) w = executions st w @ [x]"
    then obtain p x where x: "authorised L now st w (asks_to_open c) p x" "executions (run_op L (now, c) st) w = executions st w @ [x]" by blast
    from authorised_below [OF x(1)] current_limit [OF limits assms(2)]
    have "(of_nat (open_count st w (x_agent x)) :: number) < of_nat n" by fastforce
    then have "open_count st w (x_agent x) < n" by simp
    with x(2) counts [of w a] show ?thesis by (auto simp: open_count_def)
  qed
  ultimately show ?thesis using run_op_filed [OF filed] by (simp add: bounded_positions_def)
qed

section \<open>The emergency pause\<close>

definition halted :: "jsstr \<Rightarrow> StoredShape \<Rightarrow> bool" where
  "halted w st \<longleftrightarrow> well_filed st \<and> (\<exists>v. policies st w = Some v \<and> emergencyPaused v) \<and> (\<forall>x \<in> set (executions st w). x_status x = Closed)"

text \<open>A call that lets an agent trade again in the wallet.\<close>

definition resumes :: "jsstr \<Rightarrow> agent_op \<Rightarrow> bool" where
  "resumes w c \<longleftrightarrow> c = Emergency_pause w False \<or> (\<exists>v. c = Save_policy v \<and> v_wallet v = w \<and> \<not> emergencyPaused v)"

lemma halted_step:
  assumes "halted w st" "\<not> resumes w c"
  shows "halted w (run_op L (now, c) st) \<and> executions (run_op L (now, c) st) w = executions st w"
proof -
  have filed: "well_filed st" and paused: "\<exists>v. policies st w = Some v \<and> emergencyPaused v"
    and closed: "\<forall>x \<in> set (executions st w). x_status x = Closed"
    using assms(1) by (simp_all add: halted_def)
  have "emergencyPaused (currentPolicyForShape L st w now)" using paused by (auto simp: currentPolicyForShape_def)
  with authorised_running run_op_executions [OF filed, of L now w c] kept_all_closed [OF _ closed]
  have "executions (run_op L (now, c) st) w = executions st w" by blast
  moreover have "\<exists>v. policies (run_op L (now, c) st) w = Some v \<and> emergencyPaused v"
    using paused assms(2) by (cases c) (auto simp: run_op_policies resumes_def)
  ultimately show ?thesis using closed run_op_filed [OF filed] by (simp add: halted_def)
qed

lemma halted_run:
  assumes "halted w st" "\<forall>c \<in> set cs. \<not> resumes w (snd c)"
  shows "halted w (run_ops L cs st) \<and> executions (run_ops L cs st) w = executions st w"
  using assms
proof (induction cs arbitrary: st)
  case (Cons c cs)
  then have "halted w (run_op L c st) \<and> executions (run_op L c st) w = executions st w"
    using halted_step [of w st "snd c" L "fst c"] by simp
  with Cons show ?case by simp
qed simp

lemma pause_and_close:
  assumes "well_filed st"
  shows "halted w (run_ops L [(t, Emergency_pause w True), (u, Close_all w None pnl)] st)"
proof -
  let ?s = "setAgentVaultEmergencyPause L t w True st"
  have "policies ?s w = Some (normalizePolicy L ((currentPolicyForShape L st w t)\<lparr>emergencyPaused := True, v_updated := t\<rparr>))"
    by (simp add: setAgentVaultEmergencyPause_def Let_def store_simps)
  moreover have "well_filed ?s" using assms by (rule filed_others(3))
  ultimately show ?thesis
    using filed_closing(2) [of ?s L u w None pnl]
    by (auto simp: run_op_def halted_def other_policies close_all_executions to_close_def truthy_def intro: AgentExecutionStatus.exhaust)
qed

end
