(* ===== verification/Agent_Audit.thy ===== *)
theory Agent_Audit
  imports Agent_Guarantees "HOL-Library.Multiset"
begin

text \<open>
  The history of agent trading: closed trades are permanent, every trade that was opened or closed
  is in the log, and the scorecard counts every proposal.  And the sessions: one active per agent.
\<close>

section \<open>Permanence\<close>

lemma step_permanent:
  assumes "well_filed st" "i < length (executions st w)"
  shows "i < length (executions (run_op L c st) w) \<and> kept L (fst c) (executions st w ! i) (executions (run_op L c st) w ! i)"
  using run_op_executions [OF assms(1), of L "fst c" w "snd c"] assms(2)
  by (auto simp: list_all2_conv_all_nth nth_append)

lemma run_permanent:
  assumes "well_filed st" "i < length (executions st w)" "executions st w ! i = x"
  shows "i < length (executions (run_ops L cs st) w) \<and> (executions (run_ops L cs st) w ! i = x
    \<or> (x_status x = Open \<and> (\<exists>t pnl. executions (run_ops L cs st) w ! i = closeAgentExecutionRecord L x pnl t)))"
  using assms
proof (induction cs arbitrary: st x)
  case (Cons c cs)
  let ?y = "executions (run_op L c st) w ! i"
  from step_permanent [OF Cons.prems(1,2), of L c] Cons.prems(3)
  have y: "i < length (executions (run_op L c st) w)" "kept L (fst c) x ?y" by auto
  from Cons.IH [OF run_op_filed [OF Cons.prems(1)] y(1) refl] y(2) show ?case unfolding kept_def by (auto; blast)
qed simp

section \<open>The log\<close>

text \<open>
  What an event notes of a trade: its agent, its proposal, its own id and the time.  A trade must have
  an event with these values of its own.
\<close>

type_synonym trade_note = "jsstr option \<times> jsstr option \<times> jsstr option \<times> int option"

definition noted :: "AgentAuditEvent \<Rightarrow> trade_note" where
  "noted e = (e_agent e, e_proposal e, e_execution e, Some (e_created e))"

definition opened_note :: "AgentExecutionRecord \<Rightarrow> trade_note" where
  "opened_note x = (Some (x_agent x), Some (x_proposal x), Some (x_id x), Some (openedAt x))"

definition closed_note :: "AgentExecutionRecord \<Rightarrow> trade_note" where
  "closed_note x = (Some (x_agent x), Some (x_proposal x), Some (x_id x), closedAt x)"

definition logged :: "AgentAuditEventKind \<Rightarrow> StoredShape \<Rightarrow> jsstr \<Rightarrow> trade_note list" where
  "logged k st w = map noted (filter (\<lambda>e. e_kind e = k) (events st w))"

definition closed_trades :: "StoredShape \<Rightarrow> jsstr \<Rightarrow> AgentExecutionRecord list" where
  "closed_trades st w = filter (\<lambda>x. x_status x = Closed) (executions st w)"

definition audited :: "StoredShape \<Rightarrow> jsstr \<Rightarrow> bool" where
  "audited st w \<longleftrightarrow> logged Execution_opened st w = map opened_note (executions st w)
     \<and> logged Proposal_executed st w = map opened_note (executions st w)
     \<and> mset (logged Execution_closed st w) = mset (map closed_note (closed_trades st w))"

lemma opened_note_new:
  "executionFromProposal new p now = Some x \<Longrightarrow> opened_note x = (Some (p_agent p), Some (p_id p), Some (x_id x), Some now)"
  using executionFromProposalD [of new p now x] by (simp add: opened_note_def trade_of_def)

lemma close_notes [simp]:
  "opened_note (closeAgentExecutionRecord L x pnl now) = opened_note x"
  "x_proposal (closeAgentExecutionRecord L x pnl now) = x_proposal x"
  "closed_note (closeAgentExecutionRecord L x pnl now) = (Some (x_agent x), Some (x_proposal x), Some (x_id x), Some now)"
  by (simp_all add: opened_note_def closed_note_def closeAgentExecutionRecord_def)

lemma noted_event [simp]: "noted (event w a p x k now) = (a, p, x, Some now)"
  by (simp add: noted_def event_def)

named_theorems log_simps

lemma logged_append [log_simps]:
  "logged k (appendEvent e st) w = logged k st w @ (if e_wallet e = w \<and> e_kind e = k then [noted e] else [])"
  by (simp add: logged_def store_simps)

lemma logged_setters [log_simps]:
  "logged k (set_proposals v ps st) w = logged k st w" "logged k (set_executions v xs st) w = logged k st w"
  "logged k (set_sessions v ss st) w = logged k st w" "logged k (set_agents v gs st) w = logged k st w"
  "logged k (set_policy v p st) w = logged k st w" "logged k (set_scorecard v a c st) w = logged k st w"
  by (simp_all add: logged_def store_simps)

lemma logged_put [log_simps]:
  "k \<noteq> Proposal_created \<Longrightarrow> logged k (put_proposal i p now st) w = logged k st w"
  by (simp add: put_proposal_def Let_def log_simps updateScorecardForNewProposal_def split: option.splits)

lemma logged_fold [log_simps]:
  "logged k (fold (log_closed L v now) xs st) w = logged k st w
     @ (if v = w \<and> k = Execution_closed then map (\<lambda>x. (Some (x_agent x), Some (x_proposal x), Some (x_id x), Some now)) xs else [])"
  by (induction xs arbitrary: st) (simp_all add: log_closed_def updateScorecardForClosedExecution_def log_simps)

lemmas log_unfolds = updateScorecardForStatusChange_def updateScorecardForClosedExecution_def log_opened_def
  appendExecutionEvents_def push_execution_def log_closed_def

lemma auditedI:
  assumes "audited st w" "logged Execution_opened st' w = logged Execution_opened st w"
    "logged Proposal_executed st' w = logged Proposal_executed st w" "logged Execution_closed st' w = logged Execution_closed st w"
    "executions st' w = executions st w"
  shows "audited st' w"
  using assms by (simp add: audited_def closed_trades_def)

lemma auditedI_open:
  assumes "audited st w" "logged Execution_opened st' w = logged Execution_opened st w @ [opened_note x]"
    "logged Proposal_executed st' w = logged Proposal_executed st w @ [opened_note x]" "logged Execution_closed st' w = logged Execution_closed st w"
    "executions st' w = executions st w @ [x]" "x_status x = Open"
  shows "audited st' w"
  using assms by (simp add: audited_def closed_trades_def)

lemma audited_save_and_execute:
  assumes "audited st w"
  shows "audited (snd (saveAgentProposalAndExecuteIfAllowed L now new p st)) w"
proof (cases "\<exists>x. executions (snd (saveAgentProposalAndExecuteIfAllowed L now new p st)) = (executions st)(p_wallet p := executions st (p_wallet p) @ [x])
    \<and> executionFromProposal new (bind_proposal L st p now) now = Some x \<and> p_wallet p = w")
  case True
  then obtain x where x: "executionFromProposal new (bind_proposal L st p now) now = Some x" "p_wallet p = w"
    and ex: "executions (snd (saveAgentProposalAndExecuteIfAllowed L now new p st)) w = executions st w @ [x]" by auto
  show ?thesis
    by (rule auditedI_open [OF assms _ _ _ ex executionFromProposalD(2) [OF x(1)]], unfold opened_note_new [OF x(1)])
      (use ex x in \<open>auto simp: saveAgentProposalAndExecuteIfAllowed_def Let_def log_simps log_unfolds store_simps split: option.splits if_splits\<close>)
next
  case False
  then show ?thesis
    by (intro auditedI [OF assms])
      (auto simp: saveAgentProposalAndExecuteIfAllowed_def Let_def log_simps log_unfolds store_simps split: option.splits if_splits)
qed

lemma audited_recheck:
  assumes "audited st w" "\<forall>p \<in> set (proposals st v). p_wallet p = v"
  shows "audited (snd (recheckAgentProposal L now new v i st)) w"
proof -
  have "audited (snd (recheck_trade L now new v n g st)) w" if "p_wallet (proposals st v ! n) = v" for n g
  proof -
    let ?p = "bindAgentProposalPolicyHash L (proposals st v ! n) (currentPolicyForShape L st v now)"
    let ?e = "evaluateAgentTradeProposal L g ?p (currentPolicyForShape L st v now) (activeSessionFor st v (p_agent (proposals st v ! n)) now)
      (Some (riskSnapshotFromShape L st v (p_agent (proposals st v ! n)) now)) now"
    let ?x = "if statusForEvaluation ?e = Approved then executionFromProposal new (evaluated ?e (statusForEvaluation ?e) now ?p) now else None"
    show ?thesis
    proof (cases "?x = None \<or> v \<noteq> w")
      case True
      then show ?thesis
        by (intro auditedI [OF assms(1)]) (auto simp: recheck_trade_def Let_def log_simps log_unfolds store_simps that split: option.splits)
    next
      case False
      then obtain x where x: "?x = Some x" "v = w" by auto
      then have a: "statusForEvaluation ?e = Approved" and xx: "executionFromProposal new (evaluated ?e Approved now ?p) now = Some x"
        by (simp_all split: if_splits)
      then have "x_status x = Open" using executionFromProposalD(2) by blast
      then show ?thesis
        by (intro auditedI_open [OF assms(1), where x = x])
          (use x(2) a xx that opened_note_new [OF xx] in \<open>simp_all add: recheck_trade_def Let_def log_simps log_unfolds store_simps\<close>)
    qed
  qed
  then show ?thesis using assms
    by (auto simp: recheckAgentProposal_def Let_def dest!: find_indexD split: option.splits)
qed

lemma audited_open:
  assumes "audited st w"
  shows "audited (snd (openAgentPaperTrade L now new v i st)) w"
proof -
  have "audited (snd (open_trade L now new v n st)) w" for n
  proof (cases "\<exists>x. executions (snd (open_trade L now new v n st)) = (executions st)(v := executions st v @ [x]) \<and> v = w
      \<and> executionFromProposal new (bindAgentProposalPolicyHash L (proposals st v ! n) (currentPolicyForShape L st v now)) now = Some x")
    case True
    then obtain x where x: "executions (snd (open_trade L now new v n st)) w = executions st w @ [x]" "v = w"
        "executionFromProposal new (bindAgentProposalPolicyHash L (proposals st v ! n) (currentPolicyForShape L st v now)) now = Some x" by auto
    show ?thesis
      by (rule auditedI_open [OF assms _ _ _ x(1) executionFromProposalD(2) [OF x(3)]], unfold opened_note_new [OF x(3)])
        (use x in \<open>auto simp: open_trade_def Let_def log_simps log_unfolds store_simps split: option.splits if_splits\<close>)
  next
    case False
    then show ?thesis
      by (intro auditedI [OF assms]) (auto simp: open_trade_def Let_def log_simps log_unfolds store_simps split: option.splits if_splits)
  qed
  then show ?thesis using assms by (simp add: openAgentPaperTrade_def Let_def split: option.splits)
qed

lemma logged_other:
  "k \<noteq> Proposal_created \<Longrightarrow> logged k (snd (saveAgentProposal L now p st)) w = logged k st w"
  "k \<notin> {Proposal_approved, Proposal_rejected} \<Longrightarrow> j \<in> {Proposal_approved, Proposal_rejected} \<Longrightarrow>
     logged k (snd (transitionAgentProposal L now v i s j st)) w = logged k st w"
  "logged k (snd (saveAgentSession L now ses st)) w = logged k st w"
  "k \<noteq> Session_status_changed \<Longrightarrow> logged k (snd (updateAgentSessionStatus now v i ss st)) w = logged k st w"
  "k \<noteq> Session_renewed \<Longrightarrow> logged k (snd (renewAgentSession L now new v i st)) w = logged k st w"
  "logged k (saveAgentVaultPolicy L pol st) w = logged k st w"
  "k \<noteq> Policy_emergency_pause_changed \<Longrightarrow> logged k (setAgentVaultEmergencyPause L now v b st) w = logged k st w"
  "logged k (saveAgent now g st) w = logged k st w"
  "k \<noteq> Agent_status_changed \<Longrightarrow> logged k (snd (updateAgentStatus now v i gs st)) w = logged k st w"
  by (auto simp: saveAgentProposal_def transitionAgentProposal_def saveAgentSession_def updateAgentSessionStatus_def renewAgentSession_def
      saveAgentVaultPolicy_def setAgentVaultEmergencyPause_def saveAgent_def updateAgentStatus_def
      Let_def log_simps log_unfolds split: option.splits)

lemma logged_approval: "k \<noteq> Owner_action_approved \<Longrightarrow> logged k (saveAgentOwnerApproval a st) w = logged k st w"
  by (simp add: saveAgentOwnerApproval_def Let_def log_simps) (simp add: logged_def)

lemma audited_close:
  assumes "audited st w"
  shows "audited (snd (closeMockAgentExecution L now v i pnl st)) w"
proof (cases "find_index (\<lambda>x. x_id x = i) (executions st v)")
  case (Some n)
  then have n: "n < length (executions st v)" using find_indexD by blast
  show ?thesis
  proof (cases "x_status (executions st v ! n) = Closed \<or> v \<noteq> w")
    case True
    then show ?thesis using Some
      by (intro auditedI [OF assms]) (auto simp: closeMockAgentExecution_def Let_def log_simps log_unfolds store_simps)
  next
    case False
    then have o: "x_status (executions st w ! n) = Open" "v = w" by (auto intro: AgentExecutionStatus.exhaust)
    let ?xs = "executions st w" and ?y = "closeAgentExecutionRecord L (executions st w ! n) (normalizePnl L pnl) now"
    have m: "map opened_note (?xs[n := ?y]) = map opened_note ?xs"
      using n o by (simp add: map_update list_update_same_conv)
    have "mset (map closed_note (filter (\<lambda>x. x_status x = Closed) (?xs[n := ?y])))
        = add_mset (closed_note ?y) (mset (map closed_note (filter (\<lambda>x. x_status x = Closed) ?xs)))"
      using n o by (subst (2) id_take_nth_drop [of n ?xs]) (simp_all add: upd_conv_take_nth_drop)
    then show ?thesis using assms Some o m
      by (simp add: audited_def closed_trades_def closeMockAgentExecution_def Let_def log_simps log_unfolds store_simps)
  qed
qed (simp add: closeMockAgentExecution_def assms)

lemma audited_close_all:
  assumes "audited st w"
  shows "audited (snd (closeOpenMockAgentExecutions L now v a pnl st)) w"
proof -
  let ?c = "\<lambda>x. closeAgentExecutionRecord L x (normalizePnl L pnl) now"
  let ?f = "\<lambda>x. if to_close a x then ?c x else x"
  have m: "mset (map closed_note (filter (\<lambda>x. x_status x = Closed) (map ?f xs))) =
      mset (map closed_note (filter (\<lambda>x. x_status x = Closed) xs))
      + mset (map (\<lambda>x. (Some (x_agent x), Some (x_proposal x), Some (x_id x), Some now)) (filter (to_close a) xs))" for xs
    by (induction xs) (auto simp: to_close_def)
  have o: "map opened_note (map ?f xs) = map opened_note xs" for xs by simp
  have c: "map (\<lambda>x. (Some (x_agent x), Some (x_proposal x), Some (x_id x), Some now)) (map ?c xs)
      = map (\<lambda>x. (Some (x_agent x), Some (x_proposal x), Some (x_id x), Some now)) xs" for xs by simp
  show ?thesis
  proof (cases "v = w")
    case True
    then show ?thesis using assms m [of "executions st v"] o [of "executions st v"] c [of "filter (to_close a) (executions st v)"]
      by (simp add: audited_def closed_trades_def closeOpenMockAgentExecutions_def Let_def log_simps store_simps filter_empty_conv
          del: map_map)
  next
    case False
    with assms show ?thesis
      by (simp add: audited_def closed_trades_def closeOpenMockAgentExecutions_def Let_def log_simps store_simps)
  qed
qed

lemma run_op_audited:
  assumes "well_filed st" "audited st w"
  shows "audited (run_op L (now, c) st) w"
proof (cases c)
  case (Save_and_execute new p)
  then show ?thesis using audited_save_and_execute [OF assms(2)] by (simp add: run_op_def)
next
  case (Recheck new v i)
  then show ?thesis using audited_recheck [OF assms(2)] filed(1) [OF _ assms(1)] by (simp add: run_op_def)
next
  case (Open_trade new v i)
  then show ?thesis using audited_open [OF assms(2)] by (simp add: run_op_def)
next
  case (Close_trade v i pnl)
  then show ?thesis using audited_close [OF assms(2)] by (simp add: run_op_def)
next
  case (Close_all v a pnl)
  then show ?thesis using audited_close_all [OF assms(2)] by (simp add: run_op_def)
qed (rule auditedI [OF assms(2)];
     simp add: run_op_def approveAgentProposal_def rejectAgentProposal_def logged_other logged_approval other_executions)+

section \<open>Sessions\<close>

definition session_runs :: "AgentSessionGrant \<Rightarrow> bool" where
  "session_runs s \<longleftrightarrow> s_status s = Session_status_active"

definition rivals :: "AgentSessionGrant \<Rightarrow> AgentSessionGrant \<Rightarrow> bool" where
  "rivals s t \<longleftrightarrow> session_runs s \<and> session_runs t \<and> s_agent s = s_agent t"

definition sessions_ok :: "AgentSessionGrant list \<Rightarrow> bool" where
  "sessions_ok ss \<longleftrightarrow> distinct (map s_id ss) \<and> (\<forall>s \<in> set ss. \<forall>t \<in> set ss. rivals s t \<longrightarrow> s_id s = s_id t)"

lemma sessions_okD: "sessions_ok ss \<Longrightarrow> s \<in> set ss \<Longrightarrow> t \<in> set ss \<Longrightarrow> rivals s t \<Longrightarrow> s_id s = s_id t"
  by (simp add: sessions_ok_def)

lemma sessions_okI:
  "distinct (map s_id ss) \<Longrightarrow> (\<And>s t. s \<in> set ss \<Longrightarrow> t \<in> set ss \<Longrightarrow> rivals s t \<Longrightarrow> s_id s = s_id t) \<Longrightarrow> sessions_ok ss"
  by (simp add: sessions_ok_def)

lemma revoke_runs [simp]: "session_runs (revoke_if b now s) \<longleftrightarrow> session_runs s \<and> \<not> b s"
  by (simp add: session_runs_def revoke_if_def)

lemma revoke_fields: "s_id (revoke_if b now s) = s_id s" "s_agent (revoke_if b now s) = s_agent s"
  by (simp_all add: revoke_if_def)

lemma map_revoke_ids: "map s_id (map (revoke_if b now) ss) = map s_id ss"
  by simp

lemma sessions_ok_revoke:
  assumes "sessions_ok ss"
  shows "sessions_ok (map (revoke_if b now) ss)"
proof (rule sessions_okI)
  show "distinct (map s_id (map (revoke_if b now) ss))"
    using assms unfolding map_revoke_ids by (simp add: sessions_ok_def)
  fix s t assume "s \<in> set (map (revoke_if b now) ss)" "t \<in> set (map (revoke_if b now) ss)" and r: "rivals s t"
  then obtain s0 t0 where st: "s0 \<in> set ss" "t0 \<in> set ss" "s = revoke_if b now s0" "t = revoke_if b now t0" by auto
  with r have "rivals s0 t0" by (simp add: rivals_def)
  from sessions_okD [OF assms st(1,2) this] st(3,4) show "s_id s = s_id t" by simp
qed

text \<open>A record replaces the one with its id.\<close>

lemma in_update_other: "distinct (map s_id ss) \<Longrightarrow> n < length ss \<Longrightarrow> t \<in> set (ss[n := b]) \<Longrightarrow> t \<noteq> b \<Longrightarrow> t \<in> set ss \<and> s_id t \<noteq> s_id (ss ! n)"
  by (auto simp: in_set_conv_nth nth_list_update distinct_conv_nth split: if_splits)

lemma sessions_ok_replace:
  assumes "sessions_ok ss" "n < length ss" "s_id (ss ! n) = s_id b"
    and "\<And>t. t \<in> set ss \<Longrightarrow> s_id t \<noteq> s_id b \<Longrightarrow> \<not> rivals t b"
  shows "sessions_ok (ss[n := b])"
proof (rule sessions_okI)
  have d: "distinct (map s_id ss)" using assms(1) by (simp add: sessions_ok_def)
  have "map s_id (ss[n := b]) = map s_id ss" using assms(2,3) by (simp add: map_update list_update_same_conv)
  with d show "distinct (map s_id (ss[n := b]))" by (simp only:)
  note other = in_update_other [OF d assms(2)]
  fix s t assume s: "s \<in> set (ss[n := b])" "t \<in> set (ss[n := b])" and r: "rivals s t"
  have r': "rivals t s" using r by (simp add: rivals_def)
  consider "s = b" "t = b" | "s = b" "t \<noteq> b" | "s \<noteq> b" "t = b" | "s \<noteq> b" "t \<noteq> b" by blast
  then show "s_id s = s_id t"
  proof cases
    case 2
    with other [OF s(2)] assms(3,4) r' show ?thesis by simp
  next
    case 3
    with other [OF s(1)] assms(3,4) r show ?thesis by simp
  next
    case 4
    with other [OF s(1)] other [OF s(2)] sessions_okD [OF assms(1) _ _ r] show ?thesis by simp
  qed simp
qed

lemma not_in_image: "\<forall>x \<in> A. f x \<noteq> y \<Longrightarrow> y \<notin> f ` A"
  by auto

lemma sessions_ok_push:
  assumes "sessions_ok ss" "s_id b \<notin> s_id ` set ss" "\<And>t. t \<in> set ss \<Longrightarrow> \<not> rivals t b"
  shows "sessions_ok (ss @ [b])"
proof (rule sessions_okI)
  show "distinct (map s_id (ss @ [b]))" using assms(1,2) by (simp add: sessions_ok_def)
  fix s t assume s: "s \<in> set (ss @ [b])" "t \<in> set (ss @ [b])" and r: "rivals s t"
  have r': "rivals t s" using r by (simp add: rivals_def)
  from s consider "s \<in> set ss" "t \<in> set ss" | "s = b" "t = b" | "s = b" "t \<in> set ss" | "s \<in> set ss" "t = b" by auto
  then show "s_id s = s_id t"
    by cases (use assms(3) r r' sessions_okD [OF assms(1) _ _ r] in auto)
qed

lemma bound_session_id: "s_id (bindAgentSessionPolicyHash L s v) = s_id s"
  by (simp add: bindAgentSessionPolicyHash_def)

lemma save_session_ok:
  assumes "sessions_ok (sessions st w)"
  shows "sessions_ok (sessions (snd (saveAgentSession L now ses st)) w)"
proof (cases "s_wallet ses = w")
  case True
  let ?b = "bindAgentSessionPolicyHash L ses (currentPolicyForShape L st w now)"
  let ?r = "\<lambda>e. s_status ?b = Session_status_active \<and> s_id e \<noteq> s_id ?b \<and> s_agent e = s_agent ?b \<and> s_status e = Session_status_active"
  let ?ss = "map (revoke_if ?r now) (sessions st w)"
  have ok: "sessions_ok ?ss" using assms by (rule sessions_ok_revoke)
  have none: "\<not> rivals t ?b" if t: "t \<in> set ?ss" "s_id t \<noteq> s_id ?b" for t
  proof
    assume r: "rivals t ?b"
    from t(1) obtain e where e: "t = revoke_if ?r now e" by auto
    have "s_status ?b = Session_status_active" "s_agent e = s_agent ?b"
      using r unfolding e rivals_def session_runs_def revoke_fields by blast+
    moreover have "s_status e = Session_status_active" "\<not> ?r e"
      using r unfolding e rivals_def revoke_runs unfolding session_runs_def by blast+
    moreover have "s_id e \<noteq> s_id ?b" using t(2) unfolding e revoke_fields .
    ultimately show False by blast
  qed
  have s: "sessions (snd (saveAgentSession L now ses st)) w =
      (case find_index (\<lambda>e. s_id e = s_id ?b) ?ss of Some i \<Rightarrow> ?ss[i := ?b] | None \<Rightarrow> ?ss @ [?b])"
    using True by (simp add: saveAgentSession_def Let_def store_simps)
  show ?thesis
  proof (cases "find_index (\<lambda>e. s_id e = s_id ?b) ?ss")
    case None
    then have i: "\<forall>e \<in> set ?ss. s_id e \<noteq> s_id ?b" unfolding find_index_None .
    have "sessions_ok (?ss @ [?b])"
    proof (rule sessions_ok_push [OF ok])
      show "s_id ?b \<notin> s_id ` set ?ss" by (rule not_in_image [OF i])
      fix t assume t: "t \<in> set ?ss"
      from none [OF t bspec [OF i t]] show "\<not> rivals t ?b" .
    qed
    then show ?thesis unfolding s None by simp
  next
    case (Some n)
    note n = find_index_Some [OF this]
    have "sessions_ok (?ss[n := ?b])" by (rule sessions_ok_replace [OF ok conjunct1 [OF n] conjunct2 [OF n] none])
    then show ?thesis unfolding s Some by simp
  qed
qed (simp add: saveAgentSession_def Let_def store_simps assms)

lemma update_session_ok:
  assumes "sessions_ok (sessions st w)" "status \<noteq> Session_status_active"
  shows "sessions_ok (sessions (snd (updateAgentSessionStatus now v i status st)) w)"
proof (cases "find_index (\<lambda>s. s_id s = i) (sessions st v)")
  case (Some n)
  let ?u = "(sessions st v ! n)\<lparr>s_status := status, s_updated := now\<rparr>"
  have u: "\<not> rivals t ?u" for t using assms(2) by (simp add: rivals_def session_runs_def)
  show ?thesis
  proof (cases "v = w")
    case True
    from find_index_Some [OF Some] True have "sessions_ok ((sessions st w)[n := ?u])"
      using u by (intro sessions_ok_replace [OF assms(1)]) simp_all
    then show ?thesis using True Some by (simp add: updateAgentSessionStatus_def Let_def store_simps)
  qed (simp add: updateAgentSessionStatus_def Let_def store_simps Some assms(1))
qed (simp add: updateAgentSessionStatus_def Let_def assms)

lemma renew_session_ok:
  assumes "sessions_ok (sessions st w)" "new \<notin> s_id ` set (sessions st v)"
  shows "sessions_ok (sessions (snd (renewAgentSession L now new v i st)) w)"
proof (cases "find (\<lambda>s. s_id s = i) (sessions st v)")
  case (Some old)
  show ?thesis
  proof (cases "find (\<lambda>g. g_id g = s_agent old) (agents st v)")
    case g: (Some g)
    have r: "sessions_ok (map (revoke_if (\<lambda>e. s_agent e = s_agent b \<and> s_status e = Session_status_active) now) (sessions st w) @ [b])"
      if "w = v" "s_id b = new" for b
    proof (intro sessions_ok_push sessions_ok_revoke assms(1))
      show "s_id b \<notin> s_id ` set (map (revoke_if (\<lambda>e. s_agent e = s_agent b \<and> s_status e = Session_status_active) now) (sessions st w))"
        using assms(2) that by (auto simp: image_iff)
      fix t assume "t \<in> set (map (revoke_if (\<lambda>e. s_agent e = s_agent b \<and> s_status e = Session_status_active) now) (sessions st w))"
      then obtain e where "t = revoke_if (\<lambda>e. s_agent e = s_agent b \<and> s_status e = Session_status_active) now e" by auto
      then show "\<not> rivals t b" by (simp add: rivals_def) (simp add: session_runs_def)
    qed
    show ?thesis
    proof (cases "g_status g = Agent_active \<and> v = w")
      case True
      then show ?thesis using r Some g by (simp add: renewAgentSession_def Let_def store_simps bound_session_id)
    qed (auto simp: renewAgentSession_def Let_def store_simps Some g assms(1))
  qed (simp add: renewAgentSession_def Some assms)
qed (simp add: renewAgentSession_def assms)

lemma other_sessions:
  "sessions (snd (saveAgentProposal L now p st)) = sessions st"
  "sessions (snd (saveAgentProposalAndExecuteIfAllowed L now new p st)) = sessions st"
  "sessions (snd (transitionAgentProposal L now w i s k st)) = sessions st"
  "sessions (snd (closeMockAgentExecution L now w i pnl st)) = sessions st"
  "sessions (snd (closeOpenMockAgentExecutions L now w ag pnl st)) = sessions st"
  "sessions (saveAgentOwnerApproval a st) = sessions st"
  "sessions (saveAgentVaultPolicy L v st) = sessions st"
  "sessions (setAgentVaultEmergencyPause L now w b st) = sessions st"
  "sessions (saveAgent now g st) = sessions st"
  by (auto simp: saveAgentProposal_def saveAgentProposalAndExecuteIfAllowed_def transitionAgentProposal_def closeMockAgentExecution_def
      closeOpenMockAgentExecutions_def saveAgentOwnerApproval_def saveAgentVaultPolicy_def setAgentVaultEmergencyPause_def saveAgent_def
      Let_def store_simps split: option.splits AgentExecutionStatus.splits)

lemma trade_sessions:
  "sessions (snd (recheckAgentProposal L now new w i st)) = sessions st"
  "sessions (snd (openAgentPaperTrade L now new w i st)) = sessions st"
proof -
  have "sessions (snd (recheck_trade L now new w n g st)) = sessions st" for n g
    by (simp add: recheck_trade_def Let_def store_simps split: option.splits)
  then show "sessions (snd (recheckAgentProposal L now new w i st)) = sessions st"
    by (simp add: recheckAgentProposal_def Let_def split: option.splits)
  have "sessions (snd (open_trade L now new w n st)) = sessions st" for n
    by (simp add: open_trade_def Let_def store_simps split: option.splits)
  then show "sessions (snd (openAgentPaperTrade L now new w i st)) = sessions st"
    by (simp add: openAgentPaperTrade_def Let_def split: option.splits)
qed

lemma status_sessions:
  "sessions_ok (sessions st w) \<Longrightarrow> sessions_ok (sessions (snd (updateAgentStatus now v i s st)) w)"
  by (auto simp: updateAgentStatus_def Let_def store_simps sessions_ok_revoke split: option.splits)

text \<open>A renewal gets an id no session has; no call sets a session back to active.\<close>

definition fresh_session :: "StoredShape \<Rightarrow> agent_op \<Rightarrow> bool" where
  "fresh_session st c \<longleftrightarrow> (\<forall>new w i. c = Renew_session new w i \<longrightarrow> new \<notin> s_id ` set (sessions st w))
     \<and> (\<forall>w i. c \<noteq> Session_status w i Session_status_active)"

lemma run_op_sessions:
  assumes "sessions_ok (sessions st w)" "fresh_session st c"
  shows "sessions_ok (sessions (run_op L (now, c) st) w)"
  using assms by (cases c)
    (auto simp: run_op_def approveAgentProposal_def rejectAgentProposal_def other_sessions trade_sessions fresh_session_def
      save_session_ok update_session_ok renew_session_ok status_sessions)

inductive session_reach :: "js_lib \<Rightarrow> StoredShape \<Rightarrow> bool" for L where
  start: "session_reach L emptyStoredShape"
| call: "session_reach L st \<Longrightarrow> fresh_session st c \<Longrightarrow> session_reach L (run_op L (now, c) st)"

lemma reached_sessions: "session_reach L st \<Longrightarrow> sessions_ok (sessions st w)"
  by (induction rule: session_reach.induct) (simp_all add: run_op_sessions, simp add: sessions_ok_def emptyStoredShape_def)

end
