(* ===== verification/JS_Numbers.thy ===== *)
theory JS_Numbers
  imports JS_Json
begin

text \<open>
  A text of every finite number, different for different ones: what the printer of JSON needs of
  \<open>String\<close> can be had.  The witnesses use it.
\<close>

definition number_sample :: "number \<Rightarrow> jsstr" where
  "number_sample x = (case quotient_of x of (n, d) \<Rightarrow> (if n < 0 then [0x2D] else []) @ show_nat (nat \<bar>n\<bar>) @ 0x65 # show_nat (nat d))"

lemma show_nat_plain: "set (show_nat n) \<subseteq> {0x30, 0x31, 0x32, 0x33, 0x34, 0x35, 0x36, 0x37, 0x38, 0x39}"
proof
  fix c assume "c \<in> set (show_nat n)"
  then have "is_digit c" using show_nat_digits [of n] by (simp add: list_all_iff)
  then have "unat c \<in> {48..57}" by (simp add: is_digit_unat)
  then have "unat c \<in> {48, 49, 50, 51, 52, 53, 54, 55, 56, 57}"
    unfolding atLeastAtMost_iff insert_iff empty_iff by presburger
  then show "c \<in> {0x30, 0x31, 0x32, 0x33, 0x34, 0x35, 0x36, 0x37, 0x38, 0x39}"
    by (auto simp: word_unat_eq_iff)
qed

lemma show_nat_inject: "show_nat a = show_nat b \<longleftrightarrow> a = b"
  by (metis digits_val_show_nat)

lemma number_sample_ok: "num_text_ok number_sample"
proof -
  have chars: "number_sample x \<noteq> [] \<and> set (number_sample x) \<subseteq> number_chars" for x
    using show_nat_plain by (auto simp: number_sample_def number_chars_def split: prod.splits dest!: subsetD [OF show_nat_plain])
  moreover have "inj number_sample"
  proof (rule injI)
    fix x y assume e: "number_sample x = number_sample y"
    obtain n d where x: "quotient_of x = (n, d)" by force
    obtain m q where y: "quotient_of y = (m, q)" by force
    have pos: "d > 0" "q > 0" using x y quotient_of_denom_pos by blast+
    let ?sg = "\<lambda>n :: int. (if n < 0 then [0x2D :: 16 word] else []) @ show_nat (nat \<bar>n\<bar>)"
    have c: "set (?sg n) \<subseteq> {0x2D, 0x30, 0x31, 0x32, 0x33, 0x34, 0x35, 0x36, 0x37, 0x38, 0x39}" for n
      using show_nat_plain [of "nat \<bar>n\<bar>"] by auto
    have "?sg n @ 0x65 # show_nat (nat d) = ?sg m @ 0x65 # show_nat (nat q)"
      using e by (simp add: number_sample_def x y)
    from split_first [OF this c c] have s: "?sg n = ?sg m" "show_nat (nat d) = show_nat (nat q)" by auto
    have no: "0x2D \<notin> set (show_nat k)" for k using show_nat_plain [of k] by auto
    have "n < 0 \<longleftrightarrow> 0x2D \<in> set (?sg n)" for n using no by simp
    then have sign: "n < 0 \<longleftrightarrow> m < 0" using s(1) by metis
    with s(1) have "show_nat (nat \<bar>n\<bar>) = show_nat (nat \<bar>m\<bar>)" by (simp split: if_splits)
    then have "n = m" using sign by (auto simp: show_nat_inject)
    moreover have "d = q" using s(2) pos by (simp add: show_nat_inject)
    ultimately show "x = y" using x y by (metis quotient_of_inject)
  qed
  ultimately show ?thesis by (simp add: num_text_ok_def)
qed

end
