(* ===== verification/Agent_Claims.thy ===== *)
theory Agent_Claims
  imports Agent_Audit JS_Numbers
begin

text \<open>
  The properties of agent trading over any calls of the pages, and the binding of a session
  to the rules it was granted under.
\<close>

section \<open>The hash of the rules determines the rules\<close>

text \<open>The bytes whose digest is the hash of the rules.\<close>

definition rules_text :: "js_lib \<Rightarrow> AgentVaultPolicy \<Rightarrow> bytes" where
  "rules_text L v = utf8_encode (stableStringify (to_text L) (vault_policy_json L v))"

lemma rules_hash: "computeAgentVaultPolicyHash L v = toHex (sha L (rules_text L v))"
  by (simp add: computeAgentVaultPolicyHash_def stableHash_def rules_text_def)

lemma rules_text_inject:
  "num_text_ok (to_text L) \<Longrightarrow> rules_text L v = rules_text L w \<Longrightarrow> sort_keys (vault_policy_json L v) = sort_keys (vault_policy_json L w)"
  unfolding rules_text_def by (rule stable_bytes_inject)

text \<open>What the hash covers: every limit, but not the emergency pause.\<close>

definition same_rules :: "js_lib \<Rightarrow> AgentVaultPolicy \<Rightarrow> AgentVaultPolicy \<Rightarrow> bool" where
  "same_rules L v w \<longleftrightarrow> v_wallet v = v_wallet w \<and> enabled v = enabled w
     \<and> sortedStrings L (map venue_text (allowedVenues v)) = sortedStrings L (map venue_text (allowedVenues w))
     \<and> sortedStrings L (map (normalizeMarket L) (allowedMarkets v)) = sortedStrings L (map (normalizeMarket L) (allowedMarkets w))
     \<and> normalizeDecimalText L (maxNotionalUsd v) = normalizeDecimalText L (maxNotionalUsd w)
     \<and> normalizeNumber (maxLeverage v) = normalizeNumber (maxLeverage w)
     \<and> requireStopLoss v = requireStopLoss w \<and> requireTakeProfit v = requireTakeProfit w
     \<and> normalizeNumber (maxOpenPositionsPerAgent v) = normalizeNumber (maxOpenPositionsPerAgent w)
     \<and> normalizeNumber (cooldownSeconds v) = normalizeNumber (cooldownSeconds w)
     \<and> normalizeNumber (maxSessionHours v) = normalizeNumber (maxSessionHours w)
     \<and> normalizeDecimalText L (dailyLossCapUsd v) = normalizeDecimalText L (dailyLossCapUsd w)"

lemma vault_policy_keys:
  "\<exists>f. vault_policy_json L v = JObj f" "vault_policy_json L v = JObj kvs \<Longrightarrow> vault_policy_json L w = JObj lvs \<Longrightarrow>
     map fst lvs = map fst kvs \<and> distinct (map fst kvs) \<and> length kvs = 14"
  by (auto simp: vault_policy_json_def)

lemma vault_policy_json_inject:
  assumes "sort_keys (vault_policy_json L v) = sort_keys (vault_policy_json L w)"
  shows "same_rules L v w"
proof -
  obtain kvs lvs where j: "vault_policy_json L v = JObj kvs" "vault_policy_json L w = JObj lvs"
    using vault_policy_keys(1) by metis
  note k = vault_policy_keys(2) [OF j]
  have e: "sort_keys (snd (kvs ! n)) = sort_keys (snd (lvs ! n))" if "n < 14" for n
    using sorted_keys_member [of kvs lvs n] assms k j that by simp
  show ?thesis
    using e [of 2] e [of 3] e [of 4] e [of 5] e [of 6] e [of 7] e [of 8] e [of 9] e [of 10] e [of 11] e [of 12] e [of 13] j
    by (auto simp: vault_policy_json_def same_rules_def)
qed

section \<open>An example\<close>

text \<open>Exact arithmetic, whole numbers as texts, a digest without collisions; one agent with one trade.\<close>

definition sample_lib :: js_lib where
  "sample_lib = \<lparr>to_number = (\<lambda>s. map_option of_int (dec_opt s)), to_text = number_sample, fadd = (+), fmul = (*), fdiv = (/),
     to_upper = (\<lambda>s. s), locale_sort = (\<lambda>xs. xs), day_start = (\<lambda>t. t - t mod 86400000), sha = (\<lambda>bs. 1 # bs)\<rparr>"

definition sample_agent :: AgentProfile where
  "sample_agent = \<lparr>g_id = js ''a'', g_wallet = js ''w'', g_status = Agent_active,
     strategy = Some \<lparr>strategy_mode = Bounded_live, strategy_markets = []\<rparr>, g_created = 1, g_updated = 1\<rparr>"

definition sample_proposal :: AgentTradeProposal where
  "sample_proposal = \<lparr>p_id = js ''p'', p_wallet = js ''w'', p_agent = js ''a'', venue = Mock_perps, market = js ''BTC-PERP'',
     side = Long, orderType = Order_market, notionalUsd = js ''100'', leverage = Some 2, entryPrice = None,
     stopLossPrice = Some (js ''9''), takeProfitPrice = None, clientSignalId = None, p_expires = 100,
     evaluationDecision = None, policyViolations = None, p_hash = None, p_status = Approved, p_created = 1, p_updated = 1\<rparr>"

definition sample_state :: StoredShape where
  "sample_state = set_proposals (js ''w'') [sample_proposal] (set_agents (js ''w'') [sample_agent] emptyStoredShape)"

lemma sample_filed: "well_filed sample_state"
  by (simp add: sample_state_def well_filed_def store_simps emptyStoredShape_def sample_proposal_def sample_agent_def)

lemma sample_simps:
  "agents sample_state (js ''w'') = [sample_agent]" "proposals sample_state (js ''w'') = [sample_proposal]"
  "policies sample_state w = None" "sessions sample_state w = []" "executions sample_state w = []"
  by (simp_all add: sample_state_def store_simps emptyStoredShape_def)

lemma bound_rest [simp]:
  "market (bindAgentProposalPolicyHash L p v) = market p" "venue (bindAgentProposalPolicyHash L p v) = venue p"
  "notionalUsd (bindAgentProposalPolicyHash L p v) = notionalUsd p" "leverage (bindAgentProposalPolicyHash L p v) = leverage p"
  "stopLossPrice (bindAgentProposalPolicyHash L p v) = stopLossPrice p" "takeProfitPrice (bindAgentProposalPolicyHash L p v) = takeProfitPrice p"
  "p_expires (bindAgentProposalPolicyHash L p v) = p_expires p" "side (bindAgentProposalPolicyHash L p v) = side p"
  by (simp_all add: bindAgentProposalPolicyHash_def)

text \<open>The rules of the moment admit the trade of a proposal.\<close>

definition admitted :: "js_lib \<Rightarrow> int \<Rightarrow> StoredShape \<Rightarrow> AgentTradeProposal \<Rightarrow> bool" where
  "admitted L now st p \<longleftrightarrow> (case find (\<lambda>g. g_id g = p_agent p) (agents st (p_wallet p)) of
       None \<Rightarrow> False
     | Some g \<Rightarrow> within_rules L g p (currentPolicyForShape L st (p_wallet p) now) (activeSessionFor st (p_wallet p) (p_agent p) now)
         (riskSnapshotFromShape L st (p_wallet p) (p_agent p) now) now)"

lemma sample_admitted: "admitted sample_lib 50 sample_state (proposals sample_state (js ''w'') ! 0)"
proof -
  have half: "\<lfloor>1 / 2 :: rat\<rfloor> = 0" by (simp add: floor_unique)
  have r: "riskSnapshotFromShape sample_lib sample_state (js ''w'') (js ''a'') 50 =
      \<lparr>openPositions = 0, lastTradeAt = None, dailyRealizedPnlUsd = Some (js ''0e1'')\<rparr>"
    by (simp add: riskSnapshotFromShape_def dailyRealizedPnl_def roundMoney_def number_text_def sample_lib_def number_sample_def sample_simps
        show_nat.simps half digit_char_def)
  have s: "activeSessionFor sample_state (js ''w'') (js ''a'') 50 = None"
    by (simp add: activeSessionFor_def sample_simps)
  have p: "currentPolicyForShape sample_lib sample_state (js ''w'') 50 = normalizePolicy sample_lib (defaultAgentVaultPolicy sample_lib (js ''w'') 50)"
    by (simp add: currentPolicyForShape_def sample_simps)
  have ids: "p_agent sample_proposal = js ''a''" "p_wallet sample_proposal = js ''w''" "g_id sample_agent = js ''a''"
    by (simp_all add: sample_proposal_def sample_agent_def)
  have t: "trim [0x39] \<noteq> []" by code_simp
  have "within_rules sample_lib sample_agent sample_proposal (normalizePolicy sample_lib (defaultAgentVaultPolicy sample_lib (js ''w'') 50)) None
      \<lparr>openPositions = 0, lastTradeAt = None, dailyRealizedPnlUsd = Some (js ''0e1'')\<rparr> 50"
    by (simp add: within_rules_def all_limits_set_def strategy_admits_def normalizePolicy_def defaultAgentVaultPolicy_def
        bindAgentVaultPolicyHash_def at_most_def below_def sample_agent_def sample_proposal_def sample_lib_def dec_opt_def
        digits_val_def digit_val_def is_digit_def hasValue_def t)
  then show ?thesis by (simp add: admitted_def sample_simps ids r s p del: js_simps)
qed

lemma open_admitted:
  assumes "p_wallet (proposals st w ! n) = w" "p_status (proposals st w ! n) = Approved" "n < length (proposals st w)"
    and "admitted L now st (proposals st w ! n)" "canOpenLocalAgentExecution (venue (proposals st w ! n))"
  shows "\<exists>x. trade_of (proposals st w ! n) x \<and> x_status x = Open \<and> x_id x = new
     \<and> executions (snd (open_trade L now new w n st)) = (executions st)(w := executions st w @ [x])
     \<and> r_reason (fst (open_trade L now new w n st)) = Opened"
proof -
  let ?v = "currentPolicyForShape L st w now"
  let ?p = "proposals st w ! n"
  let ?q = "bindAgentProposalPolicyHash L ?p ?v"
  obtain g where g: "find (\<lambda>g. g_id g = p_agent ?p) (agents st w) = Some g"
    and r: "within_rules L g ?p ?v (activeSessionFor st w (p_agent ?p) now) (riskSnapshotFromShape L st w (p_agent ?p) now) now"
    using assms(1,4) by (auto simp: admitted_def split: option.splits)
  let ?e = "evaluateAgentTradeProposal L g ?q ?v (activeSessionFor st w (p_agent ?p) now) (Some (riskSnapshotFromShape L st w (p_agent ?p) now)) now"
  have e: "evaluateProposalForCurrentRisk L st ?q now = Some ?e" by (simp add: evaluateProposalForCurrentRisk_def g assms(1))
  have d: "decision ?e \<noteq> Decision_blocked" using r by (simp add: decision_blocked)
  obtain x where x: "executionFromProposal new ?q now = Some x" using assms(5) by (simp add: executionFromProposal_def)
  from executionFromProposalD [OF x] have t: "trade_of ?p x" "x_status x = Open" "x_id x = new" by (auto simp: trade_of_def)
  show ?thesis
    by (rule exI [of _ x]) (use t d assms(2) in \<open>simp add: open_trade_def Let_def e x store_simps open_result_def\<close>)
qed

definition sample_session :: AgentSessionGrant where
  "sample_session = \<lparr>s_id = js ''s'', s_wallet = js ''w'', s_agent = js ''a'', s_status = Session_status_active, startsAt = 1,
     s_expires = 90, s_venues = None, s_markets = None, s_maxNotional = None, s_maxLeverage = None, s_maxOpen = None,
     s_hash = None, s_created = 1, s_updated = 1\<rparr>"

lemma short_by_key:
  assumes "distinct (map f xs)" "\<And>s t. s \<in> set xs \<Longrightarrow> t \<in> set xs \<Longrightarrow> f s = f t"
  shows "length xs \<le> 1"
proof (cases xs)
  case (Cons x ys)
  show ?thesis
  proof (cases ys)
    case (Cons y zs)
    with \<open>xs = x # ys\<close> have "f x = f y" by (intro assms(2)) simp_all
    with assms(1) Cons \<open>xs = x # ys\<close> show ?thesis by simp
  qed (simp add: Cons)
qed simp

section \<open>The rules in force\<close>

text \<open>
  The calls with the saves of the rules page: it encrypts the rules before it saves them.  The rules
  in force for a wallet are those that were saved last, as they were entered, or the default ones.
\<close>

type_synonym page_call = "int \<times> (bool \<times> AgentVaultPolicy + agent_op)"

definition page_op :: "js_lib \<Rightarrow> page_call \<Rightarrow> int \<times> agent_op" where
  "page_op L c = (fst c, case snd c of Inl (live, v) \<Rightarrow> Save_policy (encryptAgentVaultPolicy L live v) | Inr d \<Rightarrow> d)"

definition page_calls :: "page_call list \<Rightarrow> bool" where
  "page_calls cs \<longleftrightarrow> list_all (\<lambda>c. case snd c of Inl _ \<Rightarrow> True | Inr d \<Rightarrow> (\<forall>v. d \<noteq> Save_policy v)) cs"

definition saved_rules :: "page_call list \<Rightarrow> jsstr \<Rightarrow> AgentVaultPolicy option" where
  "saved_rules cs w = fold (\<lambda>c r. case snd c of Inl (live, v) \<Rightarrow> if v_wallet v = w then Some v else r | Inr _ \<Rightarrow> r) cs None"

definition rules_in_force :: "js_lib \<Rightarrow> page_call list \<Rightarrow> jsstr \<Rightarrow> AgentVaultPolicy" where
  "rules_in_force L cs w = (case saved_rules cs w of Some v \<Rightarrow> v | None \<Rightarrow> defaultAgentVaultPolicy L w 0)"

definition after_calls :: "js_lib \<Rightarrow> page_call list \<Rightarrow> StoredShape" where
  "after_calls L cs = run_ops L (map (page_op L) cs) emptyStoredShape"

lemma rules_hash_fields [simp]:
  "computeAgentVaultPolicyHash L (v\<lparr>v_hash := h\<rparr>) = computeAgentVaultPolicyHash L v"
  "computeAgentVaultPolicyHash L (v\<lparr>emergencyPaused := b\<rparr>) = computeAgentVaultPolicyHash L v"
  "computeAgentVaultPolicyHash L (v\<lparr>v_updated := n\<rparr>) = computeAgentVaultPolicyHash L v"
  by (simp_all add: computeAgentVaultPolicyHash_def vault_policy_json_def)

lemma kept_hash:
  assumes "dailyLossCapUsd v \<noteq> []" "v_hash v = Some h" "v_encrypted v \<or> h = computeAgentVaultPolicyHash L v"
    "v_encrypted v \<and> h = [] \<longrightarrow> h = computeAgentVaultPolicyHash L v"
  shows "v_hash (normalizePolicy L v) = Some h"
proof -
  have "v\<lparr>dailyLossCapUsd := dailyLossCapUsd v\<rparr> = v" by simp
  with assms show ?thesis by (auto simp: normalizePolicy_def bindAgentVaultPolicyHash_def truthy_def)
qed

lemma normalized_hash:
  "\<exists>h. v_hash (normalizePolicy L u) = Some h \<and> dailyLossCapUsd (normalizePolicy L u) \<noteq> []
     \<and> (v_encrypted (normalizePolicy L u) \<and> h \<noteq> [] \<or> h = computeAgentVaultPolicyHash L (normalizePolicy L u))"
  by (auto simp: normalizePolicy_def bindAgentVaultPolicyHash_def truthy_def or_empty_def split: option.splits)

lemma renormal_hash:
  "v_hash (normalizePolicy L ((normalizePolicy L u)\<lparr>emergencyPaused := b, v_updated := n\<rparr>)) = v_hash (normalizePolicy L u)"
  "v_hash (normalizePolicy L (normalizePolicy L u)) = v_hash (normalizePolicy L u)"
proof -
  obtain h where h: "v_hash (normalizePolicy L u) = Some h" "dailyLossCapUsd (normalizePolicy L u) \<noteq> []"
      "v_encrypted (normalizePolicy L u) \<and> h \<noteq> [] \<or> h = computeAgentVaultPolicyHash L (normalizePolicy L u)"
    using normalized_hash by blast
  show "v_hash (normalizePolicy L ((normalizePolicy L u)\<lparr>emergencyPaused := b, v_updated := n\<rparr>)) = v_hash (normalizePolicy L u)"
    unfolding h(1) by (rule kept_hash) (use h in auto)
  show "v_hash (normalizePolicy L (normalizePolicy L u)) = v_hash (normalizePolicy L u)"
    unfolding h(1) by (rule kept_hash) (use h in auto)
qed

lemma page_hash:
  assumes "\<And>bs. sha L bs \<noteq> []"
  shows "v_hash (normalizePolicy L (encryptAgentVaultPolicy L live v)) = Some (computeAgentVaultPolicyHash L v)"
proof -
  have t: "truthy (Some (computeAgentVaultPolicyHash L v))"
    using assms toHex_inj [of _ "[]"] by (simp add: truthy_def rules_hash)
  have "v_hash (encryptAgentVaultPolicy L live v) = Some (computeAgentVaultPolicyHash L v)" "v_encrypted (encryptAgentVaultPolicy L live v)"
    by (simp_all add: encryptAgentVaultPolicy_def Let_def bindAgentVaultPolicyHash_def truthy_def)
  with t show ?thesis by (simp add: normalizePolicy_def bindAgentVaultPolicyHash_def)
qed

lemma default_hash:
  "v_hash (normalizePolicy L (defaultAgentVaultPolicy L w now)) = Some (computeAgentVaultPolicyHash L (defaultAgentVaultPolicy L w 0))"
  by (simp add: normalizePolicy_def bindAgentVaultPolicyHash_def defaultAgentVaultPolicy_def computeAgentVaultPolicyHash_def
      vault_policy_json_def del: js_simps)

text \<open>After any calls of the pages, the hash of a wallet's rules is that of the rules in force as they were entered.\<close>

lemma hash_in_force:
  assumes "\<And>bs. sha L bs \<noteq> []"
  shows "page_calls cs \<Longrightarrow> v_hash (currentPolicyForShape L (after_calls L cs) w now) = Some (computeAgentVaultPolicyHash L (rules_in_force L cs w))"
proof (induction cs arbitrary: w now rule: rev_induct)
  case Nil
  then show ?case
    by (simp add: after_calls_def rules_in_force_def saved_rules_def currentPolicyForShape_def emptyStoredShape_def default_hash)
next
  case (snoc c cs)
  obtain t d where c: "c = (t, d)" by (cases c)
  let ?st = "after_calls L cs"
  have IH: "v_hash (currentPolicyForShape L ?st u n) = Some (computeAgentVaultPolicyHash L (rules_in_force L cs u))" for u n
    using snoc by (simp add: page_calls_def)
  have st: "after_calls L (cs @ [c]) = run_op L (page_op L c) ?st" by (simp add: after_calls_def run_ops_def)
  show ?case
  proof (cases d)
    case (Inl r)
    obtain live v where r: "r = (live, v)" by (cases r)
    have w: "v_wallet (encryptAgentVaultPolicy L live v) = v_wallet v"
      by (simp add: encryptAgentVaultPolicy_def Let_def bindAgentVaultPolicyHash_def truthy_def)
    have p: "policies (after_calls L (cs @ [c])) = (policies ?st)(v_wallet v \<mapsto> normalizePolicy L (encryptAgentVaultPolicy L live v))"
      unfolding st by (simp add: c Inl r page_op_def run_op_policies w)
    have f: "rules_in_force L (cs @ [c]) w = (if v_wallet v = w then v else rules_in_force L cs w)"
      by (simp add: rules_in_force_def saved_rules_def c Inl r)
    show ?thesis
      unfolding f using p IH [of w now] page_hash [OF assms, of live v]
      by (cases "v_wallet v = w") (simp_all add: currentPolicyForShape_def renormal_hash)
  next
    case (Inr e)
    have f: "rules_in_force L (cs @ [c]) w = rules_in_force L cs w"
      by (simp add: rules_in_force_def saved_rules_def c Inr)
    show ?thesis
    proof (cases "\<exists>b. e = Emergency_pause w b")
      case True
      then obtain b where e: "e = Emergency_pause w b" by blast
      have "policies (after_calls L (cs @ [c])) w = Some (normalizePolicy L ((currentPolicyForShape L ?st w t)\<lparr>emergencyPaused := b, v_updated := t\<rparr>))"
        unfolding st by (simp add: c Inr e page_op_def run_op_policies)
      then show ?thesis using IH [of w t] unfolding f
        by (simp add: currentPolicyForShape_def renormal_hash)
    next
      case False
      then have "policies (after_calls L (cs @ [c])) w = policies ?st w"
        unfolding st using snoc.prems
        by (cases e) (auto simp: c Inr page_op_def run_op_policies page_calls_def)
      then show ?thesis using IH [of w now] unfolding f by (simp add: currentPolicyForShape_def)
    qed
  qed
qed

section \<open>Properties\<close>

text \<open>
  C26: Whatever is called, every record stands under its own wallet: agents, proposals, sessions,
  trades, rules, owner approvals and events, and a scorecard under its wallet and its agent.
\<close>

theorem records_filed: "well_filed (run_ops L cs emptyStoredShape)"
  by (rule run_ops_filed [OF empty_filed])

text \<open>
  C5: A call changes the trades of a wallet in two ways only: it closes open ones, or it opens one.
  Then the trade is that of the proposal the call submits or names, and the rules, the session and
  the open positions of that moment admit this proposal, its stop loss, take profit and expiry
  included; and either an autonomous session covers it, or the owner asked to open it and the
  stored proposal was approved.
\<close>

theorem trades_open_within_rules:
  "let st = run_ops L cs emptyStoredShape; st' = run_op L (now, c) st in
     list_all2 (kept L now) (executions st w) (executions st' w)
     \<or> (\<exists>p x. proposal_of c st = Some p \<and> authorised L now st w (asks_to_open c) p x \<and> x_status x = Open
          \<and> executions st' w = executions st w @ [x])"
  unfolding Let_def by (rule run_op_executions [OF run_ops_filed [OF empty_filed]])

text \<open>
  C16: When every rule saved allows at most \<open>n\<close> open positions per agent, no agent ever has more than
  \<open>n\<close> open trades in a wallet.
\<close>

theorem positions_bounded:
  assumes "1 \<le> n" "\<And>t v m. (t, Save_policy v) \<in> set cs \<Longrightarrow> maxOpenPositionsPerAgent v = Some m \<Longrightarrow> m \<le> of_nat n"
  shows "open_count (run_ops L cs emptyStoredShape) w a \<le> n"
proof -
  have "bounded_positions n (run_ops L cs emptyStoredShape)"
  proof (rule run_ops_invariant)
    show "bounded_positions n emptyStoredShape"
      by (simp add: bounded_positions_def empty_filed) (simp add: position_limits_def open_count_def emptyStoredShape_def)
    show "bounded_positions n (run_op L c st)" if "c \<in> set cs" "bounded_positions n st" for c st
      using bounded_step [OF that(2) assms(1), of "snd c" L "fst c"] assms(2) [of "fst c"] that(1) by (metis prod.collapse)
  qed
  then show ?thesis by (simp add: bounded_positions_def)
qed

theorem positions_bounded_witness:
  "open_count (run_ops sample_lib [(1, Save_agent sample_agent),
     (2, Save_policy (defaultAgentVaultPolicy sample_lib (js ''w'') 0)), (3, Save_and_execute (js ''x'') sample_proposal)] emptyStoredShape)
     (js ''w'') (js ''a'') \<le> 1"
  by (rule positions_bounded) auto

text \<open>
  C10: After the emergency pause and the closing of all trades, no trade of the wallet is open and
  none is opened by whatever is called, until the owner lifts the pause.
\<close>

theorem emergency_pause_holds:
  assumes "\<And>t c. (t, c) \<in> set ds \<Longrightarrow> \<not> resumes w c"
  shows "open_count (run_ops L (cs @ (t, Emergency_pause w True) # (u, Close_all w None pnl) # ds) emptyStoredShape) w a = 0"
proof -
  let ?s = "run_ops L cs emptyStoredShape"
  have "halted w (run_ops L ds (run_ops L [(t, Emergency_pause w True), (u, Close_all w None pnl)] ?s))"
    using halted_run [OF pause_and_close [OF run_ops_filed [OF empty_filed]]] assms by (metis prod.collapse)
  then show ?thesis by (simp add: halted_def open_count_def run_ops_def)
qed

theorem emergency_pause_holds_witness:
  "open_count (run_ops sample_lib ([(1, Save_agent sample_agent), (3, Save_and_execute (js ''x'') sample_proposal)]
     @ (4, Emergency_pause (js ''w'') True) # (5, Close_all (js ''w'') None (js ''7'')) # [(6, Recheck (js ''y'') (js ''w'') (js ''p''))])
     emptyStoredShape) (js ''w'') (js ''a'') = 0"
  by (rule emergency_pause_holds) (simp add: resumes_def)

text \<open>
  C25: An approved proposal that the rules of the moment admit, on a venue that opens locally, is opened
  when the owner asks for it: the trade is new, open, and the one proposed.
\<close>

theorem approved_trade_opens:
  assumes "well_filed st" "find_index (\<lambda>p. p_id p = i) (proposals st w) = Some n" "p_status (proposals st w ! n) = Approved"
    and "admitted L now st (proposals st w ! n)" "canOpenLocalAgentExecution (venue (proposals st w ! n))"
  shows "\<exists>x. trade_of (proposals st w ! n) x \<and> x_status x = Open \<and> x_id x = new
     \<and> executions (snd (openAgentPaperTrade L now new w i st)) w = executions st w @ [x]
     \<and> r_reason (fst (openAgentPaperTrade L now new w i st)) = Opened"
proof -
  note n = find_indexD [OF assms(2)]
  have "p_wallet (proposals st w ! n) = w" using n filed(1) [OF _ assms(1)] by blast
  from open_admitted [OF this assms(3) conjunct1 [OF n] assms(4,5), of new] show ?thesis
    using assms(2,3) by (auto simp: openAgentPaperTrade_def Let_def)
qed

theorem approved_trade_opens_witness:
  "\<exists>x. trade_of (proposals sample_state (js ''w'') ! 0) x \<and> x_status x = Open \<and> x_id x = js ''x''
     \<and> executions (snd (openAgentPaperTrade sample_lib 50 (js ''x'') (js ''w'') (js ''p'') sample_state)) (js ''w'')
         = executions sample_state (js ''w'') @ [x]
     \<and> r_reason (fst (openAgentPaperTrade sample_lib 50 (js ''x'') (js ''w'') (js ''p'') sample_state)) = Opened"
proof (rule approved_trade_opens [OF sample_filed])
  show "admitted sample_lib 50 sample_state (proposals sample_state (js ''w'') ! 0)"
    by (rule sample_admitted)
qed (simp_all add: sample_simps sample_proposal_def canOpenLocalAgentExecution_def agentExecutionAdapter_def del: js_simps)

text \<open>
  C19: A trade is never removed and never reordered; a closed one never changes, an open one only by
  being closed.
\<close>

theorem trades_are_permanent:
  "list_all2 (\<lambda>x y. y = x \<or> (x_status x = Open \<and> (\<exists>t pnl. y = closeAgentExecutionRecord L x pnl t)))
     (executions (run_ops L cs emptyStoredShape) w)
     (take (length (executions (run_ops L cs emptyStoredShape) w)) (executions (run_ops L (cs @ ds) emptyStoredShape) w))"
proof -
  let ?s = "run_ops L cs emptyStoredShape"
  have r: "run_ops L (cs @ ds) emptyStoredShape = run_ops L ds ?s" by (simp add: run_ops_def)
  have p: "i < length (executions (run_ops L ds ?s) w)" "executions (run_ops L ds ?s) w ! i = executions ?s w ! i
      \<or> (x_status (executions ?s w ! i) = Open \<and> (\<exists>t pnl. executions (run_ops L ds ?s) w ! i = closeAgentExecutionRecord L (executions ?s w ! i) pnl t))"
    if "i < length (executions ?s w)" for i
    using run_permanent [OF run_ops_filed [OF empty_filed] that refl, of L ds] by blast+
  have l: "length (executions ?s w) \<le> length (executions (run_ops L ds ?s) w)" by (rule leI) (use p(1) in blast)
  show ?thesis unfolding r by (rule list_all2_all_nthI) (use l p(2) in simp_all)
qed

text \<open>
  C17: The log is complete and about the right trades.  The opening events of a wallet are, one for
  one and in order, its trades: with the agent, the proposal, the id and the time of opening of
  each; so are the events of executed proposals.  The closing events are the closed trades, each
  with its agent, proposal, id and time of closing.
\<close>

theorem log_complete: "audited (run_ops L cs emptyStoredShape) w"
proof -
  have "well_filed (run_ops L cs emptyStoredShape) \<and> audited (run_ops L cs emptyStoredShape) w"
  proof (rule run_ops_invariant [where I = "\<lambda>st. well_filed st \<and> audited st w"])
    show "well_filed emptyStoredShape \<and> audited emptyStoredShape w"
      by (simp add: empty_filed) (simp add: audited_def logged_def closed_trades_def emptyStoredShape_def)
    show "well_filed (run_op L c st) \<and> audited (run_op L c st) w" if "well_filed st \<and> audited st w" for c st
      using run_op_audited [of st w L "fst c" "snd c"] run_op_filed [of st L c] that by simp
  qed
  then show ?thesis by simp
qed

text \<open>
  Setting a revoked session back to active does not revoke the others: two are active then.
\<close>

lemma reactivated_session:
  "length (filter (\<lambda>s. s_agent s = js ''a'' \<and> s_status s = Session_status_active) (sessions
     (run_ops sample_lib [(2, Save_session sample_session), (3, Save_session (sample_session\<lparr>s_id := js ''r''\<rparr>)),
        (4, Session_status (js ''w'') (js ''s'') Session_status_active)] emptyStoredShape) (js ''w''))) = 2"
  by (simp add: run_op_def saveAgentSession_def updateAgentSessionStatus_def Let_def store_simps bindAgentSessionPolicyHash_def
      sample_session_def emptyStoredShape_def revoke_if_def)

text \<open>
  C18: An agent has at most one active session after any calls that set no session back to active
  (the pages only revoke) and give a renewal a fresh id: granting or renewing a session revokes
  the other active ones, and nothing else activates one.
\<close>

theorem one_active_session:
  assumes "session_reach L st"
  shows "length (filter (\<lambda>s. s_agent s = a \<and> s_status s = Session_status_active) (sessions st w)) \<le> 1"
proof -
  let ?xs = "filter (\<lambda>s. s_agent s = a \<and> s_status s = Session_status_active) (sessions st w)"
  have ok: "sessions_ok (sessions st w)" using reached_sessions assms by blast
  then have d: "distinct (map s_id ?xs)" by (simp add: sessions_ok_def distinct_map_filter)
  have "s_id s = s_id t" if "s \<in> set ?xs" "t \<in> set ?xs" for s t
    using sessions_okD [OF ok, of s t] that by (simp add: rivals_def session_runs_def)
  with d show ?thesis by (rule short_by_key)
qed

theorem one_active_session_witness:
  "length (filter (\<lambda>s. s_agent s = js ''a'' \<and> s_status s = Session_status_active) (sessions
     (run_op sample_lib (3, Save_session (sample_session\<lparr>s_id := js ''r''\<rparr>))
       (run_op sample_lib (2, Save_session sample_session) emptyStoredShape)) (js ''w''))) \<le> 1"
  by (rule one_active_session [where L = sample_lib]) (intro session_reach.intros; simp add: fresh_session_def)

text \<open>
  C9: A session counts as current only for the rules it was granted under.  After any calls of the
  pages, with the rules encrypted as the rules page saves them, let a session be granted; after
  any further calls it is current only when the rules in force have the same limits as those at
  the grant, as they were entered, unless SHA-256 gives the texts of two different sets of rules
  the same digest.
\<close>

theorem session_bound_to_rules:
  assumes "num_text_ok (to_text L)" "\<And>bs. sha L bs \<noteq> []" "page_calls (cs @ ds)"
    and "isAgentSessionCurrent (fst (saveAgentSession L t s (after_calls L cs)))
      (currentPolicyForShape L (after_calls L (cs @ ds)) (s_wallet s) now) now"
  shows "let granted = rules_in_force L cs (s_wallet s); current = rules_in_force L (cs @ ds) (s_wallet s) in
    same_rules L granted current
    \<or> (rules_text L granted \<noteq> rules_text L current \<and> sha L (rules_text L granted) = sha L (rules_text L current))"
proof -
  let ?v = "rules_in_force L cs (s_wallet s)" and ?u = "rules_in_force L (cs @ ds) (s_wallet s)"
  have p: "page_calls cs" using assms(3) by (simp add: page_calls_def)
  have "computeAgentVaultPolicyHash L ?v = computeAgentVaultPolicyHash L ?u"
    using assms(4) hash_in_force [OF assms(2) p, of "s_wallet s" t] hash_in_force [OF assms(2,3), of "s_wallet s" now]
    by (simp add: isAgentSessionCurrent_def saveAgentSession_def Let_def bindAgentSessionPolicyHash_def policy_hash_def
        agentSessionPolicyBindingStatus_def split: if_splits)
  then have "sha L (rules_text L ?v) = sha L (rules_text L ?u)" by (simp add: rules_hash toHex_inj)
  then show ?thesis unfolding Let_def using vault_policy_json_inject rules_text_inject [OF assms(1)] by blast
qed

text \<open>A wallet whose rules are saved, a session, and a pause that is lifted again.\<close>

definition sample_rules :: "page_call list" where
  "sample_rules = [(1, Inl (True, (defaultAgentVaultPolicy sample_lib (js ''w'') 0)\<lparr>maxNotionalUsd := js ''70''\<rparr>))]"

theorem session_bound_to_rules_witness:
  "let granted = rules_in_force sample_lib sample_rules (js ''w'');
       current = rules_in_force sample_lib (sample_rules @ [(3, Inr (Emergency_pause (js ''w'') True)), (4, Inr (Emergency_pause (js ''w'') False))]) (js ''w'')
   in same_rules sample_lib granted current"
proof -
  let ?ds = "[(3, Inr (Emergency_pause (js ''w'') True)), (4, Inr (Emergency_pause (js ''w'') False))] :: page_call list"
  have n: "num_text_ok (to_text sample_lib)" by (simp add: sample_lib_def number_sample_ok)
  have h: "sha sample_lib bs = 1 # bs" for bs by (simp add: sample_lib_def)
  then have x: "sha sample_lib bs \<noteq> []" for bs by simp
  have p: "page_calls sample_rules" "page_calls (sample_rules @ ?ds)" by (simp_all add: page_calls_def sample_rules_def)
  have "truthy (Some (toHex (1 # bs)))" for bs by (simp add: truthy_def)
  moreover have "rules_in_force sample_lib (sample_rules @ ?ds) (js ''w'') = rules_in_force sample_lib sample_rules (js ''w'')"
    by (simp add: rules_in_force_def saved_rules_def)
  moreover have "s_wallet sample_session = js ''w''" by (simp add: sample_session_def)
  ultimately have "isAgentSessionCurrent (fst (saveAgentSession sample_lib 2 sample_session (after_calls sample_lib sample_rules)))
      (currentPolicyForShape sample_lib (after_calls sample_lib (sample_rules @ ?ds)) (s_wallet sample_session) 5) 5"
    using hash_in_force [OF x p(1), of "js ''w''" 2] hash_in_force [OF x p(2), of "js ''w''" 5]
    by (simp add: isAgentSessionCurrent_def saveAgentSession_def Let_def bindAgentSessionPolicyHash_def policy_hash_def
        agentSessionPolicyBindingStatus_def rules_hash h del: js_simps append.simps) (simp add: sample_session_def)
  from session_bound_to_rules [OF n x p(2) this] show ?thesis by (simp add: sample_session_def h Let_def)
qed

end
