(* ===== verification/Ordered_Rows.thy ===== *)
theory Ordered_Rows
  imports Keyed_Store "HOL-Library.Multiset"
begin

text \<open>
  A \<open>Map\<close> of the language as the list of its values in the order they were first set, and
  \<open>Array.prototype.sort\<close> with a comparison.
\<close>

section \<open>A map with its order\<close>

text \<open>\<open>map.set(key(v), v)\<close>: a key that is there keeps its place.\<close>

definition map_set :: "('v \<Rightarrow> 'k) \<Rightarrow> 'v \<Rightarrow> 'v list \<Rightarrow> 'v list" where
  "map_set key v rows =
     (if key v \<in> set (map key rows) then map (\<lambda>r. if key r = key v then v else r) rows else rows @ [v])"

lemma get_map_set: "get_row key k (map_set key v rows) = (if k = key v then Some v else get_row key k rows)"
proof (cases "key v \<in> set (map key rows)")
  case True
  have "get_row key k (map (\<lambda>r. if key r = key v then v else r) rows) =
      (if k = key v then (if key v \<in> set (map key rows) then Some v else None) else get_row key k rows)"
    by (induction rows) (auto simp: get_row_def)
  then show ?thesis using True by (simp add: map_set_def)
next
  case False
  then have "get_row key (key v) rows = None" by (auto simp: get_row_def find_None_iff image_iff)
  then show ?thesis using False by (auto simp: map_set_def get_row_def find_append split: option.splits)
qed

lemma map_set_keys: "map key (map_set key v rows) = (if key v \<in> set (map key rows) then map key rows else map key rows @ [key v])"
  by (auto simp: map_set_def)

lemma map_set_distinct: "distinct (map key rows) \<Longrightarrow> distinct (map key (map_set key v rows))"
  unfolding map_set_keys by auto

lemma map_set_set: "set (map_set key v rows) \<subseteq> insert v (set rows)"
  by (auto simp: map_set_def)

lemma map_store: "keyed_store (get_row key) (map_set key) (drop_rows key) key (\<lambda>_. True)"
  by unfold_locales (simp_all add: get_map_set get_drop)

lemma get_row_Some: "get_row key k rows = Some r \<Longrightarrow> r \<in> set rows \<and> key r = k"
  by (auto simp: get_row_def find_Some_iff)

lemma get_row_unique: "distinct (map key rows) \<Longrightarrow> r \<in> set rows \<Longrightarrow> get_row key (key r) rows = Some r"
  by (induction rows) (auto simp: get_row_def)

lemma get_row_None: "get_row key k rows = None \<longleftrightarrow> k \<notin> set (map key rows)"
  by (auto simp: get_row_def find_None_iff image_iff)

lemma dedupe_snoc: "dedupe (xs @ [x]) = (if x \<in> set xs then dedupe xs else dedupe xs @ [x])"
proof (cases "x \<in> set xs")
  case True
  have "remdups (x # ys) = remdups ys" if "x \<in> set ys" for ys using that by simp
  then have "rev (remdups (x # rev xs)) = rev (remdups (rev xs))" using True by simp
  then show ?thesis using True by (simp add: dedupe_def)
qed (simp add: dedupe_def)

section \<open>Sorting with a comparison\<close>

text \<open>\<open>rows.sort(compare)\<close>, where \<open>le a b\<close> stands for \<open>compare(a, b) <= 0\<close>; equal rows keep their order.\<close>

fun insert_by :: "('a \<Rightarrow> 'a \<Rightarrow> bool) \<Rightarrow> 'a \<Rightarrow> 'a list \<Rightarrow> 'a list" where
  "insert_by le x [] = [x]"
| "insert_by le x (y # ys) = (if le x y then x # y # ys else y # insert_by le x ys)"

definition sort_by :: "('a \<Rightarrow> 'a \<Rightarrow> bool) \<Rightarrow> 'a list \<Rightarrow> 'a list" where
  "sort_by le xs = foldr (insert_by le) xs []"

lemma mset_insert_by: "mset (insert_by le x ys) = add_mset x (mset ys)"
  by (induction ys) auto

lemma mset_sort_by [simp]: "mset (sort_by le xs) = mset xs"
  by (induction xs) (simp_all add: sort_by_def mset_insert_by)

lemma set_sort_by [simp]: "set (sort_by le xs) = set xs"
  using mset_eq_setD [OF mset_sort_by] .

lemma sort_by_distinct: "distinct (map f (sort_by le xs)) \<longleftrightarrow> distinct (map f xs)"
proof -
  have "mset (map f (sort_by le xs)) = mset (map f xs)" by simp
  then show ?thesis by (rule mset_eq_imp_distinct_iff)
qed

end
