(* ===== verification/Tx_Log.thy ===== *)
theory Tx_Log
  imports Ordered_Rows JS_Strings
begin

text \<open>
  The log of sends the browser keeps (\<open>lib/retail/txLog.ts\<close>): recording, listing, the recent
  recipients of a wallet.  The log is the list that is stored; the
  random id and the time of a call are arguments, \<open>toLowerCase\<close> is a parameter, the events and the
  shape check of the stored JSON are left out.
\<close>

section \<open>The log\<close>

definition MAX_ENTRIES :: nat where
  "MAX_ENTRIES = 100"

datatype TxAttemptStatus = Tx_success | Tx_failed | Tx_submitted

record TxAttempt =
  tx_id :: jsstr
  tx_wallet :: jsstr
  tx_chain :: int
  tx_status :: TxAttemptStatus
  tx_amount :: "jsstr option"
  tx_ticker :: "jsstr option"
  tx_short :: "jsstr option"
  tx_recipient :: "jsstr option"
  tx_hash :: "jsstr option"
  tx_url :: "jsstr option"
  tx_error :: "jsstr option"
  tx_stderr :: "jsstr option"
  tx_ts :: int

text \<open>\<open>rows.slice(-MAX_ENTRIES)\<close>.\<close>

definition log_writeAll :: "TxAttempt list \<Rightarrow> TxAttempt list" where
  "log_writeAll rows = drop (length rows - MAX_ENTRIES) rows"

definition recordAttempt :: "jsstr \<Rightarrow> int \<Rightarrow> TxAttempt \<Rightarrow> TxAttempt list \<Rightarrow> TxAttempt \<times> TxAttempt list" where
  "recordAttempt new_id now a rows = (let full = a\<lparr>tx_id := new_id, tx_ts := now\<rparr> in (full, log_writeAll (rows @ [full])))"

text \<open>Newest first; the sort is stable.\<close>

definition newest_first :: "TxAttempt list \<Rightarrow> TxAttempt list" where
  "newest_first rows = sort_key (\<lambda>a. - tx_ts a) rows"

definition listAttempts :: "jsstr \<Rightarrow> nat option \<Rightarrow> TxAttempt list \<Rightarrow> TxAttempt list" where
  "listAttempts w lim rows =
     (let found = newest_first (filter (\<lambda>a. tx_wallet a = w) rows) in case lim of None \<Rightarrow> found | Some n \<Rightarrow> take n found)"

definition clearWallet :: "jsstr \<Rightarrow> TxAttempt list \<Rightarrow> TxAttempt list" where
  "clearWallet w rows = log_writeAll (filter (\<lambda>a. tx_wallet a \<noteq> w) rows)"

text \<open>The event a recorded attempt is announced with.\<close>

datatype send_event = Send_executed | Send_failed

definition send_event_of :: "TxAttempt \<Rightarrow> send_event option" where
  "send_event_of a = (case tx_status a of Tx_submitted \<Rightarrow> None | Tx_success \<Rightarrow> Some Send_executed | Tx_failed \<Rightarrow> Some Send_failed)"

section \<open>The recent recipients\<close>

record RecentRecipient =
  rr_address :: jsstr
  rr_ticker :: jsstr
  rr_ts :: int
  rr_amount :: "jsstr option"
  rr_count :: nat

definition sends_to_known :: "jsstr \<Rightarrow> int \<Rightarrow> TxAttempt list \<Rightarrow> TxAttempt list" where
  "sends_to_known w kind rows = newest_first (filter (\<lambda>a. tx_wallet a = w \<and> tx_chain a = kind \<and> tx_status a = Tx_success
     \<and> truthy (tx_recipient a)) rows)"

definition recent_key :: "(jsstr \<Rightarrow> jsstr) \<Rightarrow> RecentRecipient \<Rightarrow> jsstr" where
  "recent_key lower r = lower (rr_address r)"

definition add_recent :: "(jsstr \<Rightarrow> jsstr) \<Rightarrow> TxAttempt \<Rightarrow> RecentRecipient list \<Rightarrow> RecentRecipient list" where
  "add_recent lower a m =
     (let addr = or_empty (tx_recipient a) in
      case get_row (recent_key lower) (lower addr) m of
        Some e \<Rightarrow> map_set (recent_key lower) (e\<lparr>rr_count := rr_count e + 1\<rparr>) m
      | None \<Rightarrow> map_set (recent_key lower) \<lparr>rr_address = addr, rr_ticker = or_empty (tx_ticker a), rr_ts = tx_ts a,
                  rr_amount = tx_amount a, rr_count = 1\<rparr> m)"

definition recentRecipients :: "(jsstr \<Rightarrow> jsstr) \<Rightarrow> jsstr \<Rightarrow> int \<Rightarrow> nat \<Rightarrow> TxAttempt list \<Rightarrow> RecentRecipient list" where
  "recentRecipients lower w kind lim rows = take lim (fold (add_recent lower) (sends_to_known w kind rows) [])"

section \<open>What the recent recipients are\<close>

definition send_key :: "(jsstr \<Rightarrow> jsstr) \<Rightarrow> TxAttempt \<Rightarrow> jsstr" where
  "send_key lower a = lower (or_empty (tx_recipient a))"

text \<open>Of all sends to an address: its last one, and how many there are.\<close>

definition recent_of :: "(jsstr \<Rightarrow> jsstr) \<Rightarrow> TxAttempt list \<Rightarrow> jsstr \<Rightarrow> RecentRecipient" where
  "recent_of lower sends k = (let s = filter (\<lambda>a. send_key lower a = k) sends; a = hd s in
     \<lparr>rr_address = or_empty (tx_recipient a), rr_ticker = or_empty (tx_ticker a), rr_ts = tx_ts a, rr_amount = tx_amount a,
      rr_count = length s\<rparr>)"

lemma recent_of_key: "k \<in> send_key lower ` set sends \<Longrightarrow> recent_key lower (recent_of lower sends k) = k"
proof -
  assume "k \<in> send_key lower ` set sends"
  then have "filter (\<lambda>a. send_key lower a = k) sends \<noteq> []" by (auto simp: filter_empty_conv)
  then have "hd (filter (\<lambda>a. send_key lower a = k) sends) \<in> set (filter (\<lambda>a. send_key lower a = k) sends)" by (rule hd_in_set)
  then show ?thesis by (simp add: recent_of_def recent_key_def send_key_def Let_def)
qed

lemma recent_of_snoc:
  "recent_of lower (sends @ [a]) k =
     (if send_key lower a \<noteq> k then recent_of lower sends k
      else if k \<in> send_key lower ` set sends
      then (recent_of lower sends k)\<lparr>rr_count := rr_count (recent_of lower sends k) + 1\<rparr>
      else \<lparr>rr_address = or_empty (tx_recipient a), rr_ticker = or_empty (tx_ticker a), rr_ts = tx_ts a, rr_amount = tx_amount a, rr_count = 1\<rparr>)"
proof (cases "k \<in> send_key lower ` set sends")
  case True
  then have "filter (\<lambda>a. send_key lower a = k) sends \<noteq> []" by (auto simp: filter_empty_conv)
  then show ?thesis using True by (simp add: recent_of_def Let_def)
next
  case False
  then have "filter (\<lambda>a. send_key lower a = k) sends = []" by (auto simp: filter_empty_conv)
  then show ?thesis using False by (simp add: recent_of_def Let_def)
qed

lemma recents_fold:
  "fold (add_recent lower) sends [] = map (recent_of lower sends) (dedupe (map (send_key lower) sends))"
proof (induction sends rule: rev_induct)
  case (snoc a sends)
  let ?m = "map (recent_of lower sends) (dedupe (map (send_key lower) sends))" and ?k = "send_key lower a"
  have keys: "map (recent_key lower) ?m = dedupe (map (send_key lower) sends)"
    unfolding map_map by (rule map_idI) (simp add: recent_of_key)
  show ?case
  proof (cases "?k \<in> send_key lower ` set sends")
    case True
    have "get_row (recent_key lower) (recent_key lower (recent_of lower sends ?k)) ?m = Some (recent_of lower sends ?k)"
      using True keys by (intro get_row_unique) simp_all
    then have g: "get_row (recent_key lower) ?k ?m = Some (recent_of lower sends ?k)" using True by (simp add: recent_of_key)
    have "add_recent lower a ?m = map_set (recent_key lower) ((recent_of lower sends ?k)\<lparr>rr_count := rr_count (recent_of lower sends ?k) + 1\<rparr>) ?m"
      using g by (simp add: add_recent_def send_key_def Let_def)
    also have "\<dots> = map (recent_of lower (sends @ [a])) (dedupe (map (send_key lower) sends))"
    proof -
      have k: "recent_key lower ((recent_of lower sends ?k)\<lparr>rr_count := n\<rparr>) = ?k" for n
        using recent_of_key [OF True] by (simp add: recent_key_def)
      have "?k \<in> set (map (recent_key lower) ?m)" unfolding keys using True by simp
      then show ?thesis
        unfolding map_set_def k by (auto simp: recent_of_snoc recent_of_key True)
    qed
    finally show ?thesis using True snoc.IH by (simp add: dedupe_snoc)
  next
    case False
    have g: "get_row (recent_key lower) ?k ?m = None" unfolding get_row_None keys using False by simp
    then have "add_recent lower a ?m = ?m @ [recent_of lower (sends @ [a]) ?k]"
      using False get_row_None [of "recent_key lower" ?k ?m]
      by (simp add: add_recent_def send_key_def [symmetric] Let_def map_set_def recent_key_def recent_of_snoc)
    moreover have e: "?m = map (recent_of lower (sends @ [a])) (dedupe (map (send_key lower) sends))"
      using False by (auto simp: recent_of_snoc)
    ultimately have "fold (add_recent lower) (sends @ [a]) [] =
        map (recent_of lower (sends @ [a])) (dedupe (map (send_key lower) sends)) @ [recent_of lower (sends @ [a]) ?k]"
      using snoc.IH by (simp only: fold_append fold_simps comp_apply)
    then show ?thesis using False by (simp add: dedupe_snoc)
  qed
qed (simp add: dedupe_def)

section \<open>Properties\<close>

text \<open>
  The recipients a send page offers are those of the last sends, each once: in the order of
  their last send, one entry for every address that a successful send of the wallet on the
  chain went to, without regard to case, with the text, the ticker, the time and the amount of the last send
  to it and the number of all sends to it.
\<close>

theorem recents_are_last_sends:
  "recentRecipients lower w kind lim rows =
     (let sends = sends_to_known w kind rows in take lim (map (recent_of lower sends) (dedupe (map (send_key lower) sends))))"
  by (simp add: recentRecipients_def recents_fold Let_def)

end
