(* ===== verification/Rule_Evaluation.thy ===== *)
theory Rule_Evaluation
  imports Target_Enforcement Tx_Log
begin

text \<open>
  The evaluation of a wallet's rules on the page (\<open>lib/policies/evaluate.ts\<close>) and the plan a
  send is checked with before it is signed (\<open>lib/policies/enforce.ts\<close>), with the log of sends of \<open>Tx_Log\<close>.  The texts of reasons are left out, the order of
  the reasons is kept.  \<open>parseFloat\<close>, the rounded sum, \<open>String\<close> of a number and \<open>toLowerCase\<close> are fields of
  \<open>page_platform\<close>; the rules, the settings and the log stand for what the browser has stored.
\<close>

section \<open>The candidate and the platform\<close>

text \<open>What \<open>parseFloat\<close> gives.\<close>

datatype jsfloat = Finite number | Infinite bool | NotANumber

record page_platform = chain_platform +
  parseFloat :: "jsstr \<Rightarrow> jsfloat"
  float_add :: "number \<Rightarrow> number \<Rightarrow> number"
  num_text :: "number \<Rightarrow> jsstr"
  parse_days :: "jsstr \<Rightarrow> int list option res"

record CandidateProposal =
  cand_wallet :: jsstr
  cand_chain :: int
  cand_token :: "jsstr option"
  cand_recipient :: jsstr
  cand_ticker :: jsstr
  cand_amount :: jsstr
  cand_at :: "int option"

text \<open>What the evaluation reads of the browser: the clock in milliseconds, its offset, the log.\<close>

record page =
  clock :: int
  tz_offset :: int
  tx_log :: "TxAttempt list"

definition candidate_time :: "page \<Rightarrow> CandidateProposal \<Rightarrow> int" where
  "candidate_time pg c = (case cand_at c of None \<Rightarrow> clock pg | Some t \<Rightarrow> t) div 1000"

section \<open>The matchers\<close>

definition matchAsset :: "page_platform \<Rightarrow> int option \<Rightarrow> jsstr option \<Rightarrow> CandidateProposal \<Rightarrow> bool" where
  "matchAsset pf kind token c = (case kind of
       None \<Rightarrow> True
     | Some k \<Rightarrow>
         if k \<noteq> cand_chain c then False
         else if truthy token \<and> cand_chain c = 4
         then toLowerCase pf (or_empty token) = toLowerCase pf (or_empty (cand_token c))
         else True)"

definition matchRecipient :: "page_platform \<Rightarrow> ListMode \<Rightarrow> jsstr list option \<Rightarrow> CandidateProposal \<Rightarrow> bool" where
  "matchRecipient pf m addresses c =
     (let inList = (toLowerCase pf (cand_recipient c) \<in> set (map (toLowerCase pf) (or_empty addresses)))
      in if m = Allowlist then inList else \<not> inList)"

text \<open>\<open>text != null && isFinite(parseFloat(text)) && test\<close>.\<close>

definition bound_broken :: "page_platform \<Rightarrow> (number \<Rightarrow> bool) \<Rightarrow> jsstr option \<Rightarrow> bool" where
  "bound_broken pf broken bound = (case bound of
       None \<Rightarrow> False
     | Some t \<Rightarrow> (case parseFloat pf t of Finite m \<Rightarrow> broken m | _ \<Rightarrow> False))"

definition other_ticker :: "jsstr option \<Rightarrow> CandidateProposal \<Rightarrow> bool" where
  "other_ticker t c \<longleftrightarrow> truthy t \<and> cand_ticker c \<noteq> [] \<and> or_empty t \<noteq> cand_ticker c"

definition matchAmount :: "page_platform \<Rightarrow> jsstr option \<Rightarrow> jsstr option \<Rightarrow> jsstr option \<Rightarrow> CandidateProposal \<Rightarrow> bool" where
  "matchAmount pf mn mx t c = (case parseFloat pf (cand_amount c) of
       Finite amount \<Rightarrow>
         if other_ticker t c then False
         else if bound_broken pf (\<lambda>m. amount < m) mn then False
         else if bound_broken pf (\<lambda>m. amount > m) mx then False
         else True
     | _ \<Rightarrow> False)"

definition spent_in_window :: "page_platform \<Rightarrow> page \<Rightarrow> jsstr \<Rightarrow> jsstr \<Rightarrow> int \<Rightarrow> number" where
  "spent_in_window pf pg w t days =
     (let cutoff = clock pg - days * 24 * 60 * 60 * 1000 in
      fold (\<lambda>a total.
          if tx_status a \<noteq> Tx_success then total
          else if tx_ts a < cutoff then total
          else if truthy (tx_ticker a) \<and> t \<noteq> [] \<and> or_empty (tx_ticker a) \<noteq> t then total
          else (case parseFloat pf (case tx_amount a of None \<Rightarrow> js ''0'' | Some s \<Rightarrow> s) of
                  Finite v \<Rightarrow> float_add pf total v | _ \<Rightarrow> total))
        (listAttempts w None (tx_log pg)) 0)"

definition matchVelocity :: "page_platform \<Rightarrow> page \<Rightarrow> jsstr \<Rightarrow> jsstr \<Rightarrow> int \<Rightarrow> CandidateProposal \<Rightarrow> bool" where
  "matchVelocity pf pg cap t days c =
     (if other_ticker (Some t) c then False
      else let total = spent_in_window pf pg (cand_wallet c) t days in
           (case parseFloat pf cap of
              Finite limit \<Rightarrow> (case parseFloat pf (cand_amount c) of
                  Finite v \<Rightarrow> float_add pf total v > limit
                | Infinite up \<Rightarrow> up
                | NotANumber \<Rightarrow> float_add pf total 0 > limit)
            | _ \<Rightarrow> False))"

definition matchCondition :: "page_platform \<Rightarrow> page \<Rightarrow> CandidateProposal \<Rightarrow> RuleCondition \<Rightarrow> bool" where
  "matchCondition pf pg c cond = (case cond of
       AssetCondition kind token \<Rightarrow> matchAsset pf kind token c
     | RecipientCondition m addresses \<Rightarrow> matchRecipient pf m addresses c
     | AmountCondition mn mx t \<Rightarrow> matchAmount pf mn mx t c
     | TimeWindowCondition s f days m \<Rightarrow>
         matchTimeWindow s f days m (local_hour (tz_offset pg) (candidate_time pg c)) (local_day (tz_offset pg) (candidate_time pg c))
     | VelocityCondition cap t days \<Rightarrow> matchVelocity pf pg cap t days c)"

section \<open>The evaluation of the rules\<close>

record RuleEvaluation =
  re_rule :: jsstr
  re_name :: jsstr
  re_matched :: bool
  re_reasons :: "(RuleCondition \<times> bool) list"
  re_action :: RuleAction

definition reasons_for :: "page_platform \<Rightarrow> page \<Rightarrow> CandidateProposal \<Rightarrow> RuleCondition list \<Rightarrow> (RuleCondition \<times> bool) list" where
  "reasons_for pf pg c conds = map (\<lambda>cond. (cond, matchCondition pf pg c cond)) conds"

definition rule_evaluation :: "PolicyRule \<Rightarrow> bool \<Rightarrow> (RuleCondition \<times> bool) list \<Rightarrow> RuleEvaluation" where
  "rule_evaluation r m reasons = \<lparr>re_rule = rule_id r, re_name = rule_name r, re_matched = m, re_reasons = reasons, re_action = rule_action r\<rparr>"

fun evaluateFirstMatch :: "page_platform \<Rightarrow> page \<Rightarrow> CandidateProposal \<Rightarrow> PolicyRule list \<Rightarrow> RuleEvaluation option res" where
  "evaluateFirstMatch pf pg c [] = Inr None"
| "evaluateFirstMatch pf pg c (r # rs) =
     (if \<not> enabled r then evaluateFirstMatch pf pg c rs
      else ebind (decryptConditions (parse_days pf) (rule_conditions r)) (\<lambda>conds.
           let reasons = reasons_for pf pg c conds in
           if list_all snd reasons then Inr (Some (rule_evaluation r True reasons))
           else evaluateFirstMatch pf pg c rs))"

text \<open>A rule that is off is shown with what is stored, not with what its payloads hold.\<close>

definition stored_values :: "StoredCondition \<Rightarrow> RuleCondition" where
  "stored_values s = (case s of
       StoredAsset k _ t _ \<Rightarrow> AssetCondition k t
     | StoredRecipient m a _ \<Rightarrow> RecipientCondition m a
     | StoredAmount mn _ mx _ t _ \<Rightarrow> AmountCondition mn mx t
     | StoredTimeWindow a _ b _ days _ m _ \<Rightarrow> TimeWindowCondition a b days m
     | StoredVelocity cap _ t _ days _ \<Rightarrow> VelocityCondition cap t days)"

fun evaluateAll :: "page_platform \<Rightarrow> page \<Rightarrow> CandidateProposal \<Rightarrow> PolicyRule list \<Rightarrow> RuleEvaluation list res" where
  "evaluateAll pf pg c [] = Inr []"
| "evaluateAll pf pg c (r # rs) =
     ebind (if enabled r then decryptConditions (parse_days pf) (rule_conditions r) else Inr (map stored_values (rule_conditions r))) (\<lambda>conds.
     let reasons = reasons_for pf pg c conds; e = rule_evaluation r (enabled r \<and> list_all snd reasons) reasons in
     ebind (evaluateAll pf pg c rs) (\<lambda>es. Inr (e # es)))"

definition effectiveAction :: "RuleEvaluation option \<Rightarrow> RuleAction option" where
  "effectiveAction e = (case e of None \<Rightarrow> None | Some e \<Rightarrow> if re_matched e then Some (re_action e) else None)"

section \<open>The plan of a send\<close>

definition resolveMemberAllowances :: "page_platform \<Rightarrow> settings \<Rightarrow> jsstr \<Rightarrow> jsstr \<Rightarrow> MemberAllowanceCap list" where
  "resolveMemberAllowances pf st w tk =
     (if tk \<noteq> js ''SOL'' then []
      else map (\<lambda>row. \<lparr>member = fa_friend row, capDisplay = num_text pf (max 0 (amountSol row)),
                  windowSeconds = (if period row = Monthly then 30 * 24 * 60 * 60 else 7 * 24 * 60 * 60)\<rparr>)
             (filter (\<lambda>row. period row \<noteq> Unlimited) (listAllowances (Some w) (allowances st))))"

definition resolveRecipientGuard :: "settings \<Rightarrow> jsstr \<Rightarrow> int \<Rightarrow> (ListMode \<times> jsstr list) option" where
  "resolveRecipientGuard st w kind =
     (let a = getAllowlist w kind (allowlists st) in if allow_on a then Some (Allowlist, allow_addresses a) else None)"

definition resolveSavedAllowedTimeWindow :: "page \<Rightarrow> settings \<Rightarrow> jsstr \<Rightarrow> AllowedTimeWindow option" where
  "resolveSavedAllowedTimeWindow pg st w =
     (let window = getTimeWindow w (time_windows st) in
      if \<not> tw_enabled window then None
      else Some \<lparr>startHour = tw_start window,
             endHour = (if tw_days window = [] then tw_start window else tw_end window),
             daysOfWeek = tw_days window, utcOffsetMinutes = tz_offset pg\<rparr>)"

text \<open>A decrypted condition keeps its payloads beside the values read from them.\<close>

definition refilled :: "StoredCondition \<Rightarrow> RuleCondition \<Rightarrow> StoredCondition" where
  "refilled s c = (case (s, c) of
       (StoredAsset _ ek _ et, AssetCondition k t) \<Rightarrow> StoredAsset k ek t et
     | (StoredRecipient _ _ e, RecipientCondition m a) \<Rightarrow> StoredRecipient m a (Some (or_empty e))
     | (StoredAmount _ emn _ emx _ et, AmountCondition mn mx t) \<Rightarrow> StoredAmount mn emn mx emx t et
     | (StoredTimeWindow _ ea _ eb _ ed _ em, TimeWindowCondition a b days m) \<Rightarrow> StoredTimeWindow a ea b eb days ed m em
     | (StoredVelocity _ ecap _ et _ ed, VelocityCondition cap t days) \<Rightarrow> StoredVelocity cap ecap t et days ed
     | _ \<Rightarrow> s)"

definition is_time_window :: "RuleCondition \<Rightarrow> bool" where
  "is_time_window c = (case c of TimeWindowCondition _ _ _ _ \<Rightarrow> True | _ \<Rightarrow> False)"

definition expresses_hours :: "RuleAction \<Rightarrow> WindowMatch \<Rightarrow> bool" where
  "expresses_hours a m \<longleftrightarrow> (a = Allow \<and> m = Inside) \<or> (a = Deny \<and> m = Outside)"

definition guard_rule :: "PolicyRule \<Rightarrow> RuleCondition list \<Rightarrow> PolicyRule" where
  "guard_rule r conds = r\<lparr>rule_action := Allow,
     rule_conditions := map (\<lambda>(s, c). refilled s c) (filter (\<lambda>(s, c). \<not> is_time_window c) (zip (rule_conditions r) conds))\<rparr>"

fun resolveAllowedTimeWindow :: "page_platform \<Rightarrow> page \<Rightarrow> CandidateProposal \<Rightarrow> PolicyRule list \<Rightarrow> AllowedTimeWindow option res" where
  "resolveAllowedTimeWindow pf pg c [] = Inr None"
| "resolveAllowedTimeWindow pf pg c (r # rs) =
     (if \<not> enabled r then resolveAllowedTimeWindow pf pg c rs
      else ebind (decryptConditions (parse_days pf) (rule_conditions r)) (\<lambda>conds.
           case find is_time_window conds of
             Some (TimeWindowCondition s f days m) \<Rightarrow>
               if \<not> expresses_hours (rule_action r) m then resolveAllowedTimeWindow pf pg c rs
               else ebind (evaluateAll pf pg c [guard_rule r conds]) (\<lambda>es.
                    if \<not> re_matched (hd es) then resolveAllowedTimeWindow pf pg c rs
                    else Inr (Some \<lparr>startHour = s, endHour = f, daysOfWeek = days, utcOffsetMinutes = tz_offset pg\<rparr>))
           | _ \<Rightarrow> resolveAllowedTimeWindow pf pg c rs))"

definition resolveOnchainLimits :: "page_platform \<Rightarrow> settings \<Rightarrow> jsstr \<Rightarrow> jsstr \<Rightarrow> OnchainLimits" where
  "resolveOnchainLimits pf st w tickerInput =
     (let b = getBudget w (budgets st); tk = toUpperCase pf (trim tickerInput);
          nativeCap = Option.bind (Option.bind b (\<lambda>b. cap_for (onchainWeeklyNative b) tk)) id
      in \<lparr>velocityCapDisplay = (case nativeCap of Some s \<Rightarrow> if trim s \<noteq> [] then Some s else None | None \<Rightarrow> None),
          velocityWindowSeconds = BUDGET_WINDOW_MS div 1000,
          maxSendCount = max 0 \<lfloor>case Option.bind b velocityPerDay of None \<Rightarrow> 0 | Some v \<Rightarrow> v\<rfloor>,
          countWindowSeconds = VELOCITY_WINDOW_MS div 1000\<rparr>)"

text \<open>Entries that cannot be read are skipped.\<close>

definition decryptRuleStrings :: "EncryptedPayload list \<Rightarrow> jsstr list" where
  "decryptRuleStrings payloads = filter (\<lambda>t. t \<noteq> []) (map trim (readable_entries payloads))"

text \<open>The plan with the rule it comes from.\<close>

record resolved_plan =
  rp_evaluation :: "RuleEvaluation option"
  rp_rule :: "PolicyRule option"
  rp_plan :: PolicyEnforcementPlan

definition resolvePolicyEnforcement ::
  "page_platform \<Rightarrow> page \<Rightarrow> settings \<Rightarrow> shape \<Rightarrow> jsstr \<Rightarrow> CandidateProposal \<Rightarrow> resolved_plan res" where
  "resolvePolicyEnforcement pf pg st shape w c =
     (let limits = resolveOnchainLimits pf st w (cand_ticker c);
          guard = resolveRecipientGuard st w (cand_chain c);
          members = resolveMemberAllowances pf st w (cand_ticker c);
          rules = listPolicies w shape
      in ebind (case resolveSavedAllowedTimeWindow pg st w of
                  Some a \<Rightarrow> Inr (Some a) | None \<Rightarrow> resolveAllowedTimeWindow pf pg c rules) (\<lambda>window.
         ebind (evaluateFirstMatch pf pg c rules) (\<lambda>e.
         let base = \<lparr>evaluation = effectiveAction e, conditions = [], extraApprovers = [], extraCooldownSeconds = 0,
               recipientGuard = guard, allowedTimeWindow = window, onchainLimits = limits, memberAllowances = members\<rparr>
         in case Option.bind e (\<lambda>e. find (\<lambda>r. rule_id r = re_rule e) rules) of
              None \<Rightarrow> Inr \<lparr>rp_evaluation = e, rp_rule = None, rp_plan = base\<rparr>
            | Some r \<Rightarrow>
                ebind (decryptConditions (parse_days pf) (rule_conditions r)) (\<lambda>conds.
                ebind (if rule_action r = RequireCooldown
                       then ebind (decryptCooldownSeconds (extraCooldownEncrypted r) (rule_cooldown r)) (\<lambda>s.
                            Inr (max 0 (case s of None \<Rightarrow> 0 | Some v \<Rightarrow> v)))
                       else Inr 0) (\<lambda>wait.
                Inr \<lparr>rp_evaluation = e, rp_rule = Some r,
                  rp_plan = base\<lparr>conditions := conds,
                    extraApprovers := (if rule_action r = RequireExtraApprovers
                      then decryptRuleStrings (or_empty (extraApproversEncrypted r)) else []),
                    extraCooldownSeconds := wait\<rparr>\<rparr>)))))"

definition assertPolicyNotDenied :: "resolved_plan \<Rightarrow> unit res" where
  "assertPolicyNotDenied p = guard (effectiveAction (rp_evaluation p) \<noteq> Some Deny) ''Policy  denies this .''"

section \<open>The first matching rule\<close>

lemma first_match_cases:
  "case evaluateAll pf pg c rs of
     Inl e \<Rightarrow> evaluateFirstMatch pf pg c rs = Inl e \<or> (\<exists>m. evaluateFirstMatch pf pg c rs = Inr (Some m) \<and> re_matched m)
   | Inr es \<Rightarrow> evaluateFirstMatch pf pg c rs = Inr (find re_matched es)"
proof (induction rs)
  case (Cons r rs)
  show ?case
  proof (cases "enabled r")
    case True
    then show ?thesis
      using Cons by (cases "decryptConditions (parse_days pf) (rule_conditions r)"; cases "evaluateAll pf pg c rs")
        (auto simp: rule_evaluation_def Let_def)
  next
    case False
    then show ?thesis using Cons by (cases "evaluateAll pf pg c rs") (auto simp: rule_evaluation_def Let_def)
  qed
qed simp

lemma first_match_Some:
  "evaluateFirstMatch pf pg c rs = Inr (Some m) \<Longrightarrow> re_matched m \<and> (\<exists>r \<in> set rs. enabled r \<and> re_rule m = rule_id r
     \<and> re_action m = rule_action r \<and> (\<exists>conds. decryptConditions (parse_days pf) (rule_conditions r) = Inr conds
     \<and> list_all (matchCondition pf pg c) conds))"
  by (induction rs) (auto simp: err_simps rule_evaluation_def reasons_for_def Let_def list.pred_map comp_def split: if_splits)

text \<open>The rules evaluated by the plan and by the page are the same list.\<close>

lemma plan_evaluation:
  "resolvePolicyEnforcement pf pg st shape w c = Inr p \<Longrightarrow>
     evaluateFirstMatch pf pg c (listPolicies w shape) = Inr (rp_evaluation p)"
  by (auto simp: resolvePolicyEnforcement_def Let_def err_simps split: option.splits if_splits)

lemma plan_settings:
  assumes "resolvePolicyEnforcement pf pg st shape w c = Inr p"
  shows "onchainLimits (rp_plan p) = resolveOnchainLimits pf st w (cand_ticker c)"
    and "recipientGuard (rp_plan p) = resolveRecipientGuard st w (cand_chain c)"
    and "memberAllowances (rp_plan p) = resolveMemberAllowances pf st w (cand_ticker c)"
    and "resolveSavedAllowedTimeWindow pg st w = Some a \<Longrightarrow> allowedTimeWindow (rp_plan p) = Some a"
  using assms by (auto simp: resolvePolicyEnforcement_def Let_def err_simps split: option.splits if_splits)

section \<open>The plan and the committed policy\<close>

lemma ticker_names: "ticker_name k = ticker_name t \<longleftrightarrow> k = t"
  by (cases k; cases t) (simp_all add: ticker_name_def)

lemma cap_for_name: "cap_for caps (ticker_name t) = Option.bind caps (\<lambda>m. m t)"
proof -
  have "find (\<lambda>k. k = t) POLICY_CHAIN_TICKERS = Some t" by (cases t) (simp_all add: POLICY_CHAIN_TICKERS_def)
  then show ?thesis by (simp add: cap_for_def ticker_names split: option.splits)
qed

lemma trim_ticker: "trim (ticker_name t) = ticker_name t"
  by (cases t) (simp_all add: ticker_name_def, code_simp+)

lemma is_SOL: "ticker_name t = js ''SOL'' \<longleftrightarrow> t = T_SOL"
  using ticker_names [of t T_SOL] by (simp add: ticker_name_def)

lemma limits_agree:
  assumes "toUpperCase pf (ticker_name (pt_ticker t)) = ticker_name (pt_ticker t)"
  shows "resolveOnchainLimits pf st w (ticker_name (pt_ticker t)) = onchainLimits (personalPlanForTarget nt tz st w t)"
  using assms by (cases "getBudget w (budgets st)")
    (auto simp: resolveOnchainLimits_def personalPlanForTarget_def native_cap_def send_count_def Let_def trim_ticker cap_for_name
      BUDGET_WINDOW_MS_def VELOCITY_WINDOW_MS_def split: option.splits)

lemma members_agree:
  "resolveMemberAllowances pf st w (ticker_name (pt_ticker t)) = memberAllowances (personalPlanForTarget (num_text pf) tz st w t)"
  unfolding resolveMemberAllowances_def is_SOL
  by (simp add: personalPlanForTarget_def loadMemberAllowancesForChain_def allowance_cap_def [abs_def] Let_def)

text \<open>The limit the compiled velocity conditions leave in the plan: the largest amount there is.\<close>

lemma tracking_cap_units: "text_units (int d) (Some (formatUnits (nat U64_MAX) d)) = U64_MAX"
proof -
  have "nat U64_MAX < 2 ^ 64" "int (nat U64_MAX) = U64_MAX" by (simp_all add: U64_MAX_def)
  with rule_amounts.parse_print [of "nat U64_MAX" d] have "parseRuleUnits (formatUnits (nat U64_MAX) d) d = Inr U64_MAX" by simp
  then have "int (decimal_units d (trim (formatUnits (nat U64_MAX) d))) = U64_MAX" by (simp add: parseRuleUnits_iff)
  moreover have "formatUnits (nat U64_MAX) d \<noteq> []" by (simp add: formatUnits_eq units_text_def Let_def)
  ultimately show ?thesis by (simp add: text_units_def truthy_def or_empty_def)
qed

lemma tracked_limits:
  assumes "track_velocity adv plan = Inr plan'"
  shows "maxSendCount (onchainLimits plan') = maxSendCount (onchainLimits plan)"
    "countWindowSeconds (onchainLimits plan') = countWindowSeconds (onchainLimits plan)"
    "truthy (velocityCapDisplay (onchainLimits plan)) \<Longrightarrow> velocityCapDisplay (onchainLimits plan') = velocityCapDisplay (onchainLimits plan)
       \<and> velocityWindowSeconds (onchainLimits plan') = velocityWindowSeconds (onchainLimits plan)"
    "\<not> truthy (velocityCapDisplay (onchainLimits plan)) \<Longrightarrow> onchainLimits plan' = onchainLimits plan
       \<or> (\<exists>v. trackingVelocity adv = Some v \<and> velocityCapDisplay (onchainLimits plan') = Some (tcapDisplay v)
           \<and> velocityWindowSeconds (onchainLimits plan') = twindowSeconds v)"
  using assms by (auto simp: track_velocity_def err_simps Let_def split: option.splits)

lemma compiled_tracking:
  assumes "compileAdvancedPolicyRules pf tz oj shape w target = Inr out" "trackingVelocity out = Some v"
  shows "tcapDisplay v = formatUnits (nat U64_MAX) (tdecimals target) \<and> 0 < twindowSeconds v"
  using assms by (auto simp: compileAdvancedPolicyRules_def err_simps Let_def split: if_splits)

text \<open>
  What the program holds against a send, \<open>q\<close>, as the plan of the page states it: the spending cap
  of the plan, or without one none at all or the largest amount; its number of sends; its
  member allowances; its recipients; and hours only when the plan has the same.
\<close>

definition plan_covers :: "chain_platform \<Rightarrow> PolicyTarget \<Rightarrow> PolicyEnforcementPlan \<Rightarrow> TypedSolPolicy \<Rightarrow> bool" where
  "plan_covers pf t plan q \<longleftrightarrow>
     (let d = decimals (target_asset (platform.truncate pf) t); lim = onchainLimits plan in
       (case velocityCapDisplay lim of
          Some s \<Rightarrow> velocity_cap q = text_units d (Some s) \<and> (0 < velocity_cap q \<longrightarrow> velocity_window_seconds q = velocityWindowSeconds lim)
        | None \<Rightarrow> velocity_cap q = 0 \<or> velocity_cap q = U64_MAX)
       \<and> max_send_count q = maxSendCount lim \<and> (0 < max_send_count q \<longrightarrow> count_window_seconds q = countWindowSeconds lim)
       \<and> list_all2 (cap_agrees (platform.truncate pf) d) (memberAllowances plan) (member_caps q)
       \<and> (\<forall>v. allowed_time q = Some v \<longrightarrow> map_option seen_window (allowedTimeWindow plan) = Some v)
       \<and> (\<forall>dest. enforce_recipient q (payment_key pf t dest) = Inr () \<longleftrightarrow>
            (case recipientGuard plan of None \<Rightarrow> True | Some (_, xs) \<Rightarrow> \<exists>x \<in> set xs. entry_names pf t x dest \<or> entry_collides pf t x dest)))"

lemma own_limits:
  "maxSendCount (onchainLimits (personalPlanForTarget nt tz st w t)) \<ge> 0"
  "velocityWindowSeconds (onchainLimits (personalPlanForTarget nt tz st w t)) = 604800"
  "countWindowSeconds (onchainLimits (personalPlanForTarget nt tz st w t)) = 86400"
  "velocityCapDisplay (onchainLimits (personalPlanForTarget nt tz st w t)) = Some s \<Longrightarrow> s \<noteq> []"
  by (auto simp: personalPlanForTarget_def send_count_def native_cap_def trim_def rstrip_def Let_def split: option.splits if_splits)

lemma committed_covers:
  assumes k: "keys_32 (platform.truncate pf)" and tz: "- 840 \<le> tz" "tz \<le> 840"
    and scope: "pt_scope t = ChainScope" "pt_kind t \<in> {0, 1, 5}" "pt_kind t = 0 \<longrightarrow> pt_decimals t = 9"
    and e: "target_policy pf nt tz oj st shape w t = Inr (Some e)"
  shows "\<exists>q. rs_parse (pbytes e) = Inr q \<and> plan_covers pf t (personalPlanForTarget nt tz st w t) q"
proof -
  let ?own = "personalPlanForTarget nt tz st w t" and ?a = "getAllowlist w (pt_kind t) (allowlists st)"
  let ?d = "decimals (target_asset (platform.truncate pf) t)"
  obtain adv where adv: "advanced_for_target pf tz oj shape w t = Inr adv"
    using e by (auto simp: target_policy_def err_simps)
  then have c: "compileAdvancedPolicyRules pf tz oj shape w (advanced_target t) = Inr adv"
    using scope(1) by (simp add: advanced_for_target_def)
  from target_read [OF k tz scope(1) adv e] obtain p q plan where p: "rs_parse (pbytes e) = Inr p"
      "\<forall>r. enforce_recipient p r = Inr () \<longleftrightarrow> list_admits (platform.truncate pf) t ?a r"
      "allowed_time p = map_option seen_window (saved_window tz (getTimeWindow w (time_windows st)))"
      and plan: "track_velocity adv ?own = Inr plan"
      and q: "stands_for (platform.truncate pf) (target_asset (platform.truncate pf) t) (target_encoder (platform.truncate pf) t) plan q"
      "p = q\<lparr>advanced_rules := payload adv\<rparr>" by blast
  note same = tracked_plan [OF plan] tracked_limits [OF plan]
  have d: "?d = int (pt_decimals t)"
    using scope(3) by (simp add: target_asset_def sol_asset_def remote_asset_def chain_options_def)
  have noc: "conditions plan = []" using same(2) by (simp add: personalPlanForTarget_def Let_def)
  let ?c = "(text_units ?d (velocityCapDisplay (onchainLimits plan)), velocityWindowSeconds (onchainLimits plan))"
  have caps: "spending_caps (platform.truncate pf) (target_asset (platform.truncate pf) t) plan = (if 0 < fst ?c then [?c] else [])"
    by (simp add: spending_caps_def asked_conditions_def noc positive_caps_def)
  have vel: "velocity_cap q = text_units ?d (velocityCapDisplay (onchainLimits plan))
      \<and> (0 < velocity_cap q \<longrightarrow> velocity_window_seconds q = velocityWindowSeconds (onchainLimits plan))"
    if "0 < velocityWindowSeconds (onchainLimits plan)"
    using q(1) that text_units_nonneg [of ?d "velocityCapDisplay (onchainLimits plan)"]
    unfolding stands_for_def caps by (auto simp: least_def split: if_splits)
  have v: "case velocityCapDisplay (onchainLimits ?own) of
          Some s \<Rightarrow> velocity_cap q = text_units ?d (Some s) \<and> (0 < velocity_cap q \<longrightarrow> velocity_window_seconds q = velocityWindowSeconds (onchainLimits ?own))
        | None \<Rightarrow> velocity_cap q = 0 \<or> velocity_cap q = U64_MAX"
  proof (cases "velocityCapDisplay (onchainLimits ?own)")
    case (Some s)
    then have "truthy (velocityCapDisplay (onchainLimits ?own))" using own_limits(4) by (simp add: truthy_def)
    from same(9) [OF this] vel own_limits(2) Some show ?thesis by simp
  next
    case None
    then have n: "\<not> truthy (velocityCapDisplay (onchainLimits ?own))" by (simp add: truthy_def)
    from same(10) [OF this] show ?thesis
    proof
      assume "onchainLimits plan = onchainLimits ?own"
      with vel own_limits(2) None show ?thesis by (simp add: text_units_def truthy_def)
    next
      assume "\<exists>v. trackingVelocity adv = Some v \<and> velocityCapDisplay (onchainLimits plan) = Some (tcapDisplay v)
           \<and> velocityWindowSeconds (onchainLimits plan) = twindowSeconds v"
      then obtain v where v: "trackingVelocity adv = Some v" "velocityCapDisplay (onchainLimits plan) = Some (tcapDisplay v)"
          "velocityWindowSeconds (onchainLimits plan) = twindowSeconds v" by blast
      from compiled_tracking [OF c v(1)] vel v(2,3) None show ?thesis by (simp add: advanced_target_def d tracking_cap_units)
    qed
  qed
  have "max_send_count q = maxSendCount (onchainLimits ?own)
      \<and> (0 < max_send_count q \<longrightarrow> count_window_seconds q = countWindowSeconds (onchainLimits ?own))"
    using q(1) same(7,8) own_limits(1) [of nt tz st w t] own_limits(3) [of nt tz st w t]
    unfolding stands_for_def Let_def by (auto split: if_splits)
  moreover have "list_all2 (cap_agrees (platform.truncate pf) ?d) (memberAllowances ?own) (member_caps q)"
    using q(1) same(6) unfolding stands_for_def by simp
  moreover have "allowed_time q = map_option seen_window (allowedTimeWindow ?own)"
    using q(1) same(5) unfolding stands_for_def by simp
  moreover have same_list: "pmode p = pmode q" "precipients p = precipients q" unfolding q(2) by simp_all
  have "enforce_recipient q r = enforce_recipient p r" for r by (simp only: enforce_recipient_def same_list)
  moreover have "(case recipientGuard ?own of None \<Rightarrow> True | Some (_, xs) \<Rightarrow> \<exists>x \<in> set xs. entry_names pf t x dest \<or> entry_collides pf t x dest)
      \<longleftrightarrow> list_admits (platform.truncate pf) t ?a (payment_key pf t dest)" for dest
    unfolding admitted_payments [OF scope(2)] by (simp add: personalPlanForTarget_def saved_guard_def Let_def)
  moreover have "velocity_cap p = velocity_cap q" "velocity_window_seconds p = velocity_window_seconds q" "max_send_count p = max_send_count q"
    "count_window_seconds p = count_window_seconds q" "member_caps p = member_caps q" "allowed_time p = allowed_time q"
    unfolding q(2) by simp_all
  ultimately have "plan_covers pf t ?own p"
    using v p(2) unfolding plan_covers_def Let_def by (simp cong: option.case_cong)
  with p(1) show ?thesis by blast
qed

section \<open>A wallet with one rule\<close>

text \<open>A wallet whose one rule has no condition, with its hours saved and one send in its log.\<close>

definition example_page_pf :: page_platform where
  "example_page_pf = chain_platform.extend example_chain
     \<lparr>parseFloat = (\<lambda>s. if s = [49] then Finite 1 else NotANumber), float_add = (+), num_text = (\<lambda>_. [49]), parse_days = (\<lambda>_. Inr None)\<rparr>"

definition example_page :: page where
  "example_page = \<lparr>clock = 0, tz_offset = 0, tx_log = []\<rparr>"

definition example_settings :: settings where
  "example_settings = \<lparr>allowlists = [],
     time_windows = [\<lparr>tw_wallet = [], tw_enabled = True, tw_start = 9, tw_end = 17, tw_days = [1, 5], tw_updated = 0\<rparr>],
     allowances = [], budgets = []\<rparr>"

definition example_send :: CandidateProposal where
  "example_send = \<lparr>cand_wallet = [], cand_chain = 0, cand_token = None, cand_recipient = [65], cand_ticker = js ''SOL'',
     cand_amount = [49], cand_at = None\<rparr>"

definition one_rule :: "RuleAction \<Rightarrow> shape" where
  "one_rule a = [[] \<mapsto> [example_rule a 1 []]]"

lemma one_rule_listed: "listPolicies [] (one_rule a) = [example_rule a 1 []]"
  by (simp add: listPolicies_def wallet_rules_def one_rule_def or_empty_def)

lemma one_rule_evaluated:
  "evaluateAll pf pg c [example_rule a 1 []] = Inr [rule_evaluation (example_rule a 1 []) True []]"
  by (simp add: example_rule_def example_conditions reasons_for_def)

lemma one_rule_plan:
  "a = Deny \<or> a = Allow \<Longrightarrow> \<exists>p. resolvePolicyEnforcement example_page_pf example_page example_settings (one_rule a) [] example_send = Inr p"
  by (auto simp: resolvePolicyEnforcement_def one_rule_listed resolveSavedAllowedTimeWindow_def getTimeWindow_def get_row_def
      example_settings_def example_rule_def example_conditions reasons_for_def rule_evaluation_def Let_def split: option.splits)

section \<open>Properties\<close>

text \<open>
  The rule a send is checked with is the one the list of all rules shows first as matching:
  when every rule can be read, the first match is the first matching entry of that list, and no rule
  matches when none of the list does; when the list cannot be made for a payload that cannot be
  read, the check fails with the same error, unless an earlier rule already matched.
\<close>

theorem first_match_of_all:
  "case evaluateAll pf pg c rs of
     Inl e \<Rightarrow> evaluateFirstMatch pf pg c rs = Inl e \<or> (\<exists>m. evaluateFirstMatch pf pg c rs = Inr (Some m) \<and> re_matched m)
   | Inr es \<Rightarrow> evaluateFirstMatch pf pg c rs = Inr (find re_matched es)"
  by (rule first_match_cases)

text \<open>
  C12: A send is stopped on the page exactly when the first rule that matches it denies: with
  the list of all rules at hand, the check of the plan throws if and only if the first matching entry
  of the list has the action deny.
\<close>

theorem denied_send_stops:
  assumes "resolvePolicyEnforcement pf pg st shape w c = Inr p" and "evaluateAll pf pg c (listPolicies w shape) = Inr es"
  shows "assertPolicyNotDenied p = Inr () \<longleftrightarrow> (\<forall>e. find re_matched es = Some e \<longrightarrow> re_action e \<noteq> Deny)"
proof -
  have "rp_evaluation p = find re_matched es"
    using plan_evaluation [OF assms(1)] first_match_cases [of pf pg c "listPolicies w shape"] assms(2) by simp
  moreover have "find re_matched es = Some e \<Longrightarrow> re_matched e" for e by (auto simp: find_Some_iff)
  ultimately show ?thesis by (auto simp: assertPolicyNotDenied_def effectiveAction_def guard_def split: option.splits)
qed

theorem denied_send_stops_witness:
  "(\<exists>p. resolvePolicyEnforcement example_page_pf example_page example_settings (one_rule Deny) [] example_send = Inr p
      \<and> assertPolicyNotDenied p \<noteq> Inr ())
   \<and> (\<exists>p. resolvePolicyEnforcement example_page_pf example_page example_settings (one_rule Allow) [] example_send = Inr p
      \<and> assertPolicyNotDenied p = Inr ())"
proof -
  obtain p q where "resolvePolicyEnforcement example_page_pf example_page example_settings (one_rule Deny) [] example_send = Inr p"
      "resolvePolicyEnforcement example_page_pf example_page example_settings (one_rule Allow) [] example_send = Inr q"
    using one_rule_plan by blast
  with denied_send_stops [OF this(1)] denied_send_stops [OF this(2)] show ?thesis
    unfolding one_rule_listed one_rule_evaluated by (auto simp: rule_evaluation_def example_rule_def)
qed

text \<open>
  C11: The plan a send in SOL, ETH or HYPE is checked with before signing covers the policy its
  wallet commits for the asset: the program reads of the committed bytes the spending cap of
  the plan (or, when it has none, no cap or the largest amount, with which a velocity
  rule is counted), its number of sends, its member allowances and its recipients, and when it
  keeps hours, the plan has the same, whatever the rules of the wallet add to the plan.
\<close>

theorem preflight_plan_is_committed_plan:
  assumes "resolvePolicyEnforcement pf pg st shape w c = Inr p"
    and "cand_ticker c = ticker_name (pt_ticker t)" "cand_chain c = pt_kind t"
    and "toUpperCase pf (cand_ticker c) = cand_ticker c"
    and "keys_32 (platform.truncate pf)" "- 840 \<le> tz_offset pg" "tz_offset pg \<le> 840"
    and "pt_scope t = ChainScope" "pt_kind t \<in> {0, 1, 5}" "pt_kind t = 0 \<longrightarrow> pt_decimals t = 9"
    and "target_policy (chain_platform.truncate pf) (num_text pf) (tz_offset pg) oj st shape w t = Inr (Some e)"
  shows "\<exists>q. rs_parse (pbytes e) = Inr q \<and> plan_covers (chain_platform.truncate pf) t (rp_plan p) q"
proof -
  let ?own = "personalPlanForTarget (num_text pf) (tz_offset pg) st w t"
  have "recipientGuard (rp_plan p) = recipientGuard ?own" "onchainLimits (rp_plan p) = onchainLimits ?own"
      "memberAllowances (rp_plan p) = memberAllowances ?own"
    using plan_settings(1-3) [OF assms(1)] limits_agree [of pf t st w "num_text pf" "tz_offset pg"]
      members_agree [of pf st w t "tz_offset pg"] assms(2-4)
    by simp_all (simp add: personalPlanForTarget_def resolveRecipientGuard_def saved_guard_def Let_def)
  moreover have "allowedTimeWindow (rp_plan p) = Some a" if "allowedTimeWindow ?own = Some a" for a
    using plan_settings(4) [OF assms(1)] that
    by (auto simp: personalPlanForTarget_def resolveSavedAllowedTimeWindow_def saved_window_def Let_def split: if_splits)
  moreover have "keys_32 (platform.truncate (chain_platform.truncate pf))"
    using assms(5) by (simp add: keys_32_def platform.defs chain_platform.defs)
  from committed_covers [OF this assms(6-11)] obtain q where "rs_parse (pbytes e) = Inr q"
    "plan_covers (chain_platform.truncate pf) t ?own q" by blast
  ultimately show ?thesis by (auto simp: plan_covers_def Let_def)
qed

theorem preflight_plan_is_committed_plan_witness:
  "\<exists>p e q. resolvePolicyEnforcement example_page_pf (example_page\<lparr>tz_offset := 60\<rparr>) sample_settings (\<lambda>_. None) [] example_send = Inr p
     \<and> target_policy example_chain (num_text example_page_pf) 60 (\<lambda>_. Inr None) sample_settings (\<lambda>_. None) [] (chain_target T_SOL 0 9) = Inr (Some e)
     \<and> rs_parse (pbytes e) = Inr q \<and> max_send_count q = 0
     \<and> enforce_recipient q (replicate 32 1) = Inr () \<and> enforce_recipient q (replicate 32 2) \<noteq> Inr ()"
proof -
  let ?t = "chain_target T_SOL 0 9" and ?pg = "example_page\<lparr>tz_offset := 60\<rparr>"
  have pf: "chain_platform.truncate example_page_pf = example_chain" "platform.truncate example_page_pf = sample_pf"
    using sample_platform(1) by (simp_all add: example_page_pf_def platform.defs chain_platform.defs)
  have send: "cand_ticker example_send = ticker_name (pt_ticker ?t)" "cand_chain example_send = pt_kind ?t"
    "toUpperCase example_page_pf (cand_ticker example_send) = cand_ticker example_send"
    by (simp_all add: example_send_def ticker_name_def chain_target_def example_page_pf_def example_chain_def example_pf_def
        chain_platform.defs platform.defs)
  have t: "pt_scope ?t = ChainScope" "pt_kind ?t \<in> {0, 1, 5}" "pt_kind ?t = 0 \<longrightarrow> pt_decimals ?t = 9"
    by (simp_all add: chain_target_def)
  obtain p where p: "resolvePolicyEnforcement example_page_pf ?pg sample_settings (\<lambda>_. None) [] example_send = Inr p"
    by (cases "resolveSavedAllowedTimeWindow ?pg sample_settings []")
      (simp_all add: resolvePolicyEnforcement_def listPolicies_def wallet_rules_def or_empty_def Let_def)
  obtain e where e: "target_policy example_chain (num_text example_page_pf) (tz_offset ?pg) (\<lambda>_. Inr None) sample_settings (\<lambda>_. None) [] ?t
      = Inr (Some e)"
    using sample_encodes(1) [of "num_text example_page_pf" "\<lambda>_. Inr None"] by auto
  obtain q where q: "rs_parse (pbytes e) = Inr q" "plan_covers example_chain ?t (rp_plan p) q"
    using preflight_plan_is_committed_plan [OF p send _ _ _ t] e sample_platform(3) unfolding pf by fastforce
  have "recipientGuard (rp_plan p) = Some (Allowlist, [[65]])"
    using plan_settings(2) [OF p] sample_lists(1)
    by (simp add: resolveRecipientGuard_def send(2) chain_target_def allowlist_record_def dedupe_def)
  moreover have "entry_names example_chain ?t [65] r \<longleftrightarrow> r = replicate 32 1" "\<not> entry_collides example_chain ?t x r" for x r
    by (auto simp: entry_names_def entry_collides_def chain_target_def example_chain_def example_pf_def platform.defs)
  moreover have "payment_key example_chain ?t r = r" for r by (simp add: payment_key_def chain_target_def)
  moreover have "maxSendCount (onchainLimits (rp_plan p)) = 0"
    using plan_settings(1) [OF p] by (simp add: resolveOnchainLimits_def sample_lists getBudget_def get_row_def Let_def)
  ultimately have "max_send_count q = 0" "enforce_recipient q (replicate 32 1) = Inr ()" "enforce_recipient q (replicate 32 2) \<noteq> Inr ()"
    using q(2) by (simp_all add: plan_covers_def Let_def)
  with p e q(1) show ?thesis by auto
qed

end
