(* ===== verification/Chain_Evm.thy ===== *)
theory Chain_Evm
  imports Chain_Btc Policy_Encryption Typed_Message
begin

text \<open>
  Ethereum amounts and addresses (\<open>lib/chain/eth.ts\<close>) and the ERC-20 reader
  (\<open>lib/chain/erc20.ts\<close>): the amounts a page reads and shows, the call of \<open>balanceOf\<close>, and the
  decoding of what the contracts answer.  The requests themselves are left out; an
  answer is an argument.
\<close>

section \<open>Addresses\<close>

text \<open>The test \<open>/^0x[0-9a-fA-F]{40}$/\<close> on the trimmed text.\<close>

definition hex_re :: "jsstr \<Rightarrow> bool" where
  "hex_re t \<longleftrightarrow> take 2 t = js ''0x'' \<and> length t = 42 \<and> list_all (\<lambda>c. hex_digit c \<noteq> None) (drop 2 t)"

definition isValidEvmAddress :: "jsstr \<Rightarrow> bool" where
  "isValidEvmAddress s = hex_re (trim s)"

definition isValidErc20Contract :: "jsstr \<Rightarrow> bool" where
  "isValidErc20Contract s = hex_re (trim s)"

section \<open>Amounts\<close>

text \<open>\<open>BigInt(merged.replace(/^0+/, "") || "0")\<close>.\<close>

definition merged_int :: "jsstr \<Rightarrow> int res" where
  "merged_int merged = (let cleaned = dropWhile (\<lambda>c. c = 0x30) merged in toBigInt (if cleaned = [] then js ''0'' else cleaned))"

definition numeric_parts :: "jsstr \<Rightarrow> bool" where
  "numeric_parts t \<longleftrightarrow> list_all is_digit (whole_of t) \<and> list_all is_digit (fraction_of t)"

definition or_zero :: "jsstr \<Rightarrow> jsstr" where
  "or_zero w = (if w = [] then js ''0'' else w)"

definition ethToWei :: "jsstr \<Rightarrow> int res" where
  "ethToWei amount =
     (let t = trim amount in
      if t = [] then Inl (Thrown ''Amount required'')
      else if \<not> numeric_parts t then Inl (Thrown ''Amount must be numeric'')
      else merged_int (or_zero (whole_of t) @ take 18 (fraction_of t @ replicate 18 0x30)))"

definition signed_text :: "bool \<Rightarrow> jsstr \<Rightarrow> jsstr" where
  "signed_text negative s = (if negative then 0x2D # s else s)"

definition weiToEth :: "int \<Rightarrow> nat \<Rightarrow> jsstr" where
  "weiToEth wei displayDecimals =
     (let negative = wei < 0; a = \<bar>wei\<bar>; whole = a sdiv 10 ^ 18; frac = a smod 10 ^ 18 in
      if frac = 0 then signed_text negative (show_int whole)
      else let fracStr = take displayDecimals (strip_zeros (pad_start 18 0x30 (show_int frac)))
           in signed_text negative (show_int whole @ (if fracStr = [] then [] else 0x2E # fracStr)))"

definition tokenAmountToBaseUnits :: "jsstr \<Rightarrow> nat \<Rightarrow> int res" where
  "tokenAmountToBaseUnits amount dec =
     (let t = trim amount in
      if t = [] then Inl (Thrown ''Amount required'')
      else if \<not> numeric_parts t then Inl (Thrown ''Amount must be numeric'')
      else if length (fraction_of t) > dec then Inl (Thrown ''Token only supports  decimals; got '')
      else merged_int (or_zero (whole_of t) @ pad_end dec 0x30 (fraction_of t)))"

definition tokenAmountToString :: "int \<Rightarrow> nat \<Rightarrow> nat \<Rightarrow> jsstr" where
  "tokenAmountToString amount dec displayDecimals =
     (if amount = 0 then js ''0''
      else let negative = amount < 0; a = \<bar>amount\<bar>; whole = a sdiv 10 ^ dec; frac = a smod 10 ^ dec in
        if frac = 0 then signed_text negative (show_int whole)
        else let fracStr = take displayDecimals (strip_zeros (pad_start dec 0x30 (show_int frac)))
             in signed_text negative (show_int whole @ (if fracStr = [] then [] else 0x2E # fracStr)))"

section \<open>The ERC-20 calls\<close>

definition SEL_BALANCE_OF :: jsstr where
  "SEL_BALANCE_OF = js ''0x70a08231''"

text \<open>\<open>toLowerCase\<close> on the ASCII text of an address.\<close>

definition ascii_lower :: "16 word \<Rightarrow> 16 word" where
  "ascii_lower c = (if 0x41 \<le> c \<and> c \<le> 0x5A then c + 0x20 else c)"

definition balance_call :: "jsstr \<Rightarrow> jsstr \<Rightarrow> jsstr res" where
  "balance_call contractAddress holderAddress =
     ebind (guard (isValidErc20Contract contractAddress) ''Token contract must be a 0x 42-character address'') (\<lambda>_.
     ebind (guard (hex_re (trim holderAddress)) ''Holder must be a 0x 42-character address'') (\<lambda>_.
     Inr (SEL_BALANCE_OF @ pad_start 64 0x30 (map ascii_lower (drop 2 (trim holderAddress))))))"

definition balance_answer :: "jsstr \<Rightarrow> int res" where
  "balance_answer raw = (if raw = js ''0x'' \<or> raw = js ''0x0'' then Inr 0 else toBigInt raw)"

text \<open>\<open>None\<close> is \<open>NaN\<close>.\<close>

definition decodeUint8 :: "jsstr \<Rightarrow> int option" where
  "decodeUint8 h =
     (if h = js ''0x'' \<or> length h < 2 then Some 0
      else let stripped = pad_start 64 0x30 (drop 2 h) in parse_int 16 (drop (length stripped - 2) stripped))"

text \<open>Pairs of digits; a pair that is no number is stored as zero, half a pair does not fit the array.\<close>

fun hex_pairs :: "jsstr \<Rightarrow> bytes" where
  "hex_pairs (a # b # s) = (case parse_int 16 [a, b] of None \<Rightarrow> 0 | Some v \<Rightarrow> word_of_int v) # hex_pairs s"
| "hex_pairs _ = []"

definition hexToUtf8 :: "jsstr \<Rightarrow> jsstr res" where
  "hexToUtf8 h =
     (if h = [] then Inr []
      else if odd (length h) then Inl (Thrown ''Invalid typed array length'')
      else Inr (trim (utf8_decode (hex_pairs h))))"

text \<open>\<open>s.replace(/(00)+$/, "")\<close>: as many pairs as there are at the end.\<close>

definition strip_zero_pairs :: "jsstr \<Rightarrow> jsstr" where
  "strip_zero_pairs s = take (length s - 2 * (length (takeWhile (\<lambda>c. c = 0x30) (rev s)) div 2)) s"

definition decodeAbiString :: "jsstr \<Rightarrow> jsstr res" where
  "decodeAbiString h =
     (if h = js ''0x'' \<or> length h < 2 then Inr []
      else let data = drop 2 h;
               fixed = hexToUtf8 (strip_zero_pairs (take 64 data))
           in if length data \<ge> 128 \<and> drop 62 (take 64 data) = js ''20''
              then (case parse_int 16 (take 64 (drop 64 data)) of
                      Some len \<Rightarrow>
                        if len > 0 \<and> int (length data) \<ge> 128 + len * 2
                        then hexToUtf8 (take (nat len * 2) (drop 128 data)) else fixed
                    | None \<Rightarrow> fixed)
              else fixed)"

record Erc20Metadata =
  m_decimals :: "int option"
  m_symbol :: jsstr
  m_name :: "jsstr option"

text \<open>From the three answers; the one for the name is \<open>0x\<close> when the call failed.\<close>

definition erc20_metadata :: "jsstr \<Rightarrow> jsstr \<Rightarrow> jsstr \<Rightarrow> Erc20Metadata res" where
  "erc20_metadata decRaw symRaw nameRaw =
     ebind (decodeAbiString symRaw) (\<lambda>s.
     ebind (if nameRaw = js ''0x'' then Inr None else ebind (decodeAbiString nameRaw) (\<lambda>n. Inr (Some n))) (\<lambda>n.
     Inr \<lparr>m_decimals = decodeUint8 decRaw, m_symbol = s, m_name = n\<rparr>))"

section \<open>The holdings of a wallet\<close>

record token_row =
  row_address :: "jsstr option"
  row_symbol :: "jsstr option"
  row_name :: "jsstr option"
  row_decimals :: "jsstr option"
  row_type :: "jsstr option"

record Erc20Holding =
  contractAddress :: jsstr
  h_symbol :: jsstr
  h_name :: jsstr
  h_decimals :: int
  rawBalance :: int

definition holding_of :: "token_row option \<times> jsstr option \<Rightarrow> Erc20Holding option" where
  "holding_of row = (case row of
       (None, _) \<Rightarrow> None
     | (Some t, value) \<Rightarrow>
         if truthy (row_type t) \<and> row_type t \<noteq> Some (js ''ERC-20'') then None
         else let a = map ascii_lower (or_empty (row_address t)) in
           if \<not> hex_re a then None
           else (case (parse_int 10 (case row_decimals t of None \<Rightarrow> js ''0'' | Some d \<Rightarrow> d),
                       big_int (case value of None \<Rightarrow> js ''0'' | Some v \<Rightarrow> v)) of
                   (Some d, Some raw) \<Rightarrow>
                     if d < 0 \<or> d > 36 \<or> raw \<le> 0 then None
                     else Some \<lparr>contractAddress = a, h_symbol = (case row_symbol t of None \<Rightarrow> js ''TOKEN'' | Some s \<Rightarrow> s),
                       h_name = (case row_name t of None \<Rightarrow> js ''Unknown token'' | Some n \<Rightarrow> n), h_decimals = d, rawBalance = raw\<rparr>
                 | _ \<Rightarrow> None))"

definition erc20_holdings :: "(token_row option \<times> jsstr option) list \<Rightarrow> Erc20Holding list" where
  "erc20_holdings rows = concat (map (\<lambda>r. case holding_of r of None \<Rightarrow> [] | Some h \<Rightarrow> [h]) rows)"

section \<open>The explorer of a network\<close>

definition blockscoutBaseFromRpc :: "(jsstr \<Rightarrow> jsstr) \<Rightarrow> jsstr \<Rightarrow> jsstr" where
  "blockscoutBaseFromRpc lower rpcUrl =
     (let u = lower rpcUrl in
      if str_includes u (js ''sepolia'') then js ''https://eth-sepolia.blockscout.com''
      else if str_includes u (js ''holesky'') then js ''https://eth-holesky.blockscout.com''
      else if str_includes u (js ''base-sepolia'') then js ''https://base-sepolia.blockscout.com''
      else if str_includes u (js ''base.org'') then js ''https://base.blockscout.com''
      else if str_includes u (js ''optimism-sepolia'') \<or> str_includes u (js ''op-sepolia'') then js ''https://optimism-sepolia.blockscout.com''
      else if str_includes u (js ''optimism'') then js ''https://optimism.blockscout.com''
      else if str_includes u (js ''polygon-amoy'') \<or> str_includes u (js ''amoy'') then js ''https://polygon-amoy.blockscout.com''
      else if str_includes u (js ''polygon'') then js ''https://polygon.blockscout.com''
      else js ''https://eth.blockscout.com'')"

section \<open>What is read\<close>

lemma digits_val_lstrip: "digits_val (dropWhile (\<lambda>c. c = 0x30) s) = digits_val s"
  by (induction s) (simp_all add: digits_val_Cons digit_val_def)

lemma merged_int_digits: "list_all is_digit s \<Longrightarrow> merged_int s = Inr (int (digits_val s))"
proof -
  assume s: "list_all is_digit s"
  then have "list_all is_digit (dropWhile (\<lambda>c. c = 0x30) s)" by (auto simp: list_all_iff dest: set_dropWhileD)
  moreover have "toBigInt (js ''0'') = Inr 0" by code_simp
  ultimately show ?thesis
    using digits_val_lstrip [of s]
    by (cases "dropWhile (\<lambda>c. c = 0x30) s = []") (simp_all add: merged_int_def Let_def toBigInt_digits del: dropWhile_eq_Nil_conv)
qed

lemma or_zero_digits: "list_all is_digit w \<Longrightarrow> list_all is_digit (or_zero w) \<and> digits_val (or_zero w) = digits_val w"
  by (auto simp: or_zero_def is_digit_def digits_val_def digit_val_def)

lemma merged_parts:
  assumes "list_all is_digit w" "list_all is_digit f" "length f = d"
  shows "merged_int (or_zero w @ f) = Inr (int (digits_val w * 10 ^ d + digits_val f))"
  using assms or_zero_digits [OF assms(1)] by (subst merged_int_digits) (simp_all add: digits_val_append)

text \<open>Only the digits up to the eighteenth are read: the amount is never more than what was typed.\<close>

definition cut_fraction :: "nat \<Rightarrow> jsstr \<Rightarrow> jsstr" where
  "cut_fraction d f = take d (f @ replicate d 0x30)"

lemma cut_fraction_digits: "list_all is_digit f \<Longrightarrow> list_all is_digit (cut_fraction d f) \<and> length (cut_fraction d f) = d"
  by (auto simp: cut_fraction_def list_all_iff is_digit_def dest: in_set_takeD)

lemma cut_fraction_value: "list_all is_digit f \<Longrightarrow> digits_val (cut_fraction d f) = digits_val f * 10 ^ d div 10 ^ length f"
proof (cases "length f \<le> d")
  case True
  then have "cut_fraction d f = pad_end d 0x30 f" by (simp add: cut_fraction_def pad_end_def take_replicate)
  moreover have "(10 :: nat) ^ d = 10 ^ (d - length f) * 10 ^ length f" using True by (simp flip: power_add)
  then have "digits_val f * 10 ^ d div 10 ^ length f = digits_val f * 10 ^ (d - length f)" by (simp flip: mult.assoc)
  ultimately show ?thesis by simp
next
  case False
  assume f: "list_all is_digit f"
  have "cut_fraction d f = take d f" using False by (simp add: cut_fraction_def)
  moreover have "digits_val f = digits_val (take d f) * 10 ^ (length f - d) + digits_val (drop d f)"
    using digits_val_append [of "take d f" "drop d f"] by simp
  moreover have "digits_val (drop d f) < 10 ^ (length f - d)"
    using digits_val_bound [of "drop d f"] f by (auto simp: list_all_iff dest: in_set_dropD)
  moreover have "(10 :: nat) ^ length f = 10 ^ (length f - d) * 10 ^ d" using False by (simp flip: power_add)
  ultimately show ?thesis by simp
qed

lemma parts_of:
  assumes "decimal_text s"
  shows "trim s = s" "s \<noteq> []" "numeric_parts s" "list_all is_digit (whole_of s)" "list_all is_digit (fraction_of s)"
  using assms decimal_parts [OF assms] by (auto simp: numeric_parts_def elim!: decimal_textE)

lemma ethToWei_value:
  assumes "decimal_text s"
  shows "ethToWei s = Inr (int (digits_val (whole_of s) * 10 ^ 18 + digits_val (fraction_of s) * 10 ^ 18 div 10 ^ length (fraction_of s)))"
  using parts_of [OF assms] merged_parts [of "whole_of s" "cut_fraction 18 (fraction_of s)" 18]
    cut_fraction_digits [of "fraction_of s" 18] cut_fraction_value [of "fraction_of s" 18]
  by (simp add: ethToWei_def Let_def cut_fraction_def del: take_append)

lemma ethToWei_units:
  assumes "decimal_text s" "length (fraction_of s) \<le> 18"
  shows "ethToWei s = Inr (int (decimal_units 18 s))"
proof -
  have "cut_fraction 18 (fraction_of s) = pad_end 18 0x30 (fraction_of s)"
    using assms(2) by (simp add: cut_fraction_def pad_end_def take_replicate)
  with parts_of [OF assms(1)] merged_parts [of "whole_of s" "cut_fraction 18 (fraction_of s)" 18]
    cut_fraction_digits [of "fraction_of s" 18] decimal_parts(3) [OF assms(1), of 18]
  show ?thesis by (simp add: ethToWei_def Let_def cut_fraction_def [symmetric] del: digits_val_pad_end take_append)
qed

lemma token_units:
  assumes "decimal_text s"
  shows "tokenAmountToBaseUnits s d = (if length (fraction_of s) \<le> d then Inr (int (decimal_units d s))
    else Inl (Thrown ''Token only supports  decimals; got ''))"
proof (cases "length (fraction_of s) \<le> d")
  case True
  have "list_all is_digit (pad_end d 0x30 (fraction_of s)) \<and> length (pad_end d 0x30 (fraction_of s)) = d"
    using parts_of(5) [OF assms] True by (auto simp: pad_end_def list_all_iff is_digit_def)
  with parts_of [OF assms] merged_parts [of "whole_of s" "pad_end d 0x30 (fraction_of s)" d] decimal_parts(3) [OF assms, of d] True
  show ?thesis by (simp add: tokenAmountToBaseUnits_def Let_def del: digits_val_pad_end)
qed (use parts_of [OF assms] in \<open>simp add: tokenAmountToBaseUnits_def Let_def\<close>)

section \<open>What is shown\<close>

lemma quotient_int: "(int v) sdiv (10 ^ d) = int (v div 10 ^ d)" "(int v) smod (10 ^ d) = int (v mod 10 ^ d)"
  by (simp_all add: sdiv_nonneg smod_nonneg zdiv_int zmod_int)

lemma zero_fraction: "strip_zeros (pad_start d 0x30 (show_nat 0)) = []"
  by (simp add: strip_zeros_def rstrip_def pad_start_def show_nat.simps digit_char_def)

lemma no_fraction: "v mod 10 ^ d = 0 \<Longrightarrow> units_text d v = show_nat (v div 10 ^ d)"
  by (simp add: units_text_def Let_def zero_fraction)

lemma some_fraction:
  assumes "v mod 10 ^ d \<noteq> 0"
  shows "strip_zeros (pad_start d 0x30 (show_nat (v mod 10 ^ d))) \<noteq> []"
    "length (strip_zeros (pad_start d 0x30 (show_nat (v mod 10 ^ d)))) \<le> d"
    "units_text d v = show_nat (v div 10 ^ d) @ 0x2E # strip_zeros (pad_start d 0x30 (show_nat (v mod 10 ^ d)))"
proof -
  have d: "0 < d" using assms by (cases d) auto
  have p: "length (pad_start d 0x30 (show_nat (v mod 10 ^ d))) = d" "digits_val (pad_start d 0x30 (show_nat (v mod 10 ^ d))) = v mod 10 ^ d"
    using pad_digits [OF d, of "v mod 10 ^ d"] by simp_all
  show ne: "strip_zeros (pad_start d 0x30 (show_nat (v mod 10 ^ d))) \<noteq> []" using strip_zeros_pos p(2) assms by simp
  show "length (strip_zeros (pad_start d 0x30 (show_nat (v mod 10 ^ d)))) \<le> d" using strip_zeros_length p(1) by metis
  show "units_text d v = show_nat (v div 10 ^ d) @ 0x2E # strip_zeros (pad_start d 0x30 (show_nat (v mod 10 ^ d)))"
    using d ne by (simp add: units_text_def Let_def)
qed

text \<open>The text of an amount, cut after so many digits.\<close>

definition shown_units :: "nat \<Rightarrow> nat \<Rightarrow> nat \<Rightarrow> jsstr" where
  "shown_units d k v = (let f = take k (fraction_of (units_text d v)) in
     show_nat (v div 10 ^ d) @ (if f = [] then [] else 0x2E # f))"

lemma fraction_of_units:
  "fraction_of (units_text d v) = (if v mod 10 ^ d = 0 then [] else strip_zeros (pad_start d 0x30 (show_nat (v mod 10 ^ d))))"
proof (cases "v mod 10 ^ d = 0")
  case True
  then show ?thesis by (simp add: no_fraction fraction_of_def split_on_no_sep digits_no_point)
next
  case False
  let ?f = "strip_zeros (pad_start d 0x30 (show_nat (v mod 10 ^ d)))"
  have "0 < d" using False by (cases d) auto
  then have "list_all is_digit ?f" using pad_digits(2) [of d "v mod 10 ^ d"] by (simp add: strip_zeros_digits)
  then show ?thesis using False by (simp add: some_fraction(3) fraction_of_def split_point split_on_no_sep digits_no_point)
qed

lemma shown_parts:
  "(if int v smod 10 ^ d = 0 then show_int (int v sdiv 10 ^ d)
    else show_int (int v sdiv 10 ^ d) @
      (if take k (strip_zeros (pad_start d 0x30 (show_int (int v smod 10 ^ d)))) = [] then []
       else 0x2E # take k (strip_zeros (pad_start d 0x30 (show_int (int v smod 10 ^ d)))))) = shown_units d k v"
  unfolding quotient_int show_int_nat shown_units_def Let_def fraction_of_units by simp

lemma signed_nat: "signed_text (int v < 0) s = s"
  by (simp add: signed_text_def)

lemma weiToEth_shown: "weiToEth (int v) k = shown_units 18 k v"
  unfolding weiToEth_def Let_def abs_of_nat signed_nat by (rule shown_parts)

lemma token_shown: "tokenAmountToString (int v) d k = shown_units d k v"
proof (cases "v = 0")
  case True
  have "show_nat 0 = js ''0''" by (simp add: show_nat.simps digit_char_def)
  with True show ?thesis by (simp add: tokenAmountToString_def shown_units_def fraction_of_units)
next
  case False
  then have "int v \<noteq> 0" by simp
  then show ?thesis unfolding tokenAmountToString_def Let_def abs_of_nat signed_nat by (simp only: if_False shown_parts)
qed

lemma shown_all: "shown_units d d v = units_text d v"
proof (cases "v mod 10 ^ d = 0")
  case True
  then show ?thesis by (simp add: shown_units_def no_fraction [OF True] fraction_of_units [of d v, unfolded no_fraction [OF True]])
next
  case False
  then show ?thesis unfolding shown_units_def fraction_of_units Let_def unfolding some_fraction(3) [OF False]
    using some_fraction(1,2) [OF False] by simp
qed

text \<open>Both formats read back what they show in full.\<close>

interpretation wei_amounts: amount_format "\<lambda>v. weiToEth (int v) 18" ethToWei "\<lambda>_. True"
  by unfold_locales (simp add: weiToEth_shown shown_all ethToWei_units decimal_text_units fraction_units)

interpretation token_amounts: amount_format "\<lambda>v. tokenAmountToString (int v) d d" "\<lambda>s. tokenAmountToBaseUnits s d" "\<lambda>_. True" for d
  by unfold_locales (simp add: token_shown shown_all token_units decimal_text_units fraction_units)

section \<open>What a contract answers\<close>

definition be_bytes :: "nat \<Rightarrow> nat \<Rightarrow> bytes" where
  "be_bytes k n = rev (le_bytes k (int n))"

text \<open>A text as the ABI returns it: the offset, the length, the bytes filled up to words of 32.\<close>

definition abi_string :: "bytes \<Rightarrow> jsstr" where
  "abi_string bs = js ''0x'' @ toHex (be_bytes 32 32 @ be_bytes 32 (length bs) @ bs @ replicate ((32 - length bs mod 32) mod 32) 0)"

text \<open>The older form: 32 bytes, filled with zeros.\<close>

definition fixed_string :: "bytes \<Rightarrow> jsstr" where
  "fixed_string bs = js ''0x'' @ toHex (bs @ replicate (32 - length bs) 0)"

lemma toHex_digits: "list_all (\<lambda>c. digit_of 16 c \<noteq> None \<and> \<not> js_space c \<and> c \<noteq> 45 \<and> c \<noteq> 43 \<and> c \<noteq> 120 \<and> c \<noteq> 88) (toHex bs)"
proof (induction bs)
  case (Cons b bs)
  have "unat b div 16 < 16" using unat_byte_bound [of b] by simp
  with Cons hexc_chars [of "unat b div 16"] hexc_chars [of "unat b mod 16"] show ?case by simp
qed simp

definition be_val :: "bytes \<Rightarrow> nat" where
  "be_val bs = foldl (\<lambda>n b. 256 * n + unat b) 0 bs"

lemma radix_toHex: "foldl (\<lambda>n c. 16 * n + the (digit_of 16 c)) k (toHex bs) = foldl (\<lambda>n b. 256 * n + unat b) k bs"
proof (induction bs arbitrary: k)
  case (Cons b bs)
  have "unat b div 16 < 16" using unat_byte_bound [of b] by simp
  then have d: "digit_of 16 (hexc (unat b div 16)) = Some (unat b div 16)" "digit_of 16 (hexc (unat b mod 16)) = Some (unat b mod 16)"
    using hexc_chars [of "unat b div 16"] hexc_chars [of "unat b mod 16"] by simp_all
  have "16 * (16 * k + unat b div 16) + unat b mod 16 = 256 * k + unat b" by simp
  then show ?case by (simp only: toHex_Cons foldl_Cons d option.sel Cons)
qed simp

lemma parse_int_toHex:
  assumes "bs \<noteq> []"
  shows "parse_int 16 (toHex bs) = Some (int (be_val bs))"
proof -
  let ?s = "toHex bs"
  note d = toHex_digits [of bs, unfolded list_all_iff]
  have ne: "?s \<noteq> []" using assms by (cases bs) simp_all
  then have h: "hd ?s \<in> set ?s" by simp
  have t: "dropWhile js_space ?s = ?s" using ne d h by (cases ?s) auto
  have p: "\<not> starts_with ?s (js ''0x'')" "\<not> starts_with ?s (js ''0X'')"
    using d by (cases ?s; cases "tl ?s"; auto simp: starts_with_def)+
  have all: "radix_prefix 16 ?s = ?s" unfolding radix_prefix_def takeWhile_eq_all_conv using d by blast
  have "hd ?s \<noteq> 45" "hd ?s \<noteq> 43" using d h by blast+
  then show ?thesis using ne
    by (simp add: parse_int_def t p all Let_def radix_value_def radix_toHex be_val_def del: js_simps)
qed

lemma be_val_rev: "be_val (rev bs) = nat (le_val bs)"
proof (induction bs)
  case (Cons b bs)
  have "0 \<le> le_val bs" by simp
  with Cons show ?case by (simp add: be_val_def nat_add_distrib nat_mult_distrib)
qed (simp add: be_val_def)

lemma be_val_be_bytes: "n < 256 ^ k \<Longrightarrow> be_val (be_bytes k n) = n"
proof -
  assume "n < 256 ^ k"
  then have "int n < 256 ^ k" using of_nat_less_iff [of n "256 ^ k", where 'a = int] by simp
  then show ?thesis by (simp add: be_bytes_def be_val_rev le_val_le_bytes)
qed

lemma hex_pairs_toHex: "hex_pairs (toHex bs) = bs"
proof (induction bs)
  case (Cons b bs)
  have "unat b div 16 < 16" using unat_byte_bound [of b] by simp
  then have "parse_int 16 [hexc (unat b div 16), hexc (unat b mod 16)] = Some (int (unat b))"
    using parse_int_pair [of "unat b div 16" "unat b mod 16"] by simp
  with Cons show ?case by simp
qed simp

lemma hexToUtf8_toHex: "hexToUtf8 (toHex bs) = (if bs = [] then Inr [] else Inr (trim (utf8_decode bs)))"
  by (cases "bs = []") (auto simp: hexToUtf8_def hex_pairs_toHex dest: arg_cong [where f = length])

lemma take_toHex: "take (2 * n) (toHex bs) = toHex (take n bs)"
proof (induction bs arbitrary: n)
  case (Cons b bs)
  then show ?case by (cases n) simp_all
qed simp

lemma drop_toHex: "drop (2 * n) (toHex bs) = toHex (drop n bs)"
proof (induction bs arbitrary: n)
  case (Cons b bs)
  then show ?case by (cases n) simp_all
qed simp

lemma decodeAbi_conforming:
  assumes "bs \<noteq> []" "length bs < 2 ^ 200"
  shows "decodeAbiString (abi_string bs) = Inr (trim (utf8_decode bs))"
proof -
  define zs where "zs = replicate ((32 - length bs mod 32) mod 32) (0 :: byte)"
  define all where "all = be_bytes 32 32 @ be_bytes 32 (length bs) @ bs @ zs"
  have l: "length (be_bytes 32 n) = 32" for n by (simp add: be_bytes_def)
  have a: "abi_string bs = 0x30 # 0x78 # toHex all" by (simp add: abi_string_def all_def zs_def)
  have long: "length (toHex all) \<ge> 128 + length bs * 2" by (simp add: all_def l)
  have words: "take 32 all = be_bytes 32 32" "take 32 (drop 32 all) = be_bytes 32 (length bs)" "take (length bs) (drop 64 all) = bs"
    by (simp_all add: all_def l)
  have "drop 31 (be_bytes 32 32) = [32]" by code_simp
  then have "drop 62 (take 64 (toHex all)) = toHex [32]"
    using take_toHex [of 32 all] drop_toHex [of 31 "take 32 all"] words(1) by simp
  also have "toHex [32] = js ''20''" by code_simp
  finally have off: "drop 62 (take 64 (toHex all)) = js ''20''" .
  have "take 64 (drop 64 (toHex all)) = toHex (be_bytes 32 (length bs))"
    using drop_toHex [of 32 all] take_toHex [of 32 "drop 32 all"] words(2) by simp
  moreover have "length bs < 256 ^ 32" using assms(2) by simp
  moreover have "be_bytes 32 (length bs) \<noteq> []" using l [of "length bs"] by auto
  ultimately have len: "parse_int 16 (take 64 (drop 64 (toHex all))) = Some (int (length bs))"
    using parse_int_toHex be_val_be_bytes by simp
  have body: "take (length bs * 2) (drop 128 (toHex all)) = toHex bs"
    using drop_toHex [of 64 all] take_toHex [of "length bs" "drop 64 all"] words(3) by (simp add: mult.commute)
  have "abi_string bs \<noteq> js ''0x''" "\<not> length (abi_string bs) < 2" "drop 2 (abi_string bs) = toHex all"
    using long by (auto simp: a simp del: length_toHex)
  then show ?thesis
    using long off len body assms(1) hexToUtf8_toHex [of bs]
    by (simp add: decodeAbiString_def Let_def del: js_simps length_toHex)
qed

lemma hexc_0: "hexc 0 = 0x30"
  by code_simp

lemma rev_toHex_zeros:
  assumes "last bs \<noteq> 0" "bs \<noteq> []"
  shows "strip_zero_pairs (toHex (bs @ replicate k 0)) = toHex bs"
proof -
  have z: "toHex (replicate k 0) = replicate (2 * k) 0x30" by (induction k) (simp_all, code_simp)
  obtain cs b where b: "bs = cs @ [b]" "b \<noteq> 0" using assms by (metis append_butlast_last_id)
  let ?t = "length (takeWhile (\<lambda>c. c = 0x30) (rev (toHex bs)))"
  have hz: "hexc n = 0x30 \<longleftrightarrow> n = 0" if "n < 16" for n
    using hexc_chars [OF that] hexc_chars [of 0] by (metis option.inject zero_less_numeral hexc_0)
  have "unat b div 16 < 16" using unat_byte_bound [of b] by simp
  then have "\<not> (hexc (unat b div 16) = 0x30 \<and> hexc (unat b mod 16) = 0x30)"
    using b(2) hz [of "unat b div 16"] hz [of "unat b mod 16"] by (metis div_mult_mod_eq mult_zero_left add_0 mod_less_divisor unat_0_iff zero_less_numeral unsigned_0)
  then have "?t \<le> 1" by (auto simp: b(1))
  moreover have "takeWhile (\<lambda>c. c = 0x30) (rev (toHex bs @ replicate (2 * k) 0x30)) = replicate (2 * k) 0x30 @ takeWhile (\<lambda>c. c = 0x30) (rev (toHex bs))"
    by (simp add: takeWhile_append)
  ultimately show ?thesis by (simp add: strip_zero_pairs_def z)
qed

lemma decodeAbi_fixed:
  assumes "bs \<noteq> []" "length bs \<le> 32" "last bs \<noteq> 0"
  shows "decodeAbiString (fixed_string bs) = Inr (trim (utf8_decode bs))"
proof -
  define all where "all = bs @ replicate (32 - length bs) (0 :: byte)"
  have a: "fixed_string bs = 0x30 # 0x78 # toHex all" by (simp add: fixed_string_def all_def)
  have l: "length (toHex all) = 64" using assms(2) by (simp add: all_def)
  have "strip_zero_pairs (take 64 (toHex all)) = toHex bs"
    using l rev_toHex_zeros [OF assms(3,1), of "32 - length bs"] by (simp add: all_def del: toHex_append)
  moreover have "fixed_string bs \<noteq> js ''0x''" "\<not> length (fixed_string bs) < 2" "drop 2 (fixed_string bs) = toHex all"
    using l by (auto simp: a simp del: length_toHex)
  ultimately show ?thesis using l assms(1) hexToUtf8_toHex [of bs] by (simp add: decodeAbiString_def Let_def del: js_simps length_toHex)
qed

lemma includes_iff: "str_includes s p \<longleftrightarrow> (\<exists>x y. s = x @ p @ y)"
proof (induction s)
  case Nil
  then show ?case by (auto simp: str_includes_def starts_with_def split: if_splits)
next
  case (Cons c s)
  have "str_includes (c # s) p \<longleftrightarrow> starts_with (c # s) p \<or> str_includes s p"
    by (auto simp: str_includes_def split: option.splits)
  moreover have "starts_with (c # s) p \<longleftrightarrow> (\<exists>y. c # s = p @ y)"
    by (auto simp: starts_with_def) (metis append_take_drop_id)
  ultimately show ?case using Cons by (metis append_Cons append_Nil list.inject neq_Nil_conv)
qed

text \<open>The test for \<open>sepolia\<close> comes first: the explorer of Base Sepolia is never chosen.\<close>

lemma base_sepolia_unreachable: "blockscoutBaseFromRpc lower u \<noteq> js ''https://base-sepolia.blockscout.com''"
proof -
  have "str_includes v (js ''base-sepolia'') \<Longrightarrow> str_includes v (js ''sepolia'')" for v
    unfolding includes_iff using js_append [of "''base-''" "''sepolia''"] by (metis append_assoc append_Cons append_Nil)
  then show ?thesis unfolding blockscoutBaseFromRpc_def Let_def by (auto split: if_splits)
qed

text \<open>Everything behind a second point is ignored.\<close>

lemma second_point_ignored: "ethToWei (js ''1.2.3'') = ethToWei (js ''1.2'')"
proof -
  have t: "trim (js ''1.2.3'') = js ''1.2.3''" "trim (js ''1.2'') = js ''1.2''" by code_simp+
  have "whole_of (js ''1.2.3'') = whole_of (js ''1.2'')" "fraction_of (js ''1.2.3'') = fraction_of (js ''1.2'')" by code_simp+
  then show ?thesis unfolding ethToWei_def t Let_def numeric_parts_def by simp
qed

section \<open>Properties\<close>

text \<open>
  C39: Every amount of ether or of a token that is shown in full is read back as the same number of
  its smallest units.
\<close>

theorem evm_amounts_roundtrip:
  "ethToWei (weiToEth (int v) 18) = Inr (int v) \<and> tokenAmountToBaseUnits (tokenAmountToString (int v) d d) d = Inr (int v)"
  by (simp only: wei_amounts.parse_print [OF TrueI] token_amounts.parse_print [OF TrueI])

text \<open>
  The name of a token is read from the answer of its contract in both forms in use, the text
  of the ABI and the older one of 32 bytes filled with zeros.
\<close>

theorem contract_text_decoded:
  assumes "well_formed s" "s \<noteq> []" "hd s \<noteq> 0xFEFF" "trim s = s"
  shows "(length (utf8_encode s) < 2 ^ 200 \<longrightarrow> decodeAbiString (abi_string (utf8_encode s)) = Inr s)
    \<and> (length (utf8_encode s) \<le> 32 \<longrightarrow> last (utf8_encode s) \<noteq> 0 \<longrightarrow> decodeAbiString (fixed_string (utf8_encode s)) = Inr s)"
proof -
  have d: "utf8_decode (utf8_encode s) = s" using assms(1-3) utf8_decode_encode by blast
  have "utf8_encode [] = []" by (simp add: utf8_encode_def)
  then have "utf8_encode s \<noteq> []" using assms(1,2) utf8_encode_inj [of s "[]"] by auto
  with d assms(4) decodeAbi_conforming [of "utf8_encode s"] decodeAbi_fixed [of "utf8_encode s"] show ?thesis by simp
qed

theorem contract_text_decoded_witness:
  "decodeAbiString (abi_string (utf8_encode (js ''USDC''))) = Inr (js ''USDC'') \<and> decodeAbiString (fixed_string (utf8_encode (js ''USDC''))) = Inr (js ''USDC'')"
proof -
  have e: "utf8_encode (js ''USDC'') = [85, 83, 68, 67]" by (subst utf8_encode_ascii) (simp_all add: byte_of_def)
  have t: "trim (js ''USDC'') = js ''USDC''" by (rule trim_id) (simp add: js_space_def)
  have w: "well_formed (js ''USDC'')" "js ''USDC'' \<noteq> []" "hd (js ''USDC'') \<noteq> 0xFEFF" by (simp_all add: is_high_def is_low_def)
  from contract_text_decoded [OF w t] show ?thesis unfolding e by simp
qed

end
