(* ===== verification/Escrow_Projects.thy ===== *)
theory Escrow_Projects
  imports Ordered_Rows JS_Json Msig_Hash Decimal_Text
begin

text \<open>
  The escrow records of a treasury (\<open>lib/pro/escrow.ts\<close>): projects with their funders and
  milestones, the commitment to their terms, the list the page keeps, the amounts that are returned, the
  requests a member signs.  The server is the list of requests sent to it;
  random ids, the time of a call, \<open>localeCompare\<close> and the functions in \<open>escrow_lib\<close> are parameters.  Of an operation on numbers
  \<open>rounded\<close> gives the result from the exact one; no operation leaves the finite numbers.
\<close>

section \<open>Records\<close>

datatype ProEscrowStatus = Escrow_active | Escrow_disputed | Escrow_returned | Escrow_complete

datatype ProEscrowMilestoneStatus = Planned | Released

record ProEscrowFunder =
  fu_id :: jsstr
  fu_name :: jsstr
  fu_entity :: "jsstr option"
  fu_address :: jsstr
  fu_asset :: jsstr
  fu_amount :: jsstr
  fu_token :: "jsstr option"

record ProEscrowMilestone =
  mi_id :: jsstr
  mi_title :: jsstr
  mi_recipient :: jsstr
  mi_entity :: "jsstr option"
  mi_asset :: jsstr
  mi_amount :: jsstr
  mi_status :: ProEscrowMilestoneStatus
  mi_token :: "jsstr option"

datatype escrow_mode = Mode_spl | Mode_cross_chain | Mode_private

record ProEscrowExecution =
  ex_mode :: escrow_mode
  ex_network :: jsstr
  ex_chainKind :: number
  ex_decimals :: number
  ex_assetId :: jsstr
  ex_mint :: "jsstr option"
  ex_source :: "jsstr option"
  ex_route :: "jsstr option"
  ex_artifact :: "jsstr option"
  ex_private :: "jsstr option"

datatype escrow_enforcement = Approval_workflow | Onchain_policy_pending

text \<open>The other fields of a policy have one value each.\<close>

record ProEscrowPolicy =
  po_enforcement :: escrow_enforcement
  po_commitment :: jsstr

record ProEscrowProject =
  pr_id :: jsstr
  pr_title :: jsstr
  pr_counterparty :: jsstr
  pr_status :: ProEscrowStatus
  pr_funders :: "ProEscrowFunder list"
  pr_milestones :: "ProEscrowMilestone list"
  pr_policy :: "ProEscrowPolicy option"
  pr_execution :: "ProEscrowExecution option"
  pr_createdAt :: number
  pr_updatedAt :: "number option"

record escrow_lib =
  number_of :: "jsstr \<Rightarrow> number option"
  rounded :: "number \<Rightarrow> number"
  number_text :: "number \<Rightarrow> jsstr"
  upper :: "jsstr \<Rightarrow> jsstr"
  digest :: "bytes \<Rightarrow> bytes"

section \<open>The commitment to the terms\<close>

definition normalizeText :: "jsstr \<Rightarrow> jsstr" where
  "normalizeText s = trim s"

definition normalizeAsset :: "escrow_lib \<Rightarrow> jsstr \<Rightarrow> jsstr" where
  "normalizeAsset L s = upper L (trim s)"

definition normalizeDecimalText :: "escrow_lib \<Rightarrow> jsstr \<Rightarrow> jsstr" where
  "normalizeDecimalText L s = (case number_of L s of None \<Rightarrow> [] | Some v \<Rightarrow> number_text L v)"

definition stableHash :: "escrow_lib \<Rightarrow> json \<Rightarrow> jsstr" where
  "stableHash L j = toHex (digest L (utf8_encode (stableStringify (number_text L) j)))"

definition funder_terms :: "escrow_lib \<Rightarrow> ProEscrowFunder \<Rightarrow> json" where
  "funder_terms L f = JObj
     [(js ''name'', JStr (normalizeText (fu_name f))),
      (js ''entity'', JStr (normalizeText (or_empty (fu_entity f)))),
      (js ''address'', JStr (normalizeText (fu_address f))),
      (js ''asset'', JStr (normalizeAsset L (fu_asset f))),
      (js ''amount'', JStr (normalizeDecimalText L (fu_amount f)))]"

definition milestone_terms :: "escrow_lib \<Rightarrow> ProEscrowMilestone \<Rightarrow> json" where
  "milestone_terms L m = JObj
     [(js ''title'', JStr (normalizeText (mi_title m))),
      (js ''recipient'', JStr (normalizeText (mi_recipient m))),
      (js ''recipientEntity'', JStr (normalizeText (or_empty (mi_entity m)))),
      (js ''asset'', JStr (normalizeAsset L (mi_asset m))),
      (js ''amount'', JStr (normalizeDecimalText L (mi_amount m)))]"

definition project_terms :: "escrow_lib \<Rightarrow> ProEscrowProject \<Rightarrow> json" where
  "project_terms L p = JObj
     [(js ''kind'', JStr (js ''clearsig.pro.escrow-policy'')),
      (js ''version'', JNum 1),
      (js ''title'', JStr (normalizeText (pr_title p))),
      (js ''counterparty'', JStr (normalizeText (pr_counterparty p))),
      (js ''releaseRequires'', JStr (js ''wallet_approval'')),
      (js ''unwindRequires'', JStr (js ''wallet_approval'')),
      (js ''returnBasis'', JStr (js ''recorded_funder_contribution'')),
      (js ''assetMode'', JStr (js ''per_asset'')),
      (js ''funders'', JArr (map (funder_terms L) (pr_funders p))),
      (js ''milestones'', JArr (map (milestone_terms L) (pr_milestones p)))]"

definition buildProEscrowPolicyCommitment :: "escrow_lib \<Rightarrow> ProEscrowProject \<Rightarrow> jsstr" where
  "buildProEscrowPolicyCommitment L p = stableHash L (project_terms L p)"

definition bindProEscrowPolicy :: "escrow_lib \<Rightarrow> ProEscrowProject \<Rightarrow> ProEscrowProject" where
  "bindProEscrowPolicy L p = p\<lparr>pr_policy := Some
     \<lparr>po_enforcement = (case pr_policy p of None \<Rightarrow> Approval_workflow | Some q \<Rightarrow> po_enforcement q),
      po_commitment = buildProEscrowPolicyCommitment L p\<rparr>\<rparr>"

section \<open>The list of a page\<close>

text \<open>What is sent to the server.\<close>

datatype escrow_event = Escrow_created | Escrow_updated | Escrow_removed | Escrow_milestone_released | Escrow_unwind_prepared

datatype escrow_request = Upsert jsstr ProEscrowProject | Delete jsstr jsstr | Audit jsstr escrow_event jsstr

record escrow_page =
  shown :: "ProEscrowProject list"
  stored :: "ProEscrowProject list option"
  sent :: "escrow_request list"

definition persistEscrows :: "jsstr \<Rightarrow> ProEscrowProject list \<Rightarrow> escrow_page \<Rightarrow> escrow_page" where
  "persistEscrows w rows pg = (if trim w = [] then pg else pg\<lparr>stored := Some rows\<rparr>)"

definition send_request :: "jsstr \<Rightarrow> escrow_request \<Rightarrow> escrow_page \<Rightarrow> escrow_page" where
  "send_request w r pg = (if trim w = [] then pg else pg\<lparr>sent := sent pg @ [r]\<rparr>)"

definition upsertProEscrow :: "escrow_lib \<Rightarrow> jsstr \<Rightarrow> ProEscrowProject \<Rightarrow> escrow_page \<Rightarrow> escrow_page" where
  "upsertProEscrow L w p = send_request w (Upsert w (bindProEscrowPolicy L p))"

definition deleteProEscrow :: "jsstr \<Rightarrow> jsstr \<Rightarrow> escrow_page \<Rightarrow> escrow_page" where
  "deleteProEscrow w i pg = (if trim i = [] then pg else send_request w (Delete w i) pg)"

text \<open>The title of an event is never blank.\<close>

definition appendProEscrowAuditEvent :: "jsstr \<Rightarrow> escrow_event \<Rightarrow> jsstr \<Rightarrow> escrow_page \<Rightarrow> escrow_page" where
  "appendProEscrowAuditEvent w e reference = send_request w (Audit w e reference)"

definition set_rows :: "jsstr \<Rightarrow> ProEscrowProject list \<Rightarrow> escrow_page \<Rightarrow> escrow_page" where
  "set_rows w rows pg = persistEscrows w rows (pg\<lparr>shown := rows\<rparr>)"

definition add_escrow :: "escrow_lib \<Rightarrow> jsstr \<Rightarrow> jsstr \<Rightarrow> number \<Rightarrow> ProEscrowProject \<Rightarrow> escrow_page \<Rightarrow> ProEscrowProject \<times> escrow_page" where
  "add_escrow L w new_id now draft pg =
     (let row = bindProEscrowPolicy L (draft\<lparr>pr_id := new_id, pr_createdAt := now, pr_updatedAt := Some now\<rparr>)
      in (row, appendProEscrowAuditEvent w Escrow_created (pr_id row)
                 (upsertProEscrow L w row (set_rows w (take 25 (row # shown pg)) pg))))"

text \<open>\<open>Partial<ProEscrowProject>\<close>; the times are not among the fields a page patches, and are set by the call.\<close>

record escrow_patch =
  pa_id :: "jsstr option"
  pa_title :: "jsstr option"
  pa_counterparty :: "jsstr option"
  pa_status :: "ProEscrowStatus option"
  pa_funders :: "ProEscrowFunder list option"
  pa_milestones :: "ProEscrowMilestone list option"
  pa_policy :: "ProEscrowPolicy option option"
  pa_execution :: "ProEscrowExecution option option"

definition patched :: "'a option \<Rightarrow> 'a \<Rightarrow> 'a" where
  "patched p old = (case p of None \<Rightarrow> old | Some v \<Rightarrow> v)"

definition apply_patch :: "escrow_patch \<Rightarrow> ProEscrowProject \<Rightarrow> ProEscrowProject" where
  "apply_patch d p = p\<lparr>pr_id := patched (pa_id d) (pr_id p), pr_title := patched (pa_title d) (pr_title p),
     pr_counterparty := patched (pa_counterparty d) (pr_counterparty p), pr_status := patched (pa_status d) (pr_status p),
     pr_funders := patched (pa_funders d) (pr_funders p), pr_milestones := patched (pa_milestones d) (pr_milestones p),
     pr_policy := patched (pa_policy d) (pr_policy p), pr_execution := patched (pa_execution d) (pr_execution p)\<rparr>"

definition replace_row :: "jsstr \<Rightarrow> ProEscrowProject \<Rightarrow> ProEscrowProject list \<Rightarrow> ProEscrowProject list" where
  "replace_row i p rows = map (\<lambda>r. if pr_id r = i then p else r) rows"

definition update_escrow :: "escrow_lib \<Rightarrow> jsstr \<Rightarrow> jsstr \<Rightarrow> escrow_patch \<Rightarrow> number \<Rightarrow> escrow_page \<Rightarrow> escrow_page" where
  "update_escrow L w i d now pg = (case get_row pr_id i (shown pg) of
       None \<Rightarrow> pg
     | Some old \<Rightarrow>
         (let updated = bindProEscrowPolicy L ((apply_patch d old)\<lparr>pr_updatedAt := Some now\<rparr>)
          in appendProEscrowAuditEvent w Escrow_updated (pr_id updated)
               (upsertProEscrow L w updated (set_rows w (replace_row i updated (shown pg)) pg))))"

definition remove_escrow :: "jsstr \<Rightarrow> jsstr \<Rightarrow> escrow_page \<Rightarrow> escrow_page" where
  "remove_escrow w i pg = appendProEscrowAuditEvent w Escrow_removed i
     (deleteProEscrow w i (set_rows w (drop_rows pr_id i (shown pg)) pg))"

definition release_milestone :: "jsstr \<Rightarrow> ProEscrowMilestone \<Rightarrow> ProEscrowMilestone" where
  "release_milestone m x = (if mi_id x = m then x\<lparr>mi_status := Released\<rparr> else x)"

definition markMilestoneReleased :: "escrow_lib \<Rightarrow> jsstr \<Rightarrow> jsstr \<Rightarrow> jsstr \<Rightarrow> number \<Rightarrow> escrow_page \<Rightarrow> escrow_page" where
  "markMilestoneReleased L w i m now pg = (case get_row pr_id i (shown pg) of
       None \<Rightarrow> pg
     | Some old \<Rightarrow>
         (let updated = old\<lparr>pr_milestones := map (release_milestone m) (pr_milestones old), pr_updatedAt := Some now\<rparr>
          in appendProEscrowAuditEvent w Escrow_milestone_released i
               (upsertProEscrow L w updated (set_rows w (replace_row i updated (shown pg)) pg))))"

section \<open>Joining what the server has\<close>

definition escrow_stamp :: "ProEscrowProject \<Rightarrow> number" where
  "escrow_stamp p = (case pr_updatedAt p of None \<Rightarrow> pr_createdAt p | Some t \<Rightarrow> t)"

definition newer_escrow :: "ProEscrowProject \<Rightarrow> ProEscrowProject list \<Rightarrow> ProEscrowProject list" where
  "newer_escrow p m = (case get_row pr_id (pr_id p) m of
       None \<Rightarrow> map_set pr_id p m
     | Some old \<Rightarrow> if escrow_stamp p \<ge> escrow_stamp old then map_set pr_id p m else m)"

text \<open>\<open>localeCompare(a, b) <= 0\<close> is the parameter \<open>le\<close>.\<close>

definition escrow_order :: "(jsstr \<Rightarrow> jsstr \<Rightarrow> bool) \<Rightarrow> ProEscrowProject \<Rightarrow> ProEscrowProject \<Rightarrow> bool" where
  "escrow_order le a b \<longleftrightarrow> escrow_stamp b < escrow_stamp a \<or> (escrow_stamp b = escrow_stamp a \<and> le (pr_title a) (pr_title b))"

definition mergeEscrows :: "escrow_lib \<Rightarrow> (jsstr \<Rightarrow> jsstr \<Rightarrow> bool) \<Rightarrow> ProEscrowProject list \<Rightarrow> ProEscrowProject list \<Rightarrow> ProEscrowProject list" where
  "mergeEscrows L le local_rows remote_rows =
     take 25 (sort_by (escrow_order le) (fold newer_escrow (map (bindProEscrowPolicy L) (local_rows @ remote_rows)) []))"

text \<open>Opening the page: the stored rows are shown; when the server answers, the rows it does not have are sent.\<close>

definition load_escrows :: "escrow_lib \<Rightarrow> jsstr \<Rightarrow> ProEscrowProject list option \<Rightarrow> escrow_page \<Rightarrow> escrow_page" where
  "load_escrows L w saved pg = pg\<lparr>shown := (if trim w = [] then [] else map (bindProEscrowPolicy L) (or_empty saved)), stored := saved\<rparr>"

definition sync_escrows :: "escrow_lib \<Rightarrow> (jsstr \<Rightarrow> jsstr \<Rightarrow> bool) \<Rightarrow> jsstr \<Rightarrow> ProEscrowProject list \<Rightarrow> escrow_page \<Rightarrow> escrow_page" where
  "sync_escrows L le w answer pg =
     (let remote = map (bindProEscrowPolicy L) answer; cur = shown pg;
          missing = filter (\<lambda>r. pr_id r \<notin> set (map pr_id remote)) cur
      in set_rows w (mergeEscrows L le cur remote) (fold (upsertProEscrow L w) missing pg))"

section \<open>What is returned\<close>

record ProEscrowReturnRow =
  ret_recipient :: jsstr
  ret_amount :: jsstr

definition parsePositiveAmount :: "escrow_lib \<Rightarrow> jsstr \<Rightarrow> number" where
  "parsePositiveAmount L s = (case number_of L (trim s) of None \<Rightarrow> 0 | Some v \<Rightarrow> if v > 0 then v else 0)"

definition sumAmounts :: "escrow_lib \<Rightarrow> jsstr list \<Rightarrow> number" where
  "sumAmounts L amounts = fold (\<lambda>a total. rounded L (total + parsePositiveAmount L a)) amounts 0"

definition funders_in :: "escrow_lib \<Rightarrow> jsstr \<Rightarrow> ProEscrowProject \<Rightarrow> ProEscrowFunder list" where
  "funders_in L asset p = filter (\<lambda>f. upper L (fu_asset f) = asset) (pr_funders p)"

definition released_in :: "escrow_lib \<Rightarrow> jsstr \<Rightarrow> ProEscrowProject \<Rightarrow> ProEscrowMilestone list" where
  "released_in L asset p = filter (\<lambda>m. upper L (mi_asset m) = asset \<and> mi_status m = Released) (pr_milestones p)"

definition escrowFundedAmount :: "escrow_lib \<Rightarrow> ProEscrowProject \<Rightarrow> jsstr \<Rightarrow> number" where
  "escrowFundedAmount L p asset = sumAmounts L (map fu_amount (funders_in L asset p))"

definition escrowReleasedAmount :: "escrow_lib \<Rightarrow> ProEscrowProject \<Rightarrow> jsstr \<Rightarrow> number" where
  "escrowReleasedAmount L p asset = sumAmounts L (map mi_amount (released_in L asset p))"

text \<open>\<open>toLocaleString\<close> with at most six digits behind the point and no grouping: half a millionth rounds up.\<close>

definition millionths :: "number \<Rightarrow> nat" where
  "millionths v = nat \<lfloor>v * 10 ^ 6 + 1 / 2\<rfloor>"

definition trimAmount :: "number \<Rightarrow> jsstr" where
  "trimAmount v = (let formatted = units_text 6 (millionths v) in
     if 0x2E \<in> set formatted then rstrip (\<lambda>c. c = 0x2E) (strip_zeros formatted) else formatted)"

definition return_share :: "escrow_lib \<Rightarrow> number \<Rightarrow> number \<Rightarrow> ProEscrowFunder \<Rightarrow> number" where
  "return_share L remaining funded f = rounded L (rounded L (remaining * parsePositiveAmount L (fu_amount f)) / funded)"

definition buildProEscrowReturnRows :: "escrow_lib \<Rightarrow> ProEscrowProject \<Rightarrow> ProEscrowReturnRow list" where
  "buildProEscrowReturnRows L p =
     (let fundedSol = sumAmounts L (map fu_amount (funders_in L (js ''SOL'') p));
          releasedSol = sumAmounts L (map mi_amount (released_in L (js ''SOL'') p));
          remainingSol = max 0 (rounded L (fundedSol - releasedSol))
      in if fundedSol \<le> 0 \<or> remainingSol \<le> 0 then []
         else filter (\<lambda>r. trim (ret_recipient r) \<noteq> [] \<and> (case number_of L (ret_amount r) of None \<Rightarrow> False | Some v \<Rightarrow> v > 0))
           (map (\<lambda>f. \<lparr>ret_recipient = fu_address f, ret_amount = trimAmount (return_share L remainingSol fundedSol f)\<rparr>)
             (funders_in L (js ''SOL'') p)))"

section \<open>What is signed\<close>

datatype text_encoding = Encoded_text | Encoded_solana_pubkey | Encoded_sha256_text

record RecipientAmount =
  ra_recipient :: jsstr
  ra_recipientEncoding :: text_encoding
  ra_amount :: jsstr
  ra_asset :: jsstr
  ra_assetEncoding :: text_encoding
  ra_decimals :: number
  ra_display :: jsstr

datatype EscrowExecutionBinding =
    Bind_spl_release (bd_mint: jsstr) (bd_source: jsstr) (bd_destination: jsstr) (bd_owner: jsstr)
  | Bind_spl_return (bd_mint: jsstr) (bd_source: jsstr) (bd_returns: "(jsstr \<times> jsstr) list")
  | Bind_cross_chain (bd_route: jsstr) (bd_artifact: jsstr)
  | Bind_private (bd_evaluation: jsstr) (bd_artifact: jsstr)

datatype escrow_payload =
    Release_milestone (pl_escrow: jsstr) (pl_title: jsstr) (pl_milestone: jsstr) (pl_mtitle: jsstr) (pl_pay: RecipientAmount)
      (pl_execution: "EscrowExecutionBinding option")
  | Return_funds (pl_escrow: jsstr) (pl_title: jsstr) (pl_returns: "RecipientAmount list") (pl_execution: "EscrowExecutionBinding option")

record ClearSignIntentInput =
  ci_network :: jsstr
  ci_wallet :: jsstr
  ci_walletId :: "jsstr option"
  ci_actionId :: jsstr
  ci_nonce :: jsstr
  ci_expiresAt :: int
  ci_commitment :: jsstr
  ci_payload :: escrow_payload

record ProEscrowClearSignOptions =
  op_wallet :: jsstr
  op_walletId :: "jsstr option"
  op_actionId :: "jsstr option"
  op_nonce :: "jsstr option"
  op_expiresAt :: "int option"

text \<open>\<open>id?.trim() || randomId()\<close>.\<close>

definition given_or :: "jsstr option \<Rightarrow> jsstr \<Rightarrow> jsstr" where
  "given_or s fresh = (if trim (or_empty s) = [] then fresh else trim (or_empty s))"

definition need :: "jsstr option \<Rightarrow> string \<Rightarrow> jsstr res" where
  "need s message = (if truthy s then Inr (or_empty s) else Inl (Thrown message))"

definition buildEscrowExecutionBinding :: "ProEscrowProject \<Rightarrow> ProEscrowMilestone option \<Rightarrow> EscrowExecutionBinding option res" where
  "buildEscrowExecutionBinding p milestone = (case pr_execution p of
       None \<Rightarrow> Inr None
     | Some e \<Rightarrow>
         if ex_mode e = Mode_spl then
           ebind (need (ex_mint e) ''SPL escrow is missing its mint or treasury token account.'') (\<lambda>mint.
           ebind (need (ex_source e) ''SPL escrow is missing its mint or treasury token account.'') (\<lambda>source.
           case milestone of
             Some m \<Rightarrow> ebind (need (mi_token m) ''SPL milestone is missing the recipient token account.'') (\<lambda>dest.
               Inr (Some (Bind_spl_release mint source dest (mi_recipient m))))
           | None \<Rightarrow> ebind (emap (\<lambda>f. ebind (need (fu_token f) ''SPL funder is missing a return token account.'') (\<lambda>t. Inr (t, fu_address f)))
                 (pr_funders p)) (\<lambda>rs. Inr (Some (Bind_spl_return mint source rs)))))
         else ebind (need (ex_artifact e) ''Escrow is missing its settlement artifact hash.'') (\<lambda>artifact.
           if ex_mode e = Mode_cross_chain
           then ebind (need (ex_route e) ''Cross-chain escrow is missing its route hash.'') (\<lambda>route. Inr (Some (Bind_cross_chain route artifact)))
           else ebind (need (ex_private e) ''Private escrow is missing its evaluation hash.'') (\<lambda>v. Inr (Some (Bind_private v artifact)))))"

definition recipient_encoding :: "ProEscrowExecution option \<Rightarrow> text_encoding" where
  "recipient_encoding e = (case e of None \<Rightarrow> Encoded_solana_pubkey
     | Some x \<Rightarrow> if ex_mode x = Mode_spl then Encoded_solana_pubkey else Encoded_sha256_text)"

definition asset_encoding :: "ProEscrowExecution option \<Rightarrow> text_encoding" where
  "asset_encoding e = (case e of None \<Rightarrow> Encoded_text
     | Some x \<Rightarrow> if ex_mode x = Mode_spl then Encoded_solana_pubkey else Encoded_sha256_text)"

definition escrow_pay :: "ProEscrowExecution option \<Rightarrow> jsstr \<Rightarrow> jsstr \<Rightarrow> jsstr \<Rightarrow> RecipientAmount" where
  "escrow_pay e recipient amount asset = \<lparr>ra_recipient = recipient, ra_recipientEncoding = recipient_encoding e, ra_amount = amount,
     ra_asset = (case e of None \<Rightarrow> asset | Some x \<Rightarrow> ex_assetId x), ra_assetEncoding = asset_encoding e,
     ra_decimals = (case e of None \<Rightarrow> 9 | Some x \<Rightarrow> ex_decimals x), ra_display = asset\<rparr>"

text \<open>The fields of both requests; \<open>fresh\<close> are the two random ids, \<open>now\<close> is in seconds.\<close>

definition clearSignMeta :: "ProEscrowClearSignOptions \<Rightarrow> jsstr \<times> jsstr \<Rightarrow> int \<Rightarrow> ProEscrowProject \<Rightarrow> escrow_payload \<Rightarrow> ClearSignIntentInput" where
  "clearSignMeta i fresh now p payload = \<lparr>
     ci_network = (case pr_execution p of None \<Rightarrow> js ''Solana devnet'' | Some e \<Rightarrow> ex_network e),
     ci_wallet = trim (op_wallet i), ci_walletId = map_option trim (op_walletId i),
     ci_actionId = given_or (op_actionId i) (fst fresh), ci_nonce = given_or (op_nonce i) (snd fresh),
     ci_expiresAt = (case op_expiresAt i of None \<Rightarrow> now + 30 * 60 | Some t \<Rightarrow> t),
     ci_commitment = (case pr_policy p of None \<Rightarrow> [] | Some q \<Rightarrow> po_commitment q), ci_payload = payload\<rparr>"

definition buildProEscrowReleaseEnvelope ::
  "escrow_lib \<Rightarrow> ProEscrowClearSignOptions \<Rightarrow> jsstr \<times> jsstr \<Rightarrow> int \<Rightarrow> ProEscrowProject \<Rightarrow> ProEscrowMilestone \<Rightarrow> ClearSignIntentInput res" where
  "buildProEscrowReleaseEnvelope L i fresh now project m =
     (let p = bindProEscrowPolicy L project in
      ebind (buildEscrowExecutionBinding p (Some m)) (\<lambda>b.
      Inr (clearSignMeta i fresh now p (Release_milestone (pr_id p) (pr_title p) (mi_id m) (mi_title m)
        (escrow_pay (pr_execution p) (mi_recipient m) (mi_amount m) (mi_asset m)) b))))"

definition return_asset :: "ProEscrowProject \<Rightarrow> jsstr" where
  "return_asset p = (case find (\<lambda>f. trim (fu_asset f) \<noteq> []) (pr_funders p) of
       Some f \<Rightarrow> fu_asset f
     | None \<Rightarrow> (case find (\<lambda>m. trim (mi_asset m) \<noteq> []) (pr_milestones p) of Some m \<Rightarrow> mi_asset m | None \<Rightarrow> js ''SOL''))"

definition buildProEscrowReturnEnvelope ::
  "escrow_lib \<Rightarrow> ProEscrowClearSignOptions \<Rightarrow> jsstr \<times> jsstr \<Rightarrow> int \<Rightarrow> ProEscrowProject \<Rightarrow> ProEscrowReturnRow list \<Rightarrow> ClearSignIntentInput res" where
  "buildProEscrowReturnEnvelope L i fresh now project rows =
     (let p = bindProEscrowPolicy L project in
      ebind (buildEscrowExecutionBinding p None) (\<lambda>b.
      Inr (clearSignMeta i fresh now p (Return_funds (pr_id p) (pr_title p)
        (map (\<lambda>r. escrow_pay (pr_execution p) (ret_recipient r) (ret_amount r) (return_asset p)) rows) b))))"

section \<open>The rows handed to the batch page\<close>

type_synonym prefills = "jsstr \<rightharpoonup> ProEscrowReturnRow list"

definition BATCH_PREFILL_PREFIX :: jsstr where
  "BATCH_PREFILL_PREFIX = js ''clear.pro.batchPrefill.v1:''"

definition batchPrefillKey :: "jsstr \<Rightarrow> jsstr \<Rightarrow> jsstr" where
  "batchPrefillKey w i = BATCH_PREFILL_PREFIX @ w @ 0x3A # i"

definition saveProBatchPrefill :: "jsstr \<Rightarrow> jsstr \<Rightarrow> ProEscrowReturnRow list \<Rightarrow> prefills \<Rightarrow> jsstr \<times> prefills" where
  "saveProBatchPrefill w new_id rows st = (new_id, st(batchPrefillKey w new_id \<mapsto> take 50 rows))"

definition consumeProBatchPrefill :: "jsstr \<Rightarrow> jsstr \<Rightarrow> prefills \<Rightarrow> ProEscrowReturnRow list \<times> prefills" where
  "consumeProBatchPrefill w i st =
     (if trim w = [] \<or> trim i = [] then ([], st)
      else (map (\<lambda>r. \<lparr>ret_recipient = trim (ret_recipient r), ret_amount = trim (ret_amount r)\<rparr>) (or_empty (st (batchPrefillKey w i))),
            st(batchPrefillKey w i := None)))"

end
