(* ===== verification/Escrow_Properties.thy ===== *)
theory Escrow_Properties
  imports Escrow_Projects JS_Numbers
begin

text \<open>
  What holds of the escrow records: a commitment determines the terms, the list of a page keeps every row
  bound to its terms under any operations, and joining the server's rows keeps the newest.
\<close>

section \<open>The terms\<close>

definition same_funder :: "escrow_lib \<Rightarrow> ProEscrowFunder \<Rightarrow> ProEscrowFunder \<Rightarrow> bool" where
  "same_funder L f g \<longleftrightarrow> trim (fu_name f) = trim (fu_name g) \<and> trim (or_empty (fu_entity f)) = trim (or_empty (fu_entity g))
     \<and> trim (fu_address f) = trim (fu_address g) \<and> normalizeAsset L (fu_asset f) = normalizeAsset L (fu_asset g)
     \<and> normalizeDecimalText L (fu_amount f) = normalizeDecimalText L (fu_amount g)"

definition same_milestone :: "escrow_lib \<Rightarrow> ProEscrowMilestone \<Rightarrow> ProEscrowMilestone \<Rightarrow> bool" where
  "same_milestone L m n \<longleftrightarrow> trim (mi_title m) = trim (mi_title n) \<and> trim (mi_recipient m) = trim (mi_recipient n)
     \<and> trim (or_empty (mi_entity m)) = trim (or_empty (mi_entity n)) \<and> normalizeAsset L (mi_asset m) = normalizeAsset L (mi_asset n)
     \<and> normalizeDecimalText L (mi_amount m) = normalizeDecimalText L (mi_amount n)"

text \<open>The same terms, up to spaces, the case of assets and the way an amount is written.\<close>

definition same_terms :: "escrow_lib \<Rightarrow> ProEscrowProject \<Rightarrow> ProEscrowProject \<Rightarrow> bool" where
  "same_terms L p q \<longleftrightarrow> trim (pr_title p) = trim (pr_title q) \<and> trim (pr_counterparty p) = trim (pr_counterparty q)
     \<and> list_all2 (same_funder L) (pr_funders p) (pr_funders q) \<and> list_all2 (same_milestone L) (pr_milestones p) (pr_milestones q)"

lemma object_fields:
  assumes "sort_keys (JObj kvs) = sort_keys (JObj lvs)" "distinct (map fst kvs)" "map fst lvs = map fst kvs"
  shows "map (sort_keys \<circ> snd) kvs = map (sort_keys \<circ> snd) lvs"
proof (rule nth_equalityI)
  show "length (map (sort_keys \<circ> snd) kvs) = length (map (sort_keys \<circ> snd) lvs)"
    using assms(3) by (metis length_map)
qed (use sorted_keys_member [OF assms] assms(3) in \<open>auto dest: map_eq_imp_length_eq\<close>)

lemma funder_terms_inject: "sort_keys (funder_terms L f) = sort_keys (funder_terms L g) \<Longrightarrow> same_funder L f g"
  unfolding funder_terms_def by (drule object_fields) (simp_all add: same_funder_def normalizeText_def)

lemma milestone_terms_inject: "sort_keys (milestone_terms L m) = sort_keys (milestone_terms L n) \<Longrightarrow> same_milestone L m n"
  unfolding milestone_terms_def by (drule object_fields) (simp_all add: same_milestone_def normalizeText_def)

lemma terms_list:
  assumes "map (sort_keys \<circ> t) xs = map (sort_keys \<circ> t) ys" "\<And>x y. sort_keys (t x) = sort_keys (t y) \<Longrightarrow> R x y"
  shows "list_all2 R xs ys"
  using assms(1) by (auto simp: list_all2_conv_all_nth dest: map_eq_imp_length_eq intro!: assms(2)) (metis comp_apply nth_map map_eq_imp_length_eq)

lemma project_terms_inject: "sort_keys (project_terms L p) = sort_keys (project_terms L q) \<Longrightarrow> same_terms L p q"
  unfolding project_terms_def
  by (drule object_fields)
    (auto simp: same_terms_def normalizeText_def comp_assoc intro: terms_list [OF _ funder_terms_inject] terms_list [OF _ milestone_terms_inject])

text \<open>The bytes that are hashed.\<close>

definition terms_bytes :: "escrow_lib \<Rightarrow> ProEscrowProject \<Rightarrow> bytes" where
  "terms_bytes L p = utf8_encode (stableStringify (number_text L) (project_terms L p))"

lemma commitment_bytes: "buildProEscrowPolicyCommitment L p = toHex (digest L (terms_bytes L p))"
  by (simp add: buildProEscrowPolicyCommitment_def stableHash_def terms_bytes_def)

section \<open>Rows that carry their commitment\<close>

definition bound_row :: "escrow_lib \<Rightarrow> ProEscrowProject \<Rightarrow> bool" where
  "bound_row L p \<longleftrightarrow> map_option po_commitment (pr_policy p) = Some (buildProEscrowPolicyCommitment L p)"

lemma commitment_cong:
  "pr_title p = pr_title q \<Longrightarrow> pr_counterparty p = pr_counterparty q \<Longrightarrow> pr_funders p = pr_funders q \<Longrightarrow>
     map (milestone_terms L) (pr_milestones p) = map (milestone_terms L) (pr_milestones q) \<Longrightarrow>
     buildProEscrowPolicyCommitment L p = buildProEscrowPolicyCommitment L q"
  by (simp add: buildProEscrowPolicyCommitment_def project_terms_def)

lemma bind_bound: "bound_row L (bindProEscrowPolicy L p)"
  by (auto simp: bound_row_def bindProEscrowPolicy_def intro: commitment_cong)

lemma bind_id: "bound_row L p \<Longrightarrow> bindProEscrowPolicy L p = p"
  by (cases p) (auto simp: bound_row_def bindProEscrowPolicy_def)

lemma bind_key [simp]: "pr_id (bindProEscrowPolicy L p) = pr_id p" "pr_id \<circ> bindProEscrowPolicy L = pr_id"
  by (simp_all add: bindProEscrowPolicy_def fun_eq_iff)

lemma released_bound:
  assumes "bound_row L p"
  shows "bound_row L (p\<lparr>pr_milestones := map (release_milestone m) (pr_milestones p), pr_updatedAt := t\<rparr>)"
proof -
  have "milestone_terms L (release_milestone m x) = milestone_terms L x" for x
    by (simp add: release_milestone_def milestone_terms_def)
  then have "buildProEscrowPolicyCommitment L (p\<lparr>pr_milestones := map (release_milestone m) (pr_milestones p), pr_updatedAt := t\<rparr>)
      = buildProEscrowPolicyCommitment L p"
    by (intro commitment_cong) (simp_all add: comp_def)
  then show ?thesis using assms by (simp add: bound_row_def)
qed

section \<open>Joining two lists\<close>

lemma newer_escrow_keys: "map pr_id (newer_escrow p m) = (if pr_id p \<in> set (map pr_id m) then map pr_id m else map pr_id m @ [pr_id p])"
proof (cases "get_row pr_id (pr_id p) m")
  case None
  then show ?thesis by (simp add: newer_escrow_def map_set_keys)
next
  case (Some old)
  then have "pr_id p \<in> set (map pr_id m)" using get_row_None [of pr_id "pr_id p" m] by simp
  with Some show ?thesis by (simp add: newer_escrow_def map_set_keys)
qed

lemma newer_escrow_set: "set (newer_escrow p m) \<subseteq> insert p (set m)"
  using map_set_set [of pr_id p m] by (auto simp: newer_escrow_def split: option.splits)

lemma newer_escrow_get:
  "get_row pr_id k (newer_escrow p m) =
     (if k \<noteq> pr_id p then get_row pr_id k m
      else case get_row pr_id k m of None \<Rightarrow> Some p | Some old \<Rightarrow> if escrow_stamp old \<le> escrow_stamp p then Some p else Some old)"
  by (auto simp: newer_escrow_def get_map_set split: option.splits)

lemma joined_keys: "distinct (map pr_id m) \<Longrightarrow> distinct (map pr_id (fold newer_escrow rows m))"
  by (induction rows arbitrary: m) (auto simp: newer_escrow_keys)

lemma joined_ids: "pr_id ` set (fold newer_escrow rows m) = pr_id ` set m \<union> pr_id ` set rows"
proof (induction rows arbitrary: m)
  case (Cons r rows)
  have "pr_id ` set (newer_escrow r m) = insert (pr_id r) (pr_id ` set m)"
    using arg_cong [OF newer_escrow_keys [of r m], of set] by (auto split: if_splits)
  then show ?case using Cons by auto
qed simp

lemma joined_set: "set (fold newer_escrow rows m) \<subseteq> set m \<union> set rows"
proof (induction rows arbitrary: m)
  case (Cons r rows)
  then show ?case using newer_escrow_set [of r m] Cons.IH [of "newer_escrow r m"] by auto
qed simp

lemma joined_newest:
  "get_row pr_id k (fold newer_escrow rows m) = Some r \<Longrightarrow>
     (\<forall>q \<in> set rows. pr_id q = k \<longrightarrow> escrow_stamp q \<le> escrow_stamp r)
     \<and> (\<forall>old. get_row pr_id k m = Some old \<longrightarrow> escrow_stamp old \<le> escrow_stamp r)"
proof (induction rows arbitrary: m)
  case (Cons p rows)
  from Cons.IH [of "newer_escrow p m"] Cons.prems
  have i: "\<forall>q \<in> set rows. pr_id q = k \<longrightarrow> escrow_stamp q \<le> escrow_stamp r"
      "\<And>old. get_row pr_id k (newer_escrow p m) = Some old \<Longrightarrow> escrow_stamp old \<le> escrow_stamp r" by auto
  show ?case
  proof (cases "pr_id p = k")
    case True
    then show ?thesis using i by (cases "get_row pr_id k m") (fastforce simp: newer_escrow_get split: if_splits)+
  next
    case False
    then show ?thesis using i by (simp add: newer_escrow_get)
  qed
qed simp

section \<open>Any operations\<close>

text \<open>
  What the page does with its list, from an empty storage: records are made with a fresh id, the
  pages never patch an id, and the page can be opened again.
\<close>

inductive escrow_runs :: "escrow_lib \<Rightarrow> (jsstr \<Rightarrow> jsstr \<Rightarrow> bool) \<Rightarrow> jsstr \<Rightarrow> escrow_page \<Rightarrow> bool" for L le w where
  start: "escrow_runs L le w \<lparr>shown = [], stored = None, sent = []\<rparr>"
| add: "escrow_runs L le w pg \<Longrightarrow> i \<notin> set (map pr_id (shown pg)) \<Longrightarrow> escrow_runs L le w (snd (add_escrow L w i t draft pg))"
| update: "escrow_runs L le w pg \<Longrightarrow> pa_id d = None \<Longrightarrow> escrow_runs L le w (update_escrow L w i d t pg)"
| remove: "escrow_runs L le w pg \<Longrightarrow> escrow_runs L le w (remove_escrow w i pg)"
| mark: "escrow_runs L le w pg \<Longrightarrow> escrow_runs L le w (markMilestoneReleased L w i m t pg)"
| reload: "escrow_runs L le w pg \<Longrightarrow> escrow_runs L le w (load_escrows L w (stored pg) pg)"
| sync: "escrow_runs L le w pg \<Longrightarrow> escrow_runs L le w (sync_escrows L le w answer pg)"

definition rows_ok :: "escrow_lib \<Rightarrow> ProEscrowProject list \<Rightarrow> bool" where
  "rows_ok L rows \<longleftrightarrow> list_all (bound_row L) rows \<and> distinct (map pr_id rows) \<and> length rows \<le> 25"

definition page_ok :: "escrow_lib \<Rightarrow> jsstr \<Rightarrow> escrow_page \<Rightarrow> bool" where
  "page_ok L w pg \<longleftrightarrow> rows_ok L (shown pg)
     \<and> (if trim w = [] then stored pg = None else stored pg = Some (shown pg) \<or> (stored pg = None \<and> shown pg = []))"

lemma request_rows [simp]:
  "shown (send_request w r pg) = shown pg" "stored (send_request w r pg) = stored pg"
  "shown (upsertProEscrow L w p pg) = shown pg" "stored (upsertProEscrow L w p pg) = stored pg"
  "shown (deleteProEscrow w i pg) = shown pg" "stored (deleteProEscrow w i pg) = stored pg"
  "shown (appendProEscrowAuditEvent w e i pg) = shown pg" "stored (appendProEscrowAuditEvent w e i pg) = stored pg"
  by (simp_all add: send_request_def upsertProEscrow_def deleteProEscrow_def appendProEscrowAuditEvent_def)

lemma upserts_rows [simp]:
  "shown (fold (upsertProEscrow L w) rows pg) = shown pg" "stored (fold (upsertProEscrow L w) rows pg) = stored pg"
  by (induction rows arbitrary: pg) simp_all

lemma set_rows_simps [simp]:
  "shown (set_rows w rows pg) = rows" "stored (set_rows w rows pg) = (if trim w = [] then stored pg else Some rows)"
  by (simp_all add: set_rows_def persistEscrows_def)

lemma page_ok_request [simp]:
  "page_ok L w (send_request w' r pg) = page_ok L w pg" "page_ok L w (upsertProEscrow L w' p pg) = page_ok L w pg"
  "page_ok L w (deleteProEscrow w' i pg) = page_ok L w pg" "page_ok L w (appendProEscrowAuditEvent w' e i pg) = page_ok L w pg"
  by (simp_all add: page_ok_def)

lemma page_ok_rows: "page_ok L w pg \<Longrightarrow> rows_ok L rows \<Longrightarrow> page_ok L w (set_rows w rows pg)"
  by (simp add: page_ok_def)

lemma replace_row_keys: "pr_id p = i \<Longrightarrow> map pr_id (replace_row i p rows) = map pr_id rows"
  by (simp add: replace_row_def)

lemma rows_ok_replace: "rows_ok L rows \<Longrightarrow> bound_row L p \<Longrightarrow> pr_id p = i \<Longrightarrow> rows_ok L (replace_row i p rows)"
proof -
  assume ok: "rows_ok L rows" "bound_row L p" "pr_id p = i"
  then have "distinct (map pr_id (replace_row i p rows))" unfolding replace_row_keys [OF ok(3)] by (simp add: rows_ok_def)
  with ok show ?thesis by (auto simp: rows_ok_def replace_row_def list_all_iff)
qed

lemma rows_ok_take: "rows_ok L rows \<or> (list_all (bound_row L) rows \<and> distinct (map pr_id rows)) \<Longrightarrow> rows_ok L (take 25 rows)"
  by (auto simp: rows_ok_def list_all_iff take_map [symmetric] dest: in_set_takeD intro: distinct_take)

lemma merge_rows_ok: "rows_ok L (mergeEscrows L le xs ys)"
proof -
  let ?j = "fold newer_escrow (map (bindProEscrowPolicy L) (xs @ ys)) []"
  have "set ?j \<subseteq> set (map (bindProEscrowPolicy L) (xs @ ys))" using joined_set [of "map (bindProEscrowPolicy L) (xs @ ys)" "[]"] by simp
  then have "list_all (bound_row L) ?j" using bind_bound by (auto simp: list_all_iff)
  then have "list_all (bound_row L) (sort_by (escrow_order le) ?j)" by (simp add: list_all_iff)
  moreover have "distinct (map pr_id (sort_by (escrow_order le) ?j))" unfolding sort_by_distinct by (rule joined_keys) simp
  ultimately show ?thesis unfolding mergeEscrows_def by (intro rows_ok_take) simp
qed

lemma runs_ok: "escrow_runs L le w pg \<Longrightarrow> page_ok L w pg"
proof (induction rule: escrow_runs.induct)
  case (add pg i t draft)
  then have "rows_ok L (take 25 (bindProEscrowPolicy L (draft\<lparr>pr_id := i, pr_createdAt := t, pr_updatedAt := Some t\<rparr>) # shown pg))"
    by (intro rows_ok_take) (auto simp: page_ok_def rows_ok_def bind_bound)
  with add show ?case by (simp add: add_escrow_def Let_def page_ok_rows del: take_Suc_Cons take_Cons_numeral)
next
  case (update pg d i t)
  then show ?case
  proof (cases "get_row pr_id i (shown pg)")
    case (Some old)
    let ?p = "bindProEscrowPolicy L ((apply_patch d old)\<lparr>pr_updatedAt := Some t\<rparr>)"
    have "pr_id ?p = i" using get_row_Some [OF Some] update(2) by (simp add: apply_patch_def patched_def)
    then have "rows_ok L (replace_row i ?p (shown pg))" using update by (intro rows_ok_replace) (simp_all add: page_ok_def bind_bound)
    with update Some show ?thesis by (simp add: update_escrow_def Let_def page_ok_rows)
  qed (simp add: update_escrow_def)
next
  case (remove pg i)
  then have "rows_ok L (drop_rows pr_id i (shown pg))"
    by (auto simp: page_ok_def rows_ok_def drop_rows_def list_all_iff distinct_map_filter intro: le_trans [OF length_filter_le])
  with remove show ?case by (simp add: remove_escrow_def page_ok_rows)
next
  case (mark pg i m t)
  then show ?case
  proof (cases "get_row pr_id i (shown pg)")
    case (Some old)
    let ?p = "old\<lparr>pr_milestones := map (release_milestone m) (pr_milestones old), pr_updatedAt := Some t\<rparr>"
    have "bound_row L old" "pr_id ?p = i" using get_row_Some [OF Some] mark by (auto simp: page_ok_def rows_ok_def list_all_iff)
    then have "rows_ok L (replace_row i ?p (shown pg))" using mark released_bound by (intro rows_ok_replace) (simp_all add: page_ok_def)
    with mark Some show ?thesis by (simp add: markMilestoneReleased_def Let_def page_ok_rows)
  qed (simp add: markMilestoneReleased_def)
next
  case (reload pg)
  have "map (bindProEscrowPolicy L) (shown pg) = shown pg"
    using reload by (intro map_idI bind_id) (auto simp: page_ok_def rows_ok_def list_all_iff)
  then show ?case using reload by (auto simp: page_ok_def load_escrows_def or_empty_def rows_ok_def split: if_splits)
next
  case (sync pg answer)
  then have "page_ok L w (fold (upsertProEscrow L w) rows pg)" for rows by (simp add: page_ok_def)
  then show ?case by (simp add: sync_escrows_def Let_def page_ok_rows merge_rows_ok)
qed (simp add: page_ok_def rows_ok_def)

section \<open>Two defects\<close>

text \<open>A project in another asset than SOL has no rows to return, whatever was funded.\<close>

lemma other_assets_not_returned:
  "list_all (\<lambda>f. upper L (fu_asset f) \<noteq> js ''SOL'') (pr_funders p) \<Longrightarrow> buildProEscrowReturnRows L p = []"
  by (simp add: buildProEscrowReturnRows_def funders_in_def sumAmounts_def filter_empty_conv list_all_iff cong: filter_cong)

text \<open>Every share is rounded by itself: two funders of 0.0078125 are returned a millionth more than there is.\<close>

lemma returned_more_than_funded:
  "millionths (1 / 128) + millionths (1 / 128) > millionths (1 / 128 + 1 / 128)"
proof -
  have "\<lfloor>31251 / 2 :: number\<rfloor> = 15625" by (simp add: floor_eq_iff)
  then show ?thesis by (simp add: millionths_def)
qed

section \<open>Properties\<close>


text \<open>A project and the same one with spaces around its title; whole numbers, exact arithmetic, the text itself as its digest.\<close>

definition escrow_example :: escrow_lib where
  "escrow_example = \<lparr>number_of = (\<lambda>s. Some (of_nat (digits_val s))), rounded = id, number_text = number_sample, upper = id, digest = id\<rparr>"

definition example_project :: "jsstr \<Rightarrow> ProEscrowProject" where
  "example_project t = \<lparr>pr_id = js ''p'', pr_title = t, pr_counterparty = js ''Studio'', pr_status = Escrow_active,
     pr_funders = [\<lparr>fu_id = js ''f'', fu_name = js ''Ann'', fu_entity = None, fu_address = js ''A'', fu_asset = js ''SOL'', fu_amount = js ''2'', fu_token = None\<rparr>],
     pr_milestones = [\<lparr>mi_id = js ''m'', mi_title = js ''Draft'', mi_recipient = js ''B'', mi_entity = None, mi_asset = js ''SOL'', mi_amount = js ''1'',
       mi_status = Planned, mi_token = None\<rparr>],
     pr_policy = None, pr_execution = None, pr_createdAt = 1, pr_updatedAt = None\<rparr>"


text \<open>
  After any operations on the escrow list of a wallet, with records taken from the server in between, every
  row that is shown carries the commitment of its own terms, no two rows have the same id, there are at
  most twenty-five, and what is stored is what is shown.
\<close>

theorem escrow_rows_committed:
  assumes "escrow_runs L le w pg"
  shows "list_all (\<lambda>p. map_option po_commitment (pr_policy p) = Some (buildProEscrowPolicyCommitment L p)) (shown pg)
    \<and> distinct (map pr_id (shown pg)) \<and> length (shown pg) \<le> 25 \<and> (stored pg = None \<or> stored pg = Some (shown pg))"
  using runs_ok [OF assms] by (auto simp: page_ok_def rows_ok_def bound_row_def [abs_def] split: if_splits)

theorem escrow_rows_committed_witness:
  "length (shown (snd (add_escrow escrow_example (js ''w'') (js ''p'') 1 (example_project (js ''Film''))
      \<lparr>shown = [], stored = None, sent = []\<rparr>))) \<le> 25"
  by (rule escrow_rows_committed [where L = escrow_example and w = "js ''w''" and le = "\<lambda>_ _. True", THEN conjunct2, THEN conjunct2, THEN conjunct1])
    (intro escrow_runs.intros; simp)

text \<open>
  Joining the rows of the browser with those of the server keeps the newest of every
  record: each row comes from one of the two lists, bound to its terms, no row of either list with its id
  is newer, no id stands twice, and no record is lost while there are at most twenty-five.
\<close>

theorem merge_keeps_newest:
  "(\<forall>r \<in> set (mergeEscrows L le xs ys). r \<in> bindProEscrowPolicy L ` set (xs @ ys)
      \<and> (\<forall>q \<in> set (xs @ ys). pr_id q = pr_id r \<longrightarrow> escrow_stamp q \<le> escrow_stamp r))
   \<and> distinct (map pr_id (mergeEscrows L le xs ys))
   \<and> (card (pr_id ` set (xs @ ys)) \<le> 25 \<longrightarrow> pr_id ` set (mergeEscrows L le xs ys) = pr_id ` set (xs @ ys))"
proof -
  let ?rows = "map (bindProEscrowPolicy L) (xs @ ys)"
  let ?j = "fold newer_escrow ?rows []"
  have d: "distinct (map pr_id ?j)" by (rule joined_keys) simp
  have stamp: "escrow_stamp (bindProEscrowPolicy L q) = escrow_stamp q" for q by (simp add: escrow_stamp_def bindProEscrowPolicy_def split: option.split)
  have sub: "set (mergeEscrows L le xs ys) \<subseteq> set ?j" unfolding mergeEscrows_def by (auto dest: in_set_takeD)
  have "r \<in> bindProEscrowPolicy L ` set (xs @ ys) \<and> (\<forall>q \<in> set (xs @ ys). pr_id q = pr_id r \<longrightarrow> escrow_stamp q \<le> escrow_stamp r)"
    if "r \<in> set (mergeEscrows L le xs ys)" for r
  proof -
    have r: "r \<in> set ?j" using sub that by blast
    then have "r \<in> set ?rows" using joined_set [of ?rows "[]"] by auto
    moreover from joined_newest [OF get_row_unique [OF d r]]
    have "\<forall>q \<in> set ?rows. pr_id q = pr_id r \<longrightarrow> escrow_stamp q \<le> escrow_stamp r" by simp
    ultimately show ?thesis unfolding set_map by (auto simp: stamp ball_simps)
  qed
  moreover have "distinct (map pr_id (mergeEscrows L le xs ys))" using merge_rows_ok [of L le xs ys] by (simp add: rows_ok_def)
  moreover have "pr_id ` set (mergeEscrows L le xs ys) = pr_id ` set (xs @ ys)" if "card (pr_id ` set (xs @ ys)) \<le> 25"
  proof -
    have ids: "pr_id ` set ?j = pr_id ` set (xs @ ys)" unfolding joined_ids by (simp add: image_Un image_image)
    have "length ?j = card (pr_id ` set ?j)" using distinct_card [OF d] by simp
    then have "length (sort_by (escrow_order le) ?j) \<le> 25"
      using that unfolding ids by (simp add: size_mset [symmetric] del: size_mset)
    then show ?thesis using ids by (simp add: mergeEscrows_def)
  qed
  ultimately show ?thesis by blast
qed

end
