(* ===== verification/Spec2Isabelle.thy ===== *)
theory Spec2Isabelle
  imports Msig_Verify Msig_Pda Policy_Agreement Clear_Envelope Request_Recovery Typed_Message Target_Enforcement Agent_Claims Rule_Evaluation Chain_Evm Escrow_Properties
begin

text \<open>
  clear-msig is a Solana multisig whose members sign readable messages on a hardware wallet.
  The web application builds the bytes the device shows and the policies the program enforces;
  the program on chain rebuilds and checks them.  So the readers, renderers and encoders of the
  client must agree with the program byte for byte, and what the pages say must be what is
  enforced.  The development models the part of the client that carries this, and the parts of the
  program (in Rust) it has to agree with.

  Foundations.  JS_Prelude: results as sums (Inl is the error thrown), the 32-bit
  operations of the language, truncating division, byte access and little-endian numbers.
  JS_Strings: decimal digits, BigInt of a string, trim, split, pad.  JS_Utf8: TextEncoder and
  TextDecoder.  JS_Json: JSON.stringify and the printer with sorted keys, which is injective.
  JS_Numbers: the texts of numbers it needs for this, and a sample of them.
  Decimal_Text: amounts as decimal texts, with the locale amount_format.  Field_Codec: the
  interface of a field codec (a reader of a cursor that reads back what the writer puts), stated
  as locales and interpreted for every reader of the accounts.  Keyed_Store: lists of records with
  one row per key, with the locale keyed_store, interpreted for the stores of settings and policies.
  Ordered_Rows: a map with its order, and sorting with a comparison.

  Message layer (src/apps/web/src/lib/msig).  Msig_Hash (hash.ts), Msig_Offchain
  (offchain.ts), Msig_Datetime (datetime.ts), Msig_Definition (definition.ts), Msig_Encode
  (encode.ts), Msig_Render (render.ts), Msig_Message (message.ts), Msig_Accounts
  (accounts.ts), Msig_Pda (pda.ts), Msig_Verify (verify.ts).  Shown: the readers read back what
  the program writes, the wrapper builds what the message builder of the program does up to the size
  of its buffer, the renderer and the calendar are exact, a signed body determines
  expiry, verb and proposal index, that of an added intent also the definition hash and the wallet
  name, and verification accepts exactly the rebuilt message.

  Policies (src/apps/web/src/lib/policies).  Policy_Onchain: the encoder.  Policy_Program: the reader and the
  checks of the program.  Policy_Agreement: the bytes mean to the program what the plan
  meant to the page; stands_for states this without the encoder's own merges.  Advanced_Rules and Advanced_Agreement: the compiled rules.  Policy_Encryption:
  the encrypted values of conditions and actions.  Policy_Storage: the stored rules, a refinement of a map.  Policy_Targets and
  Target_Enforcement: the policies of a wallet's assets, built from the settings of Wallet_Settings
  (src/apps/web/src/lib/retail), and what the program then enforces for SOL, ETH and HYPE, with the key it
  computes of a recipient (payment_key, from typed_chain_sign.rs); lists for Bitcoin admit nothing.  Tx_Log: the log of sends.
  Rule_Evaluation: the evaluation of the rules on the page and the plan of a send, which covers the policy that is committed.

  ClearSign (src/apps/web/src/lib/clearsign).  Clear_Envelope: the hash of an envelope, equal to the one of
  the program, and binding.  Request_Recovery: the store of interrupted requests, a state machine
  with one attempt per change.  Typed_Message: the typed text a member signs, which fixes the
  decision in each of its three forms.

  Chains (src/apps/web/src/lib/chain).  Chain_Btc and Chain_Zcash: addresses, the checksum that finds every
  typing error of one symbol, the choice of outputs.  Chain_Evm: amounts of ether and tokens, and what contracts answer.

  Agent trading (src/apps/web/src/lib/agents, src/apps/web/src/features/agents).  Agent_Policy: the
  records, the hash of the rules, their encryption as the rules page saves them, and the evaluation of a trade, in the order of the code.
  Agent_Store: the state the browser keeps and every operation on it; agent_op names the
  calls of the pages and run_ops is a sequence of them.  Agent_Rules: the evaluation is equal
  to a contract (within_rules, autonomous) that has no order of checks.  Agent_Safety: what a call does to the records and to the trades.
  Agent_Guarantees and Agent_Audit: the invariants.  Agent_Claims: the properties over any calls.

  Treasury (src/apps/web/src/lib/pro).  Escrow_Projects: the escrow records, the commitment to their terms, the list of
  a page, the amounts returned, the requests to sign.  Escrow_Properties: the commitment determines the
  terms, and the list keeps every row bound to its own.

  External code is a parameter: SHA-256, base58, the derivation of program addresses, the fetch of
  an account, the arithmetic of floating point numbers with Number and String (record js_lib), localeCompare, toUpperCase.
  What the code relies on (a digest of 32 bytes, texts of
  different numbers that differ) is a named hypothesis, and a witness instantiates it.

  Bounds.  Whole numbers of the language are unbounded integers where the code checks their range or they
  come from readers of at most 64 bits, and words where the width is part of the format.  A finite
  number that may be fractional is a rational whose rounded operations are parameters; one that is not finite is None.  One
  definition has fuel, split_str_fuel: as many steps as the text has characters, and each takes at
  least one away.  Every other loop of the modelled code is a recursion that ends.

  Not modelled: the React pages and hooks, the network and the wallet adapters, the texts of notices
  and events, the JSON text of stored states, the publishing of agent profiles and their connection
  keys, the server of the agents, the settlement programs, and the program beyond the checks
  the client depends on.
\<close>

end
